(* ===== verification/Prelude.thy ===== *)
theory Prelude
  imports Main "HOL-Library.Word" "HOL-Library.Signed_Division"
begin

text \<open>
  Shared vocabulary of the sysbench development: machine-integer types, the C string and
  character functions the sources call, and generic facts on lists that several components
  use. A C string is a \<^typ>\<open>string\<close> that holds no NUL character; the terminating NUL is the
  end of the list. \<open>unsigned int\<close> is \<open>u32\<close>, \<open>unsigned long\<close> and \<open>unsigned long long\<close>
  are \<open>u64\<close> (LP64), \<open>int\<close>, \<open>long\<close> and \<open>long long\<close> are \<^typ>\<open>int\<close> with the
  conversion written out where a value can leave its range.
\<close>

unbundle bit_operations_syntax

named_theorems sb_defs \<open>definitions of the model that proofs unfold together\<close>
named_theorems sb_inv \<open>preservation of component invariants\<close>

section \<open>Machine integers\<close>

type_synonym u32 = "32 word"
type_synonym u64 = "64 word"

abbreviation (input) INT_MAX :: int where "INT_MAX \<equiv> 2147483647"
abbreviation (input) INT_MIN :: int where "INT_MIN \<equiv> - 2147483648"
abbreviation (input) LONG_MAX :: int where "LONG_MAX \<equiv> 9223372036854775807"
abbreviation (input) LONG_MIN :: int where "LONG_MIN \<equiv> - 9223372036854775808"
abbreviation (input) UINT_MAX :: int where "UINT_MAX \<equiv> 4294967295"

text \<open>Conversion of a value to \<open>int\<close> (32 bits, two's complement).\<close>

definition to_int32 :: "int \<Rightarrow> int" where
  "to_int32 x = (x + 2147483648) mod 4294967296 - 2147483648"

lemma to_int32_id [simp]: "INT_MIN \<le> x \<Longrightarrow> x \<le> INT_MAX \<Longrightarrow> to_int32 x = x"
  by (simp add: to_int32_def)

lemma to_int32_range: "INT_MIN \<le> to_int32 x \<and> to_int32 x \<le> INT_MAX"
  by (simp add: to_int32_def)

lemma unat_of_nat_u64 [simp]: "unat (of_nat n :: u64) = n mod 2 ^ 64"
  by (simp add: unat_of_nat take_bit_nat_def)

lemma unat_neg_u64:
  fixes x :: u64
  assumes "0 < unat x"
  shows "unat (- x) = 2 ^ 64 - unat x"
proof -
  have "uint (- x) = (- uint x) mod 18446744073709551616" by (simp add: uint_word_ariths)
  also have "\<dots> = 18446744073709551616 - uint x"
  proof -
    have "0 < uint x" using assms unfolding uint_nat by (simp only: of_nat_0_less_iff)
    moreover have "uint x < 18446744073709551616" using uint_lt2p [of x] by simp
    ultimately show ?thesis by (simp add: zmod_zminus1_eq_if)
  qed
  finally have "unat (- x) = 18446744073709551616 - unat x" unfolding uint_nat by linarith
  then show ?thesis by simp
qed

section \<open>Characters and strings of the C library\<close>

definition is_digit :: "char \<Rightarrow> bool" where
  "is_digit c \<longleftrightarrow> (48::nat) \<le> of_char c \<and> of_char c \<le> (57::nat)"

definition digit_val :: "char \<Rightarrow> nat" where
  "digit_val c = of_char c - 48"

text \<open>\<open>isspace\<close> in the C locale: space and the characters 9 to 13.\<close>

definition isspace :: "char \<Rightarrow> bool" where
  "isspace c \<longleftrightarrow> of_char c = (32::nat) \<or> (9 \<le> (of_char c :: nat) \<and> (of_char c :: nat) \<le> 13)"

definition tolower :: "char \<Rightarrow> char" where
  "tolower c = (if 65 \<le> (of_char c :: nat) \<and> of_char c \<le> (90::nat)
                then char_of ((of_char c :: nat) + 32) else c)"

definition toupper :: "char \<Rightarrow> char" where
  "toupper c = (if 97 \<le> (of_char c :: nat) \<and> of_char c \<le> (122::nat)
                then char_of ((of_char c :: nat) - 32) else c)"

text \<open>The value of a plain \<open>char\<close>, which is signed on the platforms the program targets.\<close>

lemma of_char_range: "0 \<le> (of_char c :: int) \<and> of_char c < (256::int)"
proof -
  have "of_char c < (256::nat)" by simp
  then have "0 \<le> int (of_char c) \<and> int (of_char c) < 256" by linarith
  then show ?thesis unfolding of_nat_of_char .
qed

definition char_val :: "char \<Rightarrow> int" where
  "char_val c = (if of_char c < (128::int) then of_char c else of_char c - 256)"

lemma char_val_eq_iff [simp]: "char_val a = char_val b \<longleftrightarrow> a = b"
proof
  assume eq: "char_val a = char_val b"
  have "0 \<le> (of_char a :: int) \<and> of_char a < (256::int)" "0 \<le> (of_char b :: int) \<and> of_char b < (256::int)"
    by (simp_all only: of_char_range)
  then have "(of_char a :: int) = of_char b"
    using eq unfolding char_val_def by (simp split: if_splits) 
  then show "a = b" by simp
qed simp

lemma char_val_0 [simp]: "char_val c = 0 \<longleftrightarrow> c = CHR 0x00"
  using char_val_eq_iff [of c "CHR 0x00"] by (simp add: char_val_def del: char_val_eq_iff)

text \<open>A C string holds no NUL before its end.\<close>

definition cstring :: "string \<Rightarrow> bool" where
  "cstring s \<longleftrightarrow> CHR 0x00 \<notin> set s"

lemma cstring_simps [simp]:
  "cstring []" "cstring (c # s) \<longleftrightarrow> c \<noteq> CHR 0x00 \<and> cstring s" "cstring (s @ t) \<longleftrightarrow> cstring s \<and> cstring t"
  by (auto simp: cstring_def)

text \<open>The bytes of a buffer up to its first NUL: what a C string function sees of it.\<close>

definition c_str :: "string \<Rightarrow> string" where
  "c_str buf = takeWhile (\<lambda>c. c \<noteq> CHR 0x00) buf"

lemma cstring_c_str [simp]: "cstring (c_str s)"
  by (induction s) (auto simp: c_str_def)

lemma c_str_id [simp]: "cstring s \<Longrightarrow> c_str s = s"
  by (induction s) (auto simp: c_str_def)

text \<open>
  \<open>strchr (s, c)\<close> followed by the split the callers do: the text before the first \<open>c\<close>
  and the text after it, or \<^const>\<open>None\<close> when \<open>c\<close> does not occur.
\<close>

fun strchr_split :: "char \<Rightarrow> string \<Rightarrow> (string \<times> string) option" where
  "strchr_split c [] = None"
| "strchr_split c (x # xs) =
     (if x = c then Some ([], xs)
      else map_option (\<lambda>(a, b). (x # a, b)) (strchr_split c xs))"

lemma strchr_split_None: "strchr_split c s = None \<longleftrightarrow> c \<notin> set s"
  by (induction s) auto

lemma strchr_split_append [simp]: "c \<notin> set a \<Longrightarrow> strchr_split c (a @ c # b) = Some (a, b)"
  by (induction a) auto

lemma strchr_split_Some:
  "strchr_split c s = Some (a, b) \<longleftrightarrow> s = a @ c # b \<and> c \<notin> set a"
proof
  show "strchr_split c s = Some (a, b) \<Longrightarrow> s = a @ c # b \<and> c \<notin> set a"
    by (induction s arbitrary: a) (auto split: if_splits)
qed simp

text \<open>\<open>strncasecmp (s, t, n) == 0\<close> for a pattern \<open>t\<close> of length \<open>n\<close>.\<close>

definition strncasecmp_eq :: "string \<Rightarrow> string \<Rightarrow> nat \<Rightarrow> bool" where
  "strncasecmp_eq s t n \<longleftrightarrow> map tolower (take n s) = map tolower (take n t)"

definition strcasecmp_eq :: "string \<Rightarrow> string \<Rightarrow> bool" where
  "strcasecmp_eq s t \<longleftrightarrow> map tolower s = map tolower t"

text \<open>
  \<open>strtol (s, &end, 10)\<close>: skip white space, an optional sign, then decimal digits. The
  result is the value, saturated to the range of \<open>long\<close>, and the text at \<open>end\<close>; with no
  digits the value is 0 and \<open>end\<close> is the start of the string.
\<close>

definition digits_val :: "string \<Rightarrow> nat" where
  "digits_val ds = foldl (\<lambda>n c. 10 * n + digit_val c) 0 ds"

definition strtol :: "string \<Rightarrow> int \<times> string" where
  "strtol s =
     (let s1 = dropWhile isspace s;
          neg = (s1 \<noteq> [] \<and> hd s1 = CHR ''-'');
          s2 = (if s1 \<noteq> [] \<and> (hd s1 = CHR ''-'' \<or> hd s1 = CHR ''+'') then tl s1 else s1);
          ds = takeWhile is_digit s2;
          v = (if neg then - int (digits_val ds) else int (digits_val ds))
      in if ds = [] then (0, s)
         else (max LONG_MIN (min LONG_MAX v), dropWhile is_digit s2))"

lemma strtol_range: "LONG_MIN \<le> fst (strtol s) \<and> fst (strtol s) \<le> LONG_MAX"
  by (auto simp: strtol_def Let_def)

lemma digit_chars:
  assumes "is_digit c" shows "\<not> isspace c" "c \<noteq> CHR ''-''" "c \<noteq> CHR ''+''"
  using assms by (auto simp: is_digit_def isspace_def)

lemma strtol_digits:
  assumes "list_all is_digit ds" and "ds \<noteq> []" and "r = [] \<or> \<not> is_digit (hd r)"
  shows "strtol (ds @ r) = (min LONG_MAX (int (digits_val ds)), r)"
proof -
  have d: "is_digit (hd ds)" using assms(1,2) by (cases ds) auto
  have "takeWhile is_digit (ds @ r) = ds" "dropWhile is_digit (ds @ r) = r"
    using assms by (cases r; auto simp: list_all_iff takeWhile_append2 dropWhile_append2)+
  moreover have "dropWhile isspace (ds @ r) = ds @ r"
    using digit_chars(1) [OF d] assms(2) by (cases ds) auto
  ultimately show ?thesis
    using assms(2) digit_chars [OF d] by (simp add: strtol_def Let_def)
qed

text \<open>\<open>atoi (s)\<close> is \<open>(int) strtol (s, NULL, 10)\<close>.\<close>

definition atoi :: "string \<Rightarrow> int" where
  "atoi s = to_int32 (fst (strtol s))"

text \<open>
  \<open>strtok (s, ",")\<close> called until it returns NULL: the maximal runs of characters that are
  not separators; empty fields disappear.
\<close>

fun strtok_all :: "char \<Rightarrow> string \<Rightarrow> string \<Rightarrow> string list" where
  "strtok_all sep cur [] = (if cur = [] then [] else [cur])"
| "strtok_all sep cur (c # cs) =
     (if c = sep then (if cur = [] then strtok_all sep [] cs else cur # strtok_all sep [] cs)
      else strtok_all sep (cur @ [c]) cs)"

lemma strtok_all_field [simp]:
  "sep \<notin> set a \<Longrightarrow> strtok_all sep cur (a @ b) = strtok_all sep (cur @ a) b"
  by (induction a arbitrary: cur) auto

lemma strtok_all_tokens:
  "sep \<notin> set cur \<Longrightarrow> t \<in> set (strtok_all sep cur s) \<Longrightarrow> t \<noteq> [] \<and> sep \<notin> set t"
proof (induction s arbitrary: cur)
  case (Cons c s)
  from Cons.prems(1) have "sep \<notin> set ([] :: string)" and "c \<noteq> sep \<Longrightarrow> sep \<notin> set (cur @ [c])" by auto
  with Cons show ?case by (fastforce split: if_splits)
qed (auto split: if_splits)

section \<open>Printing\<close>

text \<open>\<open>%d\<close> and \<open>%u\<close>: decimal notation.\<close>

fun show_nat :: "nat \<Rightarrow> string" where
  "show_nat n = (if n < 10 then [char_of (48 + n)] else show_nat (n div 10) @ [char_of (48 + n mod 10)])"

declare show_nat.simps [simp del]

definition show_int :: "int \<Rightarrow> string" where
  "show_int i = (if i < 0 then CHR ''-'' # show_nat (nat (- i)) else show_nat (nat i))"

lemma digit_char: "n < 10 \<Longrightarrow> is_digit (char_of (48 + n)) \<and> digit_val (char_of (48 + n)) = n"
  by (simp add: is_digit_def digit_val_def of_char_of)

lemma show_nat_digits: "list_all is_digit (show_nat n) \<and> show_nat n \<noteq> []"
proof (induction n rule: show_nat.induct)
  case (1 n)
  then show ?case
    by (subst (1 2) show_nat.simps) (auto simp: digit_char)
qed

lemma digits_val_show_nat [simp]: "digits_val (show_nat n) = n"
proof (induction n rule: show_nat.induct)
  case (1 n)
  then show ?case
    by (subst show_nat.simps) (auto simp: digits_val_def digit_char)
qed

lemma show_nat_inj [simp]: "show_nat m = show_nat n \<longleftrightarrow> m = n"
  by (metis digits_val_show_nat)

text \<open>
  \<open>snprintf (buf, buflen, ...)\<close> of a text: what is in the buffer afterwards (\<^const>\<open>None\<close> when nothing
  is written, not even a NUL) and the return value, the length of the whole text.
\<close>

definition snprintf :: "string \<Rightarrow> nat \<Rightarrow> string option \<times> int" where
  "snprintf txt buflen =
     ((if buflen = 0 then None else Some (take (buflen - 1) txt)), int (length txt))"

lemma snprintf_fits:
  "snd (snprintf txt n) < int n \<Longrightarrow> fst (snprintf txt n) = Some txt"
  by (auto simp: snprintf_def)

section \<open>Lists\<close>

text \<open>The position of the first element with a property: a search loop over a list.\<close>

fun find_index :: "('a \<Rightarrow> bool) \<Rightarrow> 'a list \<Rightarrow> nat option" where
  "find_index P [] = None"
| "find_index P (x # xs) = (if P x then Some 0 else map_option Suc (find_index P xs))"

lemma find_index_None: "find_index P xs = None \<longleftrightarrow> (\<forall>x\<in>set xs. \<not> P x)"
  by (induction xs) auto

lemma find_index_SomeD:
  "find_index P xs = Some i \<Longrightarrow> i < length xs \<and> P (xs ! i) \<and> (\<forall>j<i. \<not> P (xs ! j))"
proof (induction xs arbitrary: i)
  case (Cons x xs)
  show ?case
  proof (cases "P x")
    case False
    with Cons.prems obtain k where "find_index P xs = Some k" and "i = Suc k" by auto
    with False Cons.IH [of k] show ?thesis by (auto simp: nth_Cons less_Suc_eq_0_disj split: nat.splits)
  qed (use Cons.prems in auto)
qed simp

lemma find_index_append:
  "find_index P (xs @ ys) =
     (case find_index P xs of Some i \<Rightarrow> Some i
      | None \<Rightarrow> map_option (\<lambda>i. length xs + i) (find_index P ys))"
proof (induction xs)
  case Nil
  show ?case by (cases "find_index P ys") simp_all
next
  case (Cons x xs)
  then show ?case
    by (cases "find_index P xs"; cases "find_index P ys") simp_all
qed

lemma find_index_cong_update:
  assumes "find_index P xs = Some i" and "\<And>x. Q x \<longleftrightarrow> P x" and "Q y \<longleftrightarrow> P (xs ! i)"
  shows "find_index Q (xs[i := y]) = Some i"
proof -
  from assms(1) have i: "i < length xs" "P (xs ! i)" "\<forall>j<i. \<not> P (xs ! j)"
    by (auto dest: find_index_SomeD)
  have "find_index Q (xs[i := y]) = Some i" if "i < length xs" "Q y" "\<forall>j<i. \<not> Q (xs ! j)"
    using that
  proof (induction xs arbitrary: i)
    case (Cons x xs)
    then show ?case by (cases i) force+
  qed simp
  with i assms(2,3) show ?thesis by simp
qed

lemma find_append:
  "find P (xs @ ys) = (case find P xs of Some x \<Rightarrow> Some x | None \<Rightarrow> find P ys)"
  by (induction xs) auto

end
