(* ===== verification/SB_List.thy ===== *)
theory SB_List
  imports Prelude "HOL-Library.Monad_Syntax"
begin

text \<open>
  The intrusive circular doubly linked lists of \<open>sysbench/sb_list.h\<close>. Every list of the
  program (options, option values, tests, drivers, log handlers, the event queue) is built
  from these macros. The store maps the address of a list item to its two links; a macro is
  the sequence of its assignments, each reading the store the previous one left, so that
  aliasing between head and item behaves as in C. \<open>dlist h p xs\<close> says that the head \<open>p\<close>
  represents the sequence \<open>xs\<close>; the macros are shown to implement the sequence operations,
  and the iteration macros to terminate and to visit exactly \<open>xs\<close>.
\<close>

section \<open>The store and the macros\<close>

type_synonym addr = nat

record links =
  next_p :: "addr \<Rightarrow> addr"
  prev_p :: "addr \<Rightarrow> addr"

definition set_next :: "addr \<Rightarrow> addr \<Rightarrow> links \<Rightarrow> links" where
  "set_next a v h = h\<lparr>next_p := (next_p h)(a := v)\<rparr>"

definition set_prev :: "addr \<Rightarrow> addr \<Rightarrow> links \<Rightarrow> links" where
  "set_prev a v h = h\<lparr>prev_p := (prev_p h)(a := v)\<rparr>"

definition SB_LIST_INIT :: "addr \<Rightarrow> links \<Rightarrow> links" where
  "SB_LIST_INIT head_p h =
     (let h = set_next head_p head_p h;
          h = set_prev head_p head_p h
      in h)"

definition SB_LIST_ADD :: "addr \<Rightarrow> addr \<Rightarrow> links \<Rightarrow> links" where
  "SB_LIST_ADD item_p head_p h =
     (let h = set_next item_p (next_p h head_p) h;
          h = set_prev item_p head_p h;
          h = set_next head_p item_p h;
          h = set_prev (next_p h item_p) item_p h
      in h)"

definition SB_LIST_ADD_TAIL :: "addr \<Rightarrow> addr \<Rightarrow> links \<Rightarrow> links" where
  "SB_LIST_ADD_TAIL item_p head_p h =
     (let h = set_prev item_p (prev_p h head_p) h;
          h = set_next item_p head_p h;
          h = set_prev head_p item_p h;
          h = set_next (prev_p h item_p) item_p h
      in h)"

definition SB_LIST_DELETE :: "addr \<Rightarrow> links \<Rightarrow> links" where
  "SB_LIST_DELETE old_item_p h =
     (let h = set_prev (next_p h old_item_p) (prev_p h old_item_p) h;
          h = set_next (prev_p h old_item_p) (next_p h old_item_p) h
      in h)"

definition SB_LIST_REPLACE :: "addr \<Rightarrow> addr \<Rightarrow> links \<Rightarrow> links" where
  "SB_LIST_REPLACE item_p old_item_p h =
     (let h = set_next item_p (next_p h old_item_p) h;
          h = set_prev item_p (prev_p h old_item_p) h;
          h = set_prev (next_p h item_p) item_p h;
          h = set_next (prev_p h item_p) item_p h
      in h)"

definition SB_LIST_IS_EMPTY :: "links \<Rightarrow> addr \<Rightarrow> bool" where
  "SB_LIST_IS_EMPTY h head_p \<longleftrightarrow> next_p h head_p = head_p"

definition SB_LIST_ITEM_IN_LIST :: "links \<Rightarrow> addr \<Rightarrow> bool" where
  "SB_LIST_ITEM_IN_LIST h item_p \<longleftrightarrow> next_p h item_p \<noteq> item_p"

definition SB_LIST_ITEM_FIRST :: "links \<Rightarrow> addr \<Rightarrow> addr \<Rightarrow> bool" where
  "SB_LIST_ITEM_FIRST h item_p head_p \<longleftrightarrow> prev_p h item_p \<noteq> head_p"

definition SB_LIST_ITEM_LAST :: "links \<Rightarrow> addr \<Rightarrow> addr \<Rightarrow> bool" where
  "SB_LIST_ITEM_LAST h item_p head_p \<longleftrightarrow> next_p h item_p = head_p"

definition SB_LIST_ITEM_NEXT :: "links \<Rightarrow> addr \<Rightarrow> addr" where
  "SB_LIST_ITEM_NEXT h item_p = next_p h item_p"

definition SB_LIST_ITEM_PREV :: "links \<Rightarrow> addr \<Rightarrow> addr" where
  "SB_LIST_ITEM_PREV h item_p = prev_p h item_p"

text \<open>\<open>SB_LIST_ONCE\<close>: the item its body runs on, if any.\<close>

definition SB_LIST_ONCE :: "links \<Rightarrow> addr \<Rightarrow> addr option" where
  "SB_LIST_ONCE h head_p = (let pos = next_p h head_p in if pos \<noteq> head_p then Some pos else None)"

definition SB_LIST_ENUM_NEXT :: "links \<Rightarrow> addr \<Rightarrow> addr \<Rightarrow> addr option" where
  "SB_LIST_ENUM_NEXT h pos_p head_p =
     (if next_p h pos_p \<noteq> head_p then Some (next_p h pos_p) else None)"

text \<open>
  The loops. \<open>SB_LIST_FOR_EACH\<close> with a body that leaves the links alone is the list of the
  items it visits; the \<open>_SAFE\<close> loops run a body that may change the links. A loop that
  never comes back to the head is \<^const>\<open>None\<close>.
\<close>

partial_function (option) SB_LIST_FOR_EACH :: "links \<Rightarrow> addr \<Rightarrow> addr \<Rightarrow> addr list option" where
  "SB_LIST_FOR_EACH h head_p pos =
     (if pos = head_p then Some []
      else do { ps \<leftarrow> SB_LIST_FOR_EACH h head_p (next_p h pos); Some (pos # ps) })"

partial_function (option) SB_LIST_FOR_EACH_SAFE ::
  "(addr \<Rightarrow> links \<Rightarrow> links) \<Rightarrow> addr \<Rightarrow> addr \<Rightarrow> addr \<Rightarrow> links \<Rightarrow> links option" where
  "SB_LIST_FOR_EACH_SAFE body head_p pos temp h =
     (if pos = head_p then Some h
      else (let h = body pos h
            in SB_LIST_FOR_EACH_SAFE body head_p temp (next_p h temp) h))"

lemmas list_macro_defs [sb_defs] =
  SB_LIST_INIT_def SB_LIST_ADD_def SB_LIST_ADD_TAIL_def SB_LIST_DELETE_def SB_LIST_REPLACE_def
  SB_LIST_IS_EMPTY_def SB_LIST_ITEM_FIRST_def SB_LIST_ITEM_LAST_def SB_LIST_ITEM_IN_LIST_def
  SB_LIST_ITEM_NEXT_def SB_LIST_ITEM_PREV_def SB_LIST_ONCE_def SB_LIST_ENUM_NEXT_def
  set_next_def set_prev_def Let_def

section \<open>The sequence a head represents\<close>

text \<open>\<open>linked h a xs b\<close>: the links lead from \<open>a\<close> through \<open>xs\<close> to \<open>b\<close> and back.\<close>

fun linked :: "links \<Rightarrow> addr \<Rightarrow> addr list \<Rightarrow> addr \<Rightarrow> bool" where
  "linked h a [] b \<longleftrightarrow> next_p h a = b \<and> prev_p h b = a"
| "linked h a (x # xs) b \<longleftrightarrow> next_p h a = x \<and> prev_p h x = a \<and> linked h x xs b"

definition dlist :: "links \<Rightarrow> addr \<Rightarrow> addr list \<Rightarrow> bool" where
  "dlist h p xs \<longleftrightarrow> distinct (p # xs) \<and> linked h p xs p"

lemma linked_append: "linked h a (xs @ x # ys) b \<longleftrightarrow> linked h a xs x \<and> linked h x ys b"
  by (induction xs arbitrary: a) auto

text \<open>A chain depends only on the forward links of its sources and the backward links of its targets.\<close>

lemma linked_cong:
  assumes "\<And>y. y \<in> insert a (set xs) \<Longrightarrow> next_p h' y = next_p h y"
    and "\<And>y. y \<in> insert b (set xs) \<Longrightarrow> prev_p h' y = prev_p h y"
  shows "linked h' a xs b \<longleftrightarrow> linked h a xs b"
  using assms by (induction xs arbitrary: a) auto

lemma linked_next: "linked h a xs b \<Longrightarrow> next_p h a = hd (xs @ [b])"
  by (cases xs) auto

lemma linked_prev: "linked h a xs b \<Longrightarrow> prev_p h b = last (a # xs)"
  by (induction xs arbitrary: a) auto

lemma dlist_unique:
  assumes "dlist h p xs" and "dlist h p ys" shows "xs = ys"
proof -
  have "linked h a xs p \<Longrightarrow> linked h a ys p \<Longrightarrow> p \<notin> set xs \<Longrightarrow> p \<notin> set ys \<Longrightarrow> xs = ys" for a
    by (induction xs arbitrary: a ys) (case_tac ys; fastforce)+
  with assms show ?thesis by (auto simp: dlist_def)
qed

section \<open>The macros implement the sequence operations\<close>

lemma dlist_INIT: "dlist (SB_LIST_INIT p h) p []"
  by (simp add: dlist_def list_macro_defs)

lemma dlist_ADD:
  assumes "dlist h p xs" and "x \<notin> set (p # xs)"
  shows "dlist (SB_LIST_ADD x p h) p (x # xs)"
proof (cases xs)
  case Nil
  with assms show ?thesis by (auto simp: dlist_def list_macro_defs)
next
  case (Cons y ys)
  with assms have "linked (SB_LIST_ADD x p h) y ys p \<longleftrightarrow> linked h y ys p"
    by (intro linked_cong) (auto simp: dlist_def list_macro_defs)
  with Cons assms show ?thesis by (auto simp: dlist_def list_macro_defs)
qed

lemma dlist_ADD_TAIL:
  assumes "dlist h p xs" and "x \<notin> set (p # xs)"
  shows "dlist (SB_LIST_ADD_TAIL x p h) p (xs @ [x])"
proof (cases xs rule: rev_cases)
  case Nil
  with assms show ?thesis by (auto simp: dlist_def list_macro_defs)
next
  case (snoc ys y)
  with assms have "linked (SB_LIST_ADD_TAIL x p h) p ys y \<longleftrightarrow> linked h p ys y"
    by (intro linked_cong) (auto simp: dlist_def list_macro_defs linked_append)
  with snoc assms show ?thesis
    by (auto simp: dlist_def list_macro_defs linked_append)
qed

lemma dlist_DELETE:
  assumes "dlist h p (ys @ x # zs)"
  shows "dlist (SB_LIST_DELETE x h) p (ys @ zs)"
proof -
  let ?h = "SB_LIST_DELETE x h" and ?a = "last (p # ys)" and ?b = "hd (zs @ [p])"
  from assms have l: "linked h p ys x" "linked h x zs p" and d: "distinct (p # ys @ x # zs)"
    by (auto simp: dlist_def linked_append)
  have b: "?b \<noteq> x" using d by (cases zs) auto
  have x: "next_p h x = ?b" "prev_p h x = ?a" using l by (simp_all only: linked_next linked_prev)
  have n: "next_p ?h = (next_p h)(?a := ?b)" and q: "prev_p ?h = (prev_p h)(?b := ?a)"
    using b unfolding list_macro_defs x by (auto simp: x fun_eq_iff)
  have "linked ?h p (ys @ zs) p"
  proof (cases ys rule: rev_cases)
    case Nil
    show ?thesis
    proof (cases zs)
      case (Cons c cs)
      with Nil d have "linked ?h c cs p \<longleftrightarrow> linked h c cs p" by (intro linked_cong) (auto simp: n q)
      with Nil Cons l show ?thesis by (simp add: n q)
    qed (simp add: Nil n q)
  next
    case (snoc as a)
    with d have A: "linked ?h p as a \<longleftrightarrow> linked h p as a"
      by (intro linked_cong) (auto simp: n q; cases zs; auto)+
    show ?thesis
    proof (cases zs)
      case (Cons c cs)
      with snoc d have "linked ?h c cs p \<longleftrightarrow> linked h c cs p" by (intro linked_cong) (auto simp: n q)
      with snoc Cons l A show ?thesis by (simp add: linked_append n q)
    qed (use snoc l A in \<open>simp add: linked_append n q\<close>)
  qed
  with d show ?thesis by (simp add: dlist_def)
qed

lemma dlist_REPLACE:
  assumes "dlist h p (ys @ x # zs)" and "y \<notin> set (p # ys @ x # zs)"
  shows "dlist (SB_LIST_REPLACE y x h) p (ys @ y # zs)"
proof -
  let ?h = "SB_LIST_REPLACE y x h" and ?a = "last (p # ys)" and ?b = "hd (zs @ [p])"
  from assms have l: "linked h p ys x" "linked h x zs p" and d: "distinct (p # ys @ x # zs)"
    by (auto simp: dlist_def linked_append)
  have x: "next_p h x = ?b" "prev_p h x = ?a" using l by (simp_all only: linked_next linked_prev)
  have ab: "?b \<noteq> y" "?a \<noteq> y" using assms(2) last_in_set [of "p # ys"] by (cases zs; auto)+
  have n: "next_p ?h = (next_p h)(y := ?b, ?a := y)" and q: "prev_p ?h = (prev_p h)(y := ?a, ?b := y)"
    using ab unfolding list_macro_defs x by (auto simp: x fun_eq_iff)
  have "linked ?h p ys y"
  proof (cases ys rule: rev_cases)
    case (snoc as a)
    with d assms(2) have "linked ?h p as a \<longleftrightarrow> linked h p as a"
      by (intro linked_cong) (auto simp: n q; cases zs; auto)+
    with snoc l ab show ?thesis by (simp add: linked_append n q) 
  qed (use ab in \<open>simp add: n q\<close>)
  moreover have "linked ?h y zs p"
  proof (cases zs)
    case (Cons c cs)
    with d assms(2) have "linked ?h c cs p \<longleftrightarrow> linked h c cs p"
      using last_in_set [of "p # ys"] by (intro linked_cong) (fastforce simp: n q)+
    with Cons l ab show ?thesis by (simp add: n q)
  qed (use ab in \<open>simp add: n q\<close>)
  ultimately show ?thesis using d assms(2) by (auto simp: dlist_def linked_append)
qed

lemma dlist_distinct: "dlist h p xs \<Longrightarrow> distinct (p # xs)"
  by (simp add: dlist_def)

lemma dlist_IS_EMPTY: "dlist h p xs \<Longrightarrow> SB_LIST_IS_EMPTY h p \<longleftrightarrow> xs = []"
  by (cases xs) (auto simp: dlist_def list_macro_defs)

lemma dlist_ONCE: "dlist h p xs \<Longrightarrow> SB_LIST_ONCE h p = (case xs of [] \<Rightarrow> None | x # _ \<Rightarrow> Some x)"
  by (cases xs) (auto simp: dlist_def list_macro_defs)

text \<open>Writing links of items outside a list leaves that list as it is.\<close>

lemma dlist_frame:
  assumes "dlist h p xs"
    and "\<And>y. y \<in> set (p # xs) \<Longrightarrow> next_p h' y = next_p h y \<and> prev_p h' y = prev_p h y"
  shows "dlist h' p xs"
  using assms linked_cong [of p xs h' h p] by (simp add: dlist_def)

lemma dlist_frame_ADD_TAIL:
  assumes "dlist h p xs" and "dlist h q ys" and "x \<notin> set (p # xs)" and "set (p # xs) \<inter> set (q # ys) = {}"
  shows "dlist (SB_LIST_ADD_TAIL x q h) p xs"
proof (rule dlist_frame [OF assms(1)])
  have "prev_p h q \<in> set (q # ys)"
    using assms(2) linked_prev [of h q ys q] last_in_set [of "q # ys"] by (simp add: dlist_def)
  then show "next_p (SB_LIST_ADD_TAIL x q h) y = next_p h y \<and> prev_p (SB_LIST_ADD_TAIL x q h) y = prev_p h y"
    if "y \<in> set (p # xs)" for y
    using that assms(3,4) by (auto simp: list_macro_defs)
qed

section \<open>The loops visit the sequence and stop\<close>

lemma for_each_linked:
  "linked h a xs p \<Longrightarrow> p \<notin> set xs \<Longrightarrow> SB_LIST_FOR_EACH h p (next_p h a) = Some xs"
proof (induction xs arbitrary: a)
  case Nil
  then show ?case by (simp add: SB_LIST_FOR_EACH.simps)
next
  case (Cons x xs)
  then show ?case by (subst SB_LIST_FOR_EACH.simps) auto
qed

lemma for_each_safe_delete:
  "dlist h p (x # xs) \<Longrightarrow>
     \<exists>h'. SB_LIST_FOR_EACH_SAFE SB_LIST_DELETE p x (next_p h x) h = Some h' \<and> dlist h' p []"
proof (induction xs arbitrary: h x)
  case Nil
  have d: "dlist (SB_LIST_DELETE x h) p []" using dlist_DELETE [of h p "[]" x "[]"] Nil by simp
  from Nil have "next_p h x = p" "x \<noteq> p" by (auto simp: dlist_def)
  with d show ?case
    by (subst SB_LIST_FOR_EACH_SAFE.simps, subst SB_LIST_FOR_EACH_SAFE.simps) (simp add: Let_def)
next
  case (Cons y ys)
  have d: "dlist (SB_LIST_DELETE x h) p (y # ys)"
    using dlist_DELETE [of h p "[]" x "y # ys"] Cons.prems by simp
  from Cons.prems have "next_p h x = y" "x \<noteq> p" by (auto simp: dlist_def)
  with Cons.IH [OF d] show ?case by (subst SB_LIST_FOR_EACH_SAFE.simps) (simp add: Let_def)
qed

section \<open>The interface the components use\<close>

text \<open>
  What the option store, the handler chains and the event queue rely on: appending at the
  tail, unlinking an item and looking at the first one act on the represented sequence.
\<close>

locale head_list =
  fixes rep :: "'h \<Rightarrow> 'p \<Rightarrow> 'p list \<Rightarrow> bool"
    and init :: "'p \<Rightarrow> 'h \<Rightarrow> 'h"
    and add_tail :: "'p \<Rightarrow> 'p \<Rightarrow> 'h \<Rightarrow> 'h"
    and del :: "'p \<Rightarrow> 'h \<Rightarrow> 'h"
    and first :: "'h \<Rightarrow> 'p \<Rightarrow> 'p option"
  assumes rep_init: "rep (init p h) p []"
    and rep_distinct: "rep h p xs \<Longrightarrow> distinct (p # xs)"
    and rep_add_tail: "rep h p xs \<Longrightarrow> x \<notin> set (p # xs) \<Longrightarrow> rep (add_tail x p h) p (xs @ [x])"
    and rep_del: "rep h p (ys @ x # zs) \<Longrightarrow> rep (del x h) p (ys @ zs)"
    and rep_first: "rep h p xs \<Longrightarrow> first h p = (case xs of [] \<Rightarrow> None | x # _ \<Rightarrow> Some x)"
begin

lemma rep_take_first: "rep h p (x # xs) \<Longrightarrow> first h p = Some x \<and> rep (del x h) p xs"
  using rep_first [of h p "x # xs"] rep_del [of h p "[]" x xs] by simp

lemma rep_add_all:
  "rep h p xs \<Longrightarrow> distinct ys \<Longrightarrow> set ys \<inter> set (p # xs) = {} \<Longrightarrow>
     rep (fold (\<lambda>y. add_tail y p) ys h) p (xs @ ys)"
proof (induction ys arbitrary: xs h)
  case (Cons y ys)
  then have "rep (add_tail y p h) p (xs @ [y])" by (intro rep_add_tail) auto
  from Cons.IH [OF this] Cons.prems show ?case by auto
qed simp

text \<open>Taking the first item until the list is empty.\<close>

fun pops :: "nat \<Rightarrow> 'h \<Rightarrow> 'p \<Rightarrow> 'p list" where
  "pops 0 h p = []"
| "pops (Suc n) h p = (case first h p of None \<Rightarrow> [] | Some x \<Rightarrow> x # pops n (del x h) p)"

lemma pops_rep: "rep h p xs \<Longrightarrow> length xs \<le> n \<Longrightarrow> pops n h p = xs"
proof (induction n arbitrary: h xs)
  case (Suc n)
  then show ?case
    by (cases xs) (use rep_take_first rep_first in \<open>fastforce\<close>)+
qed simp

lemma fifo:
  assumes "distinct ys" and "p \<notin> set ys"
  shows "pops (length ys) (fold (\<lambda>y. add_tail y p) ys (init p h)) p = ys"
  using pops_rep [OF rep_add_all [OF rep_init assms(1)]] assms by simp

end

interpretation sbl: head_list dlist SB_LIST_INIT SB_LIST_ADD_TAIL SB_LIST_DELETE SB_LIST_ONCE
  by unfold_locales (fact dlist_INIT dlist_distinct dlist_ADD_TAIL dlist_DELETE dlist_ONCE)+

section \<open>Properties\<close>

definition example_links :: links where
  "example_links = SB_LIST_ADD_TAIL 2 0 (SB_LIST_ADD_TAIL 1 0 (SB_LIST_INIT 0 \<lparr>next_p = (\<lambda>_. 0), prev_p = (\<lambda>_. 0)\<rparr>))"

lemma example_links_dlist: "dlist example_links 0 [1, 2]"
  by (simp add: example_links_def dlist_def list_macro_defs)

text \<open>C8: On a well-formed circular list the macros are the sequence operations: adding a fresh
  item at the tail or at the head, deleting any item, replacing an item by a fresh one and the
  emptiness test, with the links in both directions consistent afterwards.\<close>

theorem list_macros_refine_sequence:
  assumes "dlist h p xs" and "x \<notin> set (p # xs)"
  shows "dlist (SB_LIST_ADD_TAIL x p h) p (xs @ [x]) \<and> dlist (SB_LIST_ADD x p h) p (x # xs) \<and>
    (\<forall>ys y zs. xs = ys @ y # zs \<longrightarrow>
       dlist (SB_LIST_DELETE y h) p (ys @ zs) \<and> dlist (SB_LIST_REPLACE x y h) p (ys @ x # zs)) \<and>
    (SB_LIST_IS_EMPTY h p \<longleftrightarrow> xs = [])"
  using assms dlist_ADD_TAIL dlist_ADD dlist_IS_EMPTY
  by (intro conjI allI impI) (auto intro: dlist_DELETE dlist_REPLACE)

theorem list_macros_refine_sequence_witness:
  "dlist (SB_LIST_ADD_TAIL 3 0 example_links) 0 [1, 2, 3] \<and> dlist (SB_LIST_DELETE 1 example_links) 0 [2]"
  using list_macros_refine_sequence [OF example_links_dlist, of 3]
  by (auto dest!: spec [of _ "[]"])

text \<open>On a well-formed list the iteration macro ends and visits the items in order, and the
  deletion-safe iteration that unlinks every item (\<open>free_values\<close>) ends with the empty list.\<close>

theorem list_loops_terminate:
  assumes "dlist h p xs"
  shows "SB_LIST_FOR_EACH h p (next_p h p) = Some xs \<and>
    (\<exists>h'. SB_LIST_FOR_EACH_SAFE SB_LIST_DELETE p (next_p h p) (next_p h (next_p h p)) h = Some h' \<and>
       dlist h' p [])"
proof (cases xs)
  case Nil
  with assms for_each_linked [of h p xs p] show ?thesis
    by (auto simp: dlist_def SB_LIST_FOR_EACH_SAFE.simps)
next
  case (Cons x xs')
  with assms for_each_linked [of h p xs p] for_each_safe_delete [of h p x xs'] show ?thesis
    by (auto simp: dlist_def)
qed

theorem list_loops_terminate_witness:
  "SB_LIST_FOR_EACH example_links 0 (next_p example_links 0) = Some [1, 2]"
  using list_loops_terminate [OF example_links_dlist] by blast

text \<open>For an item of a list, \<open>SB_LIST_ITEM_LAST\<close> holds exactly for the last item, while
  \<open>SB_LIST_ITEM_FIRST\<close> holds exactly for the items that are not the first one: the macro's
  comparison is the opposite of its name.\<close>

theorem item_first_is_inverted:
  assumes "dlist h p xs" and "x \<in> set xs"
  shows "(SB_LIST_ITEM_LAST h x p \<longleftrightarrow> x = last xs) \<and> (SB_LIST_ITEM_FIRST h x p \<longleftrightarrow> x \<noteq> hd xs)"
proof -
  from assms(2) obtain ys zs where xs: "xs = ys @ x # zs" by (auto simp: in_set_conv_decomp)
  with assms(1) have d: "distinct (p # ys @ x # zs)" and l: "linked h p ys x" "linked h x zs p"
    by (auto simp: dlist_def linked_append)
  from l have "next_p h x = hd (zs @ [p])" "prev_p h x = last (p # ys)"
    by (simp_all only: linked_next linked_prev)
  with d xs show ?thesis
    by (cases zs; cases ys rule: rev_cases) (auto simp: list_macro_defs hd_append)
qed

theorem item_first_is_inverted_witness:
  "SB_LIST_ITEM_LAST example_links 2 0 \<and> \<not> SB_LIST_ITEM_FIRST example_links 1 0"
  using item_first_is_inverted [OF example_links_dlist, of 1] item_first_is_inverted [OF example_links_dlist, of 2]
  by simp

end
