(* ===== verification/Options.thy ===== *)
theory Options
  imports Complex_Main Prelude SB_List
begin

text \<open>
  The option store of \<open>sysbench/sb_options.c\<close>: registration of default values, setting and
  finding options, the typed accessors, and the configuration file reader and writer. The
  global list \<open>options\<close> is a list of \<open>option_t\<close> in link order (the links themselves are
  in \<^verbatim>\<open>SB_List\<close>); a pointer to an option is its position, which stays valid because options
  are only appended at the tail. \<open>malloc\<close> and \<open>strdup\<close> are taken to succeed. Files are a map
  from names to contents.
\<close>

section \<open>Data\<close>

datatype sb_arg_type =
    SB_ARG_TYPE_NULL | SB_ARG_TYPE_FLAG | SB_ARG_TYPE_INT | SB_ARG_TYPE_SIZE
  | SB_ARG_TYPE_FLOAT | SB_ARG_TYPE_STRING | SB_ARG_TYPE_LIST | SB_ARG_TYPE_FILE

record sb_arg =
  arg_name :: string
  arg_desc :: string
  arg_type :: sb_arg_type
  arg_value :: "string option"

record value_t =
  v_data :: string
  v_ignore :: bool

record option_t =
  o_name :: string
  o_type :: sb_arg_type
  o_values :: "value_t list"
  o_ignore :: bool

type_synonym options = "option_t list"
type_synonym files = "string \<rightharpoonup> string"

abbreviation mk_value :: "string \<Rightarrow> value_t" where
  "mk_value d \<equiv> \<lparr>v_data = d, v_ignore = False\<rparr>"

section \<open>Names\<close>

fun convert_dashes :: "string \<Rightarrow> string" where
  "convert_dashes [] = []"
| "convert_dashes (c # s) = (if c = CHR ''-'' then CHR ''_'' else c) # convert_dashes s"

text \<open>
  \<open>opt_name_cmp\<close>: where the second string ends first, its NUL is compared with a character
  that is not NUL, so the loop breaks there.
\<close>

fun opt_name_cmp :: "string \<Rightarrow> string \<Rightarrow> int" where
  "opt_name_cmp [] [] = 0"
| "opt_name_cmp [] (b # _) = 0 - char_val b"
| "opt_name_cmp (a # _) [] = char_val a - 0"
| "opt_name_cmp (a # s1) (b # s2) =
     (if a = b then opt_name_cmp s1 s2
      else if (a \<noteq> CHR ''-'' \<and> a \<noteq> CHR ''_'') \<or> (b \<noteq> CHR ''-'' \<and> b \<noteq> CHR ''_'')
      then char_val a - char_val b
      else opt_name_cmp s1 s2)"

section \<open>Values and options\<close>

definition free_values :: "value_t list \<Rightarrow> value_t list" where
  "free_values vs = []"

definition add_value :: "value_t list \<Rightarrow> string \<Rightarrow> value_t list" where
  "add_value vs data = vs @ [mk_value data]"

definition find_value :: "value_t list \<Rightarrow> string \<Rightarrow> nat option" where
  "find_value vs data = find_index (\<lambda>v. v_data v = data) vs"

definition remove_value :: "value_t list \<Rightarrow> string \<Rightarrow> nat \<times> value_t list" where
  "remove_value vs valname =
     (case find_value vs valname of
        None \<Rightarrow> (1, vs)
      | Some i \<Rightarrow> (0, take i vs @ drop (Suc i) vs))"

definition find_option :: "options \<Rightarrow> string \<Rightarrow> nat option" where
  "find_option opts name = find_index (\<lambda>opt. opt_name_cmp (o_name opt) name = 0) opts"

definition add_option :: "options \<Rightarrow> string \<Rightarrow> nat \<times> options" where
  "add_option opts name =
     (case find_option opts name of
        Some i \<Rightarrow> (i, opts)
      | None \<Rightarrow> (length opts,
                 opts @ [\<lparr>o_name = convert_dashes name, o_type = SB_ARG_TYPE_NULL,
                          o_values = [], o_ignore = False\<rparr>]))"

definition remove_option :: "options \<Rightarrow> string \<Rightarrow> nat \<times> options" where
  "remove_option opts optname =
     (case find_option opts optname of
        None \<Rightarrow> (1, opts)
      | Some i \<Rightarrow> (0, take i opts @ drop (Suc i) opts))"

text \<open>Writing through an option pointer.\<close>

definition upd_option :: "nat \<Rightarrow> (option_t \<Rightarrow> option_t) \<Rightarrow> options \<Rightarrow> options" where
  "upd_option i f opts = opts[i := f (opts ! i)]"

definition upd_values :: "(value_t list \<Rightarrow> value_t list) \<Rightarrow> option_t \<Rightarrow> option_t" where
  "upd_values f opt = opt\<lparr>o_values := f (o_values opt)\<rparr>"

section \<open>Configuration files\<close>

text \<open>\<open>fgets\<close> with a buffer of \<open>n + 1\<close> bytes: what it stores and what is left of the file.\<close>

fun fgets_take :: "nat \<Rightarrow> string \<Rightarrow> string \<times> string" where
  "fgets_take 0 s = ([], s)"
| "fgets_take (Suc n) [] = ([], [])"
| "fgets_take (Suc n) (c # s) =
     (if c = CHR 0x0A then ([c], s)
      else (let (a, b) = fgets_take n s in (c # a, b)))"

lemma fgets_take_append: "fst (fgets_take n s) @ snd (fgets_take n s) = s"
  by (induction n s rule: fgets_take.induct) (auto split: prod.splits)

lemma fgets_take_shorter [simp]:
  "s \<noteq> [] \<Longrightarrow> length (snd (fgets_take (Suc n) s)) < length s"
  using fgets_take_append [of n "tl s"] arg_cong [of _ _ length, OF fgets_take_append [of n "tl s"]]
  by (cases s) (auto split: prod.splits)

lemma fgets_take_line:
  "CHR 0x0A \<notin> set l \<Longrightarrow> length l < n \<Longrightarrow> fgets_take n (l @ CHR 0x0A # rest) = (l @ [CHR 0x0A], rest)"
proof (induction l arbitrary: n)
  case Nil
  then show ?case by (cases n) auto
next
  case (Cons c l)
  then show ?case by (cases n) auto
qed

definition MAXSTRLEN :: nat where "MAXSTRLEN = 256"

text \<open>
  The loop over the text after \<open>=\<close>: the values it adds, in order, and whether it reached the
  end (\<^const>\<open>False\<close>: a quoted value was not closed, where \<open>read_config\<close> gives up).
\<close>

function (sequential) parse_values :: "string \<Rightarrow> string list \<times> bool" where
  "parse_values [] = ([], True)"
| "parse_values (c # tmp) =
     (if isspace c then parse_values tmp
      else if c = CHR ''#'' then ([], True)
      else if c = CHR 0x27 \<or> c = CHR 0x22 then
        (case strchr_split c tmp of
           None \<Rightarrow> ([], False)
         | Some (v, rest) \<Rightarrow>
             (let rest = dropWhile (\<lambda>x. x \<noteq> CHR '','') rest;
                  rest = (if rest \<noteq> [] then tl rest else rest);
                  (vs, ok) = parse_values rest
              in (v # vs, ok)))
      else
        (let stop = (\<lambda>x. x = CHR '','' \<or> isspace x);
             v = takeWhile (\<lambda>x. \<not> stop x) (c # tmp);
             rest = dropWhile (\<lambda>x. \<not> stop x) (c # tmp);
             rest = (if rest \<noteq> [] then tl rest else rest);
             (vs, ok) = parse_values rest
         in (v # vs, ok)))"
  by pat_completeness auto
termination
proof (relation "measure length", goal_cases)
  case (3 c tmp a v rest r1 r2)
  have "length r2 \<le> length rest" using 3 length_dropWhile_le [of "\<lambda>x. x \<noteq> CHR '',''" rest] by auto
  with 3 show ?case by (auto simp: strchr_split_Some)
next
  case (4 c tmp stop v r1 r2)
  have "length r2 \<le> length tmp"
    using 4 length_dropWhile_le [of "\<lambda>x. \<not> stop x" tmp] by (auto split: if_splits)
  then show ?case by simp
qed auto

definition read_config_line :: "options \<Rightarrow> string \<Rightarrow> bool \<times> options" where
  "read_config_line opts buf =
     (case strchr_split CHR ''='' (c_str buf) of
        None \<Rightarrow> (True, opts)
      | Some (name, tmp) \<Rightarrow>
          (let (i, opts) = add_option opts name;
               opts = upd_option i (upd_values free_values) opts;
               (vs, ok) = parse_values tmp
           in (ok, upd_option i (upd_values (\<lambda>l. foldl add_value l vs)) opts)))"

function read_config :: "string \<Rightarrow> options \<Rightarrow> bool \<times> options" where
  "read_config fp opts =
     (if fp = [] then (True, opts)
      else (let (buf, fp') = fgets_take (MAXSTRLEN - 1) fp;
                (ok, opts) = read_config_line opts buf
            in if ok then read_config fp' opts else (False, opts)))"
  by pat_completeness auto
termination
  by (relation "measure (length \<circ> fst)")
    (auto simp: MAXSTRLEN_def numeral_eq_Suc simp del: fgets_take.simps, metis fgets_take_shorter snd_conv)

definition read_config_file :: "files \<Rightarrow> options \<Rightarrow> string \<Rightarrow> options" where
  "read_config_file fs opts filename =
     (case fs filename of
        None \<Rightarrow> opts
      | Some fp \<Rightarrow> snd (read_config fp opts))"

declare read_config.simps [simp del]

text \<open>\<open>write_config\<close>: the text it prints and the list with the written options marked.\<close>

fun write_values :: "value_t list \<Rightarrow> string" where
  "write_values [] = []"
| "write_values (v # vs) =
     (if \<not> v_ignore v then v_data v else []) @ (if vs \<noteq> [] then '', '' else []) @ write_values vs"

fun write_config :: "options \<Rightarrow> string \<times> options" where
  "write_config [] = ([], [])"
| "write_config (opt # opts) =
     (let (out, opts') = write_config opts
      in if o_ignore opt then (out, opt # opts')
         else (o_name opt @ '' = '' @ write_values (o_values opt) @ [CHR 0x0A] @ out,
               opt\<lparr>o_ignore := True\<rparr> # opts'))"

section \<open>Setting and registering options\<close>

definition sb_options_init :: options where
  "sb_options_init = []"

definition sb_find_option :: "options \<Rightarrow> string \<Rightarrow> nat option" where
  "sb_find_option opts name = find_option opts name"

definition sb_set_option ::
  "files \<Rightarrow> options \<Rightarrow> string \<Rightarrow> string option \<Rightarrow> sb_arg_type \<Rightarrow> nat \<times> options" where
  "sb_set_option fs opts name value type =
     (let (i, opts) = add_option opts name;
          opts = upd_option i (upd_values free_values) opts;
          opts = upd_option i (o_type_update (\<lambda>_. type)) opts;
          put = (\<lambda>v. upd_option i (upd_values (\<lambda>l. add_value l v)))
      in if type \<noteq> SB_ARG_TYPE_FLAG \<and> (value = None \<or> value = Some []) then (0, opts)
         else (case type of
             SB_ARG_TYPE_FLAG \<Rightarrow>
               (0, if value = None \<or> value = Some ''on'' then put ''on'' opts else opts)
           | SB_ARG_TYPE_INT \<Rightarrow> (0, put (the value) opts)
           | SB_ARG_TYPE_SIZE \<Rightarrow> (0, put (the value) opts)
           | SB_ARG_TYPE_FLOAT \<Rightarrow> (0, put (the value) opts)
           | SB_ARG_TYPE_STRING \<Rightarrow> (0, put (the value) opts)
           | SB_ARG_TYPE_LIST \<Rightarrow> (0, fold put (strtok_all CHR '','' [] (the value)) opts)
           | SB_ARG_TYPE_FILE \<Rightarrow> (0, read_config_file fs opts (the value))
           | SB_ARG_TYPE_NULL \<Rightarrow> (1, opts)))"

fun sb_register_arg_set :: "files \<Rightarrow> options \<Rightarrow> sb_arg list \<Rightarrow> nat \<times> options" where
  "sb_register_arg_set fs opts [] = (0, opts)"
| "sb_register_arg_set fs opts (a # args) =
     (let (rc, opts) = sb_set_option fs opts (arg_name a) (arg_value a) (arg_type a)
      in if rc \<noteq> 0 then (1, opts) else sb_register_arg_set fs opts args)"

section \<open>Typed access\<close>

text \<open>\<open>exit (EXIT_FAILURE)\<close> is \<^term>\<open>Inl EXIT_FAILURE\<close>.\<close>

definition EXIT_FAILURE :: int where "EXIT_FAILURE = 1"

definition sb_opt_to_flag :: "option_t \<Rightarrow> bool" where
  "sb_opt_to_flag opt \<longleftrightarrow> \<not> (o_values opt = [])"

definition sb_get_value_flag :: "options \<Rightarrow> string \<Rightarrow> bool" where
  "sb_get_value_flag opts name =
     (case find_option opts name of None \<Rightarrow> False | Some i \<Rightarrow> sb_opt_to_flag (opts ! i))"

definition sb_opt_to_int :: "option_t \<Rightarrow> int + int" where
  "sb_opt_to_int opt =
     (case o_values opt of
        [] \<Rightarrow> Inr 0
      | val # _ \<Rightarrow>
          (let (res, endptr) = strtol (v_data val)
           in if endptr \<noteq> [] \<or> res > INT_MAX \<or> res < INT_MIN then Inl EXIT_FAILURE else Inr res))"

definition sb_get_value_int :: "options \<Rightarrow> string \<Rightarrow> int + int" where
  "sb_get_value_int opts name =
     (case find_option opts name of None \<Rightarrow> Inr 0 | Some i \<Rightarrow> sb_opt_to_int (opts ! i))"

definition sizemods :: string where "sizemods = ''KMGT''"

text \<open>The scan of \<open>sb_opt_to_size\<close>: \<open>rc\<close>, \<open>res\<close> and \<open>mult\<close> (0 while unset).\<close>

fun size_scan :: "nat \<Rightarrow> u64 \<Rightarrow> string \<Rightarrow> nat \<times> u64 \<times> char" where
  "size_scan rc res [] = (rc, res, CHR 0x00)"
| "size_scan rc res (c # cs) =
     (if \<not> is_digit c then (if rc = 1 then (2, res, c) else (rc, res, CHR 0x00))
      else size_scan 1 (res * 10 + of_nat (digit_val c)) cs)"

definition sb_opt_to_size :: "option_t \<Rightarrow> u64" where
  "sb_opt_to_size opt =
     (case o_values opt of
        [] \<Rightarrow> 0
      | val # _ \<Rightarrow>
          (let (rc, res, mult) = size_scan 0 0 (v_data val)
           in if rc = 2
              then (case find_index (\<lambda>m. toupper mult = m) sizemods of
                      Some n \<Rightarrow> (((*) 1024) ^^ Suc n) res
                    | None \<Rightarrow> 0)
              else res))"

definition sb_get_value_size :: "options \<Rightarrow> string \<Rightarrow> u64" where
  "sb_get_value_size opts name =
     (case find_option opts name of None \<Rightarrow> 0 | Some i \<Rightarrow> sb_opt_to_size (opts ! i))"

text \<open>
  \<open>sb_opt_to_float\<close> with the conversion \<open>sscanf (s, "%f")\<close> as \<open>scan\<close>; every value
  overwrites the result, and with no value the local variable is returned uninitialised, which
  is \<^const>\<open>None\<close>.
\<close>

definition sb_opt_to_float :: "(string \<Rightarrow> 'f::zero option) \<Rightarrow> option_t \<Rightarrow> 'f option" where
  "sb_opt_to_float scan opt =
     fold (\<lambda>val res. case scan (v_data val) of Some f \<Rightarrow> Some f | None \<Rightarrow> Some 0) (o_values opt) None"

definition sb_get_value_float ::
  "(string \<Rightarrow> 'f::zero option) \<Rightarrow> options \<Rightarrow> string \<Rightarrow> 'f option" where
  "sb_get_value_float scan opts name =
     (case find_option opts name of None \<Rightarrow> Some 0 | Some i \<Rightarrow> sb_opt_to_float scan (opts ! i))"

definition sb_opt_to_string :: "option_t \<Rightarrow> string option" where
  "sb_opt_to_string opt = (case o_values opt of [] \<Rightarrow> None | val # _ \<Rightarrow> Some (v_data val))"

definition sb_get_value_string :: "options \<Rightarrow> string \<Rightarrow> string option" where
  "sb_get_value_string opts name =
     (case find_option opts name of None \<Rightarrow> None | Some i \<Rightarrow> sb_opt_to_string (opts ! i))"

definition sb_opt_to_list :: "option_t \<Rightarrow> value_t list" where
  "sb_opt_to_list opt = o_values opt"

definition sb_get_value_list :: "options \<Rightarrow> string \<Rightarrow> value_t list option" where
  "sb_get_value_list opts name =
     (case find_option opts name of None \<Rightarrow> None | Some i \<Rightarrow> Some (sb_opt_to_list (opts ! i)))"

text \<open>
  Enumeration of the options: a position is the number of options already returned
  (\<open>sb_options_enum_start\<close> is the list head).
\<close>

definition sb_options_enum_start :: nat where "sb_options_enum_start = 0"

definition sb_options_enum_next :: "options \<Rightarrow> nat \<Rightarrow> (nat \<times> option_t) option" where
  "sb_options_enum_next opts pos = (if pos < length opts then Some (Suc pos, opts ! pos) else None)"

section \<open>Printing\<close>

text \<open>
  \<open>sb_print_value_size\<close>: the number of divisions by 1024 and the scaled value; \<open>i\<close> runs
  up to \<open>sizeof (sizemods)\<close>, which counts the terminating NUL. The modifier printed is
  \<open>sizemods[i-1]\<close>, none for \<open>i = 0\<close>.
\<close>

fun size_steps :: "nat \<Rightarrow> rat \<Rightarrow> nat \<times> rat" where
  "size_steps 0 value = (0, value)"
| "size_steps (Suc n) value =
     (if value \<ge> 1024 then (let (i, v) = size_steps n (value / 1024) in (Suc i, v)) else (0, value))"

definition sb_print_value_size :: "rat \<Rightarrow> rat \<times> char option" where
  "sb_print_value_size value =
     (let (i, v) = size_steps (Suc (length sizemods)) value
      in (v, if i > 0 then Some ((sizemods @ [CHR 0x00]) ! (i - 1)) else None))"

definition arg_format :: "sb_arg_type \<Rightarrow> string" where
  "arg_format t = (case t of
       SB_ARG_TYPE_FLAG \<Rightarrow> ''=[on|off]''
     | SB_ARG_TYPE_LIST \<Rightarrow> ''=[LIST,...]''
     | SB_ARG_TYPE_SIZE \<Rightarrow> ''=SIZE''
     | SB_ARG_TYPE_INT \<Rightarrow> ''=N''
     | SB_ARG_TYPE_FLOAT \<Rightarrow> ''=N''
     | SB_ARG_TYPE_STRING \<Rightarrow> ''=STRING''
     | SB_ARG_TYPE_FILE \<Rightarrow> ''=FILENAME''
     | SB_ARG_TYPE_NULL \<Rightarrow> ''<UNKNOWN>'')"

text \<open>\<open>%-*s\<close>: left-justified in a field of the given width, never cut.\<close>

definition pad_right :: "nat \<Rightarrow> string \<Rightarrow> string" where
  "pad_right w s = s @ replicate (w - length s) CHR '' ''"

definition print_option_line :: "nat \<Rightarrow> sb_arg \<Rightarrow> string" where
  "print_option_line maxlen a =
     ''  --'' @ arg_name a @ pad_right (maxlen - length (arg_name a) + 8) (arg_format (arg_type a))
       @ arg_desc a
       @ (case arg_value a of None \<Rightarrow> [] | Some v \<Rightarrow> '' ['' @ v @ '']'') @ [CHR 0x0A]"

definition sb_print_options :: "sb_arg list \<Rightarrow> string" where
  "sb_print_options opts =
     (let maxlen = fold (\<lambda>a m. if length (arg_name a) > m then length (arg_name a) else m) opts 0
      in concat (map (print_option_line maxlen) opts) @ [CHR 0x0A])"

section \<open>Names are compared up to dashes\<close>

lemma opt_name_cmp_0:
  "cstring a \<Longrightarrow> cstring b \<Longrightarrow> opt_name_cmp a b = 0 \<longleftrightarrow> convert_dashes a = convert_dashes b"
  by (induction a b rule: opt_name_cmp.induct) (auto split: if_splits)

lemma convert_dashes_idem [simp]: "convert_dashes (convert_dashes s) = convert_dashes s"
  by (induction s) auto

lemma length_convert_dashes [simp]: "length (convert_dashes s) = length s"
  by (induction s) auto

lemma cstring_convert_dashes [simp]: "cstring (convert_dashes s) \<longleftrightarrow> cstring s"
  by (induction s) auto

section \<open>The invariant of the store and its abstract view\<close>

text \<open>
  Names are unique, normalised C strings: what \<open>add_option\<close> establishes and every writer of
  the list keeps.
\<close>

definition options_wf :: "options \<Rightarrow> bool" where
  "options_wf opts \<longleftrightarrow> distinct (map o_name opts) \<and>
     (\<forall>opt\<in>set opts. cstring (o_name opt) \<and> convert_dashes (o_name opt) = o_name opt)"

definition opt_lookup :: "options \<Rightarrow> string \<Rightarrow> option_t option" where
  "opt_lookup opts name = map_option ((!) opts) (find_option opts name)"

text \<open>The store as a finite map from normalised names.\<close>

definition options_abs :: "options \<Rightarrow> string \<rightharpoonup> option_t" where
  "options_abs opts = map_of (map (\<lambda>opt. (o_name opt, opt)) opts)"

lemma options_wf_Nil [simp]: "options_wf []"
  by (simp add: options_wf_def)

lemma find_option_wf:
  assumes "options_wf opts" and "cstring name"
  shows "find_option opts name = find_index (\<lambda>opt. o_name opt = convert_dashes name) opts"
  using assms
  by (induction opts) (auto simp: find_option_def options_wf_def opt_name_cmp_0 split: if_splits)

lemma find_index_map_of:
  "map_option ((!) opts) (find_index (\<lambda>opt. o_name opt = k) opts) = map_of (map (\<lambda>opt. (o_name opt, opt)) opts) k"
  by (induction opts) (auto simp: option.map_comp comp_def)

lemma opt_lookup_abs:
  "options_wf opts \<Longrightarrow> cstring name \<Longrightarrow> opt_lookup opts name = options_abs opts (convert_dashes name)"
  by (simp add: opt_lookup_def options_abs_def find_option_wf find_index_map_of)

lemma abs_update:
  assumes "options_wf opts" and "i < length opts" and "o_name opt = o_name (opts ! i)"
  shows "options_abs (opts[i := opt]) = (options_abs opts)(o_name opt \<mapsto> opt)"
    and "options_wf (opts[i := opt])"
proof -
  have n: "map o_name (opts[i := opt]) = map o_name opts"
    using assms by (simp add: map_update list_update_same_conv)
  have "map_of (map (\<lambda>opt. (o_name opt, opt)) (opts[i := opt])) = (map_of (map (\<lambda>opt. (o_name opt, opt)) opts))(o_name opt \<mapsto> opt)"
    if "distinct (map o_name opts)" "i < length opts" "o_name opt = o_name (opts ! i)"
    using that
  proof (induction opts arbitrary: i)
    case (Cons x xs)
    then show ?case
      by (cases i) (auto simp: fun_eq_iff, metis image_eqI nth_mem)
  qed simp
  with assms show "options_abs (opts[i := opt]) = (options_abs opts)(o_name opt \<mapsto> opt)"
    by (simp add: options_abs_def options_wf_def)
  from assms have "\<forall>o'\<in>set (opts[i := opt]). cstring (o_name o') \<and> convert_dashes (o_name o') = o_name o'"
    by (auto simp: options_wf_def dest!: set_update_subset_insert [THEN subsetD])
  with n assms show "options_wf (opts[i := opt])" by (simp add: options_wf_def)
qed

text \<open>\<open>add_option\<close> returns a valid pointer to the option with the wanted name.\<close>

lemma add_option_spec:
  assumes "options_wf opts" and "cstring name" and "add_option opts name = (i, opts')"
  shows "options_wf opts'" and "i < length opts'" and "o_name (opts' ! i) = convert_dashes name"
    and "\<And>k. k \<noteq> convert_dashes name \<Longrightarrow> options_abs opts' k = options_abs opts k"
    and "options_abs opts (convert_dashes name) = Some opt \<Longrightarrow> opts' ! i = opt"
proof -
  let ?P = "\<lambda>opt. o_name opt = convert_dashes name"
  have f: "find_option opts name = find_index ?P opts" by (rule find_option_wf [OF assms(1,2)])
  have "options_wf opts' \<and> i < length opts' \<and> o_name (opts' ! i) = convert_dashes name \<and>
    (\<forall>k. k \<noteq> convert_dashes name \<longrightarrow> options_abs opts' k = options_abs opts k) \<and>
    (\<forall>opt. options_abs opts (convert_dashes name) = Some opt \<longrightarrow> opts' ! i = opt)"
  proof (cases "find_index ?P opts")
    case None
    then have "convert_dashes name \<notin> o_name ` set opts" by (auto simp: find_index_None)
    moreover from this have "options_abs opts (convert_dashes name) = None"
      by (auto simp: options_abs_def map_of_eq_None_iff)
    ultimately show ?thesis using assms(1-3) f None
      by (auto simp: add_option_def options_wf_def options_abs_def map_add_def split: option.split)
  next
    case (Some j)
    with assms f show ?thesis
      using find_index_map_of [of opts "convert_dashes name"]
      by (auto simp: add_option_def options_abs_def dest: find_index_SomeD)
  qed
  then show "options_wf opts'" "i < length opts'" "o_name (opts' ! i) = convert_dashes name"
    "\<And>k. k \<noteq> convert_dashes name \<Longrightarrow> options_abs opts' k = options_abs opts k"
    "options_abs opts (convert_dashes name) = Some opt \<Longrightarrow> opts' ! i = opt" by auto
qed

section \<open>Setting an option is a map update\<close>

text \<open>The values an option holds after it is set: the specification of \<open>sb_set_option\<close>.\<close>

definition arg_values :: "sb_arg_type \<Rightarrow> string option \<Rightarrow> string list" where
  "arg_values type value =
     (case type of
        SB_ARG_TYPE_FLAG \<Rightarrow> (if value = None \<or> value = Some ''on'' then [''on''] else [])
      | SB_ARG_TYPE_LIST \<Rightarrow> (case value of None \<Rightarrow> [] | Some v \<Rightarrow> strtok_all CHR '','' [] v)
      | SB_ARG_TYPE_FILE \<Rightarrow> []
      | SB_ARG_TYPE_NULL \<Rightarrow> []
      | _ \<Rightarrow> (case value of None \<Rightarrow> [] | Some v \<Rightarrow> if v = [] then [] else [v]))"

definition set_entry :: "sb_arg_type \<Rightarrow> string list \<Rightarrow> option_t \<Rightarrow> option_t" where
  "set_entry type vs opt = opt\<lparr>o_type := type, o_values := map mk_value vs\<rparr>"

lemma upd_option_comp [simp]:
  "i < length opts \<Longrightarrow> upd_option i f (upd_option i g opts) = upd_option i (\<lambda>x. f (g x)) opts"
  by (simp add: upd_option_def)

lemma length_upd_option [simp]: "length (upd_option i f opts) = length opts"
  by (simp add: upd_option_def)

lemma fold_put:
  "i < length opts \<Longrightarrow>
     fold (\<lambda>v. upd_option i (upd_values (\<lambda>l. add_value l v))) ts opts =
     upd_option i (upd_values (\<lambda>l. l @ map mk_value ts)) opts"
proof (induction ts arbitrary: opts)
  case Nil
  then show ?case by (simp add: upd_option_def upd_values_def)
next
  case (Cons t ts)
  then show ?case by (simp add: upd_values_def add_value_def)
qed

lemma foldl_add_value: "foldl add_value l vs = l @ map mk_value vs"
  by (induction vs arbitrary: l) (simp_all add: add_value_def)

lemma entry_updates_commute:
  "opt\<lparr>o_values := vs, o_type := t\<rparr> = opt\<lparr>o_type := t, o_values := vs\<rparr>"
  by simp

lemma sb_set_option_eq:
  assumes "add_option opts name = (i, opts1)" and "i < length opts1"
  shows "sb_set_option fs opts name val type =
     (if type = SB_ARG_TYPE_NULL \<and> val \<noteq> None \<and> val \<noteq> Some [] then 1 else 0,
      if type = SB_ARG_TYPE_FILE \<and> val \<noteq> None \<and> val \<noteq> Some []
      then read_config_file fs (upd_option i (set_entry type []) opts1) (the val)
      else upd_option i (set_entry type (arg_values type val)) opts1)"
  using assms
  by (cases type; cases val; simp add: sb_set_option_def arg_values_def fold_put Let_def)
    (auto simp: upd_values_def free_values_def add_value_def set_entry_def upd_option_def
        entry_updates_commute)

lemma upd_option_abs:
  assumes "options_wf opts" and "cstring name" and "add_option opts name = (i, opts1)"
    and "\<And>opt. o_name (f opt) = o_name opt"
  shows "options_wf (upd_option i f opts1)"
    and "options_abs (upd_option i f opts1) = (options_abs opts)(convert_dashes name \<mapsto> f (opts1 ! i))"
proof -
  note spec = add_option_spec [OF assms(1-3)]
  show "options_wf (upd_option i f opts1)"
    unfolding upd_option_def using spec(1,2) assms(4) by (intro abs_update(2)) auto
  have "options_abs (upd_option i f opts1) = (options_abs opts1)(convert_dashes name \<mapsto> f (opts1 ! i))"
    using abs_update(1) [OF spec(1,2), of "f (opts1 ! i)"] assms(4) spec(3) by (simp add: upd_option_def)
  with spec(4) show "options_abs (upd_option i f opts1) = (options_abs opts)(convert_dashes name \<mapsto> f (opts1 ! i))"
    by (auto simp: fun_eq_iff)
qed

lemma read_config_line_wf:
  assumes "options_wf opts" shows "options_wf (snd (read_config_line opts buf))"
proof (cases "strchr_split CHR ''='' (c_str buf)")
  case (Some p)
  obtain name tmp where p: "p = (name, tmp)" by force
  with Some have name: "cstring name" using cstring_c_str [of buf] by (auto simp: strchr_split_Some simp del: cstring_c_str)
  obtain i opts1 where add: "add_option opts name = (i, opts1)" by force
  from add_option_spec(2) [OF assms name add] have i: "i < length opts1" .
  show ?thesis
    using Some p add i upd_option_abs(1) [OF assms name add]
    by (auto simp: read_config_line_def upd_values_def split: prod.split)
qed (simp add: read_config_line_def assms)

lemma read_config_wf: "options_wf opts \<Longrightarrow> options_wf (snd (read_config fp opts))"
proof (induction fp opts rule: read_config.induct)
  case (1 fp opts)
  then show ?case
    using read_config_line_wf [of opts]
    by (subst read_config.simps) (auto simp: Let_def split: prod.splits; metis snd_conv)
qed

lemma read_config_file_wf: "options_wf opts \<Longrightarrow> options_wf (read_config_file fs opts f)"
  by (simp add: read_config_file_def read_config_wf split: option.split)

lemma sb_set_option_wf [sb_inv]:
  assumes "options_wf opts" and "cstring name"
  shows "options_wf (snd (sb_set_option fs opts name val type))"
proof -
  obtain i opts1 where add: "add_option opts name = (i, opts1)" by force
  from add_option_spec(2) [OF assms add] have i: "i < length opts1" .
  have w: "options_wf (upd_option i (set_entry t vs) opts1)" for t vs
    by (rule upd_option_abs(1) [OF assms add]) (simp add: set_entry_def)
  then show ?thesis by (simp add: sb_set_option_eq [OF add i] read_config_file_wf)
qed

lemma sb_set_option_abs:
  assumes "options_wf opts" and "cstring name" and "type \<noteq> SB_ARG_TYPE_FILE"
  shows "\<exists>opt. o_name opt = convert_dashes name \<and> o_type opt = type \<and>
           o_values opt = map mk_value (arg_values type val) \<and>
           options_abs (snd (sb_set_option fs opts name val type)) =
             (options_abs opts)(convert_dashes name \<mapsto> opt)"
proof -
  obtain i opts1 where add: "add_option opts name = (i, opts1)" by force
  note spec = add_option_spec [OF assms(1,2) add]
  show ?thesis
    using upd_option_abs(2) [OF assms(1,2) add, of "set_entry type (arg_values type val)"] assms(3) spec(3)
    by (intro exI [of _ "set_entry type (arg_values type val) (opts1 ! i)"])
      (auto simp: sb_set_option_eq [OF add spec(2)] set_entry_def)
qed

section \<open>The store as other components see it\<close>

text \<open>What the accessors depend on: the type of an option and the text of its values.\<close>

definition opt_view :: "options \<Rightarrow> string \<Rightarrow> (sb_arg_type \<times> string list) option" where
  "opt_view opts name =
     map_option (\<lambda>opt. (o_type opt, map v_data (o_values opt))) (opt_lookup opts name)"

lemma opt_view_accessors:
  "sb_get_value_flag opts name = (case opt_view opts name of None \<Rightarrow> False | Some (_, vs) \<Rightarrow> vs \<noteq> [])"
  "sb_get_value_string opts name = (case opt_view opts name of Some (_, v # _) \<Rightarrow> Some v | _ \<Rightarrow> None)"
  "map_option (map v_data) (sb_get_value_list opts name) = map_option snd (opt_view opts name)"
  by (auto simp: opt_view_def opt_lookup_def sb_get_value_flag_def sb_opt_to_flag_def
      sb_get_value_string_def sb_opt_to_string_def sb_get_value_list_def sb_opt_to_list_def
      split: option.split list.split)

lemma opt_view_set_option:
  assumes "options_wf opts" and "cstring n" and "cstring m" and "t \<noteq> SB_ARG_TYPE_FILE"
  shows "opt_view (snd (sb_set_option fs opts n v t)) m =
    (if convert_dashes m = convert_dashes n then Some (t, arg_values t v) else opt_view opts m)"
  using sb_set_option_abs [OF assms(1,2,4), of v fs] sb_set_option_wf [OF assms(1,2), of fs v t] assms(1,3)
  by (auto simp: opt_view_def opt_lookup_abs comp_def)

text \<open>
  The contract of a store that is written by name and read by name up to normalisation; the
  argument tables, the command line and \<open>init\<close> are its clients.
\<close>

locale option_store =
  fixes ok :: "'s \<Rightarrow> bool"
    and view :: "'s \<Rightarrow> string \<Rightarrow> 'o option"
    and put :: "'s \<Rightarrow> string \<Rightarrow> 'a \<Rightarrow> 's"
    and norm :: "string \<Rightarrow> string"
    and nameok :: "string \<Rightarrow> bool"
    and argok :: "'a \<Rightarrow> bool"
    and enc :: "'a \<Rightarrow> 'o"
  assumes ok_put: "ok s \<Longrightarrow> nameok n \<Longrightarrow> ok (put s n a)"
    and view_put: "ok s \<Longrightarrow> nameok n \<Longrightarrow> nameok m \<Longrightarrow> argok a \<Longrightarrow>
      view (put s n a) m = (if norm m = norm n then Some (enc a) else view s m)"
begin

fun puts :: "'s \<Rightarrow> (string \<times> 'a) list \<Rightarrow> 's" where
  "puts s [] = s"
| "puts s ((n, a) # xs) = puts (put s n a) xs"

lemma ok_puts: "ok s \<Longrightarrow> \<forall>(n, a)\<in>set xs. nameok n \<Longrightarrow> ok (puts s xs)"
  by (induction s xs rule: puts.induct) (auto intro: ok_put)

text \<open>After a sequence of writes a name has its last value.\<close>

lemma view_puts:
  assumes "ok s" and "\<forall>(n, a)\<in>set xs. nameok n \<and> argok a" and "nameok m"
  shows "view (puts s xs) m =
    (case find (\<lambda>(n, a). norm n = norm m) (rev xs) of
       Some (n, a) \<Rightarrow> Some (enc a)
     | None \<Rightarrow> view s m)"
  using assms
proof (induction s xs rule: puts.induct)
  case (2 s n a xs)
  have "ok (put s n a)" using 2 by (auto intro: ok_put)
  with 2 show ?case
    by (auto simp: find_append view_put split: option.splits)
qed simp

lemma last_put_wins:
  "ok s \<Longrightarrow> nameok n \<Longrightarrow> nameok m \<Longrightarrow> argok a \<Longrightarrow> argok b \<Longrightarrow> norm n = norm m \<Longrightarrow>
     view (put (put s n a) m b) n = Some (enc b)"
  by (simp add: view_put ok_put)

end

interpretation opts: option_store options_wf opt_view
  "\<lambda>s n (v, t). snd (sb_set_option fs s n v t)" convert_dashes cstring
  "\<lambda>(v, t). t \<noteq> SB_ARG_TYPE_FILE" "\<lambda>(v, t). (t, arg_values t v)" for fs
  by unfold_locales (auto simp: opt_view_set_option sb_set_option_wf)

section \<open>Scanning numbers and sizes\<close>

lemma size_scan_digits:
  "list_all is_digit ds \<Longrightarrow>
     size_scan rc res (ds @ r) =
     size_scan (if ds = [] then rc else 1) (foldl (\<lambda>n c. n * 10 + of_nat (digit_val c)) res ds) r"
  by (induction ds arbitrary: rc res) auto

lemma foldl_digits_u64:
  "foldl (\<lambda>n c. n * 10 + of_nat (digit_val c)) (of_nat k :: u64) ds =
     of_nat (foldl (\<lambda>n c. 10 * n + digit_val c) k ds)"
proof (induction ds arbitrary: k)
  case (Cons c ds)
  show ?case using Cons.IH [of "10 * k + digit_val c"] by (simp add: mult.commute)
qed simp

lemma size_scan_val:
  "list_all is_digit ds \<Longrightarrow> ds \<noteq> [] \<Longrightarrow> size_scan 0 0 (ds @ r) = size_scan 1 (of_nat (digits_val ds)) r"
  using size_scan_digits [of ds 0 0 r] foldl_digits_u64 [of 0 ds] by (simp add: digits_val_def)

lemma mult_1024_pow: "(((*) 1024) ^^ n) (x :: u64) = 1024 ^ n * x"
  by (induction n) (auto simp: mult.assoc)

section \<open>Configuration files: what is read back\<close>

text \<open>A value that needs no quoting: not empty, no separator, no leading quote or comment sign.\<close>

definition plain_value :: "string \<Rightarrow> bool" where
  "plain_value v \<longleftrightarrow> v \<noteq> [] \<and> hd v \<notin> {CHR ''#'', CHR 0x27, CHR 0x22} \<and>
     list_all (\<lambda>c. c \<noteq> CHR '','' \<and> \<not> isspace c) v"

lemma parse_values_plain:
  assumes "plain_value v" and "x = CHR '','' \<or> isspace x"
  shows "parse_values (v @ x # rest) = (v # fst (parse_values rest), snd (parse_values rest))"
proof -
  from assms(1) obtain c v' where v: "v = c # v'" by (cases v) (auto simp: plain_value_def)
  let ?go = "\<lambda>x. \<not> (x = CHR '','' \<or> isspace x)"
  have all: "\<forall>y\<in>set v. ?go y" using assms(1) by (auto simp: plain_value_def list_all_iff)
  have tw: "takeWhile ?go (v @ x # rest) = v" "dropWhile ?go (v @ x # rest) = x # rest"
    using all assms(2) by (auto simp: takeWhile_append2 dropWhile_append2)
  show ?thesis
    using assms(1) all tw unfolding v
    by (auto simp: plain_value_def Let_def split: prod.splits)
qed

lemma parse_values_space [simp]: "isspace c \<Longrightarrow> parse_values (c # tmp) = parse_values tmp"
  by simp

lemma isspace_consts [simp]: "isspace CHR '' ''" "isspace CHR 0x0A" "\<not> isspace CHR '',''"
  by (simp_all add: isspace_def)

lemma parse_written_values:
  "list_all plain_value vs \<Longrightarrow> parse_values (write_values (map mk_value vs) @ [CHR 0x0A]) = (vs, True)"
proof (induction vs)
  case (Cons v vs)
  then show ?case
    by (cases vs) (simp_all add: parse_values_plain del: parse_values.simps(2))
qed simp

lemma size_steps_eq:
  "k \<le> n \<Longrightarrow> (k = 0 \<or> 1024 ^ k \<le> v) \<Longrightarrow> (k = n \<or> v < 1024 ^ Suc k) \<Longrightarrow> size_steps n v = (k, v / 1024 ^ k)"
proof (induction n arbitrary: k v)
  case (Suc n)
  show ?case
  proof (cases k)
    case (Suc j)
    from Suc Suc.prems have "1024 ^ j \<le> v / 1024" by (simp add: field_simps)
    moreover from Suc Suc.prems have "j = n \<or> v / 1024 < 1024 ^ Suc j" by (auto simp: field_simps)
    moreover have "1024 \<le> v"
      using Suc.prems Suc by (auto intro: order_trans [of _ "1024 * 1024 ^ j"])
    ultimately show ?thesis
      using Suc.IH [of j "v / 1024"] Suc Suc.prems by auto
  qed (use Suc.prems in simp)
qed simp

lemma register_puts:
  assumes "\<forall>a\<in>set args. arg_type a \<noteq> SB_ARG_TYPE_NULL"
    and "options_wf opts" and "\<forall>a\<in>set args. cstring (arg_name a)"
  shows "sb_register_arg_set fs opts args =
    (0, opts.puts fs opts (map (\<lambda>a. (arg_name a, arg_value a, arg_type a)) args))"
  using assms
proof (induction args arbitrary: opts)
  case (Cons a args)
  obtain i opts1 where add: "add_option opts (arg_name a) = (i, opts1)" by force
  have i: "i < length opts1" using add_option_spec(2) [OF _ _ add] Cons.prems by simp
  have "fst (sb_set_option fs opts (arg_name a) (arg_value a) (arg_type a)) = 0"
    using Cons.prems(1) by (simp add: sb_set_option_eq [OF add i])
  with Cons sb_set_option_wf [of opts "arg_name a" fs "arg_value a" "arg_type a"]
  show ?case
    by (cases "sb_set_option fs opts (arg_name a) (arg_value a) (arg_type a)") auto
qed simp

lemma find_map_rev:
  "find P (rev (map f xs)) = map_option f (find (\<lambda>x. P (f x)) (rev xs))"
  by (induction xs) (auto simp: find_append split: option.split)

section \<open>Properties\<close>

text \<open>C1: Setting an option that is not a configuration file updates exactly one entry of the
  store seen as a map from names, where names are equal up to exchanging dashes and underscores:
  the entry gets the given type and the values decoded from the text, every other entry keeps
  its type and values, and the store stays well formed (unique, normalised names).\<close>

theorem sb_set_option_refines_map_update:
  assumes "options_wf opts" and "cstring n" and "cstring m" and "t \<noteq> SB_ARG_TYPE_FILE"
  shows "options_wf (snd (sb_set_option fs opts n v t)) \<and>
    opt_view (snd (sb_set_option fs opts n v t)) m =
      (if convert_dashes m = convert_dashes n then Some (t, arg_values t v) else opt_view opts m)"
  using opts.view_put [of opts n m "(v, t)" fs] opts.ok_put [of opts n fs "(v, t)"] assms by simp

theorem sb_set_option_refines_map_update_witness:
  "opt_view (snd (sb_set_option Map.empty [] ''max-time'' (Some ''60'') SB_ARG_TYPE_INT)) ''max_time''
     = Some (SB_ARG_TYPE_INT, [''60''])"
  using sb_set_option_refines_map_update [of "[]" "''max-time''" "''max_time''" SB_ARG_TYPE_INT Map.empty "Some ''60''"]
  by (simp add: arg_values_def)

text \<open>Registering a table of arguments succeeds and gives every option the value of the last
  table entry with its name; options without an entry keep their value.\<close>

theorem register_arg_set_last_wins:
  assumes "options_wf opts" and "cstring m"
    and "\<forall>a\<in>set args. cstring (arg_name a) \<and> arg_type a \<noteq> SB_ARG_TYPE_NULL \<and> arg_type a \<noteq> SB_ARG_TYPE_FILE"
  shows "fst (sb_register_arg_set fs opts args) = 0 \<and>
    opt_view (snd (sb_register_arg_set fs opts args)) m =
      (case find (\<lambda>a. convert_dashes (arg_name a) = convert_dashes m) (rev args) of
         Some a \<Rightarrow> Some (arg_type a, arg_values (arg_type a) (arg_value a))
       | None \<Rightarrow> opt_view opts m)"
proof -
  let ?xs = "map (\<lambda>a. (arg_name a, arg_value a, arg_type a)) args"
  have "sb_register_arg_set fs opts args = (0, opts.puts fs opts ?xs)"
    using assms by (intro register_puts) auto
  moreover have "opt_view (opts.puts fs opts ?xs) m =
      (case find (\<lambda>(n, a). convert_dashes n = convert_dashes m) (rev ?xs) of
         Some (n, a) \<Rightarrow> Some (case a of (v, t) \<Rightarrow> (t, arg_values t v)) | None \<Rightarrow> opt_view opts m)"
    using assms by (intro opts.view_puts) auto
  ultimately show ?thesis
    by (simp add: find_map_rev split: option.split)
qed

theorem register_arg_set_last_wins_witness:
  "opt_view (snd (sb_register_arg_set Map.empty []
       [\<lparr>arg_name = ''num-threads'', arg_desc = [], arg_type = SB_ARG_TYPE_INT, arg_value = Some ''1''\<rparr>]))
     ''num_threads'' = Some (SB_ARG_TYPE_INT, [''1''])"
  using register_arg_set_last_wins [of "[]" "''num_threads''"
      "[\<lparr>arg_name = ''num-threads'', arg_desc = [], arg_type = SB_ARG_TYPE_INT, arg_value = Some ''1''\<rparr>]" Map.empty]
  by (simp add: arg_values_def)

text \<open>A size option written as a decimal number, with or without a modifier, is the number
  times 1024, 1024^2, 1024^3 or 1024^4 for K, M, G or T in either case, modulo 2^64; any other
  character after the number makes it 0.\<close>

theorem opt_to_size_value:
  assumes "list_all is_digit ds" and "ds \<noteq> []" and "\<not> is_digit c"
  shows "sb_opt_to_size (opt\<lparr>o_values := mk_value ds # vs\<rparr>) = of_nat (digits_val ds) \<and>
    sb_opt_to_size (opt\<lparr>o_values := mk_value (ds @ c # r) # vs\<rparr>) =
      (case find_index (\<lambda>m. toupper c = m) ''KMGT'' of
         Some n \<Rightarrow> of_nat (digits_val ds * 1024 ^ Suc n) | None \<Rightarrow> 0)"
  using size_scan_val [OF assms(1,2), of "[]"] size_scan_val [OF assms(1,2), of "c # r"] assms(3)
  by (auto simp: sb_opt_to_size_def mult_1024_pow mult.commute sizemods_def split: option.split
      simp del: funpow.simps find_index.simps)

lemma toupper_example: "toupper CHR ''k'' = CHR ''K''"
  by code_simp

theorem opt_to_size_value_witness:
  "sb_opt_to_size \<lparr>o_name = ''thread_stack_size'', o_type = SB_ARG_TYPE_SIZE,
     o_values = [mk_value ''64k''], o_ignore = False\<rparr> = 65536"
  using opt_to_size_value [of "''64''" "CHR ''k''", where r = "[]" and vs = "[]"
      and opt = "\<lparr>o_name = ''thread_stack_size'', o_type = SB_ARG_TYPE_SIZE, o_values = [], o_ignore = False\<rparr>"]
  by (simp add: is_digit_def digits_val_def digit_val_def toupper_example)

text \<open>An integer option either ends the program or yields a number that fits \<open>int\<close>. A
  decimal numeral in range, with nothing after it, is accepted and yields its value; text after
  the numeral, or a value above \<open>INT_MAX\<close>, ends the program with a failure status.\<close>

theorem opt_to_int_checked:
  assumes "list_all is_digit ds" and "ds \<noteq> []" and "\<not> is_digit c"
  shows "(\<forall>n. sb_opt_to_int opt = Inr n \<longrightarrow> INT_MIN \<le> n \<and> n \<le> INT_MAX) \<and>
    sb_opt_to_int (opt\<lparr>o_values := mk_value ds # vs\<rparr>) =
      (if int (digits_val ds) \<le> INT_MAX then Inr (int (digits_val ds)) else Inl EXIT_FAILURE) \<and>
    sb_opt_to_int (opt\<lparr>o_values := mk_value (ds @ c # r) # vs\<rparr>) = Inl EXIT_FAILURE"
  using strtol_digits [OF assms(1,2), of "c # r"] strtol_digits [OF assms(1,2), of "[]"] assms(3)
  by (auto simp: sb_opt_to_int_def split: list.splits prod.splits if_splits)

theorem opt_to_int_checked_witness:
  "sb_opt_to_int \<lparr>o_name = ''num_threads'', o_type = SB_ARG_TYPE_INT,
     o_values = [mk_value ''16''], o_ignore = False\<rparr> = Inr 16"
  using opt_to_int_checked [of "''16''" "CHR ''x''", where r = "[]" and vs = "[]"
      and opt = "\<lparr>o_name = ''num_threads'', o_type = SB_ARG_TYPE_INT, o_values = [], o_ignore = False\<rparr>"]
  by (simp add: is_digit_def digits_val_def digit_val_def)

text \<open>The values \<open>write_config\<close> prints for an option, if none of them needs quoting, are
  exactly the values \<open>read_config\<close> parses from that line, in the same order.\<close>

theorem config_values_roundtrip:
  assumes "list_all plain_value vs"
  shows "parse_values ('' '' @ write_values (map mk_value vs) @ [CHR 0x0A]) = (vs, True)"
  using parse_written_values [OF assms] parse_values_space [OF isspace_consts(1)] by simp

theorem config_values_roundtrip_witness:
  "parse_values ('' '' @ write_values (map mk_value [''1213'', ''1020'', ''all'']) @ [CHR 0x0A])
     = ([''1213'', ''1020'', ''all''], True)"
  by (rule config_values_roundtrip) (simp add: plain_value_def isspace_def)

text \<open>A configuration file written by \<open>write_config\<close> is not read back under the same
  names: the writer puts a blank before the equals sign and the reader keeps it in the name, so
  the option is not found under its own name in a store filled from the file.\<close>

theorem written_config_loses_name:
  assumes "options_wf [opt]" and "\<not> o_ignore opt" and "cstring (write_values (o_values opt))"
    and "CHR ''='' \<notin> set (o_name opt)" and "CHR 0x0A \<notin> set (o_name opt @ write_values (o_values opt))"
    and "length (o_name opt @ write_values (o_values opt)) + 4 < MAXSTRLEN"
  shows "find_option (snd (read_config (fst (write_config [opt])) [])) (o_name opt) = None"
proof -
  let ?n = "o_name opt" and ?v = "write_values (o_values opt)"
  let ?line = "?n @ '' = '' @ ?v"
  have out: "fst (write_config [opt]) = ?line @ [CHR 0x0A]" using assms(2) by simp
  have fg: "fgets_take (MAXSTRLEN - 1) (?line @ [CHR 0x0A]) = (?line @ [CHR 0x0A], [])"
    using fgets_take_line [of ?line "MAXSTRLEN - 1" "[]"] assms(5,6) by simp
  have "cstring (?line @ [CHR 0x0A])" using assms(1,3) by (simp add: options_wf_def)
  moreover have "strchr_split CHR ''='' ((?n @ '' '') @ CHR ''='' # ('' '' @ ?v @ [CHR 0x0A])) = Some (?n @ '' '', '' '' @ ?v @ [CHR 0x0A])"
    using assms(4) by (intro strchr_split_append) simp
  moreover obtain pvs ok where "parse_values ('' '' @ ?v @ [CHR 0x0A]) = (pvs, ok)" by force
  ultimately have "read_config_line [] (?line @ [CHR 0x0A]) = (ok,
      [\<lparr>o_name = convert_dashes (?n @ '' ''), o_type = SB_ARG_TYPE_NULL,
        o_values = map mk_value pvs, o_ignore = False\<rparr>])"
    by (simp add: read_config_line_def add_option_def find_option_def upd_option_def upd_values_def
        foldl_add_value free_values_def)
  then have "\<exists>vs. snd (read_config (fst (write_config [opt])) []) =
      [\<lparr>o_name = convert_dashes (?n @ '' ''), o_type = SB_ARG_TYPE_NULL, o_values = vs, o_ignore = False\<rparr>]"
    unfolding out using fg by (subst read_config.simps) (auto simp: read_config.simps)
  moreover have "convert_dashes (?n @ '' '') \<noteq> convert_dashes ?n"
    using length_convert_dashes [of "?n @ '' ''"] length_convert_dashes [of ?n] by fastforce
  ultimately show ?thesis
    using assms(1) by (auto simp: find_option_def opt_name_cmp_0 options_wf_def)
qed

theorem written_config_loses_name_witness:
  "find_option (snd (read_config (fst (write_config
     [\<lparr>o_name = ''mysql_db'', o_type = SB_ARG_TYPE_STRING, o_values = [mk_value ''sbtest''], o_ignore = False\<rparr>])) []))
     ''mysql_db'' = None"
  using written_config_loses_name [of "\<lparr>o_name = ''mysql_db'', o_type = SB_ARG_TYPE_STRING,
      o_values = [mk_value ''sbtest''], o_ignore = False\<rparr>"]
  by (simp add: options_wf_def MAXSTRLEN_def)

text \<open>A size is printed scaled down by the largest power of 1024 that fits it, with the
  matching modifier, up to the terabyte range. From 1024^5 on the modifier printed is the NUL that
  ends the table of modifiers, so the unit is lost.\<close>

theorem print_value_size_modifier:
  assumes "k \<le> 5" and "k = 0 \<or> 1024 ^ k \<le> v" and "k = 5 \<or> v < 1024 ^ Suc k"
  shows "sb_print_value_size v =
    (v / 1024 ^ k, if k = 0 then None else if k = 5 then Some CHR 0x00 else Some (sizemods ! (k - 1)))"
proof -
  have "length sizemods = 4" by (simp add: sizemods_def)
  moreover have "size_steps 5 v = (k, v / 1024 ^ k)" using size_steps_eq [of k 5 v] assms by blast
  ultimately show ?thesis using assms(1) by (auto simp: sb_print_value_size_def nth_append)
qed

theorem print_value_size_modifier_witness:
  "sb_print_value_size 3072 = (3, Some CHR ''K'')"
  using print_value_size_modifier [of 1 3072] by (simp add: sizemods_def)

end
