(* ===== verification/SB_Random.thy ===== *)
theory SB_Random
  imports Complex_Main Prelude
begin

text \<open>
  Random numbers of \<open>sysbench/sysbench.c\<close> (\<open>sb_rand\<close> and the functions below it). The C library's
  generators are streams: \<open>lrand\<close> gives the results of the successive calls of \<open>lrand48\<close>
  (non-negative by POSIX), \<open>drand\<close> those of \<open>drand48\<close>. A division by zero or a signed overflow has no
  result (\<^const>\<open>None\<close>); unsigned arithmetic wraps. \<open>double\<close> is the ideal \<^typ>\<open>real\<close>.
\<close>

section \<open>State\<close>

datatype rand_dist =
  DIST_TYPE_UNIFORM | DIST_TYPE_GAUSSIAN | DIST_TYPE_SPECIAL | DIST_TYPE_PARETO

record rnd_state =
  lrand :: "nat \<Rightarrow> nat"
  lpos :: nat
  drand :: "nat \<Rightarrow> real"
  dpos :: nat
  rand_type :: rand_dist
  rand_iter :: u32
  rand_pct :: u32
  rand_res :: u32
  pareto_power :: real
  rnd_seed :: u64

definition SB_MAX_RND :: nat where "SB_MAX_RND = 0x3fffffff"

definition LARGE_PRIME :: nat where "LARGE_PRIME = 2147483647"

definition sb_rnd :: "rnd_state \<Rightarrow> nat \<times> rnd_state" where
  "sb_rnd s = (lrand s (lpos s) mod SB_MAX_RND, s\<lparr>lpos := lpos s + 1\<rparr>)"

definition sb_rnd_double :: "rnd_state \<Rightarrow> real \<times> rnd_state" where
  "sb_rnd_double s = (drand s (dpos s), s\<lparr>dpos := dpos s + 1\<rparr>)"

text \<open>The \<open>int\<close> expression \<open>b - a + 1\<close>, which overflows for ranges wider than \<open>INT_MAX\<close>.\<close>

definition range_width :: "int \<Rightarrow> int \<Rightarrow> int option" where
  "range_width a b =
     (if INT_MIN \<le> b - a \<and> b - a + 1 \<le> INT_MAX then Some (b - a + 1) else None)"

section \<open>Distributions\<close>

definition sb_rand_uniform :: "int \<Rightarrow> int \<Rightarrow> rnd_state \<Rightarrow> (int \<times> rnd_state) option" where
  "sb_rand_uniform a b s =
     (case range_width a b of
        None \<Rightarrow> None
      | Some t \<Rightarrow>
          (if t = 0 then None
           else let (r, s') = sb_rnd s in Some (to_int32 (a + int r smod t), s')))"

text \<open>\<open>for (i = 0; i < rand_iter; i++) sum += sb_rnd() % t\<close>, with \<open>sum\<close> read back as unsigned.\<close>

fun sum_draws :: "nat \<Rightarrow> u32 \<Rightarrow> u32 \<Rightarrow> rnd_state \<Rightarrow> (u32 \<times> rnd_state) option" where
  "sum_draws 0 t acc s = Some (acc, s)"
| "sum_draws (Suc n) t acc s =
     (if t = 0 then None
      else let (r, s') = sb_rnd s in sum_draws n t (acc + of_nat (r mod unat t)) s')"

definition gaussian_part :: "int \<Rightarrow> u32 \<Rightarrow> rnd_state \<Rightarrow> (int \<times> rnd_state) option" where
  "gaussian_part a t s =
     (case sum_draws (unat (rand_iter s)) t 0 s of
        None \<Rightarrow> None
      | Some (sm, s') \<Rightarrow>
          (if rand_iter s = 0 then None
           else Some (to_int32 (uint (word_of_int a + sm div rand_iter s)), s')))"

definition sb_rand_gaussian :: "int \<Rightarrow> int \<Rightarrow> rnd_state \<Rightarrow> (int \<times> rnd_state) option" where
  "sb_rand_gaussian a b s =
     (case range_width a b of
        None \<Rightarrow> None
      | Some t \<Rightarrow> gaussian_part a (word_of_int t) s)"

definition special_part :: "u32 \<Rightarrow> u32 \<Rightarrow> u32 \<Rightarrow> u32" where
  "special_part t pct res =
     (let d = t * pct div 100;
          d = (if d < 1 then 1 else d)
      in res mod d + (t div 2 - t * pct div (100 * 2)))"

definition sb_rand_special :: "int \<Rightarrow> int \<Rightarrow> rnd_state \<Rightarrow> (int \<times> rnd_state) option" where
  "sb_rand_special a b s =
     (if a \<ge> b then Some (0, s)
      else case range_width a b of
        None \<Rightarrow> None
      | Some w \<Rightarrow>
          (if rand_res s = 100 then None
           else let t = word_of_int w; range_size = t * (100 div (100 - rand_res s)) in
             if range_size = 0 then None
             else let (r, s') = sb_rnd s; res = of_nat (r mod unat range_size) in
               if res < t then gaussian_part a t s'
               else Some (to_int32 (uint (word_of_int a + special_part t (rand_pct s) res)), s')))"

text \<open>Conversion of a \<open>double\<close> to \<open>int\<close>: truncation, undefined out of range.\<close>

definition double_to_int :: "real \<Rightarrow> int option" where
  "double_to_int x =
     (let i = (if 0 \<le> x then \<lfloor>x\<rfloor> else \<lceil>x\<rceil>) in if INT_MIN \<le> i \<and> i \<le> INT_MAX then Some i else None)"

definition sb_rand_pareto :: "int \<Rightarrow> int \<Rightarrow> rnd_state \<Rightarrow> (int \<times> rnd_state) option" where
  "sb_rand_pareto a b s =
     (case range_width a b of
        None \<Rightarrow> None
      | Some t \<Rightarrow>
          (let (u, s') = sb_rnd_double s in
           case double_to_int (of_int a + of_int t * (u powr pareto_power s)) of
             None \<Rightarrow> None
           | Some r \<Rightarrow> Some (r, s')))"

definition sb_rand :: "int \<Rightarrow> int \<Rightarrow> rnd_state \<Rightarrow> (int \<times> rnd_state) option" where
  "sb_rand a b s =
     (case rand_type s of
        DIST_TYPE_UNIFORM \<Rightarrow> sb_rand_uniform a b s
      | DIST_TYPE_GAUSSIAN \<Rightarrow> sb_rand_gaussian a b s
      | DIST_TYPE_SPECIAL \<Rightarrow> sb_rand_special a b s
      | DIST_TYPE_PARETO \<Rightarrow> sb_rand_pareto a b s)"

text \<open>\<open>rnd_seed % (b - a + 1)\<close> converts the width to \<open>unsigned long long\<close>.\<close>

definition sb_rand_uniq :: "int \<Rightarrow> int \<Rightarrow> rnd_state \<Rightarrow> (int \<times> rnd_state) option" where
  "sb_rand_uniq a b s =
     (case range_width a b of
        None \<Rightarrow> None
      | Some w \<Rightarrow>
          (if w = 0 then None
           else let res = to_int32 (uint (ucast (rnd_seed s mod word_of_int w) :: u32)) in
             if INT_MIN \<le> res + a \<and> res + a \<le> INT_MAX
             then Some (res + a, s\<lparr>rnd_seed := rnd_seed s + of_nat LARGE_PRIME\<rparr>)
             else None))"

text \<open>\<open>sb_rand_str\<close>: the format is read up to its NUL, one character of the buffer is written for
  each of its characters; no NUL is written. Writing past the buffer has no result.\<close>

fun sb_rand_str :: "string \<Rightarrow> string \<Rightarrow> rnd_state \<Rightarrow> (string \<times> rnd_state) option" where
  "sb_rand_str [] buf s = Some (buf, s)"
| "sb_rand_str (c # fmt) [] s = None"
| "sb_rand_str (c # fmt) (_ # buf) s =
     (case (if c = CHR ''#'' then sb_rand_uniform 48 57 s
            else if c = CHR ''@'' then sb_rand_uniform 97 122 s
            else Some (of_char c, s)) of
        None \<Rightarrow> None
      | Some (r, s') \<Rightarrow>
          (case sb_rand_str fmt buf s' of
             None \<Rightarrow> None
           | Some (out, s'') \<Rightarrow> Some (char_of (nat (r mod 256)) # out, s'')))"

fun rand_seq :: "(int \<Rightarrow> int \<Rightarrow> 's \<Rightarrow> (int \<times> 's) option) \<Rightarrow> nat \<Rightarrow> int \<Rightarrow> int \<Rightarrow> 's \<Rightarrow> (int list \<times> 's) option" where
  "rand_seq gen 0 a b s = Some ([], s)"
| "rand_seq gen (Suc n) a b s =
     (case gen a b s of
        None \<Rightarrow> None
      | Some (r, s') \<Rightarrow>
          (case rand_seq gen n a b s' of None \<Rightarrow> None | Some (rs, s'') \<Rightarrow> Some (r # rs, s'')))"

section \<open>The contract of a generator\<close>

locale range_generator =
  fixes gen :: "int \<Rightarrow> int \<Rightarrow> 's \<Rightarrow> (int \<times> 's) option" and ok :: "int \<Rightarrow> int \<Rightarrow> 's \<Rightarrow> bool"
  assumes in_range: "ok a b s \<Longrightarrow> \<exists>r s'. gen a b s = Some (r, s') \<and> a \<le> r \<and> r \<le> b \<and> ok a b s'"
begin

lemma seq_in_range:
  "ok a b s \<Longrightarrow> \<exists>rs s'. rand_seq gen n a b s = Some (rs, s') \<and> length rs = n \<and>
                       (\<forall>r \<in> set rs. a \<le> r \<and> r \<le> b) \<and> ok a b s'"
proof (induction n arbitrary: s)
  case (Suc n)
  from in_range [OF Suc.prems] obtain r s1 where r: "gen a b s = Some (r, s1)" "a \<le> r" "r \<le> b"
    and ok1: "ok a b s1" by blast
  from Suc.IH [OF ok1] r show ?case by fastforce
qed simp

end

section \<open>The distributions keep to their range\<close>

definition range_ok :: "int \<Rightarrow> int \<Rightarrow> bool" where
  "range_ok a b \<longleftrightarrow> INT_MIN \<le> a \<and> a \<le> b \<and> b \<le> INT_MAX \<and> b - a + 1 \<le> INT_MAX"

lemma range_width_ok: "range_ok a b \<Longrightarrow> range_width a b = Some (b - a + 1)"
  by (simp add: range_ok_def range_width_def)

lemma mod_le_pred: "0 < n \<Longrightarrow> m mod n \<le> n - (1 :: nat)"
  using mod_less_divisor [of n m] by linarith

lemma to_int32_offset:
  fixes x :: u32
  assumes "INT_MIN \<le> a + uint x" and "a + uint x \<le> INT_MAX"
  shows "to_int32 (uint (word_of_int a + x)) = a + uint x"
proof -
  have "word_of_int a + x = word_of_int (a + uint x)" by simp
  then have "uint (word_of_int a + x) = (a + uint x) mod 4294967296"
    by (simp only: uint_word_of_int) simp
  then show ?thesis using assms by (simp add: to_int32_def mod_simps)
qed

lemma sum_draws_bound:
  assumes "t \<noteq> 0"
  shows "\<exists>acc' k. sum_draws n t acc s = Some (acc', s\<lparr>lpos := k\<rparr>) \<and>
                  unat acc' \<le> unat acc + n * (unat t - 1)"
proof (induction n arbitrary: acc s)
  case 0
  show ?case by (auto intro: exI [of _ "lpos s"])
next
  case (Suc n)
  let ?d = "lrand s (lpos s) mod SB_MAX_RND mod unat t"
  have d: "?d \<le> unat t - 1"
    using assms by (intro mod_le_pred) (simp add: unat_gt_0)
  have "unat (acc + of_nat ?d) \<le> unat acc + unat (of_nat ?d :: u32)"
    by (simp add: unat_word_ariths)
  also have "unat (of_nat ?d :: u32) \<le> ?d" by (simp add: unat_of_nat)
  finally have a: "unat (acc + of_nat ?d) \<le> unat acc + (unat t - 1)" using d by linarith
  from Suc.IH [of "acc + of_nat ?d" "s\<lparr>lpos := lpos s + 1\<rparr>"] a assms
  show ?case by (fastforce simp: sb_rnd_def)
qed

lemma gaussian_part_range:
  assumes t: "t \<noteq> 0" and it: "rand_iter s \<noteq> 0"
    and lo: "INT_MIN \<le> a" and hi: "a + uint t - 1 \<le> INT_MAX"
  shows "\<exists>r k. gaussian_part a t s = Some (r, s\<lparr>lpos := k\<rparr>) \<and> a \<le> r \<and> r \<le> a + uint t - 1"
proof -
  let ?n = "unat (rand_iter s)"
  obtain sm k where sm: "sum_draws ?n t 0 s = Some (sm, s\<lparr>lpos := k\<rparr>)" "unat sm \<le> ?n * (unat t - 1)"
    using sum_draws_bound [OF t, of ?n 0 s] by auto
  have "0 < ?n" "0 < unat t" using it t by (simp_all add: unat_gt_0)
  have "unat (sm div rand_iter s) = unat sm div ?n" by (simp add: unat_div)
  also have "\<dots> \<le> unat t - 1"
    using sm(2) \<open>0 < ?n\<close> by (metis div_le_mono nonzero_mult_div_cancel_left not_gr_zero)
  finally have q: "uint (sm div rand_iter s) \<le> uint t - 1"
    using \<open>0 < unat t\<close> unfolding uint_nat by linarith
  have "to_int32 (uint (word_of_int a + sm div rand_iter s)) = a + uint (sm div rand_iter s)"
    using q lo hi uint_nonnegative [of "sm div rand_iter s"] by (intro to_int32_offset) linarith+
  with sm(1) it q show ?thesis by (auto simp: gaussian_part_def)
qed

lemma special_part_range:
  fixes t pct res :: u32
  assumes t: "2 \<le> unat t" and pct: "unat pct \<le> 100"
  shows "unat (special_part t pct res) \<le> unat t - 1"
proof -
  let ?y = "unat (t * pct)"
  define d where "d = (if t * pct div 100 < 1 then 1 else t * pct div 100)"
  have y: "?y \<le> 100 * unat t"
  proof -
    have "?y \<le> unat t * unat pct" by (simp add: unat_word_ariths)
    also have "\<dots> \<le> unat t * 100" using pct by simp
    finally show ?thesis by simp
  qed
  have d0: "unat d = (if ?y div 100 < 1 then 1 else ?y div 100)"
    by (simp add: d_def word_less_nat_alt unat_div)
  have r: "unat (res mod d) \<le> unat d - 1"
    using d0 mod_le_pred [of "unat d" "unat res"] by (simp add: unat_mod split: if_splits)
  have sub: "unat (t div 2 - t * pct div (100 * 2)) = unat t div 2 - ?y div 200"
  proof -
    have "?y div 200 \<le> unat t div 2" using y by linarith
    then have "t * pct div (100 * 2) \<le> t div 2" by (simp add: word_le_nat_alt unat_div)
    then show ?thesis by (simp add: unat_sub unat_div)
  qed
  have "unat (res mod d) + unat (t div 2 - t * pct div (100 * 2)) \<le> unat t - 1"
    using r sub d0 y t by (auto split: if_splits) linarith+
  moreover have "unat (special_part t pct res)
      \<le> unat (res mod d) + unat (t div 2 - t * pct div (100 * 2))"
    unfolding special_part_def Let_def d_def by (simp add: unat_word_ariths)
  ultimately show ?thesis by linarith
qed

lemma smod_range:
  assumes "0 < t"
  shows "0 \<le> int r smod t" and "int r smod t < t"
proof -
  have "int r smod t = int r mod t"
    using assms by (cases "r = 0") (auto simp: signed_modulo_int_def signed_divide_int_def minus_div_mult_eq_mod)
  then show "0 \<le> int r smod t" "int r smod t < t" using assms by simp_all
qed

lemma uniform_in_range:
  assumes "range_ok a b"
  shows "\<exists>r k. sb_rand_uniform a b s = Some (r, s\<lparr>lpos := k\<rparr>) \<and> a \<le> r \<and> r \<le> b"
proof -
  have w: "0 < b - a + 1" using assms by (simp add: range_ok_def)
  let ?x = "int (fst (sb_rnd s)) smod (b - a + 1)"
  have x: "0 \<le> ?x" "?x < b - a + 1" using smod_range [OF w] by blast+
  then have "to_int32 (a + ?x) = a + ?x"
    using assms by (intro to_int32_id) (auto simp: range_ok_def)
  then show ?thesis
    using x w by (auto simp: sb_rand_uniform_def range_width_ok [OF assms] sb_rnd_def)
qed

lemma width_word:
  assumes "range_ok a b"
  shows "uint (word_of_int (b - a + 1) :: u32) = b - a + 1" and "(word_of_int (b - a + 1) :: u32) \<noteq> 0"
    and "unat (word_of_int (b - a + 1) :: u32) = nat (b - a + 1)"
proof -
  show u: "uint (word_of_int (b - a + 1) :: u32) = b - a + 1"
    using assms by (simp del: of_int_add of_int_diff add: uint_word_of_int range_ok_def)
  have "0 < b - a + 1" using assms by (simp add: range_ok_def)
  then show "(word_of_int (b - a + 1) :: u32) \<noteq> 0" using u by (metis less_irrefl unsigned_0)
  show "unat (word_of_int (b - a + 1) :: u32) = nat (b - a + 1)"
    unfolding unat_eq_nat_uint u by (rule refl)
qed

definition uniform_ok :: "int \<Rightarrow> int \<Rightarrow> rnd_state \<Rightarrow> bool" where
  "uniform_ok a b s \<longleftrightarrow> range_ok a b"

definition gaussian_ok :: "int \<Rightarrow> int \<Rightarrow> rnd_state \<Rightarrow> bool" where
  "gaussian_ok a b s \<longleftrightarrow> range_ok a b \<and> rand_iter s \<noteq> 0"

definition special_ok :: "int \<Rightarrow> int \<Rightarrow> rnd_state \<Rightarrow> bool" where
  "special_ok a b s \<longleftrightarrow> range_ok a b \<and> a < b \<and> rand_iter s \<noteq> 0 \<and> unat (rand_pct s) \<le> 100 \<and>
     unat (rand_res s) < 100 \<and> nat (b - a + 1) * (100 div (100 - unat (rand_res s))) < 2 ^ 32"

definition pareto_ok :: "int \<Rightarrow> int \<Rightarrow> rnd_state \<Rightarrow> bool" where
  "pareto_ok a b s \<longleftrightarrow> range_ok a b \<and> 0 \<le> a \<and> 0 < pareto_power s \<and>
     (\<forall>i. 0 \<le> drand s i \<and> drand s i < 1)"

lemma gaussian_in_range:
  assumes "gaussian_ok a b s"
  shows "\<exists>r k. sb_rand_gaussian a b s = Some (r, s\<lparr>lpos := k\<rparr>) \<and> a \<le> r \<and> r \<le> b"
proof -
  have r: "range_ok a b" "rand_iter s \<noteq> 0" using assms by (auto simp: gaussian_ok_def)
  let ?t = "word_of_int (b - a + 1) :: u32"
  have "\<exists>r k. gaussian_part a ?t s = Some (r, s\<lparr>lpos := k\<rparr>) \<and> a \<le> r \<and> r \<le> a + uint ?t - 1"
    using r width_word [OF r(1)]
    by (intro gaussian_part_range) (simp_all del: of_int_add of_int_diff add: range_ok_def)
  then show ?thesis
    unfolding sb_rand_gaussian_def range_width_ok [OF r(1)] width_word(1) [OF r(1)] by simp
qed

lemma range_size_nonzero:
  fixes t res :: u32
  assumes res: "unat res < 100" and t: "t \<noteq> 0"
    and lt: "unat t * (100 div (100 - unat res)) < 2 ^ 32"
  shows "t * (100 div (100 - res)) \<noteq> 0"
proof -
  let ?k = "100 div (100 - res)"
  have "res \<le> 100" using res by (simp add: word_le_nat_alt)
  then have k: "unat ?k = 100 div (100 - unat res)" by (simp add: unat_div unat_sub)
  have "1 \<le> unat ?k" unfolding k using res by (simp add: Suc_le_eq div_greater_zero_iff)
  then have "0 < unat t * unat ?k" using t by (metis Suc_le_eq nat_0_less_mult_iff One_nat_def unat_gt_0)
  moreover have "unat (t * ?k) = unat t * unat ?k"
    using lt unfolding k [symmetric] by (simp add: unat_word_ariths)
  ultimately show ?thesis by (metis less_irrefl unat_0)
qed

lemma special_in_range:
  assumes ok: "special_ok a b s"
  shows "\<exists>r k. sb_rand_special a b s = Some (r, s\<lparr>lpos := k\<rparr>) \<and> a \<le> r \<and> r \<le> b"
proof -
  have r: "range_ok a b" "a < b" "rand_iter s \<noteq> 0" "unat (rand_pct s) \<le> 100"
    "unat (rand_res s) < 100" "nat (b - a + 1) * (100 div (100 - unat (rand_res s))) < 2 ^ 32"
    using ok by (auto simp: special_ok_def)
  let ?t = "word_of_int (b - a + 1) :: u32"
  let ?rs = "?t * (100 div (100 - rand_res s))"
  define s1 where "s1 = s\<lparr>lpos := lpos s + 1\<rparr>"
  define res :: u32 where "res = of_nat (lrand s (lpos s) mod SB_MAX_RND mod unat ?rs)"
  note w = width_word [OF r(1)]
  have "\<exists>r k. gaussian_part a ?t s1 = Some (r, s1\<lparr>lpos := k\<rparr>) \<and> a \<le> r \<and> r \<le> a + uint ?t - 1"
    using r w by (intro gaussian_part_range)
      (simp_all del: of_int_add of_int_diff add: range_ok_def s1_def)
  then have g: "\<exists>r k. gaussian_part a ?t s1 = Some (r, s\<lparr>lpos := k\<rparr>) \<and> a \<le> r \<and> r \<le> b"
    unfolding w(1) by (simp add: s1_def)
  let ?x = "special_part ?t (rand_pct s) res"
  have "2 \<le> nat (b - a + 1)" using r(2) by simp
  then have t2: "2 \<le> unat ?t" unfolding w(3) .
  from special_part_range [OF this r(4)] have "unat ?x \<le> unat ?t - 1" .
  then have x: "uint ?x \<le> b - a" using w t2 unfolding uint_nat by linarith
  then have "to_int32 (uint (word_of_int a + ?x)) = a + uint ?x"
    using r(1) uint_nonnegative [of ?x] unfolding range_ok_def by (intro to_int32_offset) linarith+
  moreover have "?rs \<noteq> 0" "rand_res s \<noteq> 100"
    using range_size_nonzero [OF r(5) w(2)] r(5,6) unfolding w(3) by auto
  ultimately show ?thesis
    using x g r(2)
    unfolding sb_rand_special_def range_width_ok [OF r(1)]
    by (auto simp del: of_int_add of_int_diff simp: Let_def sb_rnd_def res_def [symmetric] s1_def)
qed

lemma pareto_in_range:
  assumes ok: "pareto_ok a b s"
  shows "\<exists>r k. sb_rand_pareto a b s = Some (r, s\<lparr>dpos := k\<rparr>) \<and> a \<le> r \<and> r \<le> b"
proof -
  have r: "range_ok a b" "0 \<le> a" using ok by (auto simp: pareto_ok_def)
  let ?u = "drand s (dpos s) powr pareto_power s" and ?w = "b - a + 1"
  have w: "0 < ?w" using r by (simp add: range_ok_def)
  have u: "0 \<le> ?u" "?u < 1"
    using ok powr_less_mono2 [of "pareto_power s" "drand s (dpos s)" 1] by (auto simp: pareto_ok_def)
  let ?y = "of_int a + of_int ?w * ?u :: real"
  have "of_int ?w * ?u < of_int ?w" using u w by (simp add: mult_less_cancel_left2)
  then have y: "of_int a \<le> ?y" "?y < of_int (b + 1)"
    using u w by (simp_all only: of_int_add of_int_diff) (simp_all add: mult_nonneg_nonneg)
  then have "a \<le> \<lfloor>?y\<rfloor>" "\<lfloor>?y\<rfloor> \<le> b" by (simp_all only: le_floor_iff floor_le_iff)
  moreover have "0 \<le> ?y" using y(1) r(2) by linarith
  moreover have "INT_MIN \<le> \<lfloor>?y\<rfloor>" "\<lfloor>?y\<rfloor> \<le> INT_MAX"
    using calculation r(1) unfolding range_ok_def by linarith+
  ultimately have d: "double_to_int ?y = Some \<lfloor>?y\<rfloor>" by (simp only: double_to_int_def Let_def if_True simp_thms)
  show ?thesis
    unfolding sb_rand_pareto_def range_width_ok [OF r(1)] sb_rnd_double_def
    using \<open>a \<le> \<lfloor>?y\<rfloor>\<close> \<open>\<lfloor>?y\<rfloor> \<le> b\<close> by (simp only: option.case prod.case Let_def d) blast
qed

text \<open>The settings under which the configured distribution stays in range.\<close>

definition rand_ok :: "int \<Rightarrow> int \<Rightarrow> rnd_state \<Rightarrow> bool" where
  "rand_ok a b s \<longleftrightarrow>
     (case rand_type s of
        DIST_TYPE_UNIFORM \<Rightarrow> uniform_ok a b s
      | DIST_TYPE_GAUSSIAN \<Rightarrow> gaussian_ok a b s
      | DIST_TYPE_SPECIAL \<Rightarrow> special_ok a b s
      | DIST_TYPE_PARETO \<Rightarrow> pareto_ok a b s)"

lemmas rand_ok_defs = uniform_ok_def gaussian_ok_def special_ok_def pareto_ok_def rand_ok_def

lemma ok_position [simp]:
  "uniform_ok a b (s\<lparr>lpos := k\<rparr>) = uniform_ok a b s"
  "gaussian_ok a b (s\<lparr>lpos := k\<rparr>) = gaussian_ok a b s"
  "special_ok a b (s\<lparr>lpos := k\<rparr>) = special_ok a b s"
  "pareto_ok a b (s\<lparr>dpos := k\<rparr>) = pareto_ok a b s"
  by (simp_all add: rand_ok_defs)

interpretation unif: range_generator sb_rand_uniform uniform_ok
  by unfold_locales (use uniform_in_range in \<open>fastforce simp: uniform_ok_def\<close>)

interpretation gauss: range_generator sb_rand_gaussian gaussian_ok
  by unfold_locales (use gaussian_in_range in fastforce)

interpretation special: range_generator sb_rand_special special_ok
  by unfold_locales (use special_in_range in fastforce)

interpretation pareto: range_generator sb_rand_pareto pareto_ok
  by unfold_locales (use pareto_in_range in fastforce)

lemma sb_rand_in_range:
  assumes "rand_ok a b s"
  shows "\<exists>r s'. sb_rand a b s = Some (r, s') \<and> a \<le> r \<and> r \<le> b \<and> rand_ok a b s'"
proof (cases "rand_type s")
  case DIST_TYPE_UNIFORM
  with assms uniform_in_range [of a b s] show ?thesis
    by (fastforce simp: sb_rand_def rand_ok_def uniform_ok_def)
next
  case DIST_TYPE_GAUSSIAN
  with assms gaussian_in_range [of a b s] show ?thesis
    by (fastforce simp: sb_rand_def rand_ok_def)
next
  case DIST_TYPE_SPECIAL
  with assms special_in_range [of a b s] show ?thesis
    by (fastforce simp: sb_rand_def rand_ok_def)
next
  case DIST_TYPE_PARETO
  with assms pareto_in_range [of a b s] show ?thesis
    by (fastforce simp: sb_rand_def rand_ok_def)
qed

interpretation configured: range_generator sb_rand rand_ok
  by unfold_locales (fact sb_rand_in_range)

section \<open>Unique values\<close>

lemma uniq_step:
  assumes r: "range_ok a b"
  shows "sb_rand_uniq a b s = Some (a + int (unat (rnd_seed s) mod nat (b - a + 1)),
           s\<lparr>rnd_seed := rnd_seed s + of_nat LARGE_PRIME\<rparr>)"
proof -
  let ?w = "b - a + 1" and ?n = "nat (b - a + 1)"
  have n: "0 < ?w" "?w \<le> INT_MAX" using r by (simp_all add: range_ok_def)
  have "uint (word_of_int ?w :: u64) = ?w"
    using n by (simp del: of_int_add of_int_diff add: uint_word_of_int)
  then have w: "unat (word_of_int ?w :: u64) = ?n" by (simp only: unat_eq_nat_uint)
  let ?m = "unat (rnd_seed s) mod ?n"
  have m: "?m < ?n" using n by simp
  have "?n \<le> 2147483647" using n(2) by linarith
  then have m32: "?m < 2 ^ 32" using m by (simp del: mod_less_divisor)
  have "unat (rnd_seed s mod word_of_int ?w) = ?m" by (simp only: unat_mod w)
  then have "unat (ucast (rnd_seed s mod word_of_int ?w) :: u32) = ?m"
    using m32 by (simp only: unsigned_ucast_eq) (simp add: take_bit_nat_eq_self)
  then have u: "uint (ucast (rnd_seed s mod word_of_int ?w) :: u32) = int ?m" by (simp only: uint_nat)
  have i: "to_int32 (int ?m) = int ?m" using m n by (intro to_int32_id) linarith+
  have "INT_MIN \<le> int ?m + a \<and> int ?m + a \<le> INT_MAX"
    using m n r unfolding range_ok_def by linarith
  then show ?thesis
    using n(1) unfolding sb_rand_uniq_def range_width_ok [OF r] option.case Let_def u i
    by (simp add: add.commute)
qed

lemma uniq_seq:
  assumes r: "range_ok a b"
  shows "unat (rnd_seed s) + n * LARGE_PRIME < 2 ^ 64 \<Longrightarrow>
         \<exists>s'. rand_seq sb_rand_uniq n a b s =
           Some (map (\<lambda>k. a + int ((unat (rnd_seed s) + k * LARGE_PRIME) mod nat (b - a + 1))) [0..<n], s')"
proof (induction n arbitrary: s)
  case (Suc n)
  let ?s = "s\<lparr>rnd_seed := rnd_seed s + of_nat LARGE_PRIME\<rparr>"
  have "unat (rnd_seed s) + LARGE_PRIME < 2 ^ 64" using Suc.prems by simp
  then have u: "unat (rnd_seed s + of_nat LARGE_PRIME) = unat (rnd_seed s) + LARGE_PRIME"
    by (simp add: unat_word_ariths mod_simps)
  have "unat (rnd_seed ?s) + n * LARGE_PRIME < 2 ^ 64" using Suc.prems u by simp
  from Suc.IH [OF this] u show ?case
    unfolding upt_conv_Cons [OF zero_less_Suc] map_Suc_upt [symmetric]
    by (auto simp: uniq_step [OF r] algebra_simps)
qed simp

lemma residues_distinct:
  fixes w p x :: nat
  assumes "coprime w p" and "i < w" and "j < w" and "(x + i * p) mod w = (x + j * p) mod w"
  shows "i = j"
proof -
  have "i = j" if "i \<le> j" "j < w" "(x + i * p) mod w = (x + j * p) mod w" for i j
  proof -
    have "w dvd (x + j * p) - (x + i * p)"
      using that by (metis add_left_mono mod_eq_dvd_iff_nat mult_le_mono1)
    also have "(x + j * p) - (x + i * p) = (j - i) * p" by (simp add: diff_mult_distrib)
    finally have "w dvd j - i" using assms(1) by (simp add: coprime_dvd_mult_left_iff)
    with that show "i = j" by (metis diff_is_0_eq dvd_imp_le le_antisym less_imp_diff_less not_gr_zero not_less)
  qed
  with assms show ?thesis by (metis nat_le_linear)
qed

section \<open>Properties\<close>

text \<open>C25: The random number functions keep to the range they are asked for: under the conditions of the configured
  distribution, any number of successive calls of \<open>sb_rand\<close> succeeds (no division by zero, no undefined conversion)
  and every result is between \<open>a\<close> and \<open>b\<close>, also where the sums of the gaussian and special distributions wrap around.
  For all distributions \<open>a \<le> b\<close>, and the width of the range is an \<open>int\<close>. Gaussian: \<open>rand-iter\<close> is not 0. Special:
  \<open>rand-iter\<close> is not 0, \<open>rand-pct\<close> is at most 100, \<open>rand-res\<close> below 100, the width times \<open>100 div (100 - rand-res)\<close> is below
  \<open>2 ^ 32\<close>, and \<open>a < b\<close> (for \<open>a = b\<close> the function returns 0, inside the range or not). Pareto: \<open>a\<close> is not negative, the
  power is positive and \<open>drand48\<close> returns numbers of [0, 1).\<close>

theorem sb_rand_range:
  assumes "rand_ok a b s"
  shows "\<exists>rs s'. rand_seq sb_rand n a b s = Some (rs, s') \<and> length rs = n \<and>
                 (\<forall>r \<in> set rs. a \<le> r \<and> r \<le> b)"
  using configured.seq_in_range [OF assms, of n] by blast

definition default_rnd :: rnd_state where
  "default_rnd = \<lparr>lrand = (\<lambda>i. 1103515245 * i + 12345), lpos = 0, drand = (\<lambda>i. 1 / 2), dpos = 0,
     rand_type = DIST_TYPE_SPECIAL, rand_iter = 12, rand_pct = 1, rand_res = 75, pareto_power = 7,
     rnd_seed = 2147483647\<rparr>"

theorem sb_rand_range_witness:
  "rand_ok 1 10000 default_rnd \<and>
   (\<exists>rs s'. rand_seq sb_rand 50 1 10000 default_rnd = Some (rs, s') \<and> length rs = 50 \<and>
            (\<forall>r \<in> set rs. 1 \<le> r \<and> r \<le> 10000))"
proof -
  have "rand_ok 1 10000 default_rnd" by (simp add: rand_ok_defs default_rnd_def range_ok_def)
  with sb_rand_range [OF this, of 50] show ?thesis by blast
qed

text \<open>C31: \<open>sb_rand_uniq\<close> is a permutation of its range: any \<open>n\<close> successive calls, up to the width of
  the range, return different values inside it, as long as the width is coprime to the increment
  and the seed does not reach \<open>2 ^ 64\<close>.\<close>

theorem sb_rand_uniq_distinct:
  assumes "range_ok a b" and "coprime (nat (b - a + 1)) LARGE_PRIME" and "n \<le> nat (b - a + 1)"
    and "unat (rnd_seed s) + n * LARGE_PRIME < 2 ^ 64"
  shows "\<exists>rs s'. rand_seq sb_rand_uniq n a b s = Some (rs, s') \<and> length rs = n \<and> distinct rs \<and>
                 set rs \<subseteq> {a..b}"
proof -
  let ?w = "nat (b - a + 1)"
  let ?f = "\<lambda>k. a + int ((unat (rnd_seed s) + k * LARGE_PRIME) mod ?w)"
  obtain s' where s': "rand_seq sb_rand_uniq n a b s = Some (map ?f [0..<n], s')"
    using uniq_seq [OF assms(1,4)] by blast
  have "inj_on ?f (set [0..<n])"
  proof (rule inj_onI)
    fix i j assume "i \<in> set [0..<n]" "j \<in> set [0..<n]" and eq: "?f i = ?f j"
    then have ij: "i < ?w" "j < ?w" using assms(3) by auto
    from eq have "(unat (rnd_seed s) + i * LARGE_PRIME) mod ?w
        = (unat (rnd_seed s) + j * LARGE_PRIME) mod ?w" by linarith
    from residues_distinct [OF assms(2) ij this] show "i = j" .
  qed
  then have "distinct (map ?f [0..<n])" by (simp add: distinct_map)
  moreover have "set (map ?f [0..<n]) \<subseteq> {a..b}"
  proof -
    have w: "0 < ?w" "int ?w = b - a + 1" using assms(1) by (simp_all add: range_ok_def)
    have "?f k \<le> b" for k
      using mod_less_divisor [OF w(1), of "unat (rnd_seed s) + k * LARGE_PRIME"] w(2) by linarith
    then show ?thesis by auto
  qed
  moreover have "length (map ?f [0..<n]) = n" by (simp only: length_map length_upt)
  ultimately show ?thesis using s' by blast
qed

theorem sb_rand_uniq_distinct_witness:
  "\<exists>rs s'. rand_seq sb_rand_uniq 10 1 10 default_rnd = Some (rs, s') \<and> distinct rs \<and> set rs \<subseteq> {1..10}"
proof -
  have "coprime (10 :: nat) LARGE_PRIME"
    by (simp add: LARGE_PRIME_def coprime_iff_gcd_eq_1 gcd_non_0_nat)
  then have "coprime (nat (10 - 1 + 1)) LARGE_PRIME" by simp
  moreover have "range_ok 1 10" by (simp add: range_ok_def)
  moreover have "unat (rnd_seed default_rnd) + 10 * LARGE_PRIME < 2 ^ 64"
    by (simp add: default_rnd_def LARGE_PRIME_def)
  ultimately show ?thesis using sb_rand_uniq_distinct [of 1 10 10 default_rnd] by auto
qed

text \<open>What \<open>sb_rand_str\<close> may write for a format character.\<close>

definition str_char_ok :: "char \<Rightarrow> char \<Rightarrow> bool" where
  "str_char_ok c d \<longleftrightarrow>
     (if c = CHR ''#'' then is_digit d
      else if c = CHR ''@'' then 97 \<le> (of_char d :: nat) \<and> of_char d \<le> (122 :: nat)
      else d = c)"

lemma str_char_gen:
  "\<exists>r s'. (if c = CHR ''#'' then sb_rand_uniform 48 57 s
          else if c = CHR ''@'' then sb_rand_uniform 97 122 s
          else Some (of_char c, s)) = Some (r, s') \<and> str_char_ok c (char_of (nat (r mod 256)))"
proof -
  obtain d s1 where d: "sb_rand_uniform 48 57 s = Some (d, s1)" "48 \<le> d" "d \<le> 57"
    using unif.in_range [of 48 57 s] by (auto simp: uniform_ok_def range_ok_def)
  obtain l s2 where l: "sb_rand_uniform 97 122 s = Some (l, s2)" "97 \<le> l" "l \<le> 122"
    using unif.in_range [of 97 122 s] by (auto simp: uniform_ok_def range_ok_def)
  have "d mod 256 = d" "l mod 256 = l" using d l by auto
  moreover have "char_of (nat (of_char c mod 256)) = c"
    by (simp only: of_char_mod_256 nat_of_char char_of_char)
  ultimately show ?thesis
    using d l by (auto simp: str_char_ok_def is_digit_def of_char_of)
qed

text \<open>\<open>sb_rand_str\<close> fills a buffer that is long enough, without touching what follows: every
  format character \<open>#\<close> becomes a decimal digit, every \<open>@\<close> a lower-case letter, every other
  character is copied, and the rest of the buffer is unchanged (no terminating NUL is written).\<close>

theorem sb_rand_str_format:
  "length fmt \<le> length buf \<Longrightarrow>
     \<exists>out s'. sb_rand_str fmt buf s = Some (out, s') \<and>
              drop (length fmt) out = drop (length fmt) buf \<and>
              list_all2 str_char_ok fmt (take (length fmt) out)"
proof (induction fmt buf s rule: sb_rand_str.induct)
  case (3 c fmt x buf s)
  obtain r s1 where r: "(if c = CHR ''#'' then sb_rand_uniform 48 57 s
      else if c = CHR ''@'' then sb_rand_uniform 97 122 s else Some (of_char c, s)) = Some (r, s1)"
    "str_char_ok c (char_of (nat (r mod 256)))"
    using str_char_gen by blast
  have "length fmt \<le> length buf" using "3.prems" by simp
  from "3.IH" [OF r(1) refl this] r show ?case
    unfolding sb_rand_str.simps(3) r(1) by auto
qed auto

theorem sb_rand_str_format_witness:
  "\<exists>out s'. sb_rand_str ''a#@'' ''xxxxx'' default_rnd = Some (out, s') \<and> drop (length ''a#@'') out = ''xx'' \<and>
            list_all2 str_char_ok ''a#@'' (take (length ''a#@'') out)"
  using sb_rand_str_format [of "''a#@''" "''xxxxx''" default_rnd] by simp

end
