(* ===== verification/Timer.thy ===== *)
theory Timer
  imports Prelude
begin

text \<open>
  Timers of \<open>sysbench/sb_timer.c\<close> and \<open>sb_timer.h\<close>. Counters are 64-bit words and wrap as in
  C; the clock (\<open>SB_GETTIME\<close>) is an argument, the time at which the operation reads it. An
  operation that calls \<open>abort\<close> has no result (\<^const>\<open>None\<close>); the messages it logs are returned.
  The statistics a timer holds are related to the list of measured durations
  (\<open>timer_stats\<close>), which is what merging the timers of all threads must preserve.
\<close>

section \<open>Data\<close>

datatype log_msg_priority =
  LOG_FATAL | LOG_ALERT | LOG_WARNING | LOG_NOTICE | LOG_INFO | LOG_DEBUG | LOG_MAX

type_synonym log = "(log_msg_priority \<times> string) list"

record timespec =
  tv_sec :: int
  tv_nsec :: int

datatype timer_state = TIMER_UNINITIALIZED | TIMER_INITIALIZED | TIMER_STOPPED | TIMER_RUNNING

record sb_timer =
  time_start :: timespec
  time_end :: timespec
  time_split :: timespec
  elapsed :: u64
  min_time :: u64
  max_time :: u64
  sum_time :: u64
  events :: u64
  queue_time :: u64
  timer_state :: timer_state

abbreviation zero_timespec :: timespec where
  "zero_timespec \<equiv> \<lparr>tv_sec = 0, tv_nsec = 0\<rparr>"

definition SEC2NS :: "u64 \<Rightarrow> u64" where
  "SEC2NS sec = sec * 1000000000"

definition TIMESPEC_DIFF :: "timespec \<Rightarrow> timespec \<Rightarrow> u64" where
  "TIMESPEC_DIFF a b =
     SEC2NS (word_of_int (tv_sec a - tv_sec b)) + word_of_int (tv_nsec a - tv_nsec b)"

section \<open>Operations\<close>

definition sb_timer_update :: "timespec \<Rightarrow> sb_timer \<Rightarrow> sb_timer" where
  "sb_timer_update now t =
     t\<lparr>time_end := now, elapsed := TIMESPEC_DIFF now (time_start t) + queue_time t\<rparr>"

definition sb_timer_reset :: "sb_timer \<Rightarrow> sb_timer" where
  "sb_timer_reset t =
     t\<lparr>min_time := 0xffffffffffffffff, max_time := 0, sum_time := 0, events := 0, elapsed := 0,
       queue_time := 0\<rparr>"

definition sb_timer_init :: "sb_timer \<Rightarrow> sb_timer" where
  "sb_timer_init t =
     (sb_timer_reset
       (t\<lparr>time_start := zero_timespec, time_end := zero_timespec, time_split := zero_timespec\<rparr>))
     \<lparr>timer_state := TIMER_INITIALIZED\<rparr>"

definition sb_timer_initialized :: "sb_timer \<Rightarrow> bool" where
  "sb_timer_initialized t \<longleftrightarrow> timer_state t \<noteq> TIMER_UNINITIALIZED"

definition sb_timer_running :: "sb_timer \<Rightarrow> bool" where
  "sb_timer_running t \<longleftrightarrow> timer_state t = TIMER_RUNNING"

definition sb_timer_start :: "timespec \<Rightarrow> sb_timer \<Rightarrow> (sb_timer \<times> log) option" where
  "sb_timer_start now t =
     (let go = t\<lparr>time_start := now, time_split := now, timer_state := TIMER_RUNNING\<rparr>
      in case timer_state t of
           TIMER_INITIALIZED \<Rightarrow> Some (go, [])
         | TIMER_STOPPED \<Rightarrow> Some (go, [])
         | TIMER_RUNNING \<Rightarrow> Some (go, [(LOG_WARNING, ''timer was already started'')])
         | TIMER_UNINITIALIZED \<Rightarrow> None)"

definition sb_timer_stop :: "timespec \<Rightarrow> sb_timer \<Rightarrow> (sb_timer \<times> log) option" where
  "sb_timer_stop now t =
     (let t = sb_timer_update now t;
          t = t\<lparr>events := events t + 1\<rparr>;
          t = t\<lparr>sum_time := sum_time t + elapsed t\<rparr>;
          t = (if elapsed t < min_time t then t\<lparr>min_time := elapsed t\<rparr> else t);
          t = (if elapsed t > max_time t then t\<lparr>max_time := elapsed t\<rparr> else t);
          go = t\<lparr>timer_state := TIMER_STOPPED\<rparr>
      in case timer_state t of
           TIMER_INITIALIZED \<Rightarrow> Some (go, [(LOG_WARNING, ''timer was never started'')])
         | TIMER_STOPPED \<Rightarrow> Some (go, [(LOG_WARNING, ''timer was already stopped'')])
         | TIMER_RUNNING \<Rightarrow> Some (go, [])
         | TIMER_UNINITIALIZED \<Rightarrow> None)"

definition sb_timer_value :: "timespec \<Rightarrow> sb_timer \<Rightarrow> (u64 \<times> sb_timer \<times> log) option" where
  "sb_timer_value now t =
     (case timer_state t of
        TIMER_INITIALIZED \<Rightarrow> Some (0, t, [(LOG_WARNING, ''timer was never started'')])
      | TIMER_STOPPED \<Rightarrow> Some (elapsed t, t, [])
      | TIMER_RUNNING \<Rightarrow> (let t = sb_timer_update now t in Some (elapsed t, t, []))
      | TIMER_UNINITIALIZED \<Rightarrow> None)"

definition sb_timer_split :: "timespec \<Rightarrow> sb_timer \<Rightarrow> (u64 \<times> sb_timer \<times> log) option" where
  "sb_timer_split now t =
     (case timer_state t of
        TIMER_INITIALIZED \<Rightarrow> Some (0, t, [(LOG_WARNING, ''timer was never started'')])
      | TIMER_STOPPED \<Rightarrow>
          (let res = TIMESPEC_DIFF (time_end t) (time_split t);
               t = t\<lparr>time_split := time_end t\<rparr>
           in if res \<noteq> 0 then Some (res, t, [])
              else Some (0, t, [(LOG_WARNING, ''timer was already stopped'')]))
      | TIMER_RUNNING \<Rightarrow>
          (let t = t\<lparr>elapsed := TIMESPEC_DIFF now (time_start t)\<rparr>;
               res = TIMESPEC_DIFF now (time_split t);
               t = t\<lparr>time_split := now\<rparr>
           in Some (res, t, []))
      | TIMER_UNINITIALIZED \<Rightarrow> None)"

definition get_avg_time :: "sb_timer \<Rightarrow> u64" where
  "get_avg_time t = (if events t = 0 then 0 else sum_time t div events t)"

definition get_sum_time :: "sb_timer \<Rightarrow> u64" where
  "get_sum_time t = sum_time t"

definition get_min_time :: "sb_timer \<Rightarrow> u64" where
  "get_min_time t = min_time t"

definition get_max_time :: "sb_timer \<Rightarrow> u64" where
  "get_max_time t = max_time t"

definition merge_timers :: "sb_timer \<Rightarrow> sb_timer \<Rightarrow> sb_timer" where
  "merge_timers t1 t2 =
     \<lparr>time_start = zero_timespec, time_end = zero_timespec, time_split = zero_timespec,
      elapsed = elapsed t1 + elapsed t2,
      min_time = (if min_time t1 < min_time t2 then min_time t1 else min_time t2),
      max_time = (if max_time t1 > max_time t2 then max_time t1 else max_time t2),
      sum_time = sum_time t1 + sum_time t2,
      events = events t1 + events t2,
      queue_time = 0,
      timer_state = TIMER_UNINITIALIZED\<rparr>"

text \<open>\<open>add_ns_to_timespec\<close>; C's division and remainder truncate towards zero.\<close>

definition add_ns_to_timespec :: "timespec \<Rightarrow> int \<Rightarrow> timespec" where
  "add_ns_to_timespec dest delta =
     (let x = tv_nsec dest + delta
      in if x > 1000000000 then
           dest\<lparr>tv_sec := tv_sec dest + x sdiv 1000000000, tv_nsec := x smod 1000000000\<rparr>
         else if x < 0 then
           dest\<lparr>tv_sec := tv_sec dest - 1 + x sdiv 1000000000,
                tv_nsec := x smod 1000000000 + 1000000000\<rparr>
         else dest\<lparr>tv_nsec := x\<rparr>)"

lemmas timer_ops [sb_defs] =
  sb_timer_update_def sb_timer_reset_def sb_timer_init_def sb_timer_start_def sb_timer_stop_def
  sb_timer_value_def sb_timer_split_def merge_timers_def Let_def

section \<open>Statistics\<close>

text \<open>
  A timer holds the statistics of the durations \<open>xs\<close>: their number and sum (modulo 2^64),
  the smallest and the largest one.
\<close>

definition timer_stats :: "sb_timer \<Rightarrow> u64 list \<Rightarrow> bool" where
  "timer_stats t xs \<longleftrightarrow> events t = of_nat (length xs) \<and> sum_time t = sum_list xs \<and>
     min_time t = fold min xs (- 1) \<and> max_time t = fold max xs 0"

lemma fold_min_start: "fold min xs (a :: u64) = min a (fold min xs (- 1))"
proof (induction xs arbitrary: a)
  case (Cons x xs)
  show ?case using Cons.IH [of "min x a"] Cons.IH [of "min x (- 1)"] by (simp add: min.assoc min.commute min.left_commute)
qed simp

lemma fold_max_start: "fold max xs (a :: u64) = max a (fold max xs 0)"
proof (induction xs arbitrary: a)
  case (Cons x xs)
  show ?case using Cons.IH [of "max x a"] Cons.IH [of "max x 0"] by (simp add: max.assoc max.commute max.left_commute)
qed simp

lemma timer_stats_init: "timer_stats (sb_timer_init t) []"
  by (simp add: timer_stats_def timer_ops)

lemma timer_stats_reset: "timer_stats (sb_timer_reset t) []"
  by (simp add: timer_stats_def timer_ops)

lemma timer_stats_stop:
  "sb_timer_stop now t = Some (t', l) \<Longrightarrow> timer_stats t xs \<Longrightarrow> timer_stats t' (xs @ [elapsed t'])"
  by (auto simp: timer_stats_def timer_ops min_def max_def split: timer_state.splits if_splits)

lemma timer_stats_merge:
  "timer_stats t1 xs \<Longrightarrow> timer_stats t2 ys \<Longrightarrow> timer_stats (merge_timers t1 t2) (xs @ ys)"
  using fold_min_start [of ys "fold min xs (- 1)"] fold_max_start [of ys "fold max xs 0"]
  by (auto simp: timer_stats_def timer_ops min_def max_def)

text \<open>The statistics see only the counters: the other fields may change freely.\<close>

lemma timer_stats_start:
  "sb_timer_start now t = Some (t', l) \<Longrightarrow> timer_stats t' xs \<longleftrightarrow> timer_stats t xs"
  by (auto simp: timer_stats_def timer_ops split: timer_state.splits)

text \<open>Collectors whose results can be combined: the contract of per-thread statistics.\<close>

locale collector =
  fixes holds :: "'t \<Rightarrow> 'x list \<Rightarrow> bool"
    and empty :: 't
    and merge :: "'t \<Rightarrow> 't \<Rightarrow> 't"
  assumes holds_empty: "holds empty []"
    and holds_merge: "holds a xs \<Longrightarrow> holds b ys \<Longrightarrow> holds (merge a b) (xs @ ys)"
begin

lemma holds_foldl: "holds a xs \<Longrightarrow> list_all2 holds ts xss \<Longrightarrow> holds (foldl merge a ts) (xs @ concat xss)"
proof (induction ts arbitrary: a xs xss)
  case (Cons t ts)
  then obtain ys yss where "xss = ys # yss" "holds t ys" "list_all2 holds ts yss"
    by (auto simp: list_all2_Cons1)
  with Cons.IH [of "merge a t" "xs @ ys" yss] Cons.prems(1) show ?case by (simp add: holds_merge)
qed simp

lemma holds_all: "list_all2 holds ts xss \<Longrightarrow> holds (foldl merge empty ts) (concat xss)"
  using holds_foldl [OF holds_empty] by simp

end

interpretation timers: collector timer_stats "sb_timer_init t" merge_timers for t
  by unfold_locales (fact timer_stats_init timer_stats_merge)+

lemma fold_min_le: "x \<in> set xs \<Longrightarrow> fold min xs (a :: u64) \<le> x"
  by (induction xs arbitrary: a) (auto simp: fold_min_start [of _ "min _ _"] min_le_iff_disj)

lemma fold_max_ge: "x \<in> set xs \<Longrightarrow> x \<le> fold max xs (a :: u64)"
  by (induction xs arbitrary: a) (auto simp: fold_max_start [of _ "max _ _"] le_max_iff_disj)

lemma unat_sum_list:
  "sum_list (map unat xs) < 2 ^ 64 \<Longrightarrow> unat (sum_list xs :: u64) = sum_list (map unat xs)"
proof (induction xs)
  case (Cons x xs)
  then show ?case by (simp add: unat_word_ariths)
qed simp

lemma sum_list_unat_bounds:
  assumes "\<And>x. x \<in> set xs \<Longrightarrow> lo \<le> x \<and> x \<le> hi"
  shows "length xs * unat (lo :: u64) \<le> sum_list (map unat xs) \<and> sum_list (map unat xs) \<le> length xs * unat hi"
  using assms
proof (induction xs)
  case (Cons x xs)
  then have "unat lo \<le> unat x" "unat x \<le> unat hi" by (simp_all add: word_le_nat_alt)
  with Cons show ?case by fastforce
qed simp

section \<open>Time differences\<close>

definition ns_of :: "timespec \<Rightarrow> int" where
  "ns_of ts = tv_sec ts * 1000000000 + tv_nsec ts"

lemma TIMESPEC_DIFF_ns: "TIMESPEC_DIFF a b = word_of_int (ns_of a - ns_of b)"
  by (simp add: TIMESPEC_DIFF_def SEC2NS_def ns_of_def algebra_simps)

lemma unat_TIMESPEC_DIFF:
  "ns_of b \<le> ns_of a \<Longrightarrow> ns_of a - ns_of b < 2 ^ 64 \<Longrightarrow> int (unat (TIMESPEC_DIFF a b)) = ns_of a - ns_of b"
  unfolding TIMESPEC_DIFF_ns uint_nat [symmetric]
  by (simp add: uint_word_of_int mod_pos_pos_trivial del: of_int_diff)

text \<open>Successive calls of \<open>sb_timer_split\<close> and the values they return.\<close>

fun run_splits :: "timespec list \<Rightarrow> sb_timer \<Rightarrow> (u64 list \<times> sb_timer) option" where
  "run_splits [] t = Some ([], t)"
| "run_splits (now # ts) t =
     (case sb_timer_split now t of
        None \<Rightarrow> None
      | Some (r, t1, _) \<Rightarrow> map_option (\<lambda>(rs, t2). (r # rs, t2)) (run_splits ts t1))"

lemma run_splits_running:
  "sb_timer_running t \<Longrightarrow> \<exists>rs t'. run_splits ts t = Some (rs, t') \<and> sb_timer_running t' \<and>
     time_split t' = last (time_split t # ts) \<and>
     sum_list rs = TIMESPEC_DIFF (last (time_split t # ts)) (time_split t)"
proof (induction ts arbitrary: t)
  case Nil
  then show ?case by (simp add: TIMESPEC_DIFF_ns)
next
  case (Cons now ts)
  let ?t = "t\<lparr>elapsed := TIMESPEC_DIFF now (time_start t), time_split := now\<rparr>"
  have s: "sb_timer_split now t = Some (TIMESPEC_DIFF now (time_split t), ?t, [])"
    using Cons.prems by (simp add: sb_timer_split_def sb_timer_running_def Let_def)
  have "sb_timer_running ?t" using Cons.prems by (simp add: sb_timer_running_def)
  with Cons.IH [of ?t] obtain rs t' where "run_splits ts ?t = Some (rs, t')" "sb_timer_running t'"
    "time_split t' = last (now # ts)" "sum_list rs = TIMESPEC_DIFF (last (now # ts)) now" by auto
  with s show ?case by (auto simp: TIMESPEC_DIFF_ns)
qed

section \<open>Properties\<close>

abbreviation example_timer :: sb_timer where
  "example_timer \<equiv> sb_timer_init
     \<lparr>time_start = zero_timespec, time_end = zero_timespec, time_split = zero_timespec, elapsed = 0,
      min_time = 0, max_time = 0, sum_time = 0, events = 0, queue_time = 0,
      timer_state = TIMER_UNINITIALIZED\<rparr>"

lemma example_timer_fields [simp]:
  "timer_state (sb_timer_init t) = TIMER_INITIALIZED" "queue_time (sb_timer_init t) = 0"
  "time_split (sb_timer_init t) = zero_timespec"
  by (simp_all add: sb_timer_init_def sb_timer_reset_def)

text \<open>A timer that is not running, started at one time and stopped at a later one, logs nothing
  and adds exactly the nanoseconds between the two clock readings plus its queue time to the
  statistics it holds (count, sum, minimum, maximum).\<close>

theorem timer_measures_interval:
  assumes "timer_state t = TIMER_INITIALIZED \<or> timer_state t = TIMER_STOPPED" and "timer_stats t xs"
    and "ns_of s \<le> ns_of e" and "ns_of e - ns_of s < 2 ^ 64"
  shows "\<exists>t1 t2. sb_timer_start s t = Some (t1, []) \<and> sb_timer_stop e t1 = Some (t2, []) \<and>
    timer_stats t2 (xs @ [of_nat (nat (ns_of e - ns_of s)) + queue_time t])"
proof -
  let ?t1 = "t\<lparr>time_start := s, time_split := s, timer_state := TIMER_RUNNING\<rparr>"
  have s: "sb_timer_start s t = Some (?t1, [])" using assms(1) by (auto simp: timer_ops)
  obtain t2 where e: "sb_timer_stop e ?t1 = Some (t2, [])" by (simp add: timer_ops)
  then have "elapsed t2 = TIMESPEC_DIFF e s + queue_time t" by (auto simp: timer_ops split: if_splits)
  moreover have "TIMESPEC_DIFF e s = of_nat (nat (ns_of e - ns_of s))"
    using assms(3) by (simp add: TIMESPEC_DIFF_ns)
  moreover have "timer_stats t2 (xs @ [elapsed t2])"
    using timer_stats_stop [OF e] timer_stats_start [OF s] assms(2) by blast
  ultimately show ?thesis using s e by auto
qed

theorem timer_measures_interval_witness:
  "\<exists>t1 t2. sb_timer_start \<lparr>tv_sec = 1, tv_nsec = 999999999\<rparr> example_timer = Some (t1, []) \<and>
     sb_timer_stop \<lparr>tv_sec = 2, tv_nsec = 4\<rparr> t1 = Some (t2, []) \<and> timer_stats t2 [5]"
  using timer_measures_interval [OF _ timer_stats_init, of _ "\<lparr>tv_sec = 1, tv_nsec = 999999999\<rparr>" "\<lparr>tv_sec = 2, tv_nsec = 4\<rparr>"]
  by (simp add: ns_of_def)

text \<open>C24: Merging the timers of all threads into a freshly initialised one gives the statistics of
  all their measured durations together.\<close>

theorem merge_all_timers_stats:
  assumes "list_all2 timer_stats ts xss"
  shows "timer_stats (foldl merge_timers (sb_timer_init t) ts) (concat xss)"
  by (rule timers.holds_all [OF assms])

theorem merge_all_timers_stats_witness:
  "timer_stats (foldl merge_timers (sb_timer_init example_timer)
       [example_timer\<lparr>events := 2, sum_time := 6, min_time := 2, max_time := 4\<rparr>,
        example_timer\<lparr>events := 1, sum_time := 5, min_time := 5, max_time := 5\<rparr>]) [2, 4, 5] \<and>
   events (foldl merge_timers (sb_timer_init example_timer)
       [example_timer\<lparr>events := 2, sum_time := 6, min_time := 2, max_time := 4\<rparr>,
        example_timer\<lparr>events := 1, sum_time := 5, min_time := 5, max_time := 5\<rparr>]) = 3"
proof -
  let ?ts = "[example_timer\<lparr>events := 2, sum_time := 6, min_time := 2, max_time := 4\<rparr>,
              example_timer\<lparr>events := 1, sum_time := 5, min_time := 5, max_time := 5\<rparr>]"
  have "list_all2 timer_stats ?ts [[2, 4], [5]]" by (simp add: timer_stats_def)
  from merge_all_timers_stats [OF this, of example_timer] show ?thesis by (simp add: timer_stats_def)
qed

text \<open>The average time per event lies between the minimum and the maximum, as long as the sum
  of the durations and their number do not exceed 64 bits.\<close>

theorem avg_time_between_min_max:
  assumes "timer_stats t xs" and "xs \<noteq> []" and "length xs < 2 ^ 64" and "sum_list (map unat xs) < 2 ^ 64"
  shows "get_min_time t \<le> get_avg_time t \<and> get_avg_time t \<le> get_max_time t"
proof -
  have n: "unat (events t) = length xs" "events t \<noteq> 0"
    using assms(1-3) by (auto simp: timer_stats_def dest: arg_cong [of _ _ unat])
  have s: "unat (sum_time t) = sum_list (map unat xs)"
    using assms(1,4) by (simp add: timer_stats_def unat_sum_list)
  have "length xs * unat (min_time t) \<le> sum_list (map unat xs) \<and>
      sum_list (map unat xs) \<le> length xs * unat (max_time t)"
    using assms(1) by (intro sum_list_unat_bounds) (simp add: timer_stats_def fold_min_le fold_max_ge)
  then have "unat (min_time t) \<le> sum_list (map unat xs) div length xs"
    "sum_list (map unat xs) div length xs \<le> unat (max_time t)"
    using assms(2) div_le_mono [of _ "length xs * unat (max_time t)" "length xs"]
    by (auto simp: less_eq_div_iff_mult_less_eq mult.commute)
  with n s show ?thesis
    by (simp add: get_min_time_def get_max_time_def get_avg_time_def word_le_nat_alt unat_div)
qed

theorem avg_time_between_min_max_witness:
  "\<exists>t. timer_stats t [2, 4] \<and> get_min_time t \<le> get_avg_time t \<and> get_avg_time t \<le> get_max_time t"
proof -
  let ?t = "example_timer\<lparr>events := 2, sum_time := 6, min_time := 2, max_time := 4\<rparr>"
  have "timer_stats ?t [2, 4]" by (simp add: timer_stats_def)
  with avg_time_between_min_max [of ?t "[2, 4]"] show ?thesis by auto
qed

text \<open>Intermediate readings of a running timer add up: the values returned by successive calls
  of \<open>sb_timer_split\<close> sum to the time from the previous split (or the start) to the last reading,
  and the timer keeps running.\<close>

theorem splits_sum_to_elapsed:
  assumes "sb_timer_running t" and "ts \<noteq> []"
    and "ns_of (time_split t) \<le> ns_of (last ts)" and "ns_of (last ts) - ns_of (time_split t) < 2 ^ 64"
  shows "\<exists>rs t'. run_splits ts t = Some (rs, t') \<and> sb_timer_running t' \<and>
    int (unat (sum_list rs)) = ns_of (last ts) - ns_of (time_split t)"
  using run_splits_running [OF assms(1), of ts] unat_TIMESPEC_DIFF [OF assms(3,4)] assms(2) by auto

theorem splits_sum_to_elapsed_witness:
  "\<exists>rs t'. run_splits [\<lparr>tv_sec = 3, tv_nsec = 0\<rparr>, \<lparr>tv_sec = 5, tv_nsec = 7\<rparr>]
      (example_timer\<lparr>timer_state := TIMER_RUNNING\<rparr>) = Some (rs, t') \<and> sb_timer_running t' \<and>
      int (unat (sum_list rs)) = 5000000007"
  using splits_sum_to_elapsed [of "example_timer\<lparr>timer_state := TIMER_RUNNING\<rparr>"
      "[\<lparr>tv_sec = 3, tv_nsec = 0\<rparr>, \<lparr>tv_sec = 5, tv_nsec = 7\<rparr>]"]
  by (simp add: sb_timer_running_def ns_of_def)

text \<open>Adding nanoseconds to a normalised time stamp always gives the right instant; the
  result is normalised unless the nanosecond part becomes exactly one second, or a negative
  multiple of a second, in which case \<open>tv_nsec\<close> is left at 1000000000.\<close>

theorem add_ns_exact_instant:
  assumes "0 \<le> tv_nsec ts" and "tv_nsec ts < 1000000000"
  shows "ns_of (add_ns_to_timespec ts d) = ns_of ts + d \<and>
    (let x = tv_nsec ts + d; r = add_ns_to_timespec ts d
     in if x = 1000000000 \<or> x < 0 \<and> 1000000000 dvd x then tv_nsec r = 1000000000
        else 0 \<le> tv_nsec r \<and> tv_nsec r < 1000000000)"
proof -
  let ?x = "tv_nsec ts + d" and ?G = "1000000000 :: int"
  have dm: "?x sdiv ?G * ?G + ?x smod ?G = ?x" by (rule sdiv_mult_smod_eq)
  have r: "?x > 0 \<Longrightarrow> 0 \<le> ?x smod ?G \<and> ?x smod ?G < ?G" by (simp add: smod_int_compares)
  have n: "?x < 0 \<Longrightarrow> ?x smod ?G \<le> 0 \<and> - ?G < ?x smod ?G" by (simp add: smod_int_compares)
  have z: "?x smod ?G = 0 \<longleftrightarrow> ?G dvd ?x"
    by (auto simp: smod_int_alt_def sgn_eq_0_iff simp flip: dvd_eq_mod_eq_0)
  show ?thesis
    using dm r n z by (auto simp: add_ns_to_timespec_def ns_of_def Let_def algebra_simps)
qed

theorem add_ns_exact_instant_witness:
  "tv_nsec (add_ns_to_timespec \<lparr>tv_sec = 7, tv_nsec = 500000000\<rparr> 500000000) = 1000000000"
  using add_ns_exact_instant [of "\<lparr>tv_sec = 7, tv_nsec = 500000000\<rparr>" 500000000] by simp

end
