(* ===== verification/Percentile.thy ===== *)
theory Percentile
  imports Complex_Main Prelude
begin

text \<open>
  The response-time histogram of \<open>sysbench/sb_percentile.c\<close>: logarithmic buckets over a range,
  from which a percentile is read. \<open>double\<close> is the ideal \<^typ>\<open>real\<close>; the conversions from
  \<open>double\<close> to an unsigned integer are partial, as in C. Every array access is checked, so that
  a result other than \<^const>\<open>None\<close> is memory safety. The mutex makes each operation atomic, which
  is how the operations are composed here.
\<close>

section \<open>Data\<close>

record sb_percentile =
  pc_values :: "u64 list"
  pc_tmp :: "u64 list"
  total :: u64
  pc_size :: u32
  range_min :: real
  range_max :: real
  range_deduct :: real
  range_mult :: real

definition double_to_u32 :: "real \<Rightarrow> u32 option" where
  "double_to_u32 x = (if 0 \<le> \<lfloor>x\<rfloor> \<and> \<lfloor>x\<rfloor> < 2 ^ 32 then Some (word_of_int \<lfloor>x\<rfloor>) else None)"

definition double_to_u64 :: "real \<Rightarrow> u64 option" where
  "double_to_u64 x = (if 0 \<le> \<lfloor>x\<rfloor> \<and> \<lfloor>x\<rfloor> < 2 ^ 64 then Some (word_of_int \<lfloor>x\<rfloor>) else None)"

section \<open>Operations\<close>

text \<open>\<open>alloc\<close> tells whether the two calls of \<open>calloc\<close> succeed.\<close>

definition sb_percentile_init ::
  "bool \<Rightarrow> u32 \<Rightarrow> real \<Rightarrow> real \<Rightarrow> int + sb_percentile" where
  "sb_percentile_init alloc sz rmin rmax =
     (if \<not> alloc then Inl 1
      else Inr \<lparr>pc_values = replicate (unat sz) 0, pc_tmp = replicate (unat sz) 0, total = 0,
                pc_size = sz, range_min = rmin, range_max = rmax, range_deduct = ln rmin,
                range_mult = real (unat (sz - 1)) / (ln rmax - ln rmin)\<rparr>)"

definition clamp_value :: "sb_percentile \<Rightarrow> real \<Rightarrow> real" where
  "clamp_value p v =
     (if v < range_min p then range_min p else if v > range_max p then range_max p else v)"

definition bucket_index :: "sb_percentile \<Rightarrow> real \<Rightarrow> u32 option" where
  "bucket_index p v =
     double_to_u32 (of_int \<lfloor>(ln (clamp_value p v) - range_deduct p) * range_mult p + 1 / 2\<rfloor>)"

definition sb_percentile_update :: "sb_percentile \<Rightarrow> real \<Rightarrow> sb_percentile option" where
  "sb_percentile_update p v =
     (case bucket_index p v of
        None \<Rightarrow> None
      | Some n \<Rightarrow>
          (if unat n < length (pc_values p)
           then Some (p\<lparr>total := total p + 1,
                        pc_values := (pc_values p)[unat n := pc_values p ! unat n + 1]\<rparr>)
           else None))"

text \<open>The loop of \<open>sb_percentile_calculate\<close>, from index \<open>i\<close> with the sum \<open>ncur\<close> so far.\<close>

function percentile_scan :: "u64 list \<Rightarrow> nat \<Rightarrow> u64 \<Rightarrow> nat \<Rightarrow> u64 \<Rightarrow> nat option" where
  "percentile_scan tmp sz nmax i ncur =
     (if i < sz then
        (if i < length tmp then
           (if ncur + tmp ! i \<ge> nmax then Some i
            else percentile_scan tmp sz nmax (i + 1) (ncur + tmp ! i))
         else None)
      else Some i)"
  by pat_completeness auto
termination by (relation "measure (\<lambda>(tmp, sz, nmax, i, ncur). sz - i)") auto

definition bucket_value :: "sb_percentile \<Rightarrow> nat \<Rightarrow> real" where
  "bucket_value p i = exp (real i / range_mult p + range_deduct p)"

definition sb_percentile_calculate ::
  "sb_percentile \<Rightarrow> real \<Rightarrow> (real \<times> sb_percentile) option" where
  "sb_percentile_calculate p percent =
     (if total p = 0 then Some (0, p)
      else case double_to_u64 (of_int \<lfloor>real (unat (total p)) * percent / 100 + 1 / 2\<rfloor>) of
        None \<Rightarrow> None
      | Some nmax \<Rightarrow>
          (let p' = p\<lparr>pc_tmp := take (unat (pc_size p)) (pc_values p)\<rparr> in
           if pc_tmp p' = [] then None
           else case percentile_scan (pc_tmp p') (unat (pc_size p)) nmax 1 (pc_tmp p' ! 0) of
             None \<Rightarrow> None
           | Some i \<Rightarrow> Some (bucket_value p i, p')))"

definition sb_percentile_reset :: "sb_percentile \<Rightarrow> sb_percentile" where
  "sb_percentile_reset p = p\<lparr>total := 0, pc_values := replicate (unat (pc_size p)) 0\<rparr>"

fun update_all :: "sb_percentile \<Rightarrow> real list \<Rightarrow> sb_percentile option" where
  "update_all p [] = Some p"
| "update_all p (v # vs) =
     (case sb_percentile_update p v of None \<Rightarrow> None | Some p' \<Rightarrow> update_all p' vs)"

declare percentile_scan.simps [simp del] of_nat_unat [simp del]

section \<open>Quantisation: the contract of a bucket function\<close>

text \<open>
  What a reader of the histogram relies on: a bucket is in range and its representative value is
  within a factor \<open>slack\<close> of every value counted in it.
\<close>

locale quantizer =
  fixes inv :: "'s \<Rightarrow> bool" and bucket :: "'s \<Rightarrow> real \<Rightarrow> nat" and rep :: "'s \<Rightarrow> nat \<Rightarrow> real"
    and clamp :: "'s \<Rightarrow> real \<Rightarrow> real" and slack :: "'s \<Rightarrow> real" and buckets :: "'s \<Rightarrow> nat"
  assumes bucket_less: "inv s \<Longrightarrow> bucket s v < buckets s"
    and below_rep: "inv s \<Longrightarrow> clamp s v \<le> rep s (bucket s v) * slack s"
    and above_rep: "inv s \<Longrightarrow> rep s (bucket s v) \<le> clamp s v * slack s"
    and rep_mono: "inv s \<Longrightarrow> i \<le> j \<Longrightarrow> rep s i \<le> rep s j"
    and slack_pos: "inv s \<Longrightarrow> 0 < slack s"
begin

lemma count_upto:
  assumes inv: "inv s"
  shows "length (filter (\<lambda>v. bucket s v \<le> i) xs)
           \<le> length (filter (\<lambda>v. clamp s v \<le> rep s i * slack s) xs)"
proof (induction xs)
  case (Cons v xs)
  have "clamp s v \<le> rep s i * slack s" if "bucket s v \<le> i"
  proof -
    have "rep s (bucket s v) * slack s \<le> rep s i * slack s"
      using rep_mono [OF inv that] slack_pos [OF inv] by simp
    with below_rep [OF inv, of v] show ?thesis by linarith
  qed
  with Cons.IH show ?case by auto
qed simp

lemma count_below:
  assumes inv: "inv s"
  shows "length (filter (\<lambda>v. clamp s v * slack s < rep s i) xs)
           \<le> length (filter (\<lambda>v. bucket s v < i) xs)"
proof (induction xs)
  case (Cons v xs)
  have "bucket s v < i" if "clamp s v * slack s < rep s i"
  proof (rule ccontr)
    assume "\<not> bucket s v < i"
    then have "rep s i \<le> rep s (bucket s v)" using rep_mono [OF inv, of i "bucket s v"] by simp
    with above_rep [OF inv, of v] that show False by linarith
  qed
  with Cons.IH show ?case by auto
qed simp

lemma count_all:
  assumes "inv s"
  shows "length (filter (\<lambda>v. bucket s v < buckets s) xs) = length xs"
  using bucket_less [OF assms] by simp

end

section \<open>The histogram of a list of samples\<close>

definition percentile_wf :: "sb_percentile \<Rightarrow> bool" where
  "percentile_wf p \<longleftrightarrow>
     length (pc_values p) = unat (pc_size p) \<and> 2 \<le> unat (pc_size p) \<and>
     0 < range_min p \<and> range_min p < range_max p \<and> range_deduct p = ln (range_min p) \<and>
     range_mult p = (real (unat (pc_size p)) - 1) / (ln (range_max p) - ln (range_min p))"

text \<open>The nearest bucket of a value, and the relative error of a bucket's value.\<close>

definition nearest :: "sb_percentile \<Rightarrow> real \<Rightarrow> nat" where
  "nearest p v = nat \<lfloor>(ln (clamp_value p v) - range_deduct p) * range_mult p + 1 / 2\<rfloor>"

definition bucket_slack :: "sb_percentile \<Rightarrow> real" where
  "bucket_slack p = exp (1 / (2 * range_mult p))"

lemma percentile_init_wf:
  assumes "2 \<le> unat sz" and "0 < a" and "a < b"
    and "sb_percentile_init True sz a b = Inr p"
  shows "percentile_wf p"
proof -
  have "unat (sz - 1) = unat sz - 1"
    using assms(1) by (metis One_nat_def not_less_eq_eq numeral_2_eq_2 unat_0 unat_minus_one zero_less_one order.strict_trans2 nat_less_le)
  with assms show ?thesis
    by (auto simp: sb_percentile_init_def percentile_wf_def of_nat_diff)
qed

lemma mult_pos: "percentile_wf p \<Longrightarrow> 0 < range_mult p"
  unfolding percentile_wf_def by (auto intro!: divide_pos_pos)

lemma clamp_range:
  "percentile_wf p \<Longrightarrow> range_min p \<le> clamp_value p v \<and> clamp_value p v \<le> range_max p"
  by (auto simp: percentile_wf_def clamp_value_def)

lemma position_range:
  assumes wf: "percentile_wf p"
    and x_def: "x = (ln (clamp_value p v) - range_deduct p) * range_mult p"
  shows "0 \<le> x" and "x \<le> real (unat (pc_size p)) - 1"
proof -
  let ?c = "clamp_value p v"
  have c: "0 < ?c" "range_min p \<le> ?c" "?c \<le> range_max p" "0 < range_min p"
    using clamp_range [OF wf, of v] wf by (auto simp: percentile_wf_def)
  have l: "ln (range_min p) \<le> ln ?c" "ln ?c \<le> ln (range_max p)" using c by simp_all
  have d: "range_deduct p = ln (range_min p)" using wf by (simp add: percentile_wf_def)
  show "0 \<le> x" unfolding x_def d using l mult_pos [OF wf] by simp
  have "x \<le> (ln (range_max p) - ln (range_min p)) * range_mult p"
    unfolding x_def d using l mult_pos [OF wf] by simp
  also have "\<dots> = real (unat (pc_size p)) - 1" using wf by (simp add: percentile_wf_def)
  finally show "x \<le> real (unat (pc_size p)) - 1" .
qed

lemma nearest_less:
  assumes wf: "percentile_wf p"
  shows "nearest p v < unat (pc_size p)"
proof -
  let ?x = "(ln (clamp_value p v) - range_deduct p) * range_mult p"
  have "\<lfloor>?x + 1 / 2\<rfloor> < int (unat (pc_size p))"
    using position_range [OF wf refl, of v] by (simp add: floor_less_iff)
  moreover have "0 < unat (pc_size p)" using wf by (simp add: percentile_wf_def)
  ultimately show ?thesis unfolding nearest_def by linarith
qed

lemma nearest_error:
  assumes wf: "percentile_wf p"
  shows "\<bar>(ln (clamp_value p v) - range_deduct p) * range_mult p - real (nearest p v)\<bar> \<le> 1 / 2"
proof -
  let ?x = "(ln (clamp_value p v) - range_deduct p) * range_mult p"
  have "real (nearest p v) = of_int \<lfloor>?x + 1 / 2\<rfloor>"
    using position_range(1) [OF wf refl, of v] by (simp add: nearest_def)
  then show ?thesis by linarith
qed

lemma nearest_close:
  assumes wf: "percentile_wf p"
  shows "clamp_value p v \<le> bucket_value p (nearest p v) * bucket_slack p"
    and "bucket_value p (nearest p v) \<le> clamp_value p v * bucket_slack p"
proof -
  let ?m = "range_mult p" and ?d = "range_deduct p" and ?c = "clamp_value p v"
  let ?n = "real (nearest p v)"
  have m: "0 < ?m" by (rule mult_pos [OF wf])
  have c: "?c = exp (ln ?c)" using clamp_range [OF wf, of v] wf by (simp add: percentile_wf_def)
  have e: "\<bar>(ln ?c - ?d) * ?m - ?n\<bar> \<le> 1 / 2" by (rule nearest_error [OF wf])
  then have scaled: "(ln ?c - ?d) * ?m \<le> ?n + 1 / 2" "?n \<le> (ln ?c - ?d) * ?m + 1 / 2"
    by linarith+
  have "ln ?c - ?d \<le> ?n / ?m + 1 / (2 * ?m)"
    using scaled(1) m by (simp add: field_simps)
  then have "ln ?c \<le> ?n / ?m + ?d + 1 / (2 * ?m)" by simp
  then show "?c \<le> bucket_value p (nearest p v) * bucket_slack p"
    by (subst c) (simp add: bucket_value_def bucket_slack_def flip: exp_add)
  have "?n / ?m \<le> ln ?c - ?d + 1 / (2 * ?m)"
    using scaled(2) m by (simp add: field_simps)
  then have "?n / ?m + ?d \<le> ln ?c + 1 / (2 * ?m)" by simp
  then show "bucket_value p (nearest p v) \<le> ?c * bucket_slack p"
    by (subst c) (simp add: bucket_value_def bucket_slack_def flip: exp_add)
qed

lemma bucket_value_mono:
  "percentile_wf p \<Longrightarrow> i \<le> j \<Longrightarrow> bucket_value p i \<le> bucket_value p j"
  using mult_pos [of p] by (simp add: bucket_value_def divide_right_mono)

text \<open>The histogram implements the contract.\<close>

interpretation hist: quantizer percentile_wf nearest bucket_value clamp_value bucket_slack
  "\<lambda>p. unat (pc_size p)"
  by unfold_locales
    (simp_all add: nearest_less nearest_close bucket_value_mono, simp add: bucket_slack_def)

text \<open>The state that the samples \<open>xs\<close> leave: the count of each bucket, modulo \<open>2 ^ 64\<close>.\<close>

definition hist_of :: "sb_percentile \<Rightarrow> real list \<Rightarrow> bool" where
  "hist_of p xs \<longleftrightarrow>
     percentile_wf p \<and> total p = of_nat (length xs) \<and>
     (\<forall>i < unat (pc_size p). pc_values p ! i = of_nat (length (filter (\<lambda>v. nearest p v = i) xs)))"

definition same_scale :: "sb_percentile \<Rightarrow> sb_percentile \<Rightarrow> bool" where
  "same_scale p q \<longleftrightarrow>
     pc_size p = pc_size q \<and> range_min p = range_min q \<and> range_max p = range_max q \<and>
     range_deduct p = range_deduct q \<and> range_mult p = range_mult q"

lemma same_scale_simps:
  assumes "same_scale p q"
  shows "nearest p = nearest q" "clamp_value p = clamp_value q"
    "bucket_value p = bucket_value q" "bucket_slack p = bucket_slack q"
  using assms
  by (auto simp: same_scale_def nearest_def clamp_value_def bucket_value_def bucket_slack_def)

lemma bucket_index_nearest:
  assumes wf: "percentile_wf p"
  shows "bucket_index p v = Some (of_nat (nearest p v))"
    and "unat (of_nat (nearest p v) :: u32) = nearest p v"
proof -
  let ?f = "\<lfloor>(ln (clamp_value p v) - range_deduct p) * range_mult p + 1 / 2\<rfloor>"
  have n: "nearest p v < unat (pc_size p)" by (rule nearest_less [OF wf])
  then have lt: "nearest p v < 2 ^ 32"
    using unsigned_less [of "pc_size p", where 'a = nat] by simp
  have f: "?f = int (nearest p v)"
    using position_range(1) [OF wf refl, of v] by (simp add: nearest_def)
  show "bucket_index p v = Some (of_nat (nearest p v))"
    using lt unfolding bucket_index_def double_to_u32_def f by simp
  show "unat (of_nat (nearest p v) :: u32) = nearest p v"
    using lt by (simp add: unat_of_nat take_bit_nat_eq_self)
qed

lemma update_step:
  assumes h: "hist_of p xs"
  obtains p' where "sb_percentile_update p v = Some p'" "hist_of p' (xs @ [v])" "same_scale p' p"
proof -
  have wf: "percentile_wf p" using h by (simp add: hist_of_def)
  let ?n = "nearest p v"
  define p' where "p' = p\<lparr>total := total p + 1,
                           pc_values := (pc_values p)[?n := pc_values p ! ?n + 1]\<rparr>"
  have len: "length (pc_values p) = unat (pc_size p)" "?n < unat (pc_size p)"
    using wf nearest_less [OF wf] by (auto simp: percentile_wf_def)
  have s: "same_scale p' p" by (simp add: same_scale_def p'_def)
  have "sb_percentile_update p v = Some p'"
    using len by (simp add: sb_percentile_update_def bucket_index_nearest [OF wf] p'_def)
  moreover have "percentile_wf p'" using wf by (simp add: percentile_wf_def p'_def)
  with h len have "hist_of p' (xs @ [v])"
    by (auto simp: hist_of_def same_scale_simps [OF s]) (auto simp: p'_def nth_list_update)
  ultimately show ?thesis using s that by blast
qed

lemma same_scale_refl [simp]: "same_scale p p"
  by (simp add: same_scale_def)

lemma same_scale_trans: "same_scale p q \<Longrightarrow> same_scale q r \<Longrightarrow> same_scale p r"
  by (simp add: same_scale_def)

lemma update_all_hist:
  "hist_of p xs \<Longrightarrow> \<exists>p'. update_all p ys = Some p' \<and> hist_of p' (xs @ ys) \<and> same_scale p' p"
proof (induction ys arbitrary: p xs)
  case (Cons y ys)
  obtain p1 where 1: "sb_percentile_update p y = Some p1" "hist_of p1 (xs @ [y])" "same_scale p1 p"
    using update_step [OF Cons.prems] by metis
  from Cons.IH [OF 1(2)] obtain p2 where "update_all p1 ys = Some p2"
    "hist_of p2 (xs @ y # ys)" "same_scale p2 p1" by auto
  then show ?case using 1 same_scale_trans [of p2 p1 p] by auto
qed simp

lemma hist_of_reset: "percentile_wf p \<Longrightarrow> hist_of (sb_percentile_reset p) []"
  by (simp add: hist_of_def sb_percentile_reset_def percentile_wf_def)

lemma hist_of_init:
  assumes "2 \<le> unat sz" and "0 < a" and "a < b" and "sb_percentile_init True sz a b = Inr p"
  shows "hist_of p []"
  using percentile_init_wf [OF assms] assms(4)
  by (auto simp: hist_of_def sb_percentile_init_def)

section \<open>Reading a percentile\<close>

text \<open>The scan finds the first index from which the running sum reaches \<open>nmax\<close>.\<close>

lemma percentile_scan_first:
  assumes "length tmp = sz" and "i \<le> sz" and "\<And>j. S j \<le> S (Suc j)" and "\<And>j. S j < 2 ^ 64"
    and "\<And>j. j < sz \<Longrightarrow> tmp ! j = of_nat (S (Suc j) - S j)"
  shows "\<exists>k. percentile_scan tmp sz nmax i (of_nat (S i)) = Some k \<and> i \<le> k \<and> k \<le> sz \<and>
             (k < sz \<longrightarrow> unat nmax \<le> S (Suc k)) \<and> (\<forall>j. i \<le> j \<and> j < k \<longrightarrow> S (Suc j) < unat nmax)"
  using assms(2)
proof (induction "sz - i" arbitrary: i)
  case 0
  then have "percentile_scan tmp sz nmax i (of_nat (S i)) = Some i"
    by (subst percentile_scan.simps) simp
  with 0 show ?case by auto
next
  case (Suc d)
  have "S i + (S (Suc i) - S i) = S (Suc i)" using assms(3) [of i] by simp
  then have sum: "of_nat (S i) + tmp ! i = (of_nat (S (Suc i)) :: u64)"
    using assms(5) [of i] Suc.hyps(2) by (metis diff_is_0_eq' nat.distinct(1) not_le of_nat_add)
  have le: "nmax \<le> of_nat (S (Suc i)) \<longleftrightarrow> unat nmax \<le> S (Suc i)"
    using assms(4) [of "Suc i"] by (simp add: word_le_nat_alt)
  show ?case
  proof (cases "unat nmax \<le> S (Suc i)")
    case True
    then show ?thesis using Suc.hyps(2) assms(1) sum le
      by (subst percentile_scan.simps) (auto intro!: exI [of _ i])
  next
    case False
    have "d = sz - Suc i" "Suc i \<le> sz" using Suc.hyps(2) by auto
    from Suc.hyps(1) [OF this] obtain k where
      k: "percentile_scan tmp sz nmax (Suc i) (of_nat (S (Suc i))) = Some k" "Suc i \<le> k" "k \<le> sz"
        "k < sz \<longrightarrow> unat nmax \<le> S (Suc k)" "\<forall>j. Suc i \<le> j \<and> j < k \<longrightarrow> S (Suc j) < unat nmax"
      by blast
    have "percentile_scan tmp sz nmax i (of_nat (S i)) = Some k"
      using False \<open>Suc i \<le> sz\<close> assms(1) sum le k(1) by (subst percentile_scan.simps) simp
    moreover have "\<forall>j. i \<le> j \<and> j < k \<longrightarrow> S (Suc j) < unat nmax"
      using k(5) False by (metis le_antisym not_less not_less_eq_eq)
    ultimately show ?thesis using k by (intro exI [of _ k]) auto
  qed
qed

lemma filter_less_Suc:
  "length (filter (\<lambda>v. f v < Suc j) xs)
     = length (filter (\<lambda>v. f v < j) xs) + length (filter (\<lambda>v. f v = j) xs)"
  by (induction xs) (auto simp: less_Suc_eq)

text \<open>The number of samples a percentile asks for.\<close>

definition rank :: "nat \<Rightarrow> real \<Rightarrow> nat" where
  "rank n q = nat \<lfloor>real n * q / 100 + 1 / 2\<rfloor>"

lemma rank_le: "0 \<le> q \<Longrightarrow> q \<le> 100 \<Longrightarrow> rank n q \<le> n"
proof -
  assume q: "0 \<le> q" "q \<le> 100"
  then have "real n * q \<le> real n * 100" by (intro mult_left_mono) auto
  then have "\<lfloor>real n * q / 100 + 1 / 2\<rfloor> \<le> int n" by (simp add: floor_le_iff)
  then show ?thesis by (simp add: rank_def)
qed

lemma calculate_scan:
  assumes h: "hist_of p xs" and xs: "xs \<noteq> []" "length xs < 2 ^ 64" and q: "0 \<le> q" "q \<le> 100"
  shows "\<exists>i. sb_percentile_calculate p q = Some (bucket_value p i, p\<lparr>pc_tmp := pc_values p\<rparr>) \<and>
             1 \<le> i \<and> i < unat (pc_size p) \<and>
             rank (length xs) q \<le> length (filter (\<lambda>v. nearest p v < Suc i) xs) \<and>
             (i = 1 \<or> length (filter (\<lambda>v. nearest p v < i) xs) < rank (length xs) q)"
proof -
  let ?S = "\<lambda>j. length (filter (\<lambda>v. nearest p v < j) xs)" and ?sz = "unat (pc_size p)"
  let ?r = "rank (length xs) q"
  have wf: "percentile_wf p" using h by (simp add: hist_of_def)
  have len: "length (pc_values p) = ?sz" "2 \<le> ?sz" using wf by (auto simp: percentile_wf_def)
  have tot: "unat (total p) = length xs" using h xs by (simp add: hist_of_def)
  have r: "?r \<le> length xs" by (rule rank_le [OF q])
  have fl: "\<lfloor>real (length xs) * q / 100 + 1 / 2\<rfloor> = int ?r"
    using q by (simp add: rank_def)
  have nmax: "double_to_u64 (of_int \<lfloor>real (unat (total p)) * q / 100 + 1 / 2\<rfloor>) = Some (of_nat ?r)"
    using r xs unfolding tot fl double_to_u64_def by simp
  have ur: "unat (of_nat ?r :: u64) = ?r" using r xs by simp
  have S: "pc_values p ! j = of_nat (?S (Suc j) - ?S j)" if "j < ?sz" for j
    using h that by (simp add: hist_of_def filter_less_Suc)
  have bound: "?S j < 2 ^ 64" for j using xs(2) by (meson le_less_trans length_filter_le)
  have first: "pc_values p ! 0 = of_nat (?S 1)" using S [of 0] len by simp
  obtain i where i: "percentile_scan (pc_values p) ?sz (of_nat ?r) 1 (of_nat (?S 1)) = Some i"
    "1 \<le> i" "i \<le> ?sz" "i < ?sz \<longrightarrow> ?r \<le> ?S (Suc i)" "\<forall>j. 1 \<le> j \<and> j < i \<longrightarrow> ?S (Suc j) < ?r"
    using percentile_scan_first [of "pc_values p" ?sz 1 ?S "of_nat ?r"] len bound S ur
    by (auto simp: filter_less_Suc)
  have less: "i < ?sz"
  proof (rule ccontr)
    assume "\<not> i < ?sz"
    then have "1 \<le> ?sz - 1 \<and> ?sz - 1 < i" using i(3) len(2) by auto
    then have "?S (Suc (?sz - 1)) < ?r" using i(5) by blast
    moreover have "?S (Suc (?sz - 1)) = length xs" using hist.count_all [OF wf] len(2) by simp
    ultimately show False using r by simp
  qed
  have last: "i = 1 \<or> ?S i < ?r" using i(2) spec [OF i(5), of "i - 1"] by (cases i) auto
  have "total p \<noteq> 0" using tot xs by (metis length_0_conv unat_0)
  then have "sb_percentile_calculate p q = Some (bucket_value p i, p\<lparr>pc_tmp := pc_values p\<rparr>)"
    using len i(1) unfolding sb_percentile_calculate_def nmax
    by (auto simp: Let_def first)
  then show ?thesis using i less last by blast
qed

lemma bucket_value_ends:
  assumes wf: "percentile_wf p"
  shows "bucket_value p 0 = range_min p" "bucket_value p (unat (pc_size p) - 1) = range_max p"
    and "0 < i \<Longrightarrow> range_min p < bucket_value p i"
    and "i < unat (pc_size p) \<Longrightarrow> bucket_value p i \<le> range_max p"
proof -
  show z: "bucket_value p 0 = range_min p" using wf by (simp add: bucket_value_def percentile_wf_def)
  have "ln (range_min p) < ln (range_max p)" using wf by (simp add: percentile_wf_def)
  then have "real (unat (pc_size p) - 1) / range_mult p = ln (range_max p) - ln (range_min p)"
    using wf mult_pos [OF wf] unfolding percentile_wf_def
    by (auto simp: nonzero_eq_divide_eq of_nat_diff)
  then show e: "bucket_value p (unat (pc_size p) - 1) = range_max p"
    using wf by (simp add: bucket_value_def percentile_wf_def)
  show "0 < i \<Longrightarrow> range_min p < bucket_value p i"
    unfolding z [symmetric] using mult_pos [OF wf] by (simp add: bucket_value_def)
  show "i < unat (pc_size p) \<Longrightarrow> bucket_value p i \<le> range_max p"
    unfolding e [symmetric] by (rule bucket_value_mono [OF wf]) simp
qed

section \<open>Properties\<close>

text \<open>C30: Recording values is memory safe and loses nothing: for a histogram set up with at least
  two buckets over a range \<open>0 < a < b\<close>, any sequence of measured values, also far outside the
  range, is recorded without an index out of range, and each bucket then holds the number of
  values nearest to it (modulo \<open>2 ^ 64\<close>) and \<open>total\<close> their number; the same holds for the values
  recorded after a reset.\<close>

theorem percentile_update_safe:
  assumes "2 \<le> unat sz" and "0 < a" and "a < b" and "sb_percentile_init True sz a b = Inr p"
  shows "\<exists>q r. update_all p xs = Some q \<and> update_all (sb_percentile_reset q) ys = Some r \<and>
               total q = of_nat (length xs) \<and> total r = of_nat (length ys) \<and>
               length (pc_values q) = unat sz \<and> length (pc_values r) = unat sz \<and>
               (\<forall>i < unat sz. pc_values q ! i = of_nat (length (filter (\<lambda>v. nearest p v = i) xs)) \<and>
                              pc_values r ! i = of_nat (length (filter (\<lambda>v. nearest p v = i) ys)))"
proof -
  have sz: "pc_size p = sz" using assms(4) by (auto simp: sb_percentile_init_def)
  from update_all_hist [OF hist_of_init [OF assms], of xs] obtain q where
    q: "update_all p xs = Some q" "hist_of q xs" "same_scale q p" by auto
  then have wf: "percentile_wf q" by (simp add: hist_of_def)
  from update_all_hist [OF hist_of_reset [OF wf], of ys] obtain r where
    r: "update_all (sb_percentile_reset q) ys = Some r" "hist_of r ys"
      "same_scale r (sb_percentile_reset q)" by auto
  have rp: "same_scale r p"
    using r(3) q(3) by (simp add: same_scale_def sb_percentile_reset_def)
  show ?thesis
    using q(1,2) r(1,2) sz q(3) rp same_scale_simps(1) [OF q(3)] same_scale_simps(1) [OF rp]
    by (auto simp: hist_of_def percentile_wf_def same_scale_def intro!: exI [of _ q] exI [of _ r])
qed

theorem percentile_update_safe_witness:
  "\<exists>p q r. sb_percentile_init True 100000 1 (10 ^ 13) = Inr p \<and> update_all p [5, 0, 10 ^ 20] = Some q \<and>
           update_all (sb_percentile_reset q) [7] = Some r \<and> total q = 3 \<and> total r = 1"
proof -
  obtain p where p: "sb_percentile_init True 100000 1 (10 ^ 13) = Inr p"
    by (simp add: sb_percentile_init_def)
  have "2 \<le> unat (100000 :: u32)" by simp
  from percentile_update_safe [OF this _ _ p, of "[5, 0, 10 ^ 20]" "[7]"] p
  show ?thesis by auto
qed

text \<open>C7: The percentile read from the histogram is correct up to the width of a bucket: over
  non-empty samples, for a percentage between 0 and 100, the calculation succeeds and returns a
  value \<open>r\<close> inside the range such that at least the asked number of samples is at most \<open>r\<close> times
  the bucket's relative error, and, unless \<open>r\<close> is the value of bucket 1, fewer than the asked
  number of samples are below \<open>r\<close> by more than that error. Bucket 0 is never answered: the loop
  starts at index 1.\<close>

theorem percentile_calculate_correct:
  assumes "2 \<le> unat sz" and "0 < a" and "a < b" and "sb_percentile_init True sz a b = Inr p"
    and "xs \<noteq> []" and "length xs < 2 ^ 64" and "0 \<le> q" and "q \<le> 100"
  shows "\<exists>s s' r. update_all p xs = Some s \<and> sb_percentile_calculate s q = Some (r, s') \<and>
           a < r \<and> r \<le> b \<and>
           rank (length xs) q \<le> length (filter (\<lambda>v. clamp_value p v \<le> r * bucket_slack p) xs) \<and>
           (r = bucket_value p 1 \<or>
            length (filter (\<lambda>v. clamp_value p v * bucket_slack p < r) xs) < rank (length xs) q)"
proof -
  have ab: "range_min p = a" "range_max p = b" using assms(4) by (auto simp: sb_percentile_init_def)
  from update_all_hist [OF hist_of_init [OF assms(1-4)], of xs] obtain s where
    s: "update_all p xs = Some s" "hist_of s xs" "same_scale s p" by auto
  then have wf: "percentile_wf s" by (simp add: hist_of_def)
  obtain i where i: "sb_percentile_calculate s q = Some (bucket_value s i, s\<lparr>pc_tmp := pc_values s\<rparr>)"
    "1 \<le> i" "i < unat (pc_size s)"
    "rank (length xs) q \<le> length (filter (\<lambda>v. nearest s v < Suc i) xs)"
    "i = 1 \<or> length (filter (\<lambda>v. nearest s v < i) xs) < rank (length xs) q"
    using calculate_scan [OF s(2) assms(5-8)] by blast
  have "rank (length xs) q \<le> length (filter (\<lambda>v. clamp_value s v \<le> bucket_value s i * bucket_slack s) xs)"
    using i(4) hist.count_upto [OF wf, of i xs] by (simp add: less_Suc_eq_le)
  moreover have "bucket_value s i = bucket_value s 1 \<or>
      length (filter (\<lambda>v. clamp_value s v * bucket_slack s < bucket_value s i) xs) < rank (length xs) q"
    using i(5) hist.count_below [OF wf, of i xs] by auto
  moreover have "a < bucket_value s i" "bucket_value s i \<le> b"
    using bucket_value_ends(3,4) [OF wf, of i] i(2,3) s(3) ab by (simp_all add: same_scale_def)
  ultimately show ?thesis
    using s(1) i(1) unfolding same_scale_simps [OF s(3)] by blast
qed

theorem percentile_calculate_correct_witness:
  "\<exists>p s s' r. sb_percentile_init True 100000 1 (10 ^ 13) = Inr p \<and>
     update_all p [5, 3, 8] = Some s \<and> sb_percentile_calculate s 95 = Some (r, s') \<and> 1 < r \<and> r \<le> 10 ^ 13"
proof -
  obtain p where p: "sb_percentile_init True 100000 1 (10 ^ 13) = Inr p"
    by (simp add: sb_percentile_init_def)
  have "2 \<le> unat (100000 :: u32)" by simp
  from percentile_calculate_correct [OF this _ _ p, of "[5, 3, 8]" 95] p
  show ?thesis by auto
qed

end
