(* ===== verification/DB_Stats.thy ===== *)
theory DB_Stats
  imports Timer Percentile
begin

text \<open>
  Query statistics of the database layer (\<open>sysbench/db_driver.c\<close>): classification of queries, the
  per-thread counters, their reset and the two kinds of reports. A report is the record of the
  numbers that are printed; a rate \<open>n / seconds\<close> is kept as its dividend next to \<open>seconds\<close>, because
  C's quotient by zero is not a real number. A thread index outside \<open>thread_stats\<close> is an
  out-of-bounds access (\<^const>\<open>None\<close>).
\<close>

declare of_nat_unat [simp del]

section \<open>Query types\<close>

datatype db_query_type =
  DB_QUERY_TYPE_READ | DB_QUERY_TYPE_WRITE | DB_QUERY_TYPE_COMMIT | DB_QUERY_TYPE_OTHER

definition db_get_query_type :: "string \<Rightarrow> db_query_type" where
  "db_get_query_type query =
     (let q = dropWhile isspace query in
      if strncasecmp_eq q ''select'' 6 then DB_QUERY_TYPE_READ
      else if strncasecmp_eq q ''insert'' 6 \<or> strncasecmp_eq q ''update'' 6 \<or>
              strncasecmp_eq q ''delete'' 6 then DB_QUERY_TYPE_WRITE
      else if strncasecmp_eq q ''commit'' 6 \<or> strncasecmp_eq q ''unlock tables'' 13
        then DB_QUERY_TYPE_COMMIT
      else DB_QUERY_TYPE_OTHER)"

section \<open>Counters\<close>

record db_thread_stat =
  read_ops :: u64
  write_ops :: u64
  other_ops :: u64
  transactions :: u64
  db_errors :: u64
  reconnects :: u64

abbreviation zero_stat :: db_thread_stat where
  "zero_stat \<equiv> \<lparr>read_ops = 0, write_ops = 0, other_ops = 0, transactions = 0, db_errors = 0,
                reconnects = 0\<rparr>"

record db_stats =
  thread_stats :: "db_thread_stat list"
  last_transactions :: u64
  last_read_ops :: u64
  last_write_ops :: u64
  last_errors :: u64
  last_reconnects :: u64
  exec_timer :: sb_timer
  cumulative_timer1 :: sb_timer
  db_debug :: bool
  exec_timers :: "sb_timer list"
  fetch_timers :: "sb_timer list"
  local_percentile :: sb_percentile
  percentile_rank :: u32
  num_running :: int
  tx_rate :: int
  event_queue_length :: int
  concurrency :: int

definition count_query :: "db_query_type \<Rightarrow> db_thread_stat \<Rightarrow> db_thread_stat" where
  "count_query type t =
     (case type of
        DB_QUERY_TYPE_READ \<Rightarrow> t\<lparr>read_ops := read_ops t + 1\<rparr>
      | DB_QUERY_TYPE_WRITE \<Rightarrow> t\<lparr>write_ops := write_ops t + 1\<rparr>
      | DB_QUERY_TYPE_COMMIT \<Rightarrow>
          t\<lparr>other_ops := other_ops t + 1, transactions := transactions t + 1\<rparr>
      | DB_QUERY_TYPE_OTHER \<Rightarrow> t\<lparr>other_ops := other_ops t + 1\<rparr>)"

definition upd_thread_stat ::
  "int \<Rightarrow> (db_thread_stat \<Rightarrow> db_thread_stat) \<Rightarrow> db_stats \<Rightarrow> db_stats option" where
  "upd_thread_stat tid f st =
     (if 0 \<le> tid \<and> nat tid < length (thread_stats st)
      then Some (st\<lparr>thread_stats := (thread_stats st)[nat tid := f (thread_stats st ! nat tid)]\<rparr>)
      else None)"

definition db_update_thread_stats :: "int \<Rightarrow> db_query_type \<Rightarrow> db_stats \<Rightarrow> db_stats option" where
  "db_update_thread_stats tid type st =
     (if tid < 0 then Some st else upd_thread_stat tid (count_query type) st)"

text \<open>\<open>now\<close> is the time at which \<open>sb_timer_split\<close> reads the clock.\<close>

definition db_reset_stats :: "timespec \<Rightarrow> db_stats \<Rightarrow> (db_stats \<times> log) option" where
  "db_reset_stats now st =
     (let st = st\<lparr>thread_stats := map (\<lambda>_. zero_stat) (thread_stats st), last_transactions := 0,
                  last_read_ops := 0, last_write_ops := 0, last_errors := 0\<rparr>;
          timers = (\<lambda>st. if db_debug st
                         then st\<lparr>exec_timers := map sb_timer_init (exec_timers st),
                                 fetch_timers := map sb_timer_init (fetch_timers st)\<rparr>
                         else st)
      in if sb_timer_running (exec_timer st) then
           (case sb_timer_split now (exec_timer st) of
              None \<Rightarrow> None
            | Some (_, t, msgs) \<Rightarrow> Some (timers (st\<lparr>exec_timer := t\<rparr>), msgs))
         else Some (timers st, []))"

text \<open>The sums over all threads, modulo \<open>2 ^ 64\<close>.\<close>

definition add_stat :: "db_thread_stat \<Rightarrow> db_thread_stat \<Rightarrow> db_thread_stat" where
  "add_stat a t =
     \<lparr>read_ops = read_ops a + read_ops t, write_ops = write_ops a + write_ops t,
      other_ops = other_ops a + other_ops t, transactions = transactions a + transactions t,
      db_errors = db_errors a + db_errors t, reconnects = reconnects a + reconnects t\<rparr>"

definition total_stat :: "db_thread_stat list \<Rightarrow> db_thread_stat" where
  "total_stat ts = foldl add_stat zero_stat ts"

section \<open>Reports\<close>

datatype sb_stat = SB_STAT_INTERMEDIATE | SB_STAT_CUMULATIVE

definition NS2SEC :: "u64 \<Rightarrow> real" where "NS2SEC ns = real (unat ns) / 1000000000"
definition NS2MS :: "real \<Rightarrow> real" where "NS2MS ns = ns / 1000000"

record db_interval_report =
  rep_seconds :: real
  rep_threads :: int
  rep_transactions :: u64
  rep_reads :: u64
  rep_writes :: u64
  rep_response_ms :: real
  rep_rank :: u32
  rep_errors :: u64
  rep_reconnects :: u64
  rep_queue :: "(int \<times> int) option"

record timer_summary =
  sum_min :: real
  sum_avg :: real
  sum_max :: real
  sum_total :: real

record db_total_report =
  tot_seconds :: real
  tot_read :: u64
  tot_write :: u64
  tot_other :: u64
  tot_queries :: u64
  tot_transactions :: u64
  tot_read_write :: u64
  tot_errors :: u64
  tot_reconnects :: u64
  tot_timers :: "(timer_summary \<times> timer_summary) option"

datatype db_report = Interval db_interval_report | Total db_total_report

definition summarize :: "sb_timer \<Rightarrow> timer_summary" where
  "summarize t = \<lparr>sum_min = NS2SEC (get_min_time t), sum_avg = NS2SEC (get_avg_time t),
                  sum_max = NS2SEC (get_max_time t), sum_total = NS2SEC (get_sum_time t)\<rparr>"

text \<open>The debug timers of all threads, merged into a fresh timer \<open>t\<close>.\<close>

definition merged_summary :: "sb_timer \<Rightarrow> sb_timer list \<Rightarrow> timer_summary" where
  "merged_summary t ts = summarize (foldl merge_timers (sb_timer_init t) ts)"

definition print_interval ::
  "timespec \<Rightarrow> db_stats \<Rightarrow> (db_interval_report \<times> db_stats \<times> log) option" where
  "print_interval now st =
     (let s = total_stat (thread_stats st) in
      case sb_timer_split now (exec_timer st) of
        None \<Rightarrow> None
      | Some (ns, t, msgs) \<Rightarrow>
          (case sb_percentile_calculate (local_percentile st) (real (unat (percentile_rank st))) of
             None \<Rightarrow> None
           | Some (resp, p) \<Rightarrow>
               Some (\<lparr>rep_seconds = NS2SEC ns, rep_threads = num_running st,
                      rep_transactions = transactions s - last_transactions st,
                      rep_reads = read_ops s - last_read_ops st,
                      rep_writes = write_ops s - last_write_ops st,
                      rep_response_ms = NS2MS resp, rep_rank = percentile_rank st,
                      rep_errors = db_errors s - last_errors st,
                      rep_reconnects = reconnects s - last_reconnects st,
                      rep_queue = (if tx_rate st > 0
                                   then Some (event_queue_length st, concurrency st) else None)\<rparr>,
                     st\<lparr>exec_timer := t, last_transactions := transactions s,
                        last_read_ops := read_ops s, last_write_ops := write_ops s,
                        last_errors := db_errors s, last_reconnects := reconnects s,
                        local_percentile := sb_percentile_reset p\<rparr>,
                     msgs)))"

text \<open>\<open>now\<close> and \<open>now'\<close> are the times of the two readings of the clock; \<open>fresh\<close> is the local timer
  variable that \<open>sb_timer_init\<close> initialises.\<close>

definition db_print_stats ::
  "sb_timer \<Rightarrow> timespec \<Rightarrow> timespec \<Rightarrow> sb_stat \<Rightarrow> db_stats \<Rightarrow> (db_report \<times> db_stats \<times> log) option" where
  "db_print_stats fresh now now' type st =
     (let s = total_stat (thread_stats st) in
      case type of
        SB_STAT_INTERMEDIATE \<Rightarrow>
          (case print_interval now st of
             None \<Rightarrow> None | Some (r, st', msgs) \<Rightarrow> Some (Interval r, st', msgs))
      | SB_STAT_CUMULATIVE \<Rightarrow>
          (case sb_timer_split now (cumulative_timer1 st) of
             None \<Rightarrow> None
           | Some (ns, t, msgs) \<Rightarrow>
               (case db_reset_stats now' (st\<lparr>cumulative_timer1 := t\<rparr>) of
                  None \<Rightarrow> None
                | Some (st', msgs') \<Rightarrow>
                    Some (Total \<lparr>tot_seconds = NS2SEC ns, tot_read = read_ops s,
                                 tot_write = write_ops s, tot_other = other_ops s,
                                 tot_queries = read_ops s + write_ops s + other_ops s,
                                 tot_transactions = transactions s,
                                 tot_read_write = read_ops s + write_ops s,
                                 tot_errors = db_errors s, tot_reconnects = reconnects s,
                                 tot_timers = (if db_debug st
                                   then Some (merged_summary fresh (exec_timers st),
                                              merged_summary fresh (fetch_timers st))
                                   else None)\<rparr>,
                          st', msgs @ msgs'))))"

section \<open>What the counters count\<close>

text \<open>The counters of a thread after it executed queries of the given types.\<close>

definition counts :: "db_query_type \<Rightarrow> db_query_type list \<Rightarrow> u64" where
  "counts ty qs = of_nat (length (filter (\<lambda>q. q = ty) qs))"

definition stat_counts :: "db_thread_stat \<Rightarrow> db_query_type list \<Rightarrow> bool" where
  "stat_counts t qs \<longleftrightarrow>
     read_ops t = counts DB_QUERY_TYPE_READ qs \<and> write_ops t = counts DB_QUERY_TYPE_WRITE qs \<and>
     transactions t = counts DB_QUERY_TYPE_COMMIT qs \<and>
     other_ops t = counts DB_QUERY_TYPE_COMMIT qs + counts DB_QUERY_TYPE_OTHER qs"

lemma counts_simps [simp]:
  "counts ty [] = 0" "counts ty (q # qs) = (if q = ty then 1 else 0) + counts ty qs"
  "counts ty (qs @ rs) = counts ty qs + counts ty rs"
  by (simp_all add: counts_def)

interpretation db_threads: collector stat_counts zero_stat add_stat
  by unfold_locales (auto simp: stat_counts_def add_stat_def)

lemma stat_counts_count_query:
  "stat_counts t qs \<Longrightarrow> stat_counts (count_query q t) (qs @ [q])"
  by (cases q) (auto simp: stat_counts_def count_query_def)

text \<open>Every counter of the total is the sum of the threads' counters.\<close>

definition stat_fields :: "(db_thread_stat \<Rightarrow> u64) set" where
  "stat_fields = {read_ops, write_ops, other_ops, transactions, db_errors, reconnects}"

lemma total_stat_sum:
  assumes "f \<in> stat_fields"
  shows "f (total_stat ts) = sum_list (map f ts)"
proof -
  have z: "f zero_stat = 0" "\<And>a b. f (add_stat a b) = f a + f b"
    using assms by (auto simp: stat_fields_def add_stat_def)
  have "f (foldl add_stat a ts) = f a + sum_list (map f ts)" for a
    by (induction ts arbitrary: a) (simp_all add: z add.assoc)
  then show ?thesis by (simp add: total_stat_def z)
qed

lemma sum_list_map_update:
  fixes f :: "'a \<Rightarrow> 'b :: ab_group_add"
  shows "i < length xs \<Longrightarrow> sum_list (map f (xs[i := y])) = sum_list (map f xs) + (f y - f (xs ! i))"
proof (induction xs arbitrary: i)
  case (Cons x xs)
  then show ?case by (cases i) (simp_all add: algebra_simps)
qed simp

lemma total_stat_update:
  assumes "i < length ts" and "f \<in> stat_fields"
  shows "f (total_stat (ts[i := t])) = f (total_stat ts) + (f t - f (ts ! i))"
  by (simp add: total_stat_sum [OF assms(2)] sum_list_map_update [OF assms(1)])

lemma stat_fields_mem [simp]:
  "read_ops \<in> stat_fields" "write_ops \<in> stat_fields" "other_ops \<in> stat_fields"
  "transactions \<in> stat_fields" "db_errors \<in> stat_fields" "reconnects \<in> stat_fields"
  by (simp_all add: stat_fields_def)

lemma count_query_fields:
  "read_ops (count_query q t) = read_ops t + counts DB_QUERY_TYPE_READ [q]"
  "write_ops (count_query q t) = write_ops t + counts DB_QUERY_TYPE_WRITE [q]"
  "transactions (count_query q t) = transactions t + counts DB_QUERY_TYPE_COMMIT [q]"
  "db_errors (count_query q t) = db_errors t"
  "reconnects (count_query q t) = reconnects t"
  by (cases q; simp add: count_query_def)+

text \<open>
  What happens to a thread's counters, as \<open>db_query\<close> and \<open>db_execute\<close> report it: a query succeeded, the
  driver asked for a restart of the transaction, or it reconnected.
\<close>

datatype db_event = Succeeded db_query_type | Restarted | Reconnected

definition count_event :: "db_event \<Rightarrow> db_thread_stat \<Rightarrow> db_thread_stat" where
  "count_event e t =
     (case e of
        Succeeded q \<Rightarrow> count_query q t
      | Restarted \<Rightarrow> t\<lparr>db_errors := db_errors t + 1\<rparr>
      | Reconnected \<Rightarrow> t\<lparr>reconnects := reconnects t + 1\<rparr>)"

definition record_event :: "int \<Rightarrow> db_event \<Rightarrow> db_stats \<Rightarrow> db_stats option" where
  "record_event i e st =
     (case e of
        Succeeded q \<Rightarrow> db_update_thread_stats i q st
      | Restarted \<Rightarrow> upd_thread_stat i (\<lambda>t. t\<lparr>db_errors := db_errors t + 1\<rparr>) st
      | Reconnected \<Rightarrow> upd_thread_stat i (\<lambda>t. t\<lparr>reconnects := reconnects t + 1\<rparr>) st)"

definition occurrences :: "db_event \<Rightarrow> db_event list \<Rightarrow> u64" where
  "occurrences e es = of_nat (count_list es e)"

lemma record_event_count:
  "0 \<le> i \<Longrightarrow> record_event i e st = upd_thread_stat i (count_event e) st"
  by (cases e) (simp_all add: record_event_def count_event_def db_update_thread_stats_def upd_thread_stat_def)

lemma count_event_field:
  "f \<in> stat_fields \<Longrightarrow> f (count_event e t) = f t + f (count_event e zero_stat)"
  by (auto simp: stat_fields_def count_event_def count_query_def
      split: db_event.split db_query_type.split)

lemma sum_event_field:
  assumes "\<And>e. f (count_event e zero_stat) = (if e = e0 then 1 else 0)"
  shows "sum_list (map (\<lambda>e. f (count_event e zero_stat)) es) = occurrences e0 es"
  by (induction es) (simp_all add: assms occurrences_def)

lemma event_sums:
  "sum_list (map (\<lambda>e. read_ops (count_event e zero_stat)) es) = occurrences (Succeeded DB_QUERY_TYPE_READ) es"
  "sum_list (map (\<lambda>e. write_ops (count_event e zero_stat)) es) = occurrences (Succeeded DB_QUERY_TYPE_WRITE) es"
  "sum_list (map (\<lambda>e. transactions (count_event e zero_stat)) es) = occurrences (Succeeded DB_QUERY_TYPE_COMMIT) es"
  "sum_list (map (\<lambda>e. db_errors (count_event e zero_stat)) es) = occurrences Restarted es"
  "sum_list (map (\<lambda>e. reconnects (count_event e zero_stat)) es) = occurrences Reconnected es"
  by (rule sum_event_field,
      simp add: count_event_def count_query_def split: db_event.split db_query_type.split)+

text \<open>The events of one reporting interval, in the order in which the threads' updates happen.\<close>

fun run_events :: "(int \<times> db_event) list \<Rightarrow> db_stats \<Rightarrow> db_stats option" where
  "run_events [] st = Some st"
| "run_events ((i, e) # es) st =
     (case record_event i e st of None \<Rightarrow> None | Some st' \<Rightarrow> run_events es st')"

fun run_intervals ::
  "(timespec \<times> (int \<times> db_event) list) list \<Rightarrow> db_stats \<Rightarrow> (db_interval_report list \<times> db_stats) option"
where
  "run_intervals [] st = Some ([], st)"
| "run_intervals ((now, es) # rest) st =
     (case run_events es st of
        None \<Rightarrow> None
      | Some st1 \<Rightarrow>
          (case print_interval now st1 of
             None \<Rightarrow> None
           | Some (r, st2, _) \<Rightarrow>
               (case run_intervals rest st2 of
                  None \<Rightarrow> None | Some (rs, st3) \<Rightarrow> Some (r # rs, st3))))"

definition valid_ids :: "nat \<Rightarrow> (int \<times> db_event) list \<Rightarrow> bool" where
  "valid_ids n es \<longleftrightarrow> (\<forall>(i, e) \<in> set es. 0 \<le> i \<and> nat i < n)"

lemma run_events_total:
  "valid_ids (length (thread_stats st)) es \<Longrightarrow>
     \<exists>ts. run_events es st = Some (st\<lparr>thread_stats := ts\<rparr>) \<and> length ts = length (thread_stats st) \<and>
          (\<forall>f \<in> stat_fields. f (total_stat ts) = f (total_stat (thread_stats st))
                               + sum_list (map (\<lambda>e. f (count_event e zero_stat)) (map snd es)))"
proof (induction es arbitrary: st)
  case Nil
  show ?case by (rule exI [of _ "thread_stats st"]) simp
next
  case (Cons ie es)
  obtain i e where ie: "ie = (i, e)" by fastforce
  let ?ts = "thread_stats st"
  let ?ts1 = "?ts[nat i := count_event e (?ts ! nat i)]"
  have i: "0 \<le> i" "nat i < length ?ts" and v: "valid_ids (length ?ts1) es"
    using Cons.prems ie by (auto simp: valid_ids_def)
  have u: "record_event i e st = Some (st\<lparr>thread_stats := ?ts1\<rparr>)"
    using i by (simp add: record_event_count upd_thread_stat_def)
  have one: "f (total_stat ?ts1) = f (total_stat ?ts) + f (count_event e zero_stat)"
    if "f \<in> stat_fields" for f
    using that count_event_field [OF that, of e "?ts ! nat i"] by (simp add: total_stat_update [OF i(2)])
  from Cons.IH [of "st\<lparr>thread_stats := ?ts1\<rparr>"] v obtain ts where
    "run_events es (st\<lparr>thread_stats := ?ts1\<rparr>) = Some (st\<lparr>thread_stats := ts\<rparr>)"
    "length ts = length ?ts1"
    "\<forall>f \<in> stat_fields. f (total_stat ts) = f (total_stat ?ts1)
                         + sum_list (map (\<lambda>e. f (count_event e zero_stat)) (map snd es))"
    by auto
  then show ?case
    by (intro exI [of _ ts]) (simp add: ie u one add.assoc)
qed

lemma calculate_defined:
  assumes h: "hist_of p xs" and "length xs < 2 ^ 64" and "0 \<le> q" and "q \<le> 100"
  shows "\<exists>r p'. sb_percentile_calculate p q = Some (r, p') \<and> hist_of (sb_percentile_reset p') []"
proof (cases "xs = []")
  case True
  with h have "total p = 0" "percentile_wf p" by (simp_all add: hist_of_def)
  then show ?thesis by (simp add: sb_percentile_calculate_def hist_of_reset)
next
  case False
  from calculate_scan [OF h False assms(2-4)] obtain i where
    "sb_percentile_calculate p q = Some (bucket_value p i, p\<lparr>pc_tmp := pc_values p\<rparr>)" by blast
  moreover have "percentile_wf (p\<lparr>pc_tmp := pc_values p\<rparr>)"
    using h by (simp add: hist_of_def percentile_wf_def)
  ultimately show ?thesis by (simp add: hist_of_reset)
qed

text \<open>The state between two reports: the timer can be read, the histogram holds some samples.\<close>

definition report_ready :: "db_stats \<Rightarrow> bool" where
  "report_ready st \<longleftrightarrow>
     sb_timer_initialized (exec_timer st) \<and> unat (percentile_rank st) \<le> 100 \<and>
     (\<exists>xs. hist_of (local_percentile st) xs \<and> length xs < 2 ^ 64)"

definition reported :: "db_stats \<Rightarrow> bool" where
  "reported st \<longleftrightarrow>
     last_transactions st = transactions (total_stat (thread_stats st)) \<and>
     last_read_ops st = read_ops (total_stat (thread_stats st)) \<and>
     last_write_ops st = write_ops (total_stat (thread_stats st)) \<and>
     last_errors st = db_errors (total_stat (thread_stats st)) \<and>
     last_reconnects st = reconnects (total_stat (thread_stats st))"

lemma split_defined:
  assumes "sb_timer_initialized t"
  shows "\<exists>ns t' msgs. sb_timer_split now t = Some (ns, t', msgs) \<and> sb_timer_initialized t'"
  using assms
  by (cases "timer_state t") (auto simp: sb_timer_split_def sb_timer_initialized_def Let_def)

lemma print_interval_result:
  assumes "report_ready st"
  shows "\<exists>r st' msgs. print_interval now st = Some (r, st', msgs) \<and> report_ready st' \<and> reported st' \<and>
           length (thread_stats st') = length (thread_stats st) \<and>
           rep_reads r = read_ops (total_stat (thread_stats st)) - last_read_ops st \<and>
           rep_writes r = write_ops (total_stat (thread_stats st)) - last_write_ops st \<and>
           rep_transactions r = transactions (total_stat (thread_stats st)) - last_transactions st \<and>
           rep_errors r = db_errors (total_stat (thread_stats st)) - last_errors st \<and>
           rep_reconnects r = reconnects (total_stat (thread_stats st)) - last_reconnects st"
proof -
  from assms obtain xs where xs: "hist_of (local_percentile st) xs" "length xs < 2 ^ 64"
    and rank: "unat (percentile_rank st) \<le> 100" and tm: "sb_timer_initialized (exec_timer st)"
    by (auto simp: report_ready_def)
  obtain ns t msgs where t: "sb_timer_split now (exec_timer st) = Some (ns, t, msgs)"
    "sb_timer_initialized t" using split_defined [OF tm] by blast
  obtain v p where p: "sb_percentile_calculate (local_percentile st) (real (unat (percentile_rank st))) = Some (v, p)"
    "hist_of (sb_percentile_reset p) []"
    using calculate_defined [OF xs, of "real (unat (percentile_rank st))"] rank by auto
  from p(2) have "\<exists>xs. hist_of (sb_percentile_reset p) xs \<and> length xs < 2 ^ 64"
    by (intro exI [of _ "[]"]) simp
  then show ?thesis
    using t p(1) rank by (auto simp: print_interval_def Let_def report_ready_def reported_def)
qed

section \<open>Properties\<close>

text \<open>C22: Every intermediate report counts exactly the events of its own interval, whatever the
  threads they happened in and their order: starting from a state whose counters have just been
  reported (the state after the start, in which all are 0, is one), the reads, writes, transactions
  (COMMITs), errors and reconnects in the successive reports are the numbers of such events between
  two reports, modulo \<open>2 ^ 64\<close>. The interval after a reset of the counters is not covered:
  \<open>db_reset_stats\<close> keeps \<open>last_reconnects\<close>, so its reconnects may be wrong.\<close>

theorem interval_reports_exact:
  "report_ready st \<Longrightarrow> reported st \<Longrightarrow> \<forall>(now, es) \<in> set ivs. valid_ids (length (thread_stats st)) es \<Longrightarrow>
     \<exists>rs st'. run_intervals ivs st = Some (rs, st') \<and>
       list_all2 (\<lambda>(now, es) r.
           rep_reads r = occurrences (Succeeded DB_QUERY_TYPE_READ) (map snd es) \<and>
           rep_writes r = occurrences (Succeeded DB_QUERY_TYPE_WRITE) (map snd es) \<and>
           rep_transactions r = occurrences (Succeeded DB_QUERY_TYPE_COMMIT) (map snd es) \<and>
           rep_errors r = occurrences Restarted (map snd es) \<and>
           rep_reconnects r = occurrences Reconnected (map snd es)) ivs rs"
proof (induction ivs arbitrary: st)
  case (Cons iv ivs)
  obtain now es where iv: "iv = (now, es)" by fastforce
  have v: "valid_ids (length (thread_stats st)) es" using Cons.prems(3) iv by auto
  obtain ts where ts: "run_events es st = Some (st\<lparr>thread_stats := ts\<rparr>)"
    "length ts = length (thread_stats st)"
    "\<forall>f \<in> stat_fields. f (total_stat ts) = f (total_stat (thread_stats st))
                         + sum_list (map (\<lambda>e. f (count_event e zero_stat)) (map snd es))"
    using run_events_total [OF v] by blast
  have tot: "f \<in> stat_fields \<Longrightarrow> f (total_stat ts) = f (total_stat (thread_stats st))
                         + sum_list (map (\<lambda>e. f (count_event e zero_stat)) (map snd es))" for f
    using ts(3) by blast
  have "report_ready (st\<lparr>thread_stats := ts\<rparr>)"
    using Cons.prems(1) by (simp add: report_ready_def)
  from print_interval_result [OF this, of now] obtain r st2 msgs where
    r: "print_interval now (st\<lparr>thread_stats := ts\<rparr>) = Some (r, st2, msgs)"
      "report_ready st2" "reported st2" "length (thread_stats st2) = length ts"
      "rep_reads r = read_ops (total_stat ts) - last_read_ops st"
      "rep_writes r = write_ops (total_stat ts) - last_write_ops st"
      "rep_transactions r = transactions (total_stat ts) - last_transactions st"
      "rep_errors r = db_errors (total_stat ts) - last_errors st"
      "rep_reconnects r = reconnects (total_stat ts) - last_reconnects st"
    by auto
  have "\<forall>(now, es) \<in> set ivs. valid_ids (length (thread_stats st2)) es"
    using Cons.prems(3) r(4) ts(2) by auto
  from Cons.IH [OF r(2,3) this] obtain rs st3 where
    rest: "run_intervals ivs st2 = Some (rs, st3)"
    and all: "list_all2 (\<lambda>(now, es) r.
           rep_reads r = occurrences (Succeeded DB_QUERY_TYPE_READ) (map snd es) \<and>
           rep_writes r = occurrences (Succeeded DB_QUERY_TYPE_WRITE) (map snd es) \<and>
           rep_transactions r = occurrences (Succeeded DB_QUERY_TYPE_COMMIT) (map snd es) \<and>
           rep_errors r = occurrences Restarted (map snd es) \<and>
           rep_reconnects r = occurrences Reconnected (map snd es)) ivs rs"
    by blast
  show ?case
    using all Cons.prems(2)
    by (intro exI [of _ "r # rs"] exI [of _ st3])
      (simp add: iv reported_def ts(1) rest r(1,5-9) tot event_sums del: map_map)
qed simp

definition example_stats :: "sb_percentile \<Rightarrow> db_stats" where
  "example_stats p =
     (let t = sb_timer_init \<lparr>time_start = zero_timespec, time_end = zero_timespec,
                time_split = zero_timespec, elapsed = 0, min_time = 0, max_time = 0, sum_time = 0,
                events = 0, queue_time = 0, timer_state = TIMER_UNINITIALIZED\<rparr>
      in \<lparr>thread_stats = [zero_stat, zero_stat], last_transactions = 0, last_read_ops = 0,
          last_write_ops = 0, last_errors = 0, last_reconnects = 0,
          exec_timer = t, cumulative_timer1 = t, db_debug = False, exec_timers = [], fetch_timers = [],
          local_percentile = p, percentile_rank = 95, num_running = 2, tx_rate = 0,
          event_queue_length = 0, concurrency = 0\<rparr>)"

lemma example_percentile: "\<exists>p. sb_percentile_init True 100000 1 (10 ^ 13) = Inr p \<and> hist_of p []"
proof -
  obtain p where p: "sb_percentile_init True 100000 1 (10 ^ 13) = Inr p"
    by (simp add: sb_percentile_init_def)
  have "2 \<le> unat (100000 :: u32)" by simp
  from hist_of_init [OF this _ _ p] p show ?thesis by simp
qed

lemma example_stats_ready:
  assumes "hist_of p []"
  shows "report_ready (example_stats p)" and "reported (example_stats p)"
proof -
  show "report_ready (example_stats p)"
    using assms by (auto simp: report_ready_def example_stats_def Let_def sb_timer_initialized_def
        sb_timer_init_def intro!: exI [of _ "[]"])
  show "reported (example_stats p)"
    by (simp add: reported_def example_stats_def Let_def total_stat_def add_stat_def)
qed

theorem interval_reports_exact_witness:
  "\<exists>p rs st'. run_intervals [(zero_timespec, [(0, Succeeded DB_QUERY_TYPE_READ), (1, Succeeded DB_QUERY_TYPE_READ)]),
                             (zero_timespec, [(1, Succeeded DB_QUERY_TYPE_COMMIT), (0, Restarted)])] (example_stats p) = Some (rs, st') \<and>
              map rep_reads rs = [2, 0] \<and> map rep_transactions rs = [0, 1] \<and> map rep_errors rs = [0, 1]"
proof -
  obtain p where h: "hist_of p []" using example_percentile by blast
  from interval_reports_exact [OF example_stats_ready [OF h],
      of "[(zero_timespec, [(0, Succeeded DB_QUERY_TYPE_READ), (1, Succeeded DB_QUERY_TYPE_READ)]),
           (zero_timespec, [(1, Succeeded DB_QUERY_TYPE_COMMIT), (0, Restarted)])]"]
  show ?thesis
    by (fastforce simp: valid_ids_def example_stats_def Let_def list_all2_Cons1 occurrences_def)
qed

lemma reset_defined:
  shows "\<exists>st' msgs. db_reset_stats now st = Some (st', msgs) \<and>
           thread_stats st' = map (\<lambda>_. zero_stat) (thread_stats st) \<and>
           last_reconnects st' = last_reconnects st \<and> last_read_ops st' = 0 \<and>
           last_write_ops st' = 0 \<and> last_transactions st' = 0 \<and> last_errors st' = 0 \<and>
           local_percentile st' = local_percentile st \<and> percentile_rank st' = percentile_rank st \<and>
           (sb_timer_initialized (exec_timer st) \<longrightarrow> sb_timer_initialized (exec_timer st'))"
proof (cases "sb_timer_running (exec_timer st)")
  case True
  then have "sb_timer_initialized (exec_timer st)"
    by (simp add: sb_timer_running_def sb_timer_initialized_def)
  from split_defined [OF this, of now] True show ?thesis
    by (auto simp: db_reset_stats_def Let_def)
next
  case False
  then show ?thesis by (simp add: db_reset_stats_def Let_def)
qed

lemma total_zero [simp]: "total_stat (map (\<lambda>_. zero_stat) ts) = zero_stat"
  unfolding total_stat_def by (induction ts) (simp_all add: add_stat_def)

lemma counts_total:
  "counts DB_QUERY_TYPE_READ qs + counts DB_QUERY_TYPE_WRITE qs
     + (counts DB_QUERY_TYPE_COMMIT qs + counts DB_QUERY_TYPE_OTHER qs) = of_nat (length qs)"
proof (induction qs)
  case (Cons q qs)
  then show ?case by (cases q) (simp_all add: algebra_simps)
qed simp

text \<open>The cumulative report adds up the queries of all threads: when each thread's counters hold
  the queries it executed, the report's totals are the numbers of all queries, of reads, of writes
  and of COMMITs over all threads (modulo \<open>2 ^ 64\<close>), and the thread counters are zero afterwards.\<close>

theorem cumulative_report_counts:
  assumes "sb_timer_initialized (cumulative_timer1 st)"
    and "list_all2 stat_counts (thread_stats st) qss"
  shows "\<exists>r st' msgs. db_print_stats fresh now now' SB_STAT_CUMULATIVE st = Some (Total r, st', msgs) \<and>
           tot_queries r = of_nat (length (concat qss)) \<and>
           tot_read r = counts DB_QUERY_TYPE_READ (concat qss) \<and>
           tot_write r = counts DB_QUERY_TYPE_WRITE (concat qss) \<and>
           tot_transactions r = counts DB_QUERY_TYPE_COMMIT (concat qss) \<and>
           thread_stats st' = map (\<lambda>_. zero_stat) (thread_stats st)"
proof -
  obtain ns t msgs where t: "sb_timer_split now (cumulative_timer1 st) = Some (ns, t, msgs)"
    using split_defined [OF assms(1)] by blast
  have c: "stat_counts (total_stat (thread_stats st)) (concat qss)"
    unfolding total_stat_def by (rule db_threads.holds_all [OF assms(2)])
  obtain st' msgs' where "db_reset_stats now' (st\<lparr>cumulative_timer1 := t\<rparr>) = Some (st', msgs')"
    "thread_stats st' = map (\<lambda>_. zero_stat) (thread_stats st)"
    using reset_defined [of now' "st\<lparr>cumulative_timer1 := t\<rparr>"] by auto
  with t c counts_total [of "concat qss"] show ?thesis
    by (simp add: db_print_stats_def Let_def stat_counts_def)
qed

theorem cumulative_report_counts_witness:
  "\<exists>p r st' msgs. db_print_stats (exec_timer (example_stats p)) zero_timespec zero_timespec SB_STAT_CUMULATIVE
      ((example_stats p)\<lparr>thread_stats := [count_query DB_QUERY_TYPE_READ zero_stat,
                                          count_query DB_QUERY_TYPE_COMMIT zero_stat]\<rparr>)
      = Some (Total r, st', msgs) \<and> tot_queries r = 2 \<and> tot_transactions r = 1"
proof -
  let ?st = "\<lambda>p. (example_stats p)\<lparr>thread_stats := [count_query DB_QUERY_TYPE_READ zero_stat,
                                          count_query DB_QUERY_TYPE_COMMIT zero_stat]\<rparr>"
  have i: "sb_timer_initialized (cumulative_timer1 (?st p))" for p
    by (simp add: example_stats_def Let_def sb_timer_initialized_def sb_timer_init_def)
  have c: "list_all2 stat_counts (thread_stats (?st p)) [[DB_QUERY_TYPE_READ], [DB_QUERY_TYPE_COMMIT]]" for p
    using stat_counts_count_query [OF db_threads.holds_empty] by simp
  show ?thesis
    using cumulative_report_counts [OF i c] by fastforce
qed

text \<open>\<open>db_reset_stats\<close> does not reset \<open>last_reconnects\<close>: when an intermediate report has shown
  reconnects and a cumulative report (a checkpoint) follows, the next intermediate report without
  any new reconnect shows the previous number subtracted from zero, modulo \<open>2 ^ 64\<close>.\<close>

theorem reset_underflows_reconnects:
  assumes "report_ready st" and "sb_timer_initialized (cumulative_timer1 st)"
    and "0 < unat (last_reconnects st)"
  shows "\<exists>c st1 m1 r st2 m2.
           db_print_stats fresh now now' SB_STAT_CUMULATIVE st = Some (c, st1, m1) \<and>
           print_interval now'' st1 = Some (r, st2, m2) \<and>
           unat (rep_reconnects r) = 2 ^ 64 - unat (last_reconnects st)"
proof -
  obtain ns t msgs where t: "sb_timer_split now (cumulative_timer1 st) = Some (ns, t, msgs)"
    using split_defined [OF assms(2)] by blast
  obtain st1 m where st1: "db_reset_stats now' (st\<lparr>cumulative_timer1 := t\<rparr>) = Some (st1, m)"
    "thread_stats st1 = map (\<lambda>_. zero_stat) (thread_stats st)"
    "last_reconnects st1 = last_reconnects st" "local_percentile st1 = local_percentile st"
    "percentile_rank st1 = percentile_rank st"
    "sb_timer_initialized (exec_timer st) \<longrightarrow> sb_timer_initialized (exec_timer st1)"
    using reset_defined [of now' "st\<lparr>cumulative_timer1 := t\<rparr>"] by auto
  have "report_ready st1" using assms(1) st1 by (simp add: report_ready_def)
  from print_interval_result [OF this, of now''] obtain r st2 m2 where
    r: "print_interval now'' st1 = Some (r, st2, m2)" "rep_reconnects r = 0 - last_reconnects st"
    using st1(2,3) by auto
  have "unat (0 - last_reconnects st) = 2 ^ 64 - unat (last_reconnects st)"
    using unat_neg_u64 [OF assms(3)] by simp
  with t st1(1) r show ?thesis by (simp add: db_print_stats_def Let_def)
qed

theorem reset_underflows_reconnects_witness:
  "\<exists>p c st1 m1 r st2 m2.
     db_print_stats (exec_timer (example_stats p)) zero_timespec zero_timespec SB_STAT_CUMULATIVE
       ((example_stats p)\<lparr>last_reconnects := 1\<rparr>) = Some (c, st1, m1) \<and>
     print_interval zero_timespec st1 = Some (r, st2, m2) \<and> unat (rep_reconnects r) = 2 ^ 64 - 1"
proof -
  obtain p where h: "hist_of p []" using example_percentile by blast
  let ?st = "(example_stats p)\<lparr>last_reconnects := 1\<rparr>"
  have "report_ready ?st" using example_stats_ready(1) [OF h] by (simp add: report_ready_def)
  moreover have "sb_timer_initialized (cumulative_timer1 ?st)"
    by (simp add: example_stats_def Let_def sb_timer_initialized_def sb_timer_init_def)
  ultimately show ?thesis using reset_underflows_reconnects [of ?st] by fastforce
qed

end
