(* ===== verification/Sysbench_Init.thy ===== *)
theory Sysbench_Init
  imports "HOL-Library.Multiset" Options SB_Random DB_Stats
begin

text \<open>
  Start-up of \<open>sysbench/sysbench.c\<close>: the table of general options, the parsing of the command line
  and \<open>init\<close>, which turns the options into the program's settings. Results are \<^typ>\<open>int\<close> return codes
  as in the source; \<^const>\<open>None\<close> is an access through a NULL pointer or an undefined conversion. \<open>exit\<close>
  inside \<open>sb_get_value_int\<close> and a return code of 1 from \<open>init\<close> both end the program with code 1.
  Messages are not modelled.
\<close>

section \<open>Data\<close>

datatype sb_cmd =
  SB_COMMAND_NULL | SB_COMMAND_PREPARE | SB_COMMAND_RUN | SB_COMMAND_CLEANUP | SB_COMMAND_HELP
| SB_COMMAND_VERSION

definition MAX_CHECKPOINTS :: nat where "MAX_CHECKPOINTS = 256"

record sb_globals =
  command :: sb_cmd
  g_error :: int
  num_threads :: u32
  report_interval :: u32
  checkpoints :: "u32 list"
  g_tx_rate :: u32
  max_requests :: u32
  max_time :: u32
  debug :: bool
  force_shutdown :: bool
  timeout :: u32
  validate :: bool
  thread_stack_size :: int
  rand_init :: bool
  rand_seed :: int

definition mk_arg :: "string \<Rightarrow> string \<Rightarrow> sb_arg_type \<Rightarrow> string option \<Rightarrow> sb_arg" where
  "mk_arg n d ty v = \<lparr>arg_name = n, arg_desc = d, arg_type = ty, arg_value = v\<rparr>"

definition general_args :: "sb_arg list" where
  "general_args =
    [mk_arg ''num-threads'' ''number of threads to use'' SB_ARG_TYPE_INT (Some ''1''),
     mk_arg ''max-requests'' ''limit for total number of requests'' SB_ARG_TYPE_INT (Some ''10000''),
     mk_arg ''max-time'' ''limit for total execution time in seconds'' SB_ARG_TYPE_INT (Some ''0''),
     mk_arg ''forced-shutdown'' ''amount of time to wait after --max-time before forcing shutdown''
       SB_ARG_TYPE_STRING (Some ''off''),
     mk_arg ''thread-stack-size'' ''size of stack per thread'' SB_ARG_TYPE_SIZE (Some ''64K''),
     mk_arg ''tx-rate'' ''target transaction rate (tps)'' SB_ARG_TYPE_INT (Some ''0''),
     mk_arg ''report-interval'' (''periodically report intermediate statistics '' @
       ''with a specified interval in seconds. 0 disables intermediate reports'')
       SB_ARG_TYPE_INT (Some ''0''),
     mk_arg ''report-checkpoints'' (''dump full statistics and reset all counters at '' @
       ''specified points in time. The argument is a list of comma-separated values '' @
       ''representing the amount of time in seconds elapsed from start of test '' @
       ''when report checkpoint(s) must be performed. Report checkpoints are off by '' @
       ''default.'') SB_ARG_TYPE_LIST (Some ''''),
     mk_arg ''test'' ''test to run'' SB_ARG_TYPE_STRING None,
     mk_arg ''debug'' ''print more debugging info'' SB_ARG_TYPE_FLAG (Some ''off''),
     mk_arg ''validate'' ''perform validation checks where possible'' SB_ARG_TYPE_FLAG (Some ''off''),
     mk_arg ''help'' ''print help and exit'' SB_ARG_TYPE_FLAG None,
     mk_arg ''version'' ''print version and exit'' SB_ARG_TYPE_FLAG (Some ''off''),
     mk_arg ''rand-init'' ''initialize random number generator'' SB_ARG_TYPE_FLAG (Some ''off''),
     mk_arg ''rand-type'' ''random numbers distribution {uniform,gaussian,special,pareto}''
       SB_ARG_TYPE_STRING (Some ''special''),
     mk_arg ''rand-spec-iter'' ''number of iterations used for numbers generation''
       SB_ARG_TYPE_INT (Some ''12''),
     mk_arg ''rand-spec-pct'' (''percentage of values to be treated as '' @ [CHR 0x27] @ ''special'' @
       [CHR 0x27] @ '' (for special distribution)'') SB_ARG_TYPE_INT (Some ''1''),
     mk_arg ''rand-spec-res'' (''percentage of '' @ [CHR 0x27] @ ''special'' @ [CHR 0x27] @
       '' values to use (for special distribution)'') SB_ARG_TYPE_INT (Some ''75''),
     mk_arg ''rand-seed'' ''seed for random number generator, ignored when 0''
       SB_ARG_TYPE_INT (Some ''0''),
     mk_arg ''rand-pareto-h'' ''parameter h for pareto distibution'' SB_ARG_TYPE_FLOAT (Some ''0.2''),
     mk_arg ''config-file'' ''File containing command line options'' SB_ARG_TYPE_FILE None]"

section \<open>The command line\<close>

definition parse_command :: "string \<Rightarrow> sb_cmd" where
  "parse_command cmd =
     (if cmd = ''prepare'' then SB_COMMAND_PREPARE
      else if cmd = ''run'' then SB_COMMAND_RUN
      else if cmd = ''help'' then SB_COMMAND_HELP
      else if cmd = ''cleanup'' then SB_COMMAND_CLEANUP
      else if cmd = ''version'' then SB_COMMAND_VERSION
      else SB_COMMAND_NULL)"

text \<open>The registration loop stops at the first test without options.\<close>

fun register_test_args :: "files \<Rightarrow> sb_arg list option list \<Rightarrow> options \<Rightarrow> nat \<times> options" where
  "register_test_args fs [] opts = (0, opts)"
| "register_test_args fs (None # tests) opts = (0, opts)"
| "register_test_args fs (Some args # tests) opts =
     (let (rc, opts) = sb_register_arg_set fs opts args
      in if rc \<noteq> 0 then (1, opts) else register_test_args fs tests opts)"

text \<open>The name and the value of \<open>--name=value\<close>; without \<open>=\<close> the value is NULL.\<close>

definition split_option :: "string \<Rightarrow> string \<times> string option" where
  "split_option s =
     (case strchr_split (CHR ''='') s of None \<Rightarrow> (s, None) | Some (n, v) \<Rightarrow> (n, Some v))"

definition set_cmdline_option :: "files \<Rightarrow> options \<Rightarrow> string \<Rightarrow> string option \<Rightarrow> nat \<times> options" where
  "set_cmdline_option fs opts name val =
     (case sb_find_option opts name of
        None \<Rightarrow> sb_set_option fs opts name val SB_ARG_TYPE_STRING
      | Some i \<Rightarrow> sb_set_option fs opts name val (o_type (opts ! i)))"

fun parse_argv :: "files \<Rightarrow> string list \<Rightarrow> sb_cmd \<Rightarrow> options \<Rightarrow> nat \<times> sb_cmd \<times> options" where
  "parse_argv fs [] cmd opts = (0, cmd, opts)"
| "parse_argv fs (a # argv) cmd opts =
     (if take 2 a \<noteq> ''--'' then
        (if cmd \<noteq> SB_COMMAND_NULL then (1, cmd, opts)
         else let cmd = parse_command a in
           if cmd = SB_COMMAND_NULL then (1, cmd, opts) else parse_argv fs argv cmd opts)
      else if cmd = SB_COMMAND_HELP then (1, cmd, opts)
      else if cmd = SB_COMMAND_VERSION then (0, cmd, opts)
      else let (name, val) = split_option (drop 2 a); (rc, opts) = set_cmdline_option fs opts name val
           in if rc \<noteq> 0 then (1, cmd, opts) else parse_argv fs argv cmd opts)"

text \<open>\<open>argv\<close> without the program's name; \<open>tests\<close> are the option tables of the registered tests.\<close>

definition parse_arguments ::
  "files \<Rightarrow> sb_arg list option list \<Rightarrow> string list \<Rightarrow> options \<Rightarrow> nat \<times> sb_cmd \<times> options" where
  "parse_arguments fs tests argv opts =
     (let (rc, opts) = sb_register_arg_set fs opts general_args in
      if rc \<noteq> 0 then (1, SB_COMMAND_NULL, opts)
      else let (rc, opts) = register_test_args fs tests opts in
        if rc \<noteq> 0 then (1, SB_COMMAND_NULL, opts) else parse_argv fs argv SB_COMMAND_NULL opts)"

section \<open>Checkpoints\<close>

definition checkpoint_cmp :: "u32 \<Rightarrow> u32 \<Rightarrow> int" where
  "checkpoint_cmp a b = to_int32 (uint (a - b))"

text \<open>
  \<open>qsort\<close>: the array sorted by the comparison function, provided that the function orders the elements
  of the array consistently; otherwise the behaviour is undefined.
\<close>

definition cmp_consistent :: "('a \<Rightarrow> 'a \<Rightarrow> int) \<Rightarrow> 'a list \<Rightarrow> bool" where
  "cmp_consistent cmp xs \<longleftrightarrow>
     list_all (\<lambda>a. list_all (\<lambda>b. sgn (cmp a b) = - sgn (cmp b a) \<and>
       list_all (\<lambda>c. cmp a b \<le> 0 \<longrightarrow> cmp b c \<le> 0 \<longrightarrow> cmp a c \<le> 0) xs) xs) xs"

fun insert_cmp :: "('a \<Rightarrow> 'a \<Rightarrow> int) \<Rightarrow> 'a \<Rightarrow> 'a list \<Rightarrow> 'a list" where
  "insert_cmp cmp x [] = [x]"
| "insert_cmp cmp x (y # ys) = (if cmp x y \<le> 0 then x # y # ys else y # insert_cmp cmp x ys)"

definition qsort :: "('a \<Rightarrow> 'a \<Rightarrow> int) \<Rightarrow> 'a list \<Rightarrow> 'a list option" where
  "qsort cmp xs = (if cmp_consistent cmp xs then Some (foldr (insert_cmp cmp) xs []) else None)"

text \<open>The loop over the values of \<open>--report-checkpoints\<close>; \<open>Inl\<close> is the return code 1.\<close>

fun parse_checkpoints :: "string list \<Rightarrow> u32 list \<Rightarrow> int + u32 list" where
  "parse_checkpoints [] cps = Inr cps"
| "parse_checkpoints (v # vs) cps =
     (let (res, endptr) = strtol v in
      if endptr \<noteq> [] \<or> res < 0 \<or> res > UINT_MAX then Inl 1
      else if length cps + 1 > MAX_CHECKPOINTS then Inl 1
      else parse_checkpoints vs (cps @ [word_of_int res]))"

section \<open>Settings\<close>

text \<open>The value of \<open>--forced-shutdown\<close>: whether to force, and the timeout.\<close>

definition parse_forced_shutdown :: "string option \<Rightarrow> u32 \<Rightarrow> u32 \<Rightarrow> (int + bool \<times> u32) option" where
  "parse_forced_shutdown val maxt old =
     (case val of
        None \<Rightarrow> Some (Inr (True, maxt div 20))
      | Some tmp \<Rightarrow>
          (if strcasecmp_eq tmp ''off'' then Some (Inr (False, old))
           else let (res, endptr) = strtol tmp; to = word_of_int res :: u32 in
             if endptr \<noteq> [] \<and> hd endptr = CHR ''%'' then
               (case double_to_u32 (real (unat to) * real (unat maxt) / 100) of
                  None \<Rightarrow> None | Some to' \<Rightarrow> Some (Inr (True, to')))
             else if tmp = [] \<or> endptr \<noteq> [] then Some (Inl 1)
             else Some (Inr (True, to))))"

definition parse_rand_type :: "string \<Rightarrow> rand_dist option" where
  "parse_rand_type s =
     (if s = ''uniform'' then Some DIST_TYPE_UNIFORM
      else if s = ''gaussian'' then Some DIST_TYPE_GAUSSIAN
      else if s = ''special'' then Some DIST_TYPE_SPECIAL
      else if s = ''pareto'' then Some DIST_TYPE_PARETO
      else None)"

text \<open>\<open>sb_get_value_int\<close> followed by the rest of the function; it may end the program.\<close>

definition with_int :: "options \<Rightarrow> string \<Rightarrow> (int \<Rightarrow> (int + 'a) option) \<Rightarrow> (int + 'a) option" where
  "with_int opts name k = (case sb_get_value_int opts name of Inl c \<Rightarrow> Some (Inl c) | Inr v \<Rightarrow> k v)"

definition init_shutdown :: "options \<Rightarrow> sb_globals \<Rightarrow> (int + sb_globals) option" where
  "init_shutdown opts g =
     (if max_time g > 0 then
        (case parse_forced_shutdown (sb_get_value_string opts ''forced-shutdown'') (max_time g) (timeout g) of
           None \<Rightarrow> None
         | Some (Inl c) \<Rightarrow> Some (Inl c)
         | Some (Inr (force, t)) \<Rightarrow> Some (Inr (g\<lparr>force_shutdown := force, timeout := t\<rparr>)))
      else Some (Inr g))"

definition init_limits :: "options \<Rightarrow> sb_globals \<Rightarrow> (int + sb_globals) option" where
  "init_limits opts g =
     with_int opts ''num-threads'' (\<lambda>n.
       if word_of_int n = (0 :: u32) then Some (Inl 1)
       else with_int opts ''max-requests'' (\<lambda>r. with_int opts ''max-time'' (\<lambda>t.
         init_shutdown opts (g\<lparr>num_threads := word_of_int n, max_requests := word_of_int r,
                               max_time := word_of_int t\<rparr>))))"

definition init_random ::
  "(string \<Rightarrow> real option) \<Rightarrow> options \<Rightarrow> sb_globals \<Rightarrow> rnd_state \<Rightarrow> (int + sb_globals \<times> rnd_state) option" where
  "init_random scan opts g r =
     (let ri = sb_get_value_flag opts ''rand-init'' in
      with_int opts ''rand-seed'' (\<lambda>seed.
        if ri \<and> seed \<noteq> 0 then Some (Inl 1)
        else case sb_get_value_string opts ''rand-type'' of
          None \<Rightarrow> None
        | Some s \<Rightarrow>
            (case parse_rand_type s of
               None \<Rightarrow> Some (Inl 1)
             | Some ty \<Rightarrow>
                 with_int opts ''rand-spec-iter'' (\<lambda>iter. with_int opts ''rand-spec-pct'' (\<lambda>pct.
                 with_int opts ''rand-spec-res'' (\<lambda>res.
                   case sb_get_value_float scan opts ''rand-pareto-h'' of
                     None \<Rightarrow> None
                   | Some h \<Rightarrow>
                       Some (Inr (g\<lparr>rand_init := ri, rand_seed := seed\<rparr>,
                         r\<lparr>rand_type := ty, rand_iter := word_of_int iter, rand_pct := word_of_int pct,
                           rand_res := word_of_int res, pareto_power := ln h / ln (1 - h)\<rparr>))))))))"

definition init_reports :: "options \<Rightarrow> sb_globals \<Rightarrow> (int + sb_globals) option" where
  "init_reports opts g =
     with_int opts ''tx-rate'' (\<lambda>tx. with_int opts ''report-interval'' (\<lambda>ri.
       case sb_get_value_list opts ''report-checkpoints'' of
         None \<Rightarrow> None
       | Some vals \<Rightarrow>
           (case parse_checkpoints (map v_data vals) [] of
              Inl c \<Rightarrow> Some (Inl c)
            | Inr cps \<Rightarrow>
                (case (if cps \<noteq> [] then qsort checkpoint_cmp cps else Some cps) of
                   None \<Rightarrow> None
                 | Some cps' \<Rightarrow>
                     Some (Inr (g\<lparr>g_tx_rate := word_of_int tx, report_interval := word_of_int ri,
                                  checkpoints := cps'\<rparr>))))))"

text \<open>\<open>init\<close>. \<open>alloc\<close> tells whether the allocation of the thread table succeeds; \<open>scan\<close> is
  \<open>sscanf (s, "%f")\<close>.\<close>

definition sb_init ::
  "files \<Rightarrow> (string \<Rightarrow> real option) \<Rightarrow> bool \<Rightarrow> options \<Rightarrow> sb_globals \<Rightarrow> rnd_state \<Rightarrow>
   (int + sb_globals \<times> rnd_state \<times> options) option" where
  "sb_init fs scan alloc opts g r =
     (case init_limits opts g of
        None \<Rightarrow> None
      | Some (Inl c) \<Rightarrow> Some (Inl c)
      | Some (Inr g) \<Rightarrow>
          (if \<not> alloc then Some (Inl 1)
           else let stack = to_int32 (uint (sb_get_value_size opts ''thread-stack-size'')) in
             if stack \<le> 0 then Some (Inl 1)
             else let dbg = sb_get_value_flag opts ''debug'';
                      opts = (if dbg then
                                (case sb_find_option opts ''verbosity'' of
                                   None \<Rightarrow> opts
                                 | Some i \<Rightarrow> snd (sb_set_option fs opts (o_name (opts ! i)) (Some ''5'')
                                                   (o_type (opts ! i))))
                              else opts);
                      g = g\<lparr>thread_stack_size := stack, debug := dbg,
                            validate := sb_get_value_flag opts ''validate''\<rparr>
                  in case init_random scan opts g r of
                       None \<Rightarrow> None
                     | Some (Inl c) \<Rightarrow> Some (Inl c)
                     | Some (Inr (g, r)) \<Rightarrow>
                         (case init_reports opts g of
                            None \<Rightarrow> None
                          | Some (Inl c) \<Rightarrow> Some (Inl c)
                          | Some (Inr g) \<Rightarrow> Some (Inr (g, r, opts)))))"

text \<open>
  The list of checkpoints in \<open>print_run_mode\<close>, printed into a buffer of \<open>MAX_CHECKPOINTS * 12\<close> bytes;
  \<open>room\<close> is the space left. The loop stops when an entry does not fit; the text then ends with the
  part of the entry that does.
\<close>

fun checkpoint_entries :: "u32 list \<Rightarrow> nat \<Rightarrow> string" where
  "checkpoint_entries [] room = []"
| "checkpoint_entries [c] room = take (room - 1) (show_nat (unat c))"
| "checkpoint_entries (c # cs) room =
     (let txt = show_nat (unat c) @ '', '' in
      if length txt \<ge> room then take (room - 1) txt
      else txt @ checkpoint_entries cs (room - length txt))"

definition checkpoint_list_str :: "u32 list \<Rightarrow> string" where
  "checkpoint_list_str cps = checkpoint_entries cps (MAX_CHECKPOINTS * 12)"

section \<open>Sorting of the checkpoints\<close>

lemma checkpoint_cmp_diff:
  assumes "\<bar>uint a - uint b\<bar> < 2147483648"
  shows "checkpoint_cmp a b = uint a - uint b"
proof -
  have "uint (a - b) = (uint a - uint b) mod 4294967296" by (simp add: uint_word_ariths)
  moreover have "((uint a - uint b) mod 4294967296 + 2147483648) mod 4294967296
      = (uint a - uint b + 2147483648) mod 4294967296" by (rule mod_add_left_eq)
  moreover have "0 \<le> uint a - uint b + 2147483648" "uint a - uint b + 2147483648 < 4294967296"
    using assms by linarith+
  ultimately show ?thesis by (simp add: checkpoint_cmp_def to_int32_def)
qed

text \<open>Beyond that the order is inverted: the smaller value compares as the larger one.\<close>

lemma checkpoint_cmp_far:
  assumes "2147483648 < uint b - uint a"
  shows "checkpoint_cmp a b > 0"
proof -
  have ab: "0 \<le> uint a" "uint b < 4294967296" using uint_lt2p [of b] by simp_all
  have "uint (a - b) = (uint a - uint b) mod 4294967296" by (simp add: uint_word_ariths)
  also have "\<dots> = (uint a - uint b + 4294967296) mod 4294967296" by (simp only: mod_add_self2)
  also have "\<dots> = uint a - uint b + 4294967296"
    using ab assms by (intro mod_pos_pos_trivial) linarith+
  finally have "uint (a - b) = uint a - uint b + 4294967296" .
  then have "to_int32 (uint (a - b)) = uint a - uint b + 4294967296"
    using assms ab by (simp only: to_int32_def) (subst mod_pos_pos_trivial; linarith)
  then show ?thesis unfolding checkpoint_cmp_def using ab assms by linarith
qed

text \<open>Sorting by a consistent comparison function, as a contract of \<open>qsort\<close>.\<close>

locale sorter =
  fixes sort_by :: "('a \<Rightarrow> 'a \<Rightarrow> int) \<Rightarrow> 'a list \<Rightarrow> 'a list option"
  assumes sorts: "cmp_consistent cmp xs \<Longrightarrow>
    \<exists>ys. sort_by cmp xs = Some ys \<and> mset ys = mset xs \<and> sorted_wrt (\<lambda>a b. cmp a b \<le> 0) ys"
begin

lemma sorts_key:
  fixes key :: "'a \<Rightarrow> int"
  assumes "\<And>a b. a \<in> set xs \<Longrightarrow> b \<in> set xs \<Longrightarrow> sgn (cmp a b) = sgn (key a - key b)"
  shows "\<exists>ys. sort_by cmp xs = Some ys \<and> mset ys = mset xs \<and> sorted (map key ys)"
proof -
  have le: "cmp a b \<le> 0 \<longleftrightarrow> key a \<le> key b" if "a \<in> set xs" "b \<in> set xs" for a b
    using assms [OF that] by (auto simp: sgn_if split: if_splits)
  have "sgn (cmp a b) = - sgn (cmp b a)" if "a \<in> set xs" "b \<in> set xs" for a b
    using assms [OF that] assms [OF that(2,1)] by (auto simp: sgn_if)
  then have "cmp_consistent cmp xs"
    unfolding cmp_consistent_def list_all_iff using le by (meson order_trans)
  from sorts [OF this] obtain ys where ys: "sort_by cmp xs = Some ys" "mset ys = mset xs"
    "sorted_wrt (\<lambda>a b. cmp a b \<le> 0) ys" by blast
  then have "set ys = set xs" by (metis set_mset_mset)
  then have "sorted_wrt (\<lambda>a b. key a \<le> key b) ys"
    using ys(3) le by (auto elim: sorted_wrt_mono_rel [rotated])
  then show ?thesis using ys by (auto simp: sorted_map)
qed

end

lemma insert_cmp_mset: "mset (insert_cmp cmp x ys) = add_mset x (mset ys)"
  by (induction ys) auto

lemma insert_cmp_sorted:
  assumes "\<And>a b. a \<in> A \<Longrightarrow> b \<in> A \<Longrightarrow> cmp a b \<le> 0 \<or> cmp b a \<le> 0"
    and "\<And>a b c. a \<in> A \<Longrightarrow> b \<in> A \<Longrightarrow> c \<in> A \<Longrightarrow> cmp a b \<le> 0 \<Longrightarrow> cmp b c \<le> 0 \<Longrightarrow> cmp a c \<le> (0 :: int)"
  shows "x \<in> A \<Longrightarrow> set ys \<subseteq> A \<Longrightarrow> sorted_wrt (\<lambda>a b. cmp a b \<le> 0) ys \<Longrightarrow>
           sorted_wrt (\<lambda>a b. cmp a b \<le> 0) (insert_cmp cmp x ys)"
proof (induction ys)
  case (Cons y ys)
  have set_ins: "set (insert_cmp cmp x ys) = insert x (set ys)"
    by (metis insert_cmp_mset set_mset_add_mset_insert set_mset_mset)
  show ?case
  proof (cases "cmp x y \<le> 0")
    case True
    then have "\<forall>z \<in> set ys. cmp x z \<le> 0" using Cons.prems assms(2) [of x y] by auto
    with True Cons.prems(3) show ?thesis by simp
  next
    case False
    then have "cmp y x \<le> 0" using assms(1) [of x y] Cons.prems by auto
    with False Cons show ?thesis by (simp add: set_ins)
  qed
qed simp

lemma qsort_sorts:
  assumes "cmp_consistent cmp xs"
  shows "\<exists>ys. qsort cmp xs = Some ys \<and> mset ys = mset xs \<and> sorted_wrt (\<lambda>a b. cmp a b \<le> 0) ys"
proof -
  have tot: "cmp a b \<le> 0 \<or> cmp b a \<le> 0" if "a \<in> set xs" "b \<in> set xs" for a b
  proof -
    have "sgn (cmp a b) = - sgn (cmp b a)" using assms that unfolding cmp_consistent_def list_all_iff by blast
    then show ?thesis by (simp add: sgn_if split: if_splits)
  qed
  have tr: "cmp a c \<le> 0" if "a \<in> set xs" "b \<in> set xs" "c \<in> set xs" "cmp a b \<le> 0" "cmp b c \<le> 0" for a b c
    using assms that unfolding cmp_consistent_def list_all_iff by blast
  have "mset (foldr (insert_cmp cmp) zs []) = mset zs \<and>
        sorted_wrt (\<lambda>a b. cmp a b \<le> 0) (foldr (insert_cmp cmp) zs [])" if "set zs \<subseteq> set xs" for zs
    using that
  proof (induction zs)
    case (Cons z zs)
    then have IH: "mset (foldr (insert_cmp cmp) zs []) = mset zs"
      "sorted_wrt (\<lambda>a b. cmp a b \<le> 0) (foldr (insert_cmp cmp) zs [])" by auto
    have "set (foldr (insert_cmp cmp) zs []) \<subseteq> set xs" using IH(1) Cons.prems
      by (metis set_mset_mset set_subset_Cons subset_trans)
    with insert_cmp_sorted [of "set xs" cmp z, OF tot tr] IH Cons.prems show ?case
      by (simp add: insert_cmp_mset)
  qed simp
  then show ?thesis using assms by (simp add: qsort_def)
qed

interpretation libc: sorter qsort
  by unfold_locales (fact qsort_sorts)

section \<open>Options of the command line\<close>

definition cmdline_type :: "options \<Rightarrow> string \<Rightarrow> sb_arg_type" where
  "cmdline_type opts n = (case opt_view opts n of Some (t, _) \<Rightarrow> t | None \<Rightarrow> SB_ARG_TYPE_STRING)"

definition option_str :: "string \<times> string option \<Rightarrow> string" where
  "option_str nv = ''--'' @ fst nv @ (case snd nv of None \<Rightarrow> [] | Some v \<Rightarrow> CHR ''='' # v)"

lemma set_cmdline_type:
  "set_cmdline_option fs opts n v = sb_set_option fs opts n v (cmdline_type opts n)"
  by (simp add: set_cmdline_option_def cmdline_type_def opt_view_def opt_lookup_def sb_find_option_def
      split: option.split)

lemma split_option_str:
  assumes "CHR ''='' \<notin> set n"
  shows "split_option (n @ (case v of None \<Rightarrow> [] | Some x \<Rightarrow> CHR ''='' # x)) = (n, v)"
  using assms strchr_split_None [of "CHR ''=''" n] by (cases v) (simp_all add: split_option_def)

lemma cmdline_type_set:
  assumes "options_wf opts" and "cstring n" and "cstring m" and "cmdline_type opts n \<noteq> SB_ARG_TYPE_FILE"
  shows "cmdline_type (snd (sb_set_option fs opts n v (cmdline_type opts n))) m = cmdline_type opts m"
proof (cases "convert_dashes m = convert_dashes n")
  case True
  then have "opt_view opts m = opt_view opts n"
    using assms(1-3) by (simp add: opt_view_def opt_lookup_abs)
  with True assms show ?thesis by (simp add: cmdline_type_def [of _ m] opt_view_set_option) (simp add: cmdline_type_def)
next
  case False
  with assms show ?thesis by (simp add: cmdline_type_def [of _ m] opt_view_set_option)
qed

lemma set_option_rc:
  assumes "options_wf opts" and "cstring n" and "t \<noteq> SB_ARG_TYPE_NULL"
  shows "fst (sb_set_option fs opts n v t) = 0"
proof -
  obtain i opts1 where add: "add_option opts n = (i, opts1)" by force
  have i: "i < length opts1" using add_option_spec(2) [OF assms(1,2) add] .
  show ?thesis using assms(3) by (simp add: sb_set_option_eq [OF add i])
qed

lemma parse_argv_options:
  assumes "options_wf opts" and "cmd \<noteq> SB_COMMAND_HELP" and "cmd \<noteq> SB_COMMAND_VERSION"
    and "\<forall>(n, v) \<in> set os. cstring n \<and> CHR ''='' \<notin> set n \<and>
           cmdline_type opts n \<noteq> SB_ARG_TYPE_FILE \<and> cmdline_type opts n \<noteq> SB_ARG_TYPE_NULL"
  shows "parse_argv fs (map option_str os @ rest) cmd opts =
           parse_argv fs rest cmd (opts.puts fs opts (map (\<lambda>(n, v). (n, v, cmdline_type opts n)) os))"
  using assms(1,4)
proof (induction os arbitrary: opts)
  case (Cons nv os)
  obtain n v where nv: "nv = (n, v)" by force
  let ?opts = "snd (sb_set_option fs opts n v (cmdline_type opts n))"
  have n: "cstring n" "CHR ''='' \<notin> set n" "cmdline_type opts n \<noteq> SB_ARG_TYPE_FILE"
    "cmdline_type opts n \<noteq> SB_ARG_TYPE_NULL" using Cons.prems(2) nv by auto
  have wf: "options_wf ?opts" by (rule sb_set_option_wf [OF Cons.prems(1) n(1)])
  have ty: "cmdline_type ?opts m = cmdline_type opts m" if "cstring m" for m
    by (rule cmdline_type_set [OF Cons.prems(1) n(1) that n(3)])
  obtain o1 where "sb_set_option fs opts n v (cmdline_type opts n) = (0, o1)"
    using set_option_rc [OF Cons.prems(1) n(1,4), of fs v] by (metis prod.collapse)
  then have "parse_argv fs (map option_str (nv # os) @ rest) cmd opts
      = parse_argv fs (map option_str os @ rest) cmd ?opts"
    using assms(2,3) split_option_str [OF n(2), of v]
    by (simp add: nv option_str_def set_cmdline_type)
  also have "\<dots> = parse_argv fs rest cmd (opts.puts fs ?opts (map (\<lambda>(n, v). (n, v, cmdline_type ?opts n)) os))"
    using Cons.prems(2) ty by (intro Cons.IH [OF wf]) (auto split: prod.splits)
  also have "map (\<lambda>(n, v). (n, v, cmdline_type ?opts n)) os = map (\<lambda>(n, v). (n, v, cmdline_type opts n)) os"
    using Cons.prems(2) ty by (intro map_cong) (auto split: prod.splits)
  finally show ?case by (simp add: nv)
qed simp

lemma puts_append: "opts.puts fs s (xs @ ys) = opts.puts fs (opts.puts fs s xs) ys"
  by (induction xs arbitrary: s) auto

lemma puts_type:
  assumes "options_wf opts" and "cstring m"
    and "\<forall>(n, v) \<in> set os. cstring n \<and> ty n = cmdline_type opts n \<and> ty n \<noteq> SB_ARG_TYPE_FILE"
  shows "cmdline_type (opts.puts fs opts (map (\<lambda>(n, v). (n, v, ty n)) os)) m = cmdline_type opts m"
  using assms(1,3)
proof (induction os arbitrary: opts)
  case (Cons nv os)
  obtain n v where nv: "nv = (n, v)" by force
  have n: "cstring n" "ty n = cmdline_type opts n" "cmdline_type opts n \<noteq> SB_ARG_TYPE_FILE"
    using Cons.prems(2) nv by auto
  let ?o = "snd (sb_set_option fs opts n v (cmdline_type opts n))"
  note wf = sb_set_option_wf [OF Cons.prems(1) n(1), of fs v "cmdline_type opts n"]
  have t: "cmdline_type ?o k = cmdline_type opts k" if "cstring k" for k
    by (rule cmdline_type_set [OF Cons.prems(1) n(1) that n(3)])
  have "\<forall>(k, w) \<in> set os. cstring k \<and> ty k = cmdline_type ?o k \<and> ty k \<noteq> SB_ARG_TYPE_FILE"
    using Cons.prems(2) t by auto
  from Cons.IH [OF wf this] t [OF assms(2)] n(2) show ?case by (simp add: nv)
qed simp

section \<open>Properties\<close>

text \<open>C29: The command line, for a command other than \<open>help\<close> and \<open>version\<close> (which end the parsing) and for options that
  are not registered with the type FILE (which reads a file) or without a type, and whose names have no \<open>=\<close>: options may
  stand before and after the command word; parsing succeeds with that command, every option has the value of its last
  occurrence (read at the type it was registered with, as a string when it is unknown), and options that do not occur
  keep their value. Names are compared with dashes and underscores identified.\<close>

theorem command_line_last_wins:
  assumes "options_wf opts" and "cstring m" and "parse_command c = cmd"
    and "cmd \<notin> {SB_COMMAND_NULL, SB_COMMAND_HELP, SB_COMMAND_VERSION}"
    and "\<forall>(n, v) \<in> set (os1 @ os2). cstring n \<and> CHR ''='' \<notin> set n \<and>
           cmdline_type opts n \<noteq> SB_ARG_TYPE_FILE \<and> cmdline_type opts n \<noteq> SB_ARG_TYPE_NULL"
  shows "\<exists>opts'. parse_argv fs (map option_str os1 @ c # map option_str os2) SB_COMMAND_NULL opts
                   = (0, cmd, opts') \<and>
           opt_view opts' m =
             (case find (\<lambda>(n, v). convert_dashes n = convert_dashes m) (rev (os1 @ os2)) of
                Some (n, v) \<Rightarrow> Some (cmdline_type opts n, arg_values (cmdline_type opts n) v)
              | None \<Rightarrow> opt_view opts m)"
proof -
  let ?f = "\<lambda>(n, v). (n, v, cmdline_type opts n)"
  let ?o1 = "opts.puts fs opts (map ?f os1)"
  have dash: "take 2 c \<noteq> ''--''"
    using assms(3,4) by (auto simp: parse_command_def split: if_splits)
  have ok: "\<forall>(n, a) \<in> set (map ?f (os1 @ os2)). cstring n \<and> (case a of (v, t) \<Rightarrow> t \<noteq> SB_ARG_TYPE_FILE)"
    using assms(5) by auto
  have wf1: "options_wf ?o1" using ok by (intro opts.ok_puts assms(1)) auto
  have ty: "cmdline_type ?o1 n = cmdline_type opts n" if "cstring n" for n
    using puts_type [OF assms(1) that, of os1 "cmdline_type opts"] assms(5) by auto
  have os2: "\<forall>(n, v) \<in> set os2. cstring n \<and> CHR ''='' \<notin> set n \<and>
      cmdline_type ?o1 n \<noteq> SB_ARG_TYPE_FILE \<and> cmdline_type ?o1 n \<noteq> SB_ARG_TYPE_NULL"
  proof safe
    fix n v assume "(n, v) \<in> set os2"
    with assms(5) have "cstring n" "CHR ''='' \<notin> set n" "cmdline_type opts n \<noteq> SB_ARG_TYPE_FILE"
      "cmdline_type opts n \<noteq> SB_ARG_TYPE_NULL" by auto
    then show "cstring n" "CHR ''='' \<in> set n \<Longrightarrow> False" "cmdline_type ?o1 n = SB_ARG_TYPE_FILE \<Longrightarrow> False"
      "cmdline_type ?o1 n = SB_ARG_TYPE_NULL \<Longrightarrow> False" by (simp_all add: ty)
  qed
  have "parse_argv fs (map option_str os1 @ c # map option_str os2) SB_COMMAND_NULL opts
      = parse_argv fs (c # map option_str os2) SB_COMMAND_NULL ?o1"
    using assms(5) by (intro parse_argv_options assms(1)) auto
  also have "\<dots> = parse_argv fs (map option_str os2 @ []) cmd ?o1"
    using dash assms(3,4) by simp
  also have "\<dots> = (0, cmd, opts.puts fs ?o1 (map (\<lambda>(n, v). (n, v, cmdline_type ?o1 n)) os2))"
    using parse_argv_options [OF wf1 _ _ os2, of cmd fs "[]"] assms(4) by simp
  also have "map (\<lambda>(n, v). (n, v, cmdline_type ?o1 n)) os2 = map ?f os2"
    using assms(5) ty by (intro map_cong) (auto split: prod.splits)
  finally have "parse_argv fs (map option_str os1 @ c # map option_str os2) SB_COMMAND_NULL opts
      = (0, cmd, opts.puts fs opts (map ?f (os1 @ os2)))" by (simp add: puts_append)
  moreover have "opt_view (opts.puts fs opts (map ?f (os1 @ os2))) m =
      (case find (\<lambda>(n, a). convert_dashes n = convert_dashes m) (rev (map ?f (os1 @ os2))) of
         Some (n, a) \<Rightarrow> Some (case a of (v, t) \<Rightarrow> (t, arg_values t v)) | None \<Rightarrow> opt_view opts m)"
    using ok by (intro opts.view_puts assms(1,2)) auto
  moreover have "find (\<lambda>(n, a). convert_dashes n = convert_dashes m) (rev (map ?f (os1 @ os2)))
      = map_option ?f (find (\<lambda>(n, v). convert_dashes n = convert_dashes m) (rev (os1 @ os2)))"
    unfolding find_map_rev by (simp add: case_prod_unfold)
  ultimately show ?thesis
    by (cases "find (\<lambda>(n, v). convert_dashes n = convert_dashes m) (rev (os1 @ os2))") auto
qed

theorem command_line_last_wins_witness:
  "\<exists>opts'. parse_argv Map.empty [''--max-time=60'', ''run'', ''--max_time=30''] SB_COMMAND_NULL [] = (0, SB_COMMAND_RUN, opts') \<and>
     opt_view opts' ''max-time'' = Some (SB_ARG_TYPE_STRING, [''30''])"
  using command_line_last_wins [of "[]" "''max-time''" "''run''" SB_COMMAND_RUN
      "[(''max-time'', Some ''60'')]" "[(''max_time'', Some ''30'')]" Map.empty]
  by (simp add: parse_command_def option_str_def cmdline_type_def opt_view_def opt_lookup_def find_option_def
      arg_values_def)

text \<open>The checkpoints are sorted by time whenever they lie within \<open>2 ^ 31\<close> seconds of each
  other: \<open>qsort\<close> with \<open>checkpoint_cmp\<close> is then well defined and returns the same values in ascending
  order. (For a larger difference the comparison has the opposite sign.)\<close>

theorem checkpoints_sorted:
  assumes "\<forall>a \<in> set cps. \<forall>b \<in> set cps. \<bar>uint a - uint b\<bar> < 2147483648"
  shows "\<exists>cps'. qsort checkpoint_cmp cps = Some cps' \<and> mset cps' = mset cps \<and> sorted (map uint cps')"
  using assms by (intro libc.sorts_key) (auto simp: checkpoint_cmp_diff)

theorem checkpoints_sorted_witness:
  "\<exists>cps'. qsort checkpoint_cmp [30, 10, 20] = Some cps' \<and> sorted (map uint cps')"
  using checkpoints_sorted [of "[30, 10, 20]"] by auto

lemma show_nat_length: "n < 10 ^ k \<Longrightarrow> 0 < k \<Longrightarrow> length (show_nat n) \<le> k"
proof (induction n arbitrary: k rule: show_nat.induct)
  case (1 n)
  show ?case
  proof (cases "n < 10")
    case True
    then show ?thesis using "1.prems" by (subst show_nat.simps) simp
  next
    case False
    then obtain j where k: "k = Suc j" "0 < j" using "1.prems"
    proof (cases k)
      case (Suc j)
      with False "1.prems" show ?thesis using that by (cases j) auto
    qed simp
    have "n div 10 < 10 ^ j" using "1.prems"(1) k by (simp add: less_mult_imp_div_less mult.commute)
    with "1.IH" [OF False this k(2)] False k show ?thesis by (subst show_nat.simps) simp
  qed
qed

lemma show_u32_length: "length (show_nat (unat (c :: u32))) \<le> 10"
proof -
  have "unat c < 10 ^ 10" using unsigned_less [of c, where 'a = nat] by simp
  then show ?thesis by (rule show_nat_length) simp
qed

text \<open>The list of checkpoints printed before a run is never truncated: for up to
  \<open>MAX_CHECKPOINTS\<close> values of any size, the buffer of 12 bytes per checkpoint holds all of them,
  separated by a comma and a blank.\<close>

theorem checkpoint_list_complete:
  "length cps \<le> MAX_CHECKPOINTS \<Longrightarrow> cps \<noteq> [] \<Longrightarrow>
     checkpoint_list_str cps =
       concat (map (\<lambda>c. show_nat (unat c) @ '', '') (butlast cps)) @ show_nat (unat (last cps))"
proof -
  have *: "checkpoint_entries cs room =
      concat (map (\<lambda>c. show_nat (unat c) @ '', '') (butlast cs)) @ show_nat (unat (last cs))"
    if "cs \<noteq> []" "12 * length cs \<le> room" for cs room
    using that
  proof (induction cs room rule: checkpoint_entries.induct)
    case (2 c room)
    then show ?case using show_u32_length [of c] by simp
  next
    case (3 c d cs room)
    have l: "length (show_nat (unat c) @ '', '') \<le> 12" using show_u32_length [of c] by simp
    then have "12 * length (d # cs) \<le> room - length (show_nat (unat c) @ '', '')"
      and lt: "\<not> length (show_nat (unat c) @ '', '') \<ge> room" using "3.prems"(2) by simp_all
    with "3.IH" [OF refl lt] show ?case by (simp add: Let_def)
  qed simp
  assume "length cps \<le> MAX_CHECKPOINTS" "cps \<noteq> []"
  then show ?thesis unfolding checkpoint_list_str_def by (intro *) simp_all
qed

theorem checkpoint_list_complete_witness: "checkpoint_list_str [10, 4294967295] = ''10, 4294967295''"
  using checkpoint_list_complete [of "[10, 4294967295]"]
  by (simp add: MAX_CHECKPOINTS_def show_nat.simps char_of_def bit_0)

end
