(* ===== verification/Barrier.thy ===== *)
theory Barrier
  imports Prelude
begin

text \<open>
  The thread barrier of \<open>sysbench/sb_barrier.c\<close>. \<open>sb_barrier_wait\<close> is cut at its only blocking
  point, \<open>pthread_cond_wait\<close>: \<open>barrier_enter\<close> is the code from taking the mutex up to that point
  (or to the return of the last thread) and tells whether it broadcasts, \<open>barrier_recheck\<close> the code that runs when the
  thread holds the mutex again. Both run with the mutex held, so each is one atomic step of its thread.
  A thread blocked in \<open>pthread_cond_wait\<close> is \<open>Waiting\<close>; it makes no step of its own until it has been
  signalled: the broadcast makes every waiting thread \<open>Woken\<close>, and the environment may do so for a single one
  (a spurious wake-up, which POSIX allows but does not promise). The step relation interleaves \<open>n\<close> threads that each call \<open>sb_barrier_wait\<close>
  once, as \<open>run_test\<close> uses the barrier. The environment \<^typ>\<open>'e\<close> is what the callback reads and writes.
\<close>

section \<open>State machines\<close>

text \<open>Inductive invariants and progress, stated once for the step relations of the development.\<close>

locale invariant_system =
  fixes init :: "'s \<Rightarrow> bool" and step :: "'s \<Rightarrow> 's \<Rightarrow> bool" and inv :: "'s \<Rightarrow> bool"
  assumes init_inv: "init s \<Longrightarrow> inv s"
    and step_inv: "inv s \<Longrightarrow> step s t \<Longrightarrow> inv t"
begin

lemma steps_inv: "step\<^sup>*\<^sup>* s t \<Longrightarrow> inv s \<Longrightarrow> inv t"
  by (induction rule: rtranclp_induct) (auto intro: step_inv)

lemma reach_inv: "init s \<Longrightarrow> step\<^sup>*\<^sup>* s t \<Longrightarrow> inv t"
  by (auto intro: steps_inv init_inv)

end

text \<open>Among the steps, those that the threads themselves make: as long as the end is not reached one
  of them is possible, and each of them makes \<open>todo\<close> smaller.\<close>

locale progress_system = invariant_system +
  fixes own :: "'a \<Rightarrow> 'a \<Rightarrow> bool" and final :: "'a \<Rightarrow> bool" and todo :: "'a \<Rightarrow> nat"
  assumes own_step: "own s t \<Longrightarrow> step s t"
    and progress: "inv s \<Longrightarrow> \<not> final s \<Longrightarrow> \<exists>t. own s t"
    and decrease: "inv s \<Longrightarrow> own s t \<Longrightarrow> todo t < todo s"
begin

lemma own_steps: "(own ^^ k) s t \<Longrightarrow> step\<^sup>*\<^sup>* s t"
proof (induction k arbitrary: t)
  case (Suc k)
  then obtain u where u: "(own ^^ k) s u" "own u t" by auto
  from Suc.IH [OF u(1)] own_step [OF u(2)] show ?case by (rule rtranclp.rtrancl_into_rtrancl)
qed simp

lemma own_run_bounded: "(own ^^ k) s t \<Longrightarrow> inv s \<Longrightarrow> k + todo t \<le> todo s"
proof (induction k arbitrary: t)
  case (Suc k)
  then obtain u where u: "(own ^^ k) s u" "own u t" by auto
  then have "inv u" using steps_inv [OF own_steps] Suc.prems(2) by simp
  with Suc.IH [OF u(1) Suc.prems(2)] decrease [OF _ u(2)] show ?case by fastforce
qed simp

lemma reach_own_run_bounded:
  "init s \<Longrightarrow> step\<^sup>*\<^sup>* s t \<Longrightarrow> (own ^^ k) t u \<Longrightarrow> k \<le> todo t"
  using own_run_bounded [of k t u] reach_inv [of s t] by simp

lemma reach_progress: "init s \<Longrightarrow> step\<^sup>*\<^sup>* s t \<Longrightarrow> \<not> final t \<Longrightarrow> \<exists>u. own t u"
  using progress reach_inv by blast

end

section \<open>The barrier\<close>

abbreviation (input) SB_BARRIER_SERIAL_THREAD :: int where "SB_BARRIER_SERIAL_THREAD \<equiv> 1"

record 'e sb_barrier =
  count :: u32
  init_count :: u32
  serial :: u32
  callback :: "('e \<Rightarrow> int \<times> 'e) option"
  error :: int

text \<open>\<open>mutex_rc\<close> and \<open>cond_rc\<close> are the results of \<open>pthread_mutex_init\<close> and \<open>pthread_cond_init\<close>.\<close>

definition sb_barrier_init ::
  "int \<Rightarrow> int \<Rightarrow> u32 \<Rightarrow> ('e \<Rightarrow> int \<times> 'e) option \<Rightarrow> int + 'e sb_barrier" where
  "sb_barrier_init mutex_rc cond_rc cnt cb =
     (if cnt = 0 then Inl 1
      else if mutex_rc \<noteq> 0 \<or> cond_rc \<noteq> 0 then Inl 1
      else Inr \<lparr>count = cnt, init_count = cnt, serial = 0, callback = cb, error = 0\<rparr>)"

definition run_callback :: "'e sb_barrier \<Rightarrow> 'e \<Rightarrow> int \<times> 'e" where
  "run_callback b e = (case callback b of None \<Rightarrow> (0, e) | Some f \<Rightarrow> f e)"

definition barrier_enter ::
  "'e sb_barrier \<Rightarrow> 'e \<Rightarrow> 'e sb_barrier \<times> 'e \<times> bool \<times> (u32 + int)" where
  "barrier_enter b e =
     (let b1 = b\<lparr>count := count b - 1\<rparr> in
      if count b1 = 0 then
        let b2 = b1\<lparr>serial := serial b1 + 1, count := init_count b1\<rparr>;
            broadcast = True;
            (rc, e') = run_callback b2 e
        in if rc \<noteq> 0 then (b2\<lparr>error := 1\<rparr>, e', broadcast, Inr (- 1))
           else (b2, e', broadcast, Inr SB_BARRIER_SERIAL_THREAD)
      else (b1, e, False, Inl (serial b1)))"

definition barrier_recheck :: "'e sb_barrier \<Rightarrow> u32 \<Rightarrow> u32 + int" where
  "barrier_recheck b s =
     (if s = serial b then Inl s else Inr (if error b \<noteq> 0 then - 1 else 0))"

section \<open>Interleaving of the threads\<close>

datatype bthread = Outside | Waiting u32 | Woken u32 | Returned int

record 'e barrier_sys =
  bar :: "'e sb_barrier"
  env :: 'e
  thr :: "bthread list"

fun wait_state :: "u32 + int \<Rightarrow> bthread" where
  "wait_state (Inl s) = Waiting s"
| "wait_state (Inr r) = Returned r"

text \<open>The effect of \<open>pthread_cond_broadcast\<close> on one thread.\<close>

fun signal :: "bthread \<Rightarrow> bthread" where
  "signal (Waiting s) = Woken s"
| "signal t = t"

text \<open>The steps of thread \<open>i\<close> inside \<open>sb_barrier_wait\<close>.\<close>

inductive sb_barrier_wait :: "nat \<Rightarrow> 'e barrier_sys \<Rightarrow> 'e barrier_sys \<Rightarrow> bool" where
  arrive: "i < length (thr s) \<Longrightarrow> thr s ! i = Outside \<Longrightarrow>
     barrier_enter (bar s) (env s) = (b, e, broadcast, w) \<Longrightarrow>
     sb_barrier_wait i s
       (s\<lparr>bar := b, env := e,
          thr := (if broadcast then map signal (thr s) else thr s)[i := wait_state w]\<rparr>)"
| resume: "i < length (thr s) \<Longrightarrow> thr s ! i = Woken n \<Longrightarrow> w = barrier_recheck (bar s) n \<Longrightarrow>
     sb_barrier_wait i s (s\<lparr>thr := (thr s)[i := wait_state w]\<rparr>)"

inductive spurious_wakeup :: "nat \<Rightarrow> 'e barrier_sys \<Rightarrow> 'e barrier_sys \<Rightarrow> bool" where
  spurious: "i < length (thr s) \<Longrightarrow> thr s ! i = Waiting n \<Longrightarrow>
     spurious_wakeup i s (s\<lparr>thr := (thr s)[i := Woken n]\<rparr>)"

inductive_cases barrier_waitE: "sb_barrier_wait i s t"
inductive_cases spurious_wakeupE: "spurious_wakeup i s t"

text \<open>A step of some thread; a step of some thread or of the environment.\<close>

definition thread_step :: "'e barrier_sys \<Rightarrow> 'e barrier_sys \<Rightarrow> bool" where
  "thread_step s t \<longleftrightarrow> (\<exists>i. sb_barrier_wait i s t)"

definition barrier_step :: "'e barrier_sys \<Rightarrow> 'e barrier_sys \<Rightarrow> bool" where
  "barrier_step s t \<longleftrightarrow> (\<exists>i. sb_barrier_wait i s t \<or> spurious_wakeup i s t)"

definition barrier_start :: "'e barrier_sys \<Rightarrow> bool" where
  "barrier_start s \<longleftrightarrow>
     thr s = replicate (length (thr s)) Outside \<and>
     (\<exists>cnt cb. sb_barrier_init 0 0 cnt cb = Inr (bar s) \<and> unat cnt = length (thr s))"

text \<open>Threads outside, threads signalled, and a bound on the number of steps that are left: each
  thread arrives once, and each arrival signals at most all threads.\<close>

definition outside :: "'e barrier_sys \<Rightarrow> nat" where
  "outside s = length (filter (\<lambda>t. t = Outside) (thr s))"

definition woken :: "'e barrier_sys \<Rightarrow> nat" where
  "woken s = length (filter (\<lambda>t. \<exists>n. t = Woken n) (thr s))"

definition steps_left :: "'e barrier_sys \<Rightarrow> nat" where
  "steps_left s = outside s * Suc (length (thr s)) + woken s"

definition all_returned :: "'e barrier_sys \<Rightarrow> bool" where
  "all_returned s \<longleftrightarrow> (\<forall>t \<in> set (thr s). \<exists>r. t = Returned r)"

text \<open>
  The invariant. Before the last arrival the barrier's counter is the number of threads outside
  and nobody has returned; afterwards nobody is outside and nobody waits without having been signalled, the callback has run
  once and the results are determined by its return code. \<open>e0\<close> is the environment at the start.
\<close>

definition before_last :: "'e \<Rightarrow> 'e barrier_sys \<Rightarrow> bool" where
  "before_last e0 s \<longleftrightarrow>
     env s = e0 \<and> serial (bar s) = 0 \<and> error (bar s) = 0 \<and> 0 < unat (count (bar s)) \<and>
     outside s = unat (count (bar s)) \<and> set (thr s) \<subseteq> {Outside, Waiting 0, Woken 0}"

definition after_last :: "'e \<Rightarrow> 'e barrier_sys \<Rightarrow> bool" where
  "after_last e0 s \<longleftrightarrow>
     (let (rc, e) = run_callback (bar s) e0 in
      env s = e \<and> serial (bar s) = 1 \<and> error (bar s) = (if rc \<noteq> 0 then 1 else 0) \<and>
      (if rc \<noteq> 0 then set (thr s) \<subseteq> {Woken 0, Returned (- 1)} \<and> Returned (- 1) \<in> set (thr s)
       else set (thr s) \<subseteq> {Woken 0, Returned 0, Returned 1} \<and>
            length (filter (\<lambda>t. t = Returned 1) (thr s)) = 1))"

definition barrier_inv :: "'e \<Rightarrow> 'e barrier_sys \<Rightarrow> bool" where
  "barrier_inv e0 s \<longleftrightarrow> before_last e0 s \<or> after_last e0 s"

lemma filter_update_length:
  "i < length xs \<Longrightarrow>
     length (filter P (xs[i := y])) + (if P (xs ! i) then 1 else 0)
       = length (filter P xs) + (if P y then 1 else (0 :: nat))"
proof (induction xs arbitrary: i)
  case (Cons x xs)
  then show ?case by (cases i) auto
qed simp

lemma start_inv: "barrier_start s \<and> env s = e0 \<Longrightarrow> barrier_inv e0 s"
proof -
  assume a: "barrier_start s \<and> env s = e0"
  then obtain cnt cb where i: "sb_barrier_init 0 0 cnt cb = Inr (bar s)" "unat cnt = length (thr s)"
    and t: "thr s = replicate (length (thr s)) Outside"
    unfolding barrier_start_def by blast
  have b: "bar s = \<lparr>count = cnt, init_count = cnt, serial = 0, callback = cb, error = 0\<rparr>" "cnt \<noteq> 0"
    using i(1) by (auto simp: sb_barrier_init_def split: if_splits)
  have "filter (\<lambda>x. x = Outside) (thr s) = thr s" by (subst t, subst (2) t) simp
  then have "outside s = unat cnt" using i by (simp add: outside_def)
  moreover have "set (thr s) \<subseteq> {Outside}" by (subst t) auto
  ultimately have "before_last e0 s"
    using a b by (auto simp: before_last_def unat_gt_0)
  then show ?thesis by (simp add: barrier_inv_def)
qed

lemma run_callback_update [simp]:
  "run_callback (b\<lparr>count := x\<rparr>) e = run_callback b e"
  "run_callback (b\<lparr>serial := x\<rparr>) e = run_callback b e"
  "run_callback (b\<lparr>error := y\<rparr>) e = run_callback b e"
  by (simp_all add: run_callback_def)

lemma set_update_subset:
  "set xs \<subseteq> A \<Longrightarrow> set (xs[i := y]) \<subseteq> insert y A"
  by (meson set_update_subset_insert order_trans insert_mono)

lemma filter_none: "length (filter P xs) = 0 \<longleftrightarrow> (\<forall>x \<in> set xs. \<not> P x)"
  by (auto simp: filter_empty_conv)

lemma signal_Outside [simp]: "signal t = Outside \<longleftrightarrow> t = Outside"
  by (cases t) auto

lemma arrive_early:
  assumes inv: "before_last e0 s" and i: "i < length (thr s)" "thr s ! i = Outside"
    and c: "count (bar s) \<noteq> 1"
  shows "barrier_enter (bar s) (env s) = ((bar s)\<lparr>count := count (bar s) - 1\<rparr>, env s, False, Inl 0)"
    and "before_last e0 (s\<lparr>bar := (bar s)\<lparr>count := count (bar s) - 1\<rparr>, env := env s,
                           thr := (thr s)[i := Waiting 0]\<rparr>)"
proof -
  have nz: "count (bar s) \<noteq> 0" "count (bar s) - 1 \<noteq> 0"
    using inv c by (auto simp: before_last_def)
  then show "barrier_enter (bar s) (env s) = ((bar s)\<lparr>count := count (bar s) - 1\<rparr>, env s, False, Inl 0)"
    using inv by (simp add: barrier_enter_def Let_def before_last_def)
  have u: "unat (count (bar s) - 1) = unat (count (bar s)) - 1" "0 < unat (count (bar s) - 1)"
    using nz(1) by (simp add: unat_minus_one) (metis nz(2) unat_gt_0)
  have "length (filter (\<lambda>t. t = Outside) ((thr s)[i := Waiting 0])) + 1 = outside s"
    using filter_update_length [OF i(1), of "\<lambda>t. t = Outside" "Waiting 0"] i(2)
    by (simp add: outside_def)
  moreover have "set ((thr s)[i := Waiting 0]) \<subseteq> {Outside, Waiting 0, Woken 0}"
    using set_update_subset [of "thr s" "{Outside, Waiting 0, Woken 0}" i "Waiting 0"] inv
    by (auto simp: before_last_def)
  ultimately show "before_last e0 (s\<lparr>bar := (bar s)\<lparr>count := count (bar s) - 1\<rparr>, env := env s,
                                     thr := (thr s)[i := Waiting 0]\<rparr>)"
    using inv u by (simp add: before_last_def outside_def)
qed

text \<open>After the broadcast of the last thread every other thread has been signalled.\<close>

lemma arrive_last_threads:
  assumes inv: "before_last e0 s" and i: "i < length (thr s)" "thr s ! i = Outside"
    and c: "count (bar s) = 1"
  shows "set ((map signal (thr s))[i := Returned r]) \<subseteq> {Woken 0, Returned r}"
    and "Returned r \<in> set ((map signal (thr s))[i := Returned r])"
    and "r = 1 \<Longrightarrow> length (filter (\<lambda>t. t = Returned 1) ((map signal (thr s))[i := Returned r])) = 1"
proof -
  let ?m = "map signal (thr s)"
  have i': "i < length ?m" "?m ! i = Outside" using i by simp_all
  have "length (filter (\<lambda>t. t = Outside) ?m) = outside s"
    by (simp add: outside_def filter_map o_def)
  then have "length (filter (\<lambda>t. t = Outside) (?m[i := Returned r])) = 0"
    using filter_update_length [OF i'(1), of "\<lambda>t. t = Outside" "Returned r"] i'(2) inv c
    by (simp add: before_last_def)
  then have "\<forall>t \<in> set (?m[i := Returned r]). t \<noteq> Outside" by (simp only: filter_none)
  moreover have "set ?m \<subseteq> {Outside, Woken 0}"
    using inv by (auto simp: before_last_def)
  then have "set (?m[i := Returned r]) \<subseteq> {Outside, Woken 0, Returned r}"
    using set_update_subset [of ?m "{Outside, Woken 0}" i "Returned r"] by auto
  ultimately show "set (?m[i := Returned r]) \<subseteq> {Woken 0, Returned r}" by blast
  show "Returned r \<in> set (?m[i := Returned r])" using i'(1) by (simp add: set_update_memI)
  have "filter (\<lambda>t. t = Returned 1) ?m = []"
    using \<open>set ?m \<subseteq> {Outside, Woken 0}\<close> by (auto simp: filter_empty_conv)
  then show "r = 1 \<Longrightarrow> length (filter (\<lambda>t. t = Returned 1) (?m[i := Returned r])) = 1"
    using filter_update_length [OF i'(1), of "\<lambda>t. t = Returned 1" "Returned r"] i'(2) by simp
qed

lemma arrive_last:
  assumes inv: "before_last e0 s" and i: "i < length (thr s)" "thr s ! i = Outside"
    and c: "count (bar s) = 1" and e: "barrier_enter (bar s) (env s) = (b, e, broadcast, w)"
  shows "after_last e0 (s\<lparr>bar := b, env := e,
           thr := (if broadcast then map signal (thr s) else thr s)[i := wait_state w]\<rparr>)"
proof -
  obtain rc e1 where rc: "run_callback (bar s) e0 = (rc, e1)" by fastforce
  have ent: "run_callback b e0 = (rc, e1) \<and> serial b = 1 \<and> e = e1 \<and> broadcast \<and>
             error b = (if rc \<noteq> 0 then 1 else 0) \<and> w = Inr (if rc \<noteq> 0 then - 1 else 1)"
    using e inv c rc by (auto simp: barrier_enter_def Let_def before_last_def split: if_splits)
  show ?thesis
    using ent arrive_last_threads [OF inv i c, of "- 1"] arrive_last_threads [OF inv i c, of 1]
    by (auto simp: after_last_def)
qed

lemma after_threads:
  assumes "after_last e0 s" and "x \<in> set (thr s)"
  shows "x \<noteq> Outside" and "x \<noteq> Waiting n" and "x = Woken n \<Longrightarrow> n = 0"
  using assms by (auto simp: after_last_def split: prod.splits if_splits)

lemma resume_after:
  assumes inv: "after_last e0 s" and i: "i < length (thr s)" "thr s ! i = Woken n"
  shows "after_last e0 (s\<lparr>thr := (thr s)[i := wait_state (barrier_recheck (bar s) n)]\<rparr>)"
proof -
  obtain rc e1 where rc: "run_callback (bar s) e0 = (rc, e1)" by fastforce
  have n: "n = 0" using after_threads(3) [OF inv] i nth_mem by metis
  have w: "barrier_recheck (bar s) n = Inr (if rc \<noteq> 0 then - 1 else 0)"
    using inv rc n by (simp add: after_last_def barrier_recheck_def)
  have one: "length (filter (\<lambda>t. t = Returned 1) ((thr s)[i := Returned 0]))
               = length (filter (\<lambda>t. t = Returned 1) (thr s))"
    using filter_update_length [OF i(1), of "\<lambda>t. t = Returned 1" "Returned 0"] i(2) by simp
  show ?thesis
    using inv rc w one set_update_subset [of "thr s" "{Woken 0, Returned (- 1)}" i "Returned (- 1)"]
      set_update_subset [of "thr s" "{Woken 0, Returned 0, Returned 1}" i "Returned 0"]
      set_update_memI [OF i(1), of "Returned (- 1)"]
    by (auto simp: after_last_def)
qed

text \<open>Before the last arrival a signalled thread finds the serial number unchanged and waits again;
  such a step, as a spurious wake-up, keeps the invariant.\<close>

lemma before_sleep:
  assumes inv: "before_last e0 s" and i: "i < length (thr s)" "thr s ! i \<noteq> Outside"
    and y: "y \<in> {Waiting 0, Woken 0}"
  shows "before_last e0 (s\<lparr>thr := (thr s)[i := y]\<rparr>)"
proof -
  have "length (filter (\<lambda>t. t = Outside) ((thr s)[i := y])) = outside s"
    using filter_update_length [OF i(1), of "\<lambda>t. t = Outside" y] i(2) y by (auto simp: outside_def)
  moreover have "set ((thr s)[i := y]) \<subseteq> {Outside, Waiting 0, Woken 0}"
    using set_update_subset [of "thr s" "{Outside, Waiting 0, Woken 0}" i y] inv y
    by (auto simp: before_last_def)
  ultimately show ?thesis using inv by (simp add: before_last_def outside_def)
qed

lemma before_serial:
  assumes "before_last e0 s" and "i < length (thr s)" and "thr s ! i \<in> {Waiting n, Woken n}"
  shows "n = 0" and "barrier_recheck (bar s) n = Inl 0"
proof -
  have "thr s ! i \<in> set (thr s)" using assms(2) by simp
  with assms(1,3) show "n = 0" by (auto simp: before_last_def)
  with assms(1) show "barrier_recheck (bar s) n = Inl 0"
    by (simp add: barrier_recheck_def before_last_def)
qed

lemma outside_before:
  "barrier_inv e0 s \<Longrightarrow> i < length (thr s) \<Longrightarrow> thr s ! i = Outside \<Longrightarrow> before_last e0 s"
  using after_threads(1) [of e0 s] nth_mem [of i "thr s"] by (auto simp: barrier_inv_def)

lemma wait_inv:
  assumes inv: "barrier_inv e0 s" and st: "sb_barrier_wait i s t"
  shows "barrier_inv e0 t"
  using st
proof (cases rule: sb_barrier_wait.cases)
  case (arrive b e bc w)
  have b: "before_last e0 s" by (rule outside_before [OF inv arrive(2,3)])
  show ?thesis
  proof (cases "count (bar s) = 1")
    case True
    with arrive_last [OF b arrive(2,3) True arrive(4)] show ?thesis
      unfolding arrive(1) by (simp add: barrier_inv_def)
  next
    case False
    from arrive_early(1) [OF b arrive(2,3) False] arrive(4)
    have "b = (bar s)\<lparr>count := count (bar s) - 1\<rparr>" "e = env s" "bc = False" "w = Inl 0" by auto
    with arrive_early(2) [OF b arrive(2,3) False] show ?thesis
      unfolding arrive(1) by (simp add: barrier_inv_def)
  qed
next
  case (resume n w)
  show ?thesis
  proof (cases "after_last e0 s")
    case True
    from resume_after [OF True resume(2,3)] show ?thesis
      unfolding resume(1,4) by (simp add: barrier_inv_def)
  next
    case False
    then have b: "before_last e0 s" using inv by (simp add: barrier_inv_def)
    from before_serial [OF b resume(2)] resume(3) before_sleep [OF b resume(2)]
    show ?thesis unfolding resume(1,4) by (simp add: barrier_inv_def)
  qed
qed

lemma spurious_inv:
  assumes inv: "barrier_inv e0 s" and st: "spurious_wakeup i s t"
  shows "barrier_inv e0 t"
  using st
proof (cases rule: spurious_wakeup.cases)
  case (spurious n)
  have "\<not> after_last e0 s" using after_threads(2) [of e0 s "thr s ! i" n] spurious(2,3) nth_mem [OF spurious(2)] by auto
  then have b: "before_last e0 s" using inv by (simp add: barrier_inv_def)
  from before_serial(1) [OF b spurious(2)] spurious(3) before_sleep [OF b spurious(2)]
  show ?thesis unfolding spurious(1) by (simp add: barrier_inv_def)
qed

lemma barrier_step_inv: "barrier_inv e0 s \<Longrightarrow> barrier_step s t \<Longrightarrow> barrier_inv e0 t"
  by (auto simp: barrier_step_def intro: wait_inv spurious_inv)

lemma wait_decreases:
  assumes "sb_barrier_wait i s t"
  shows "steps_left t < steps_left s \<and> length (thr t) = length (thr s)"
  using assms
proof (cases rule: sb_barrier_wait.cases)
  case (arrive b e bc w)
  let ?xs = "if bc then map signal (thr s) else thr s"
  have xs: "length ?xs = length (thr s)" "?xs ! i = Outside"
    "length (filter (\<lambda>t. t = Outside) ?xs) = outside s"
    using arrive by (simp_all add: outside_def filter_map o_def)
  have "wait_state w \<noteq> Outside" by (cases w) auto
  then have o: "Suc (length (filter (\<lambda>t. t = Outside) (?xs[i := wait_state w]))) = outside s"
    using filter_update_length [of i ?xs "\<lambda>t. t = Outside" "wait_state w"] xs arrive(2) by simp
  have "length (filter (\<lambda>t. \<exists>n. t = Woken n) (?xs[i := wait_state w])) \<le> length (thr s)"
    using length_filter_le [of _ "?xs[i := wait_state w]"] xs(1) by simp
  then have "length (filter (\<lambda>t. t = Outside) (?xs[i := wait_state w])) * Suc (length (thr s)) +
      length (filter (\<lambda>t. \<exists>n. t = Woken n) (?xs[i := wait_state w])) < outside s * Suc (length (thr s))"
    unfolding o [symmetric] by simp
  then show ?thesis
    unfolding arrive(1) by (auto simp: steps_left_def outside_def woken_def)
next
  case (resume n w)
  have "wait_state w \<noteq> Outside" "\<forall>m. wait_state w \<noteq> Woken m" by (cases w; simp)+
  then show ?thesis
    using filter_update_length [OF resume(2), of "\<lambda>t. t = Outside" "wait_state w"]
      filter_update_length [OF resume(2), of "\<lambda>t. \<exists>n. t = Woken n" "wait_state w"] resume(3)
    unfolding resume(1) by (simp_all add: steps_left_def outside_def woken_def)
qed

lemma wait_progress:
  assumes inv: "barrier_inv e0 s" and nf: "\<not> all_returned s"
  shows "\<exists>i t. sb_barrier_wait i s t \<and> i < length (thr s) \<and> (Outside \<in> set (thr s) \<longrightarrow> thr s ! i = Outside)"
proof (cases "Outside \<in> set (thr s)")
  case True
  then obtain i where i: "i < length (thr s)" "thr s ! i = Outside" by (auto simp: in_set_conv_nth)
  obtain b e bc w where "barrier_enter (bar s) (env s) = (b, e, bc, w)" by (metis prod_cases4)
  from sb_barrier_wait.arrive [OF i this] i show ?thesis by blast
next
  case False
  then have "filter (\<lambda>t. t = Outside) (thr s) = []" by (auto simp: filter_empty_conv)
  then have a: "after_last e0 s"
    using inv by (auto simp: barrier_inv_def before_last_def outside_def)
  obtain x where x: "x \<in> set (thr s)" "\<forall>r. x \<noteq> Returned r"
    using nf by (auto simp: all_returned_def)
  with after_threads(1,2) [OF a x(1)] obtain n where "x = Woken n" by (cases x) auto
  with x obtain i where i: "i < length (thr s)" "thr s ! i = Woken n" by (auto simp: in_set_conv_nth)
  from sb_barrier_wait.resume [OF i refl] i False show ?thesis by blast
qed

lemma thread_progress: "barrier_inv e0 s \<Longrightarrow> \<not> all_returned s \<Longrightarrow> \<exists>t. thread_step s t"
  unfolding thread_step_def using wait_progress [of e0 s] by blast

lemma thread_step_step: "thread_step s t \<Longrightarrow> barrier_step s t"
  by (auto simp: thread_step_def barrier_step_def)

lemma thread_step_decreases: "barrier_inv e0 s \<Longrightarrow> thread_step s t \<Longrightarrow> steps_left t < steps_left s"
  by (auto simp: thread_step_def dest: wait_decreases)

interpretation bw: progress_system "\<lambda>s. barrier_start s \<and> env s = e0" barrier_step
    "barrier_inv e0" thread_step all_returned steps_left for e0
  by unfold_locales (fact start_inv barrier_step_inv thread_step_step thread_progress thread_step_decreases)+

lemma steps_left_bound: "steps_left s \<le> length (thr s) * (length (thr s) + 2)"
proof -
  have "outside s \<le> length (thr s)" "woken s \<le> length (thr s)"
    by (simp_all add: outside_def woken_def)
  then have "steps_left s \<le> length (thr s) * Suc (length (thr s)) + length (thr s)"
    unfolding steps_left_def by (intro add_mono mult_le_mono1)
  then show ?thesis by simp
qed

lemma barrier_enter_callback: "barrier_enter b e = (b', e', bc, w) \<Longrightarrow> callback b' = callback b"
  by (auto simp: barrier_enter_def Let_def split: if_splits prod.splits)

lemma wait_callback: "sb_barrier_wait i s t \<Longrightarrow> callback (bar t) = callback (bar s)"
  by (cases rule: sb_barrier_wait.cases) (auto dest: barrier_enter_callback)

lemma spurious_keeps: "spurious_wakeup i s t \<Longrightarrow> bar t = bar s \<and> length (thr t) = length (thr s)"
  by (cases rule: spurious_wakeup.cases) auto

lemma returned_after_last: "barrier_inv e0 t \<Longrightarrow> all_returned t \<Longrightarrow> after_last e0 t"
proof -
  assume inv: "barrier_inv e0 t" and all: "all_returned t"
  from all have "outside t = 0" by (auto simp: all_returned_def outside_def filter_empty_conv)
  with inv show "after_last e0 t" by (auto simp: barrier_inv_def before_last_def)
qed

section \<open>Properties\<close>

text \<open>C2: No thread leaves the barrier early, under every interleaving of the threads and every
  spurious wake-up: once some call of \<open>sb_barrier_wait\<close> has returned, all threads have arrived and
  the callback has run exactly once (the environment is the one it leaves); as long as no call has
  returned, the environment is untouched.\<close>

theorem barrier_none_leaves_early:
  assumes "barrier_start s" and "barrier_step\<^sup>*\<^sup>* s t"
  shows "if \<exists>r. Returned r \<in> set (thr t)
         then Outside \<notin> set (thr t) \<and> env t = snd (run_callback (bar t) (env s))
         else env t = env s"
proof -
  have "barrier_inv (env s) t" using bw.reach_inv [of s "env s" t] assms by blast
  then consider "before_last (env s) t" | "after_last (env s) t" by (auto simp: barrier_inv_def)
  then show ?thesis
  proof cases
    case 1
    then show ?thesis by (auto simp: before_last_def)
  next
    case 2
    then have "\<exists>r. Returned r \<in> set (thr t)"
      by (auto simp: after_last_def filter_eq_Cons_iff length_Suc_conv split: prod.splits if_splits)
    moreover have "Outside \<notin> set (thr t)" using after_threads(1) [OF 2] by blast
    ultimately show ?thesis using 2 by (auto simp: after_last_def split: prod.splits)
  qed
qed

definition example_barrier :: "nat barrier_sys" where
  "example_barrier = \<lparr>bar = \<lparr>count = 2, init_count = 2, serial = 0,
     callback = Some (\<lambda>e. (0, Suc e)), error = 0\<rparr>, env = 0, thr = [Outside, Outside]\<rparr>"

lemma example_barrier_start: "barrier_start example_barrier"
  unfolding barrier_start_def
  by (intro conjI exI [of _ 2] exI [of _ "Some (\<lambda>e. (0, Suc e))"])
    (simp_all add: example_barrier_def sb_barrier_init_def)

text \<open>The first thread arrives and waits, the second arrives, broadcasts and returns.\<close>

lemma example_barrier_run:
  "barrier_step\<^sup>*\<^sup>* example_barrier
     \<lparr>bar = \<lparr>count = 2, init_count = 2, serial = 1, callback = Some (\<lambda>e. (0, Suc e)), error = 0\<rparr>,
      env = 1, thr = [Woken 0, Returned 1]\<rparr>"
proof -
  let ?b = "\<lparr>count = 1 :: u32, init_count = 2, serial = 0, callback = Some (\<lambda>e. (0, Suc e)), error = 0\<rparr>"
  have "sb_barrier_wait 0 example_barrier \<lparr>bar = ?b, env = 0, thr = [Waiting 0, Outside]\<rparr>"
    using sb_barrier_wait.arrive [of 0 example_barrier ?b 0 False "Inl 0"]
    by (simp add: example_barrier_def barrier_enter_def)
  moreover have "sb_barrier_wait 1 \<lparr>bar = ?b, env = 0, thr = [Waiting 0, Outside]\<rparr>
      \<lparr>bar = ?b\<lparr>count := 2, serial := 1\<rparr>, env = 1, thr = [Woken 0, Returned 1]\<rparr>"
    using sb_barrier_wait.arrive [of 1 "\<lparr>bar = ?b, env = 0, thr = [Waiting 0, Outside]\<rparr>"
        "?b\<lparr>count := 2, serial := 1\<rparr>" 1 True "Inr 1"]
    by (simp add: barrier_enter_def run_callback_def)
  ultimately have "barrier_step example_barrier \<lparr>bar = ?b, env = 0, thr = [Waiting 0, Outside]\<rparr>"
    "barrier_step \<lparr>bar = ?b, env = 0, thr = [Waiting 0, Outside]\<rparr>
      \<lparr>bar = ?b\<lparr>count := 2, serial := 1\<rparr>, env = 1, thr = [Woken 0, Returned 1]\<rparr>"
    unfolding barrier_step_def by blast+
  then show ?thesis by (simp add: converse_rtranclp_into_rtranclp)
qed

theorem barrier_none_leaves_early_witness:
  "\<exists>t. barrier_step\<^sup>*\<^sup>* example_barrier t \<and> Returned 1 \<in> set (thr t) \<and> Outside \<notin> set (thr t) \<and>
       env t = snd (run_callback (bar t) 0)"
  using barrier_none_leaves_early [OF example_barrier_start example_barrier_run] example_barrier_run
  by (auto simp: example_barrier_def)

text \<open>C3: A barrier round neither gets stuck nor goes on forever: in every reachable state in which
  some call has not returned, a thread can make a step of its own (it is outside, or it has been
  signalled; spurious wake-ups are not counted on, so no wake-up is lost), and from there the threads of
  a round make at most \<open>n * (n + 2)\<close> steps of their own. When all calls have returned, either the
  callback returned zero and exactly one thread got \<open>SB_BARRIER_SERIAL_THREAD\<close> and all others 0, or it
  returned non-zero and every thread got -1.\<close>

theorem barrier_round_results:
  assumes "barrier_start s" and "barrier_step\<^sup>*\<^sup>* s t"
  shows "(\<not> all_returned t \<longrightarrow> (\<exists>i u. sb_barrier_wait i t u)) \<and>
         (\<forall>k u. (thread_step ^^ k) t u \<longrightarrow> k \<le> length (thr t) * (length (thr t) + 2)) \<and>
         (all_returned t \<longrightarrow>
            (if fst (run_callback (bar t) (env s)) = 0
             then length (filter (\<lambda>x. x = Returned 1) (thr t)) = 1 \<and>
                  set (thr t) \<subseteq> {Returned 0, Returned 1}
             else set (thr t) \<subseteq> {Returned (- 1)}))"
proof (intro conjI impI allI)
  show "\<exists>i u. sb_barrier_wait i t u" if "\<not> all_returned t"
    using bw.reach_progress [of s "env s" t] assms that by (auto simp: thread_step_def)
  show "k \<le> length (thr t) * (length (thr t) + 2)" if "(thread_step ^^ k) t u" for k u
    using bw.reach_own_run_bounded [of s "env s" t k u] assms that steps_left_bound [of t] by simp
  have inv: "barrier_inv (env s) t" using bw.reach_inv [of s "env s" t] assms by blast
  assume all: "all_returned t"
  then have "after_last (env s) t" by (rule returned_after_last [OF inv])
  then show "if fst (run_callback (bar t) (env s)) = 0
             then length (filter (\<lambda>x. x = Returned 1) (thr t)) = 1 \<and>
                  set (thr t) \<subseteq> {Returned 0, Returned 1}
             else set (thr t) \<subseteq> {Returned (- 1)}"
    using all by (auto simp: after_last_def all_returned_def split: prod.splits if_splits)
qed

theorem barrier_round_results_witness:
  "\<exists>t i u. barrier_step\<^sup>*\<^sup>* example_barrier t \<and> \<not> all_returned t \<and> sb_barrier_wait i t u"
  using barrier_round_results [OF example_barrier_start example_barrier_run] example_barrier_run
  by (force simp: all_returned_def)

end
