(* ===== verification/Event_Queue.thy ===== *)
theory Event_Queue
  imports SB_List Barrier
begin

text \<open>
  The event queue of the \<open>--tx-rate\<close> mode (\<open>sysbench/sysbench.c\<close>): the generator thread links the
  elements of the array \<open>queue_array\<close> in a ring into the list \<open>event_queue\<close>, the worker threads take
  them from its head. The list is the intrusive list of \<open>SB_List\<close>: its head has address 0, element
  \<open>i\<close> of the array the address \<open>i + 1\<close>. The critical sections under \<open>event_queue_mutex\<close> are atomic steps;
  the generator's write to \<open>event_time\<close> happens outside the mutex and is a step of its own. The step
  relation interleaves the generator with any number of workers.
\<close>

section \<open>State and operations\<close>

definition MAX_QUEUE_LEN :: nat where "MAX_QUEUE_LEN = 100000"

record event_queue =
  eq_links :: links
  event_time :: "nat \<Rightarrow> u64"
  eq_length :: int
  eq_concurrency :: int
  queue_is_full :: bool
  gen_i :: nat

abbreviation (input) eq_head :: addr where "eq_head \<equiv> 0"
abbreviation (input) elem_addr :: "nat \<Rightarrow> addr" where "elem_addr i \<equiv> Suc i"
abbreviation (input) SB_LIST_ENTRY :: "addr \<Rightarrow> nat" where "SB_LIST_ENTRY a \<equiv> a - 1"

definition eventgen_init :: "event_queue \<Rightarrow> event_queue" where
  "eventgen_init q = q\<lparr>eq_links := SB_LIST_INIT eq_head (eq_links q), gen_i := 0\<rparr>"

definition eventgen_stamp :: "u64 \<Rightarrow> event_queue \<Rightarrow> event_queue" where
  "eventgen_stamp t q = q\<lparr>event_time := (event_time q)(gen_i q := t)\<rparr>"

text \<open>The critical section of the generator and the index update after it; when the queue is full
  the generator ends before the index update.\<close>

definition eventgen_enqueue :: "event_queue \<Rightarrow> event_queue" where
  "eventgen_enqueue q =
     (let q = q\<lparr>eq_links := SB_LIST_ADD_TAIL (elem_addr (gen_i q)) eq_head (eq_links q)\<rparr>;
          q = q\<lparr>eq_length := eq_length q + 1\<rparr>;
          q = (if eq_length q \<ge> int MAX_QUEUE_LEN then q\<lparr>queue_is_full := True\<rparr> else q)
      in if queue_is_full q then q
         else let q = q\<lparr>gen_i := gen_i q + 1\<rparr> in
           if gen_i q \<ge> MAX_QUEUE_LEN then q\<lparr>gen_i := 0\<rparr> else q)"

text \<open>The critical section of a worker once the queue is not empty; \<open>queue_start_time\<close> keeps its old
  value \<open>old\<close> when the list has no element.\<close>

definition worker_take :: "u64 \<Rightarrow> event_queue \<Rightarrow> u64 \<times> event_queue" where
  "worker_take old q =
     (let (start, q) =
        (case SB_LIST_ONCE (eq_links q) eq_head of
           None \<Rightarrow> (old, q)
         | Some pos \<Rightarrow> (event_time q (SB_LIST_ENTRY pos),
                        q\<lparr>eq_links := SB_LIST_DELETE pos (eq_links q), eq_length := eq_length q - 1\<rparr>))
      in (start, q\<lparr>eq_concurrency := eq_concurrency q + 1\<rparr>))"

definition worker_finish :: "event_queue \<Rightarrow> event_queue" where
  "worker_finish q = q\<lparr>eq_concurrency := eq_concurrency q - 1\<rparr>"

section \<open>Interleaving\<close>

text \<open>
  The threads around the queue: whether the generator has stamped the next element, how many workers
  are executing a request, how many left their loop because a request failed, and the event times
  put into and taken from the queue so far.
\<close>

record eq_sys =
  eq :: event_queue
  stamped :: bool
  busy :: nat
  failed :: nat
  produced :: "u64 list"
  consumed :: "u64 list"

inductive eq_step :: "eq_sys \<Rightarrow> eq_sys \<Rightarrow> bool" where
  stamp: "\<not> stamped s \<Longrightarrow> \<not> queue_is_full (eq s) \<Longrightarrow>
     eq_step s (s\<lparr>eq := eventgen_stamp t (eq s), stamped := True\<rparr>)"
| enqueue: "stamped s \<Longrightarrow>
     eq_step s (s\<lparr>eq := eventgen_enqueue (eq s), stamped := False,
                  produced := produced s @ [event_time (eq s) (gen_i (eq s))]\<rparr>)"
| take: "eq_length (eq s) \<noteq> 0 \<Longrightarrow> worker_take old (eq s) = (start, q) \<Longrightarrow>
     eq_step s (s\<lparr>eq := q, busy := Suc (busy s), consumed := consumed s @ [start]\<rparr>)"
| finish: "busy s = Suc n \<Longrightarrow> eq_step s (s\<lparr>eq := worker_finish (eq s), busy := n\<rparr>)"
| fail: "busy s = Suc n \<Longrightarrow> eq_step s (s\<lparr>busy := n, failed := Suc (failed s)\<rparr>)"

inductive_cases eq_stepE: "eq_step s t"

definition eq_start :: "eq_sys \<Rightarrow> bool" where
  "eq_start s \<longleftrightarrow>
     (\<exists>q. eq s = eventgen_init q) \<and> eq_length (eq s) = 0 \<and> eq_concurrency (eq s) = 0 \<and>
     \<not> queue_is_full (eq s) \<and> \<not> stamped s \<and> busy s = 0 \<and> failed s = 0 \<and> produced s = [] \<and> consumed s = []"

section \<open>Invariant\<close>

text \<open>The array indices of the pending events: consecutive positions of the ring.\<close>

definition pending :: "nat \<Rightarrow> nat \<Rightarrow> nat list" where
  "pending c p = map (\<lambda>k. k mod MAX_QUEUE_LEN) [c..<p]"

definition eq_inv :: "eq_sys \<Rightarrow> bool" where
  "eq_inv s \<longleftrightarrow>
     (let q = eq s; c = length (consumed s); p = length (produced s) in
      c \<le> p \<and> p - c \<le> MAX_QUEUE_LEN \<and> consumed s = take c (produced s) \<and>
      dlist (eq_links q) eq_head (map Suc (pending c p)) \<and> eq_length q = int (p - c) \<and>
      (\<forall>k. c \<le> k \<and> k < p \<longrightarrow> event_time q (k mod MAX_QUEUE_LEN) = produced s ! k) \<and>
      eq_concurrency q = int (busy s + failed s) \<and>
      (\<not> queue_is_full q \<longrightarrow> p - c < MAX_QUEUE_LEN \<and> gen_i q = p mod MAX_QUEUE_LEN) \<and>
      (queue_is_full q \<longrightarrow> \<not> stamped s))"

lemma MAX_QUEUE_LEN_pos [simp]: "0 < MAX_QUEUE_LEN"
  by (simp add: MAX_QUEUE_LEN_def)

text \<open>Fewer than \<open>MAX_QUEUE_LEN\<close> pending events: the next element of the ring is not one of them.\<close>

lemma ring_distinct:
  fixes j k n :: nat
  assumes "j < k" and "k - j < n"
  shows "j mod n \<noteq> k mod n"
proof
  assume "j mod n = k mod n"
  then have "n dvd k - j" using assms(1) by (metis less_or_eq_imp_le mod_eq_dvd_iff_nat)
  with assms show False by (metis dvd_imp_le not_less zero_less_diff)
qed

lemma next_not_pending:
  assumes "p - c < MAX_QUEUE_LEN"
  shows "p mod MAX_QUEUE_LEN \<notin> set (pending c p)"
proof
  assume "p mod MAX_QUEUE_LEN \<in> set (pending c p)"
  then obtain k where "c \<le> k" "k < p" "k mod MAX_QUEUE_LEN = p mod MAX_QUEUE_LEN"
    by (auto simp: pending_def)
  with ring_distinct [of k p MAX_QUEUE_LEN] assms show False by fastforce
qed

lemma pending_Suc: "c \<le> p \<Longrightarrow> pending c (Suc p) = pending c p @ [p mod MAX_QUEUE_LEN]"
  by (simp add: pending_def)

lemma pending_Cons: "c < p \<Longrightarrow> pending c p = c mod MAX_QUEUE_LEN # pending (Suc c) p"
  by (simp add: pending_def upt_conv_Cons)

lemma eq_start_inv: "eq_start s \<Longrightarrow> eq_inv s"
  by (auto simp: eq_start_def eq_inv_def eventgen_init_def pending_def sbl.rep_init)

lemma stamp_inv:
  assumes inv: "eq_inv s" and nf: "\<not> queue_is_full (eq s)"
  shows "eq_inv (s\<lparr>eq := eventgen_stamp t (eq s), stamped := True\<rparr>)"
proof -
  let ?c = "length (consumed s)" and ?p = "length (produced s)"
  have g: "?p - ?c < MAX_QUEUE_LEN" "gen_i (eq s) = ?p mod MAX_QUEUE_LEN"
    using inv nf by (auto simp: eq_inv_def Let_def)
  have "k mod MAX_QUEUE_LEN \<noteq> ?p mod MAX_QUEUE_LEN" if "?c \<le> k" "k < ?p" for k
    using ring_distinct [of k ?p MAX_QUEUE_LEN] that g(1) by linarith
  with inv nf g show ?thesis by (auto simp: eq_inv_def Let_def eventgen_stamp_def)
qed

lemma enqueue_links:
  assumes inv: "eq_inv s" and nf: "\<not> queue_is_full (eq s)"
  shows "dlist (SB_LIST_ADD_TAIL (Suc (gen_i (eq s))) eq_head (eq_links (eq s))) eq_head
           (map Suc (pending (length (consumed s)) (Suc (length (produced s)))))"
proof -
  let ?c = "length (consumed s)" and ?p = "length (produced s)"
  have g: "?p - ?c < MAX_QUEUE_LEN" "gen_i (eq s) = ?p mod MAX_QUEUE_LEN" "?c \<le> ?p"
    and d: "dlist (eq_links (eq s)) eq_head (map Suc (pending ?c ?p))"
    using inv nf by (auto simp: eq_inv_def Let_def)
  have "Suc (gen_i (eq s)) \<notin> set (eq_head # map Suc (pending ?c ?p))"
    using next_not_pending [OF g(1)] g(2) by auto
  from sbl.rep_add_tail [OF d this] show ?thesis by (simp add: pending_Suc [OF g(3)] g(2))
qed

lemma next_index: "(if Suc (p mod n) \<ge> n then 0 else Suc (p mod n)) = Suc p mod n" if "0 < n" for n p :: nat
  using mod_less_divisor [OF that, of p] by (simp add: mod_Suc)

lemma enqueue_inv:
  assumes inv: "eq_inv s" and st: "stamped s"
  shows "eq_inv (s\<lparr>eq := eventgen_enqueue (eq s), stamped := False,
                   produced := produced s @ [event_time (eq s) (gen_i (eq s))]\<rparr>)"
proof -
  let ?c = "length (consumed s)" and ?p = "length (produced s)" and ?q = "eventgen_enqueue (eq s)"
  have nf: "\<not> queue_is_full (eq s)" using inv st by (auto simp: eq_inv_def Let_def)
  have g: "?p - ?c < MAX_QUEUE_LEN" "gen_i (eq s) = ?p mod MAX_QUEUE_LEN" "?c \<le> ?p"
    "eq_length (eq s) = int (?p - ?c)"
    using inv nf by (auto simp: eq_inv_def Let_def)
  have len: "int (?p - ?c) + 1 = int (Suc ?p - ?c)" using g(3) by simp
  have full: "queue_is_full ?q \<longleftrightarrow> \<not> Suc ?p - ?c < MAX_QUEUE_LEN"
    using nf g by (auto simp: eventgen_enqueue_def Let_def)
  have q: "eq_links ?q = SB_LIST_ADD_TAIL (Suc (gen_i (eq s))) eq_head (eq_links (eq s))"
    "event_time ?q = event_time (eq s)" "eq_length ?q = int (Suc ?p - ?c)"
    "eq_concurrency ?q = eq_concurrency (eq s)"
    using g(4) len by (simp_all add: eventgen_enqueue_def Let_def)
  have gi: "gen_i ?q = Suc ?p mod MAX_QUEUE_LEN" if "\<not> queue_is_full ?q"
    using that nf g(2) next_index [OF MAX_QUEUE_LEN_pos, of ?p]
    by (auto simp: eventgen_enqueue_def Let_def split: if_splits)
  have "event_time (eq s) (k mod MAX_QUEUE_LEN) = (produced s @ [event_time (eq s) (gen_i (eq s))]) ! k"
    if "?c \<le> k" "k < Suc ?p" for k
    using inv that g(2) by (cases "k = ?p") (auto simp: eq_inv_def Let_def nth_append)
  moreover have "take ?c (produced s @ [event_time (eq s) (gen_i (eq s))]) = consumed s"
    using inv by (simp add: eq_inv_def Let_def)
  moreover have "eq_concurrency (eq s) = int (busy s + failed s)" using inv by (simp add: eq_inv_def Let_def)
  ultimately show ?thesis
    using enqueue_links [OF inv nf] g(1,3) full gi
    by (auto simp: eq_inv_def Let_def q)
qed

lemma take_inv:
  assumes inv: "eq_inv s" and ne: "eq_length (eq s) \<noteq> 0" and tk: "worker_take old (eq s) = (start, q)"
  shows "eq_inv (s\<lparr>eq := q, busy := Suc (busy s), consumed := consumed s @ [start]\<rparr>)"
    and "start = produced s ! length (consumed s)"
proof -
  let ?c = "length (consumed s)" and ?p = "length (produced s)"
  have cp: "?c < ?p" and d: "dlist (eq_links (eq s)) eq_head (map Suc (pending ?c ?p))"
    and len: "eq_length (eq s) = int (?p - ?c)"
    using inv ne by (auto simp: eq_inv_def Let_def)
  have ev: "event_time (eq s) (?c mod MAX_QUEUE_LEN) = produced s ! ?c"
    using inv cp by (auto simp: eq_inv_def Let_def)
  have t: "SB_LIST_ONCE (eq_links (eq s)) eq_head = Some (Suc (?c mod MAX_QUEUE_LEN))"
    "dlist (SB_LIST_DELETE (Suc (?c mod MAX_QUEUE_LEN)) (eq_links (eq s))) eq_head (map Suc (pending (Suc ?c) ?p))"
    using sbl.rep_take_first [of "eq_links (eq s)" eq_head] d by (simp_all add: pending_Cons [OF cp])
  have q: "start = produced s ! ?c"
    "q = (eq s)\<lparr>eq_links := SB_LIST_DELETE (Suc (?c mod MAX_QUEUE_LEN)) (eq_links (eq s)),
                eq_length := eq_length (eq s) - 1, eq_concurrency := eq_concurrency (eq s) + 1\<rparr>"
    using tk t(1) ev by (auto simp: worker_take_def)
  then show "start = produced s ! ?c" by blast
  have "consumed s @ [start] = take (Suc ?c) (produced s)"
    using inv cp q(1) by (simp add: eq_inv_def Let_def take_Suc_conv_app_nth)
  moreover have "int (?p - ?c) - 1 = int (?p - Suc ?c)" using cp by simp
  ultimately show "eq_inv (s\<lparr>eq := q, busy := Suc (busy s), consumed := consumed s @ [start]\<rparr>)"
    using inv cp t(2) len unfolding q(2) by (auto simp: eq_inv_def Let_def)
qed

lemma leave_inv:
  assumes "eq_inv s" and "busy s = Suc n"
  shows "eq_inv (s\<lparr>eq := worker_finish (eq s), busy := n\<rparr>)"
    and "eq_inv (s\<lparr>busy := n, failed := Suc (failed s)\<rparr>)"
  using assms by (simp_all add: eq_inv_def Let_def worker_finish_def)

lemma eq_step_inv:
  assumes "eq_inv s" and "eq_step s t"
  shows "eq_inv t"
  using assms(2,1)
  by (cases rule: eq_step.cases) (auto simp: stamp_inv enqueue_inv leave_inv intro: take_inv(1))

interpretation evq: invariant_system eq_start eq_step eq_inv
  by unfold_locales (fact eq_start_inv eq_step_inv)+

section \<open>Properties\<close>

text \<open>C4: The event queue is a FIFO queue under every interleaving of the generator and the workers:
  the events taken are the first ones generated, in order and with the times they were stamped with;
  \<open>event_queue_length\<close> is the number of pending events, never above \<open>MAX_QUEUE_LEN\<close>, and the list links
  exactly these, so that the generator never stamps or links an element that is still in the list
  (an element it has stamped, or will stamp next, is not linked).\<close>

theorem event_queue_fifo:
  assumes "eq_start s" and "eq_step\<^sup>*\<^sup>* s t"
  shows "consumed t = take (length (consumed t)) (produced t) \<and>
         eq_length (eq t) = int (length (produced t) - length (consumed t)) \<and>
         eq_length (eq t) \<le> int MAX_QUEUE_LEN \<and>
         (\<exists>is. dlist (eq_links (eq t)) eq_head (map Suc is) \<and> length is = nat (eq_length (eq t)) \<and>
               map (event_time (eq t)) is = drop (length (consumed t)) (produced t) \<and>
               (\<not> queue_is_full (eq t) \<longrightarrow> gen_i (eq t) \<notin> set is))"
proof -
  let ?c = "length (consumed t)" and ?p = "length (produced t)"
  have inv: "eq_inv t" by (rule evq.reach_inv [OF assms])
  have "map (event_time (eq t)) (pending ?c ?p) = drop ?c (produced t)"
    using inv by (intro nth_equalityI) (auto simp: eq_inv_def Let_def pending_def)
  moreover have "\<not> queue_is_full (eq t) \<Longrightarrow> gen_i (eq t) \<notin> set (pending ?c ?p)"
    using inv next_not_pending [of ?p ?c] by (auto simp: eq_inv_def Let_def)
  moreover have "length (pending ?c ?p) = nat (eq_length (eq t))"
    using inv by (auto simp: eq_inv_def Let_def pending_def)
  ultimately show ?thesis
    using inv by (auto simp: eq_inv_def Let_def intro!: exI [of _ "pending ?c ?p"])
qed

definition example_eq :: eq_sys where
  "example_eq = \<lparr>eq = eventgen_init \<lparr>eq_links = \<lparr>next_p = (\<lambda>_. 0), prev_p = (\<lambda>_. 0)\<rparr>, event_time = (\<lambda>_. 0),
     eq_length = 0, eq_concurrency = 0, queue_is_full = False, gen_i = 0\<rparr>,
     stamped = False, busy = 0, failed = 0, produced = [], consumed = []\<rparr>"

lemma example_eq_start: "eq_start example_eq"
proof -
  have "\<exists>q. eq example_eq = eventgen_init q" by (simp add: example_eq_def) blast
  then show ?thesis by (simp add: eq_start_def) (simp add: example_eq_def eventgen_init_def)
qed

lemma example_eq_run:
  "\<exists>t. eq_step\<^sup>*\<^sup>* example_eq t \<and> produced t = [7] \<and> consumed t = [7] \<and> busy t = 0 \<and> failed t = 1"
proof -
  let ?s1 = "example_eq\<lparr>eq := eventgen_stamp 7 (eq example_eq), stamped := True\<rparr>"
  let ?s2 = "?s1\<lparr>eq := eventgen_enqueue (eq ?s1), stamped := False, produced := [7]\<rparr>"
  have 1: "eq_step example_eq ?s1"
    by (rule eq_step.stamp) (simp_all add: example_eq_def eventgen_init_def)
  have ev: "event_time (eq ?s1) (gen_i (eq ?s1)) = 7" by (simp add: eventgen_stamp_def)
  have "eq_step ?s1 (?s1\<lparr>eq := eventgen_enqueue (eq ?s1), stamped := False,
                  produced := produced ?s1 @ [event_time (eq ?s1) (gen_i (eq ?s1))]\<rparr>)"
    by (rule eq_step.enqueue) simp
  then have 2: "eq_step ?s1 ?s2" unfolding ev by (simp add: example_eq_def)
  have inv: "eq_inv ?s2"
    using evq.steps_inv [of example_eq ?s2] 1 2 eq_start_inv [OF example_eq_start]
    by (meson eq_step_inv)
  obtain st q where tk: "worker_take 0 (eq ?s2) = (st, q)" by fastforce
  have ne: "eq_length (eq ?s2) \<noteq> 0" using inv by (auto simp: eq_inv_def Let_def example_eq_def)
  have c: "consumed ?s2 = []" "busy ?s2 = 0" "failed ?s2 = 0" by (simp_all add: example_eq_def)
  have "st = 7" using take_inv(2) [OF inv ne tk] c by simp
  let ?s3 = "?s2\<lparr>eq := q, busy := 1, consumed := [7]\<rparr>"
  have 3: "eq_step ?s2 ?s3"
    using eq_step.take [OF ne tk] c \<open>st = 7\<close> by simp
  have 4: "eq_step ?s3 (?s3\<lparr>busy := 0, failed := 1\<rparr>)"
    using eq_step.fail [of ?s3 0] c by simp
  from 1 2 3 4 have "eq_step\<^sup>*\<^sup>* example_eq (?s3\<lparr>busy := 0, failed := 1\<rparr>)"
    by (meson converse_rtranclp_into_rtranclp rtranclp.rtrancl_refl)
  then show ?thesis by (intro exI [of _ "?s3\<lparr>busy := 0, failed := 1\<rparr>"]) simp
qed

theorem event_queue_fifo_witness:
  "\<exists>t. eq_step\<^sup>*\<^sup>* example_eq t \<and> consumed t = [7] \<and> eq_length (eq t) = 0"
  using event_queue_fifo [OF example_eq_start] example_eq_run by fastforce

text \<open>What the counter \<open>concurrency\<close> of the intermediate reports counts: the requests being
  executed plus, since a worker that leaves its loop after a failed request does not decrement it,
  all workers that have failed so far.\<close>

theorem concurrency_counts_failed:
  assumes "eq_start s" and "eq_step\<^sup>*\<^sup>* s t"
  shows "eq_concurrency (eq t) = int (busy t) + int (failed t)"
  using evq.reach_inv [OF assms] by (simp add: eq_inv_def Let_def)

theorem concurrency_counts_failed_witness:
  "\<exists>t. eq_step\<^sup>*\<^sup>* example_eq t \<and> busy t = 0 \<and> eq_concurrency (eq t) = 1"
  using concurrency_counts_failed [OF example_eq_start] example_eq_run by fastforce

end
