(* ===== verification/Logger.thy ===== *)
theory Logger
  imports DB_Stats Options "HOL-Library.Multiset"
begin

text \<open>
  The logger of \<open>sysbench/sb_logger.c\<close>: chains of handlers per message type, the text handler
  with its suppression of repeated messages, the handler of operation messages with the timers and
  the histogram of response times, and the report of \<open>print_global_stats\<close>. The text that a format
  string and its arguments give is an argument (\<open>vsnprintf\<close> cuts it); standard output is the list
  of what the calls of \<open>printf\<close> print. \<^const>\<open>None\<close> is an access outside a buffer or an array, a
  message given to a handler of another type, or a call of \<open>abort\<close>.
\<close>

declare of_nat_unat [simp del]

section \<open>Formatting\<close>

text \<open>\<open>%w.df\<close> of a non-negative number: nearest decimal, ties to even, padded on the left.\<close>

definition round_half_even :: "real \<Rightarrow> nat" where
  "round_half_even x =
     (let n = nat \<lfloor>x\<rfloor>; r = x - real n in
      if r < 1 / 2 then n else if r > 1 / 2 then n + 1 else if even n then n else n + 1)"

definition pad_left :: "nat \<Rightarrow> char \<Rightarrow> string \<Rightarrow> string" where
  "pad_left w c s = replicate (w - length s) c @ s"

definition show_fixed :: "nat \<Rightarrow> nat \<Rightarrow> real \<Rightarrow> string" where
  "show_fixed w d x =
     (let k = round_half_even (x * 10 ^ d)
      in pad_left w CHR '' '' (show_nat (k div 10 ^ d) @
           (if d = 0 then [] else CHR ''.'' # pad_left d CHR ''0'' (show_nat (k mod 10 ^ d)))))"

section \<open>Messages and handlers\<close>

datatype log_msg_type = LOG_MSG_TYPE_MIN | LOG_MSG_TYPE_TEXT | LOG_MSG_TYPE_OPER | LOG_MSG_TYPE_MAX

fun priority_num :: "log_msg_priority \<Rightarrow> nat" where
  "priority_num LOG_FATAL = 0" | "priority_num LOG_ALERT = 1" | "priority_num LOG_WARNING = 2"
| "priority_num LOG_NOTICE = 3" | "priority_num LOG_INFO = 4" | "priority_num LOG_DEBUG = 5"
| "priority_num LOG_MAX = 6"

record log_msg_text =
  mt_priority :: log_msg_priority
  mt_text :: string
  mt_flags :: u32

datatype log_msg_oper_action = LOG_MSG_OPER_START | LOG_MSG_OPER_STOP

record log_msg_oper =
  mo_action :: log_msg_oper_action
  mo_thread :: int

datatype log_message = TextMsg log_msg_text | OperMsg log_msg_oper

definition LOG_MSG_TEXT_ALLOW_DUPLICATES :: u32 where "LOG_MSG_TEXT_ALLOW_DUPLICATES = 1"
definition TEXT_BUFFER_SIZE :: nat where "TEXT_BUFFER_SIZE = 4096"
definition OPER_LOG_GRANULARITY :: u32 where "OPER_LOG_GRANULARITY = 100000"
definition OPER_LOG_MIN_VALUE :: real where "OPER_LOG_MIN_VALUE = 1"
definition OPER_LOG_MAX_VALUE :: real where "OPER_LOG_MAX_VALUE = 10 ^ 13"

text \<open>The two handlers of the program; \<open>log_handler_t\<close> only holds pointers to their functions.\<close>

datatype log_handler = text_handler | oper_handler

definition handler_args :: "log_handler \<Rightarrow> sb_arg list" where
  "handler_args h =
     (case h of
        text_handler \<Rightarrow>
          [\<lparr>arg_name = ''verbosity'',
            arg_desc = ''verbosity level {5 - debug, 0 - only critical messages}'',
            arg_type = SB_ARG_TYPE_INT, arg_value = Some ''3''\<rparr>]
      | oper_handler \<Rightarrow>
          [\<lparr>arg_name = ''percentile'', arg_desc = ''percentile rank of query response times to count'',
            arg_type = SB_ARG_TYPE_INT, arg_value = Some ''95''\<rparr>])"

text \<open>What a call of \<open>printf\<close> prints.\<close>

datatype chunk = Raw string | Message log_msg_text | Repeated u32

definition prefix :: "log_msg_priority \<Rightarrow> string" where
  "prefix p = (case p of
       LOG_FATAL \<Rightarrow> ''FATAL: '' | LOG_ALERT \<Rightarrow> ''ALERT: '' | LOG_WARNING \<Rightarrow> ''WARNING: ''
     | LOG_DEBUG \<Rightarrow> ''DEBUG: '' | _ \<Rightarrow> [])"

fun chunk_text :: "chunk \<Rightarrow> string" where
  "chunk_text (Raw s) = s"
| "chunk_text (Message m) = prefix (mt_priority m) @ mt_text m"
| "chunk_text (Repeated n) = ''(last message repeated '' @ show_nat (unat n) @ '' times)\<newline>''"

record logger =
  handlers :: "log_msg_type \<Rightarrow> log_handler list"
  initialized :: bool
  verbosity :: "8 word"
  text_cnt :: u32
  text_buf :: string
  oper_rank :: u32
  oper_percentile :: sb_percentile
  log_timers :: "sb_timer list"
  stdout :: "chunk list"

definition put_chunk :: "chunk \<Rightarrow> logger \<Rightarrow> logger" where
  "put_chunk c L = L\<lparr>stdout := stdout L @ [c]\<rparr>"

section \<open>Registration\<close>

definition log_add_handler ::
  "files \<Rightarrow> log_msg_type \<Rightarrow> log_handler \<Rightarrow> options \<Rightarrow> logger \<Rightarrow> int \<times> options \<times> logger" where
  "log_add_handler fs type h opts L =
     (if type = LOG_MSG_TYPE_MIN \<or> type = LOG_MSG_TYPE_MAX then (1, opts, L)
      else (0, snd (sb_register_arg_set fs opts (handler_args h)),
            L\<lparr>handlers := (handlers L)(type := handlers L type @ [h])\<rparr>))"

definition log_register :: "files \<Rightarrow> options \<Rightarrow> logger \<Rightarrow> options \<times> logger" where
  "log_register fs opts L =
     (let L = L\<lparr>handlers := (\<lambda>_. [])\<rparr>;
          (_, opts, L) = log_add_handler fs LOG_MSG_TYPE_TEXT text_handler opts L;
          (_, opts, L) = log_add_handler fs LOG_MSG_TYPE_OPER oper_handler opts L
      in (opts, L))"

section \<open>Text messages\<close>

text \<open>\<open>!flags & LOG_MSG_TEXT_ALLOW_DUPLICATES\<close>: \<open>!\<close> binds tighter.\<close>

definition checks_duplicates :: "log_msg_text \<Rightarrow> bool" where
  "checks_duplicates m \<longleftrightarrow>
     and (if mt_flags m = 0 then 1 else 0) LOG_MSG_TEXT_ALLOW_DUPLICATES \<noteq> 0"

definition text_handler_process :: "log_msg_text \<Rightarrow> logger \<Rightarrow> logger" where
  "text_handler_process m L =
     (if priority_num (mt_priority m) > unat (verbosity L) then L
      else if checks_duplicates m then
        (if text_buf L = mt_text m then L\<lparr>text_cnt := text_cnt L + 1\<rparr>
         else let L = (if text_cnt L > 0 then put_chunk (Repeated (text_cnt L)) L else L);
                  L = L\<lparr>text_cnt := 0, text_buf := take TEXT_BUFFER_SIZE (mt_text m)\<rparr>
              in put_chunk (Message m) L)
      else put_chunk (Message m) L)"

fun process_text :: "log_msg_text \<Rightarrow> log_handler list \<Rightarrow> logger \<Rightarrow> logger option" where
  "process_text m [] L = Some L"
| "process_text m (text_handler # hs) L = process_text m hs (text_handler_process m L)"
| "process_text m (oper_handler # hs) L = None"

text \<open>The line in the buffer of \<open>log_text\<close> and \<open>log_timestamp\<close>: what is there already (\<open>pre\<close>), the
  formatted text and the newline, each as far as there is room.\<close>

definition buffer_line :: "string \<Rightarrow> string \<Rightarrow> string" where
  "buffer_line pre txt =
     (let maxlen = TEXT_BUFFER_SIZE - length pre;
          (body, n) = snprintf txt maxlen;
          n = (if n < 0 \<or> n \<ge> int maxlen then maxlen else nat n);
          (nl, _) = snprintf ''\<newline>'' (maxlen - n)
      in pre @ (case body of None \<Rightarrow> [] | Some b \<Rightarrow> b) @ (case nl of None \<Rightarrow> [] | Some b \<Rightarrow> b))"

definition send_text :: "log_msg_priority \<Rightarrow> u32 \<Rightarrow> string \<Rightarrow> logger \<Rightarrow> logger option" where
  "send_text prio flags buf L =
     (if \<not> initialized L then Some (put_chunk (Raw buf) L)
      else process_text \<lparr>mt_priority = prio, mt_text = buf, mt_flags = flags\<rparr>
             (handlers L LOG_MSG_TYPE_TEXT) L)"

definition log_text :: "log_msg_priority \<Rightarrow> string \<Rightarrow> logger \<Rightarrow> logger option" where
  "log_text prio txt L = send_text prio 0 (buffer_line [] txt) L"

definition log_timestamp :: "log_msg_priority \<Rightarrow> sb_timer \<Rightarrow> string \<Rightarrow> logger \<Rightarrow> logger option" where
  "log_timestamp prio t txt L =
     send_text prio LOG_MSG_TEXT_ALLOW_DUPLICATES
       (buffer_line (''['' @ show_fixed 4 0 (NS2SEC (elapsed t)) @ ''s] '') txt) L"

text \<open>\<open>errno\<close> and its text are arguments. The length test misses texts longer than the buffer: the
  second \<open>snprintf\<close> then starts behind the buffer's end.\<close>

definition log_errno ::
  "log_msg_priority \<Rightarrow> int \<Rightarrow> string \<Rightarrow> string \<Rightarrow> logger \<Rightarrow> logger option" where
  "log_errno prio errno errtext txt L =
     (let n = snd (snprintf txt TEXT_BUFFER_SIZE) in
      if n < 0 \<or> n = int TEXT_BUFFER_SIZE then Some L
      else if n > int TEXT_BUFFER_SIZE then None
      else let (tail, _) = snprintf ('' errno = '' @ show_int errno @ '' ('' @ errtext @ '')'')
                             (TEXT_BUFFER_SIZE - nat n)
           in log_text prio (txt @ (case tail of None \<Rightarrow> [] | Some b \<Rightarrow> b)) L)"

fun log_all :: "log \<Rightarrow> logger \<Rightarrow> logger option" where
  "log_all [] L = Some L"
| "log_all ((p, txt) # ms) L = (case log_text p txt L of None \<Rightarrow> None | Some L \<Rightarrow> log_all ms L)"

section \<open>Operation messages\<close>

text \<open>
  \<open>oper_handler_process\<close> in its two parts: what runs under \<open>timers_mutex\<close> (with the value of the
  timer that a stopped operation gives), and the update of the histogram after the mutex has been released.
  \<open>now\<close> is the time at which the timer's operation reads the clock.
\<close>

definition oper_locked :: "timespec \<Rightarrow> log_msg_oper \<Rightarrow> logger \<Rightarrow> (u64 option \<times> logger) option" where
  "oper_locked now m L =
     (if mo_thread m < 0 \<or> nat (mo_thread m) \<ge> length (log_timers L) then None
      else let i = nat (mo_thread m); t = log_timers L ! i in
        case mo_action m of
          LOG_MSG_OPER_START \<Rightarrow>
            (case sb_timer_start now t of
               None \<Rightarrow> None
             | Some (t, msgs) \<Rightarrow>
                 (case log_all msgs (L\<lparr>log_timers := (log_timers L)[i := t]\<rparr>) of
                    None \<Rightarrow> None
                  | Some L \<Rightarrow> Some (None, L)))
        | LOG_MSG_OPER_STOP \<Rightarrow>
            (case sb_timer_stop now t of
               None \<Rightarrow> None
             | Some (t, msgs) \<Rightarrow>
                 (case log_all msgs (L\<lparr>log_timers := (log_timers L)[i := t]\<rparr>) of
                    None \<Rightarrow> None
                  | Some L \<Rightarrow>
                      (case sb_timer_value now t of
                         None \<Rightarrow> None
                       | Some (v, _, _) \<Rightarrow> Some (Some v, L)))))"

definition oper_record :: "u64 \<Rightarrow> logger \<Rightarrow> logger option" where
  "oper_record v L =
     (case sb_percentile_update (oper_percentile L) (of_int (sint v)) of
        None \<Rightarrow> None
      | Some p \<Rightarrow> Some (L\<lparr>oper_percentile := p\<rparr>))"

definition oper_handler_process :: "timespec \<Rightarrow> log_msg_oper \<Rightarrow> logger \<Rightarrow> logger option" where
  "oper_handler_process now m L =
     (case oper_locked now m L of
        None \<Rightarrow> None
      | Some (None, L) \<Rightarrow> Some L
      | Some (Some v, L) \<Rightarrow> oper_record v L)"

fun process_oper :: "timespec \<Rightarrow> log_msg_oper \<Rightarrow> log_handler list \<Rightarrow> logger \<Rightarrow> logger option" where
  "process_oper now m [] L = Some L"
| "process_oper now m (oper_handler # hs) L =
     (case oper_handler_process now m L of None \<Rightarrow> None | Some L \<Rightarrow> process_oper now m hs L)"
| "process_oper now m (text_handler # hs) L = None"

definition log_msg :: "timespec \<Rightarrow> log_message \<Rightarrow> logger \<Rightarrow> logger option" where
  "log_msg now msg L =
     (case msg of
        TextMsg m \<Rightarrow> process_text m (handlers L LOG_MSG_TYPE_TEXT) L
      | OperMsg m \<Rightarrow> process_oper now m (handlers L LOG_MSG_TYPE_OPER) L)"

definition LOG_EVENT_START :: "timespec \<Rightarrow> int \<Rightarrow> logger \<Rightarrow> logger option" where
  "LOG_EVENT_START now tid = log_msg now (OperMsg \<lparr>mo_action = LOG_MSG_OPER_START, mo_thread = tid\<rparr>)"

definition LOG_EVENT_STOP :: "timespec \<Rightarrow> int \<Rightarrow> logger \<Rightarrow> logger option" where
  "LOG_EVENT_STOP now tid = log_msg now (OperMsg \<lparr>mo_action = LOG_MSG_OPER_STOP, mo_thread = tid\<rparr>)"

section \<open>The global report\<close>

record global_report =
  gr_unfinished :: nat
  gr_time :: real
  gr_events :: u64
  gr_sum :: real
  gr_min :: real
  gr_avg :: real
  gr_max :: real
  gr_percentile :: real
  gr_events_avg :: real
  gr_events_stddev :: real
  gr_time_avg :: real
  gr_time_stddev :: real

definition stop_running :: "timespec \<Rightarrow> sb_timer \<Rightarrow> sb_timer" where
  "stop_running now t =
     (if sb_timer_running t
      then (case sb_timer_stop now t of None \<Rightarrow> t | Some (t', _) \<Rightarrow> t') else t)"

definition stddev :: "nat \<Rightarrow> real \<Rightarrow> real list \<Rightarrow> real" where
  "stddev n avg xs = sqrt (sum_list (map (\<lambda>x. let diff = \<bar>avg - x\<bar> in diff * diff) xs) / real n)"

text \<open>The numbers of the report, from the merged timer \<open>t\<close> and the copied timers of the threads.\<close>

definition make_report :: "nat \<Rightarrow> nat \<Rightarrow> u64 \<Rightarrow> real \<Rightarrow> sb_timer \<Rightarrow> sb_timer list \<Rightarrow> global_report" where
  "make_report nthreads unfinished total_time_ns pct t copies =
     (let events_avg = real (unat (events t)) / real nthreads;
          time_avg = NS2SEC (get_sum_time t) / real nthreads
      in \<lparr>gr_unfinished = unfinished, gr_time = NS2SEC total_time_ns, gr_events = events t,
          gr_sum = NS2SEC (get_sum_time t), gr_min = NS2MS (real (unat (get_min_time t))),
          gr_avg = NS2MS (real (unat (get_avg_time t))), gr_max = NS2MS (real (unat (get_max_time t))),
          gr_percentile = NS2MS pct, gr_events_avg = events_avg,
          gr_events_stddev = stddev nthreads events_avg (map (\<lambda>c. real (unat (events c))) copies),
          gr_time_avg = time_avg,
          gr_time_stddev = stddev nthreads time_avg (map (\<lambda>c. NS2SEC (get_sum_time c)) copies)\<rparr>)"

abbreviation (input) notice :: "string \<Rightarrow> log_msg_priority \<times> string" where "notice s \<equiv> (LOG_NOTICE, s)"

definition report_lines :: "u32 \<Rightarrow> global_report \<Rightarrow> log" where
  "report_lines pct_rank r =
     [notice [], notice ''General statistics:'',
      notice (''    total time:                          '' @ show_fixed 0 4 (gr_time r) @ ''s''),
      notice (''    total number of events:              '' @ show_int (sint (gr_events r))),
      notice (''    total time taken by event execution: '' @ show_fixed 0 4 (gr_sum r) @ ''s''),
      notice ''    response time:'',
      notice (''         min:                            '' @ show_fixed 10 2 (gr_min r) @ ''ms''),
      notice (''         avg:                            '' @ show_fixed 10 2 (gr_avg r) @ ''ms''),
      notice (''         max:                            '' @ show_fixed 10 2 (gr_max r) @ ''ms'')] @
     (if gr_events r > 0
      then [notice (''         approx. '' @ pad_left 3 CHR '' '' (show_int (sint pct_rank)) @
                    '' percentile:         '' @ show_fixed 10 2 (gr_percentile r) @ ''ms'')] else []) @
     [notice [], notice ''Threads fairness:'',
      notice (''    events (avg/stddev):           '' @ show_fixed 0 4 (gr_events_avg r) @ ''/'' @
              show_fixed 3 2 (gr_events_stddev r)),
      notice (''    execution time (avg/stddev):   '' @ show_fixed 0 4 (gr_time_avg r) @ ''/'' @
              show_fixed 3 2 (gr_time_stddev r)),
      notice []]"

definition thread_lines :: "nat \<Rightarrow> sb_timer \<Rightarrow> log" where
  "thread_lines i c =
     [(LOG_DEBUG, ''    thread #'' @ pad_left 3 CHR '' '' (show_nat i) @ '': min: '' @
         show_fixed 0 4 (NS2SEC (get_min_time c)) @ ''s  avg: '' @ show_fixed 0 4 (NS2SEC (get_avg_time c)) @
         ''s  max: '' @ show_fixed 0 4 (NS2SEC (get_max_time c)) @ ''s  events: '' @
         show_int (sint (events c))),
      (LOG_DEBUG, ''                 total time taken by even execution: '' @
         show_fixed 0 4 (NS2SEC (get_sum_time c)) @ ''s'')]"

definition debug_lines :: "sb_timer list \<Rightarrow> log" where
  "debug_lines copies =
     (LOG_DEBUG, ''Verbose per-thread statistics:\<newline>'') #
     concat (map (\<lambda>(i, c). thread_lines i c) (zip [0..<length copies] copies)) @ [notice []]"

text \<open>
  \<open>print_global_stats\<close> in its parts. Under \<open>timers_mutex\<close>: the copy and the reset of the timers with the
  split of \<open>sb_globals.cumulative_timer2\<close> (\<open>ctimer\<close>; \<open>now\<close> is its clock), the percentile, and the reset of the histogram, between
  which other threads may update the histogram. Then the report, from the copies, the total time and
  the percentile: on a forced shutdown the running timers of the copy are stopped
  at \<open>now'\<close> (stopping a running timer logs nothing). \<open>fresh\<close> is the local timer variable. The number of
  threads is the length of the array of timers.
\<close>

definition report_copy ::
  "timespec \<Rightarrow> sb_timer \<Rightarrow> logger \<Rightarrow> (sb_timer list \<times> u64 \<times> sb_timer \<times> logger) option" where
  "report_copy now ctimer L =
     (let copies = log_timers L; L = L\<lparr>log_timers := map sb_timer_reset (log_timers L)\<rparr> in
      case sb_timer_split now ctimer of
        None \<Rightarrow> None
      | Some (total_ns, ctimer, msgs) \<Rightarrow>
          (case log_all msgs L of
             None \<Rightarrow> None
           | Some L \<Rightarrow> Some (copies, total_ns, ctimer, L)))"

definition report_percentile :: "logger \<Rightarrow> (real \<times> logger) option" where
  "report_percentile L =
     (case sb_percentile_calculate (oper_percentile L) (real (unat (oper_rank L))) of
        None \<Rightarrow> None
      | Some (pct, p) \<Rightarrow> Some (pct, L\<lparr>oper_percentile := p\<rparr>))"

definition report_reset :: "logger \<Rightarrow> logger" where
  "report_reset L = L\<lparr>oper_percentile := sb_percentile_reset (oper_percentile L)\<rparr>"

definition report_print ::
  "sb_timer \<Rightarrow> timespec \<Rightarrow> bool \<Rightarrow> bool \<Rightarrow> sb_timer list \<Rightarrow> u64 \<Rightarrow> real \<Rightarrow> logger \<Rightarrow>
     (global_report \<times> logger) option" where
  "report_print fresh now' shutdown dbg copies total_ns pct L =
     (let unfinished = (if shutdown then length (filter sb_timer_running copies) else 0);
          copies = (if shutdown then map (stop_running now') copies else copies);
          t = foldl merge_timers (sb_timer_init fresh) copies;
          r = make_report (length copies) unfinished total_ns pct t copies
      in case log_all ((if unfinished > 0
                        then [notice [], notice (''Number of unfinished transactions on forced shutdown: ''
                                                  @ show_nat unfinished)] else []) @
                       report_lines (oper_rank L) r @ (if dbg then debug_lines copies else [])) L of
           None \<Rightarrow> None
         | Some L \<Rightarrow> Some (r, L))"

definition print_global_stats ::
  "sb_timer \<Rightarrow> timespec \<Rightarrow> timespec \<Rightarrow> bool \<Rightarrow> bool \<Rightarrow> sb_timer \<Rightarrow> logger \<Rightarrow>
     (global_report \<times> sb_timer \<times> logger) option" where
  "print_global_stats fresh now now' shutdown dbg ctimer L =
     (case report_copy now ctimer L of
        None \<Rightarrow> None
      | Some (copies, total_ns, ctimer, L) \<Rightarrow>
          (case report_percentile L of
             None \<Rightarrow> None
           | Some (pct, L) \<Rightarrow>
               (case report_print fresh now' shutdown dbg copies total_ns pct (report_reset L) of
                  None \<Rightarrow> None
                | Some (r, L) \<Rightarrow> Some (r, ctimer, L))))"

section \<open>Initialisation and end\<close>

text \<open>\<open>Inl\<close> is the exit code of an option that cannot be read.\<close>

definition text_handler_init :: "options \<Rightarrow> logger \<Rightarrow> int + (int \<times> logger)" where
  "text_handler_init opts L =
     (case sb_get_value_int opts ''verbosity'' of
        Inl c \<Rightarrow> Inl c
      | Inr v \<Rightarrow>
          (let L = L\<lparr>verbosity := word_of_int v\<rparr> in
           if unat (verbosity L) > priority_num LOG_DEBUG
           then Inr (1, put_chunk (Raw (''Invalid value for verbosity: '' @ show_nat (unat (verbosity L))
                                         @ ''\<newline>'')) L)
           else Inr (0, L\<lparr>text_cnt := 0, text_buf := []\<rparr>)))"

text \<open>\<open>alloc\<close> and \<open>alloc'\<close>: whether the histogram and the arrays of timers can be allocated. The
  memory of a new timer is arbitrary (\<open>fresh\<close>).\<close>

definition oper_handler_init ::
  "bool \<Rightarrow> bool \<Rightarrow> sb_timer \<Rightarrow> u32 \<Rightarrow> options \<Rightarrow> logger \<Rightarrow> (int + (int \<times> logger)) option" where
  "oper_handler_init alloc alloc' fresh nthreads opts L =
     (let fail = (\<lambda>txt L. case log_text LOG_FATAL txt L of None \<Rightarrow> None | Some L \<Rightarrow> Some (Inr (1, L))) in
      case sb_get_value_int opts ''percentile'' of
        Inl c \<Rightarrow> Some (Inl c)
      | Inr v \<Rightarrow>
          (let tmp = word_of_int v :: u32 in
           if tmp < 1 \<or> tmp > 100
           then fail (''Invalid value for percentile option: '' @ show_int (sint tmp)) L
           else let L = L\<lparr>oper_rank := tmp\<rparr> in
             case sb_percentile_init alloc OPER_LOG_GRANULARITY OPER_LOG_MIN_VALUE OPER_LOG_MAX_VALUE of
               Inl _ \<Rightarrow> Some (Inr (1, L))
             | Inr p \<Rightarrow>
                 (let L = L\<lparr>oper_percentile := p\<rparr> in
                  if \<not> alloc' then fail ''Memory allocation failure'' L
                  else Some (Inr (0, L\<lparr>log_timers := replicate (unat nthreads) (sb_timer_init fresh)\<rparr>)))))"

fun init_handlers ::
  "bool \<Rightarrow> bool \<Rightarrow> sb_timer \<Rightarrow> u32 \<Rightarrow> options \<Rightarrow> log_handler list \<Rightarrow> logger \<Rightarrow> (int + (int \<times> logger)) option"
where
  "init_handlers a a' f n opts [] L = Some (Inr (0, L))"
| "init_handlers a a' f n opts (h # hs) L =
     (case (case h of text_handler \<Rightarrow> Some (text_handler_init opts L)
                    | oper_handler \<Rightarrow> oper_handler_init a a' f n opts L) of
        None \<Rightarrow> None
      | Some (Inl c) \<Rightarrow> Some (Inl c)
      | Some (Inr (rc, L)) \<Rightarrow> (if rc \<noteq> 0 then Some (Inr (1, L)) else init_handlers a a' f n opts hs L))"

definition all_handlers :: "logger \<Rightarrow> log_handler list" where
  "all_handlers L = concat (map (handlers L) [LOG_MSG_TYPE_MIN, LOG_MSG_TYPE_TEXT, LOG_MSG_TYPE_OPER])"

definition log_init ::
  "bool \<Rightarrow> bool \<Rightarrow> sb_timer \<Rightarrow> u32 \<Rightarrow> options \<Rightarrow> logger \<Rightarrow> (int + (int \<times> logger)) option" where
  "log_init a a' f n opts L =
     (case init_handlers a a' f n opts (all_handlers L) L of
        None \<Rightarrow> None
      | Some (Inl c) \<Rightarrow> Some (Inl c)
      | Some (Inr (rc, L)) \<Rightarrow> Some (Inr (if rc \<noteq> 0 then (1, L) else (0, L\<lparr>initialized := True\<rparr>))))"

text \<open>\<open>log_done\<close>; only the operation handler has a \<open>done\<close> function, which frees its timers.\<close>

definition oper_handler_done ::
  "sb_timer \<Rightarrow> timespec \<Rightarrow> timespec \<Rightarrow> bool \<Rightarrow> bool \<Rightarrow> sb_timer \<times> logger \<Rightarrow> (sb_timer \<times> logger) option" where
  "oper_handler_done fresh now now' shutdown dbg s =
     (case print_global_stats fresh now now' shutdown dbg (fst s) (snd s) of
        None \<Rightarrow> None
      | Some (_, ct, L) \<Rightarrow> Some (ct, L\<lparr>log_timers := []\<rparr>))"

fun done_handlers ::
  "(sb_timer \<times> logger \<Rightarrow> (sb_timer \<times> logger) option) \<Rightarrow> log_handler list \<Rightarrow> sb_timer \<times> logger \<Rightarrow>
     (sb_timer \<times> logger) option" where
  "done_handlers f [] s = Some s"
| "done_handlers f (text_handler # hs) s = done_handlers f hs s"
| "done_handlers f (oper_handler # hs) s = (case f s of None \<Rightarrow> None | Some s \<Rightarrow> done_handlers f hs s)"

definition log_done ::
  "sb_timer \<Rightarrow> timespec \<Rightarrow> timespec \<Rightarrow> bool \<Rightarrow> bool \<Rightarrow> sb_timer \<Rightarrow> logger \<Rightarrow> (sb_timer \<times> logger) option" where
  "log_done fresh now now' shutdown dbg ctimer L =
     (case done_handlers (oper_handler_done fresh now now' shutdown dbg) (all_handlers L) (ctimer, L) of
        None \<Rightarrow> None | Some (ct, L) \<Rightarrow> Some (ct, L\<lparr>initialized := False\<rparr>))"

section \<open>Lines and repeated messages\<close>

lemma buffer_line_cases:
  assumes "length pre < TEXT_BUFFER_SIZE"
  shows "buffer_line pre txt =
     (if length pre + length txt + 1 < TEXT_BUFFER_SIZE then pre @ txt @ ''\<newline>''
      else take (TEXT_BUFFER_SIZE - 1) (pre @ txt))"
  using assms by (auto simp: buffer_line_def snprintf_def Let_def take_Cons' nat_int)

text \<open>The ordinary lines that a reader of the output recovers, given the line printed before.\<close>

fun replay :: "string \<Rightarrow> chunk list \<Rightarrow> string list" where
  "replay b [] = []"
| "replay b (Message m # cs) =
     (if checks_duplicates m then mt_text m # replay (mt_text m) cs else replay b cs)"
| "replay b (Repeated n # cs) = replicate (unat n) b @ replay b cs"
| "replay b (Raw s # cs) = replay b cs"

fun last_line :: "string \<Rightarrow> chunk list \<Rightarrow> string" where
  "last_line b [] = b"
| "last_line b (Message m # cs) = last_line (if checks_duplicates m then mt_text m else b) cs"
| "last_line b (c # cs) = last_line b cs"

lemma replay_append: "replay b (cs @ ds) = replay b cs @ replay (last_line b cs) ds"
  by (induction b cs rule: replay.induct) auto

lemma last_line_append: "last_line b (cs @ ds) = last_line (last_line b cs) ds"
  by (induction b cs rule: last_line.induct) auto

lemma replay_snoc:
  "replay b (cs @ [Message m]) = replay b cs @ (if checks_duplicates m then [mt_text m] else [])"
  "replay b (cs @ [Repeated n]) = replay b cs @ replicate (unat n) (last_line b cs)"
  "last_line b (cs @ [Message m]) = (if checks_duplicates m then mt_text m else last_line b cs)"
  "last_line b (cs @ [Repeated n]) = last_line b cs"
  by (simp_all add: replay_append last_line_append)

text \<open>What the text handler has printed and still holds back, after the ordinary lines \<open>ls\<close>.\<close>

definition text_sound :: "chunk list \<Rightarrow> string list \<Rightarrow> logger \<Rightarrow> bool" where
  "text_sound out ls L \<longleftrightarrow>
     (\<exists>cs. stdout L = out @ cs \<and> last_line [] cs = text_buf L \<and>
           replay [] cs @ replicate (unat (text_cnt L)) (text_buf L) = ls)"

lemma replay_last_repeat:
  "replicate (unat n) b @ [b] = replicate (unat (n + 1)) b" if "unat (n :: u32) < 2 ^ 32 - 1"
proof -
  have "unat (n + 1) = Suc (unat n)" using that by (simp add: unat_word_ariths)
  then show ?thesis by (simp add: replicate_append_same)
qed

lemma text_sound_step:
  assumes "text_sound out ls L" and "length ls < 2 ^ 32 - 1"
    and "checks_duplicates m" and "length (mt_text m) < TEXT_BUFFER_SIZE"
  shows "text_sound out (if priority_num (mt_priority m) \<le> unat (verbosity L) then ls @ [mt_text m] else ls)
           (text_handler_process m L)"
proof (cases "priority_num (mt_priority m) \<le> unat (verbosity L)")
  case False
  with assms(1) show ?thesis by (simp add: text_handler_process_def)
next
  case True
  from assms(1) obtain cs where cs: "stdout L = out @ cs" "last_line [] cs = text_buf L"
    "replay [] cs @ replicate (unat (text_cnt L)) (text_buf L) = ls" by (auto simp: text_sound_def)
  show ?thesis
  proof (cases "text_buf L = mt_text m")
    case eq: True
    have "unat (text_cnt L) \<le> length ls" unfolding cs(3) [symmetric] by simp
    with assms(2) have "unat (text_cnt L) < 2 ^ 32 - 1" by linarith
    from replay_last_repeat [OF this, of "mt_text m"] True eq assms(3) cs
    show ?thesis by (auto simp: text_sound_def text_handler_process_def intro!: exI [of _ cs])
  next
    case neq: False
    let ?cs = "cs @ (if text_cnt L > 0 then [Repeated (text_cnt L)] else []) @ [Message m]"
    have r: "replay [] ?cs = ls @ [mt_text m]" "last_line [] ?cs = mt_text m"
      using cs(2,3) assms(3)
      by (auto simp: replay_snoc append_assoc [symmetric] word_gt_0 simp del: append_assoc)
    have t: "take TEXT_BUFFER_SIZE (mt_text m) = mt_text m" using assms(4) by simp
    have "stdout (text_handler_process m L) = out @ ?cs"
      "text_cnt (text_handler_process m L) = 0" "text_buf (text_handler_process m L) = mt_text m"
      using True neq assms(3) cs(1)
      by (simp_all add: text_handler_process_def put_chunk_def Let_def t)
    with r True show ?thesis unfolding text_sound_def by (intro exI [of _ ?cs]) simp
  qed
qed

lemma text_handler_frame [simp]:
  "handlers (text_handler_process m L) = handlers L" "initialized (text_handler_process m L) = initialized L"
  "verbosity (text_handler_process m L) = verbosity L" "oper_rank (text_handler_process m L) = oper_rank L"
  "oper_percentile (text_handler_process m L) = oper_percentile L"
  "log_timers (text_handler_process m L) = log_timers L"
  by (simp_all add: text_handler_process_def put_chunk_def Let_def)

text \<open>A logger as \<open>log_register\<close> and \<open>log_init\<close> leave it.\<close>

definition log_ready :: "logger \<Rightarrow> bool" where
  "log_ready L \<longleftrightarrow> initialized L \<and> handlers L LOG_MSG_TYPE_TEXT = [text_handler] \<and>
     handlers L LOG_MSG_TYPE_OPER = [oper_handler]"

lemma log_text_ready:
  "log_ready L \<Longrightarrow> log_text p txt L =
     Some (text_handler_process \<lparr>mt_priority = p, mt_text = buffer_line [] txt, mt_flags = 0\<rparr> L)"
  by (simp add: log_ready_def log_text_def send_text_def)

lemma log_ready_frame [simp]: "log_ready (text_handler_process m L) \<longleftrightarrow> log_ready L"
  by (simp add: log_ready_def)

lemma log_all_frame:
  "log_ready L \<Longrightarrow> \<exists>L'. log_all ms L = Some L' \<and> log_ready L' \<and> handlers L' = handlers L \<and>
     verbosity L' = verbosity L \<and> oper_rank L' = oper_rank L \<and>
     oper_percentile L' = oper_percentile L \<and> log_timers L' = log_timers L"
proof (induction ms arbitrary: L)
  case (Cons m ms)
  obtain p tx where m: "m = (p, tx)" by fastforce
  let ?L = "text_handler_process \<lparr>mt_priority = p, mt_text = buffer_line [] tx, mt_flags = 0\<rparr> L"
  from Cons.IH [of ?L] Cons.prems show ?case by (simp add: m log_text_ready)
qed simp

lemma buffer_line_short: "length (buffer_line [] txt) < TEXT_BUFFER_SIZE"
  by (simp add: buffer_line_cases TEXT_BUFFER_SIZE_def)

lemma log_all_sound:
  assumes "log_ready L" and "text_sound out ls L" and "length ls + length ms < 2 ^ 32"
  shows "\<exists>L'. log_all ms L = Some L' \<and>
     text_sound out (ls @ map (\<lambda>(p, txt). buffer_line [] txt)
       (filter (\<lambda>(p, _). priority_num p \<le> unat (verbosity L)) ms)) L'"
  using assms
proof (induction ms arbitrary: L ls)
  case (Cons m ms)
  obtain p tx where m: "m = (p, tx)" by fastforce
  let ?m = "\<lparr>mt_priority = p, mt_text = buffer_line [] tx, mt_flags = 0\<rparr> :: log_msg_text"
  let ?L = "text_handler_process ?m L"
  let ?ls = "if priority_num p \<le> unat (verbosity L) then ls @ [buffer_line [] tx] else ls"
  have c: "checks_duplicates ?m" by (simp add: checks_duplicates_def LOG_MSG_TEXT_ALLOW_DUPLICATES_def)
  have l: "length ls < 2 ^ 32 - 1" using Cons.prems(3) by simp
  have s: "text_sound out ?ls ?L"
    using text_sound_step [OF Cons.prems(2) l c] buffer_line_short [of tx] by (simp split: if_splits)
  have n: "length ?ls + length ms < 2 ^ 32" using Cons.prems(3) by simp
  have "log_ready ?L" using Cons.prems(1) by simp
  from Cons.IH [OF this s n] Cons.prems(1) show ?case
    by (cases "priority_num p \<le> unat (verbosity L)") (simp_all add: m log_text_ready)
qed simp

section \<open>Events and the report\<close>

lemma timer_stats_mset: "mset xs = mset ys \<Longrightarrow> timer_stats t xs \<longleftrightarrow> timer_stats t ys"
proof -
  assume m: "mset xs = mset ys"
  then have "sum_list xs = sum_list ys" by (metis sum_mset_sum_list)
  moreover have "fold min xs = fold min ys" "fold max xs = fold max ys"
    by (rule fold_multiset_equiv; simp add: m fun_eq_iff ac_simps)+
  ultimately show ?thesis using mset_eq_length [OF m] by (simp add: timer_stats_def)
qed

lemma hist_of_mset: "mset xs = mset ys \<Longrightarrow> hist_of p xs \<longleftrightarrow> hist_of p ys"
proof -
  assume m: "mset xs = mset ys"
  then have "length (filter P xs) = length (filter P ys)" for P by (metis mset_filter size_mset)
  then show ?thesis using mset_eq_length [OF m] by (simp add: hist_of_def)
qed

lemma mset_concat_update:
  "i < length xss \<Longrightarrow> mset (concat (xss[i := xss ! i @ ys])) = mset (concat xss @ ys)"
proof (induction xss arbitrary: i)
  case (Cons xs xss)
  then show ?case by (cases i) simp_all
qed simp

text \<open>
  The specification of the operation messages: per thread the start of its last operation, the time
  that its event spent in the queue and whether an operation is running; the durations of the operations
  that ended since the last report, and those of them that the histogram has got.
\<close>

record oper_spec =
  sp_start :: "nat \<Rightarrow> timespec"
  sp_queue :: "nat \<Rightarrow> u64"
  sp_run :: "nat \<Rightarrow> bool"
  sp_done :: "u64 list"
  sp_rec :: "u64 list"

definition sample :: "u64 \<Rightarrow> real" where "sample v = of_int (sint v)"

definition oper_timers :: "'a oper_spec_scheme \<Rightarrow> sb_timer list \<Rightarrow> bool" where
  "oper_timers a ts \<longleftrightarrow>
     (\<forall>i < length ts. sb_timer_initialized (ts ! i) \<and> queue_time (ts ! i) = sp_queue a i \<and>
        time_start (ts ! i) = sp_start a i \<and> (sb_timer_running (ts ! i) \<longleftrightarrow> sp_run a i))"

definition timers_cover :: "sb_timer list \<Rightarrow> u64 list \<Rightarrow> bool" where
  "timers_cover ts ds \<longleftrightarrow> (\<exists>xss. list_all2 timer_stats ts xss \<and> mset (concat xss) = mset ds)"

definition oper_holds :: "'a oper_spec_scheme \<Rightarrow> logger \<Rightarrow> bool" where
  "oper_holds a L \<longleftrightarrow>
     log_ready L \<and> oper_timers a (log_timers L) \<and> timers_cover (log_timers L) (sp_done a) \<and>
     hist_of (oper_percentile L) (map sample (sp_rec a))"

definition oper_none :: oper_spec where
  "oper_none = \<lparr>sp_start = (\<lambda>_. zero_timespec), sp_queue = (\<lambda>_. 0), sp_run = (\<lambda>_. False),
     sp_done = [], sp_rec = []\<rparr>"

definition spec_begin :: "nat \<Rightarrow> timespec \<Rightarrow> 'a oper_spec_scheme \<Rightarrow> 'a oper_spec_scheme" where
  "spec_begin i now a = a\<lparr>sp_start := (sp_start a)(i := now), sp_run := (sp_run a)(i := True)\<rparr>"

definition spec_duration :: "nat \<Rightarrow> timespec \<Rightarrow> 'a oper_spec_scheme \<Rightarrow> u64" where
  "spec_duration i now a = TIMESPEC_DIFF now (sp_start a i) + sp_queue a i"

definition spec_end :: "nat \<Rightarrow> timespec \<Rightarrow> 'a oper_spec_scheme \<Rightarrow> 'a oper_spec_scheme" where
  "spec_end i now a =
     a\<lparr>sp_run := (sp_run a)(i := False), sp_done := sp_done a @ [spec_duration i now a]\<rparr>"

lemma start_facts:
  assumes "sb_timer_initialized t"
  shows "\<exists>t' msgs. sb_timer_start now t = Some (t', msgs) \<and> sb_timer_initialized t' \<and> sb_timer_running t' \<and>
           queue_time t' = queue_time t \<and> time_start t' = now \<and> (\<forall>xs. timer_stats t' xs \<longleftrightarrow> timer_stats t xs)"
  using assms timer_stats_start [of now t]
  by (cases "timer_state t")
    (auto simp: sb_timer_start_def sb_timer_initialized_def sb_timer_running_def Let_def)

lemma stop_facts:
  assumes "sb_timer_initialized t"
  shows "\<exists>t' msgs. sb_timer_stop now t = Some (t', msgs) \<and> sb_timer_initialized t' \<and> \<not> sb_timer_running t' \<and>
           queue_time t' = queue_time t \<and> time_start t' = time_start t \<and>
           sb_timer_value now t' = Some (TIMESPEC_DIFF now (time_start t) + queue_time t, t', []) \<and>
           (\<forall>xs. timer_stats t xs \<longrightarrow> timer_stats t' (xs @ [TIMESPEC_DIFF now (time_start t) + queue_time t]))"
proof -
  have "sb_timer_stop now t \<noteq> None" using assms(1)
    by (auto simp: sb_timer_stop_def sb_timer_initialized_def Let_def sb_timer_update_def
        split: timer_state.splits if_splits)
  then obtain t' msgs where s: "sb_timer_stop now t = Some (t', msgs)" by auto
  then have "timer_state t' = TIMER_STOPPED" "queue_time t' = queue_time t" "time_start t' = time_start t"
    "elapsed t' = TIMESPEC_DIFF now (time_start t) + queue_time t"
    by (auto simp: sb_timer_stop_def Let_def sb_timer_update_def split: timer_state.splits if_splits)
  with s timer_stats_stop [OF s] show ?thesis
    by (simp add: sb_timer_value_def sb_timer_initialized_def sb_timer_running_def)
qed

lemma timers_cover_update:
  assumes "timers_cover ts ds" and "i < length ts" and "\<And>xs. timer_stats (ts ! i) xs \<Longrightarrow> timer_stats t (xs @ d)"
  shows "timers_cover (ts[i := t]) (ds @ d)"
proof -
  from assms(1) obtain xss where xss: "list_all2 timer_stats ts xss" "mset (concat xss) = mset ds"
    by (auto simp: timers_cover_def)
  have len: "length xss = length ts" using xss(1) by (simp add: list_all2_lengthD)
  have "list_all2 timer_stats (ts[i := t]) (xss[i := xss ! i @ d])"
    using xss(1) assms(2,3) by (auto simp: list_all2_conv_all_nth nth_list_update)
  moreover have "mset (concat (xss[i := xss ! i @ d])) = mset (ds @ d)"
    using mset_concat_update [of i xss d] xss(2) assms(2) len by simp
  ultimately show ?thesis by (auto simp: timers_cover_def)
qed

lemma locked_start:
  assumes "oper_holds a L" and "i < length (log_timers L)"
  shows "\<exists>L'. oper_locked now \<lparr>mo_action = LOG_MSG_OPER_START, mo_thread = int i\<rparr> L = Some (None, L') \<and>
           oper_holds (spec_begin i now a) L' \<and>
           length (log_timers L') = length (log_timers L) \<and> oper_rank L' = oper_rank L"
proof -
  let ?ts = "log_timers L"
  from assms have r: "log_ready L" and h: "hist_of (oper_percentile L) (map sample (sp_rec a))"
    and t: "oper_timers a ?ts" and c: "timers_cover ?ts (sp_done a)"
    by (auto simp: oper_holds_def)
  have ini: "sb_timer_initialized (?ts ! i)" using t assms(2) by (simp add: oper_timers_def)
  obtain t' msgs where s: "sb_timer_start now (?ts ! i) = Some (t', msgs)" "sb_timer_initialized t'"
    "sb_timer_running t'" "queue_time t' = queue_time (?ts ! i)" "time_start t' = now"
    "\<And>xs. timer_stats t' xs \<longleftrightarrow> timer_stats (?ts ! i) xs"
    using start_facts [OF ini] by blast
  have "timers_cover (?ts[i := t']) (sp_done a)"
    using timers_cover_update [OF c assms(2), of t' "[]"] s(6) by simp
  moreover have "oper_timers (spec_begin i now a) (?ts[i := t'])"
    using t s(2-5) assms(2) by (auto simp: oper_timers_def spec_begin_def nth_list_update)
  moreover obtain L' where "log_all msgs (L\<lparr>log_timers := ?ts[i := t']\<rparr>) = Some L'" "log_ready L'"
    "oper_percentile L' = oper_percentile L" "log_timers L' = ?ts[i := t']" "oper_rank L' = oper_rank L"
    using log_all_frame [of "L\<lparr>log_timers := ?ts[i := t']\<rparr>" msgs] r by (auto simp: log_ready_def)
  ultimately show ?thesis
    using assms(2) s(1) h by (auto simp: oper_locked_def Let_def oper_holds_def spec_begin_def)
qed

lemma locked_stop:
  assumes "oper_holds a L" and "i < length (log_timers L)"
  shows "\<exists>L'. oper_locked now \<lparr>mo_action = LOG_MSG_OPER_STOP, mo_thread = int i\<rparr> L
             = Some (Some (spec_duration i now a), L') \<and> oper_holds (spec_end i now a) L' \<and>
           length (log_timers L') = length (log_timers L) \<and> oper_rank L' = oper_rank L"
proof -
  let ?ts = "log_timers L" let ?d = "spec_duration i now a"
  from assms have r: "log_ready L" and h: "hist_of (oper_percentile L) (map sample (sp_rec a))"
    and t: "oper_timers a ?ts" and c: "timers_cover ?ts (sp_done a)"
    by (auto simp: oper_holds_def)
  have ini: "sb_timer_initialized (?ts ! i)" "TIMESPEC_DIFF now (time_start (?ts ! i)) + queue_time (?ts ! i) = ?d"
    using t assms(2) by (simp_all add: oper_timers_def spec_duration_def)
  obtain t' msgs where s: "sb_timer_stop now (?ts ! i) = Some (t', msgs)" "sb_timer_initialized t'"
    "\<not> sb_timer_running t'" "queue_time t' = queue_time (?ts ! i)" "time_start t' = time_start (?ts ! i)"
    "sb_timer_value now t' = Some (?d, t', [])"
    "\<And>xs. timer_stats (?ts ! i) xs \<Longrightarrow> timer_stats t' (xs @ [?d])"
    using stop_facts [OF ini(1), of now] unfolding ini(2) by blast
  have "timers_cover (?ts[i := t']) (sp_done a @ [?d])"
    by (rule timers_cover_update [OF c assms(2) s(7)])
  moreover have "oper_timers (spec_end i now a) (?ts[i := t'])"
    using t s(2-5) assms(2) by (auto simp: oper_timers_def spec_end_def nth_list_update)
  moreover obtain L' where "log_all msgs (L\<lparr>log_timers := ?ts[i := t']\<rparr>) = Some L'" "log_ready L'"
    "oper_percentile L' = oper_percentile L" "log_timers L' = ?ts[i := t']" "oper_rank L' = oper_rank L"
    using log_all_frame [of "L\<lparr>log_timers := ?ts[i := t']\<rparr>" msgs] r by (auto simp: log_ready_def)
  ultimately show ?thesis
    using assms(2) s(1,6) h by (auto simp: oper_locked_def Let_def oper_holds_def spec_end_def)
qed

lemma record_holds:
  assumes "oper_holds a L"
  shows "\<exists>L'. oper_record v L = Some L' \<and> oper_holds (a\<lparr>sp_rec := sp_rec a @ [v]\<rparr>) L' \<and>
           log_timers L' = log_timers L \<and> oper_rank L' = oper_rank L"
proof -
  have h: "hist_of (oper_percentile L) (map sample (sp_rec a))" using assms by (simp add: oper_holds_def)
  obtain p' where p': "sb_percentile_update (oper_percentile L) (sample v) = Some p'"
    "hist_of p' (map sample (sp_rec a @ [v]))"
    using update_step [OF h, of "sample v"] by (metis list.map(1) list.map(2) map_append)
  have "oper_holds (a\<lparr>sp_rec := sp_rec a @ [v]\<rparr>) (L\<lparr>oper_percentile := p'\<rparr>)"
    using assms p'(2) by (simp add: oper_holds_def log_ready_def oper_timers_def)
  then show ?thesis using p'(1) by (simp add: oper_record_def sample_def)
qed

text \<open>The whole messages, as one thread sends them.\<close>

lemma oper_start:
  assumes "oper_holds a L" and "i < length (log_timers L)"
  shows "\<exists>L'. LOG_EVENT_START now (int i) L = Some L' \<and> oper_holds (spec_begin i now a) L' \<and>
           length (log_timers L') = length (log_timers L) \<and> oper_rank L' = oper_rank L"
proof -
  have "log_ready L" using assms(1) by (simp add: oper_holds_def)
  with locked_start [OF assms, of now] show ?thesis
    by (auto simp: LOG_EVENT_START_def log_msg_def log_ready_def oper_handler_process_def)
qed

lemma oper_stop:
  fixes now :: timespec
  assumes "oper_holds a L" and "i < length (log_timers L)"
  defines "v \<equiv> spec_duration i now a"
  shows "\<exists>L'. LOG_EVENT_STOP now (int i) L = Some L' \<and>
           oper_holds ((spec_end i now a)\<lparr>sp_rec := sp_rec a @ [v]\<rparr>) L' \<and>
           length (log_timers L') = length (log_timers L) \<and> oper_rank L' = oper_rank L"
proof -
  obtain L1 where L1: "oper_locked now \<lparr>mo_action = LOG_MSG_OPER_STOP, mo_thread = int i\<rparr> L = Some (Some v, L1)"
    "oper_holds (spec_end i now a) L1" "length (log_timers L1) = length (log_timers L)" "oper_rank L1 = oper_rank L"
    using locked_stop [OF assms(1,2), of now] unfolding v_def by blast
  have "log_ready L" using assms(1) by (simp add: oper_holds_def)
  with L1 record_holds [OF L1(2), of v] show ?thesis
    by (auto simp: LOG_EVENT_STOP_def log_msg_def log_ready_def oper_handler_process_def spec_end_def)
qed

text \<open>
  The steps that threads make on the logger's statistics: a worker notes the time that its event
  spent in the queue, sends the start or the stop of an operation (the part under \<open>timers_mutex\<close>), and, still inside the
  stop message, updates the histogram; the reporting thread takes the copy, reads the percentile and
  resets the histogram.
\<close>

datatype oper_act =
  QueueTime nat u64 | Begin nat timespec | End nat timespec | Record nat
| Copy timespec | Calculate | Reset

text \<open>The value that a thread still has to give to the histogram, and the variables of the reporting
  thread.\<close>

record oper_sys =
  os_log :: logger
  os_cum :: sb_timer
  os_pend :: "nat \<Rightarrow> u64 option"
  os_copy :: "sb_timer list"
  os_total :: u64
  os_pct :: real

fun oper_act_run :: "oper_act \<Rightarrow> oper_sys \<Rightarrow> oper_sys option" where
  "oper_act_run (QueueTime i v) s =
     Some (s\<lparr>os_log := (os_log s)\<lparr>log_timers :=
       (log_timers (os_log s))[i := (log_timers (os_log s) ! i)\<lparr>queue_time := v\<rparr>]\<rparr>\<rparr>)"
| "oper_act_run (Begin i now) s =
     map_option (\<lambda>(_, L). s\<lparr>os_log := L\<rparr>)
       (oper_locked now \<lparr>mo_action = LOG_MSG_OPER_START, mo_thread = int i\<rparr> (os_log s))"
| "oper_act_run (End i now) s =
     map_option (\<lambda>(v, L). s\<lparr>os_log := L, os_pend := (os_pend s)(i := v)\<rparr>)
       (oper_locked now \<lparr>mo_action = LOG_MSG_OPER_STOP, mo_thread = int i\<rparr> (os_log s))"
| "oper_act_run (Record i) s =
     (case os_pend s i of
        None \<Rightarrow> None
      | Some v \<Rightarrow> map_option (\<lambda>L. s\<lparr>os_log := L, os_pend := (os_pend s)(i := None)\<rparr>) (oper_record v (os_log s)))"
| "oper_act_run (Copy now) s =
     map_option (\<lambda>(copies, total, ct, L). s\<lparr>os_log := L, os_cum := ct, os_copy := copies, os_total := total\<rparr>)
       (report_copy now (os_cum s) (os_log s))"
| "oper_act_run Calculate s =
     map_option (\<lambda>(pct, L). s\<lparr>os_log := L, os_pct := pct\<rparr>) (report_percentile (os_log s))"
| "oper_act_run Reset s = Some (s\<lparr>os_log := report_reset (os_log s)\<rparr>)"

fun oper_run :: "oper_act list \<Rightarrow> oper_sys \<Rightarrow> oper_sys option" where
  "oper_run [] s = Some s"
| "oper_run (x # xs) s = (case oper_act_run x s of None \<Rightarrow> None | Some s \<Rightarrow> oper_run xs s)"

text \<open>
  The specification of these steps. \<open>sp_taken\<close> are the durations that a report covers, \<open>sp_open\<close> start and queue time of the operations
  that are running when it is taken, and \<open>sp_read\<close> the durations from which its percentile is read.
  A thread that has still to update the histogram makes no other step, and while the reporting thread
  holds \<open>timers_mutex\<close> nobody else starts or stops an operation.
\<close>

datatype report_phase = Idle | Copied | Calculated | Taken

record report_spec = oper_spec +
  sp_pend :: "nat \<Rightarrow> u64 option"
  sp_phase :: report_phase
  sp_taken :: "u64 list"
  sp_open :: "(timespec \<times> u64) list"
  sp_read :: "u64 list"

definition open_opers :: "nat \<Rightarrow> 'a oper_spec_scheme \<Rightarrow> (timespec \<times> u64) list" where
  "open_opers n a = map (\<lambda>i. (sp_start a i, sp_queue a i)) (filter (sp_run a) [0..<n])"

fun spec_act :: "nat \<Rightarrow> oper_act \<Rightarrow> report_spec \<Rightarrow> report_spec" where
  "spec_act n (QueueTime i v) a = a\<lparr>sp_queue := (sp_queue a)(i := v)\<rparr>"
| "spec_act n (Begin i now) a = spec_begin i now a"
| "spec_act n (End i now) a = (spec_end i now a)\<lparr>sp_pend := (sp_pend a)(i := Some (spec_duration i now a))\<rparr>"
| "spec_act n (Record i) a = a\<lparr>sp_rec := sp_rec a @ [the (sp_pend a i)], sp_pend := (sp_pend a)(i := None)\<rparr>"
| "spec_act n (Copy now) a =
     a\<lparr>sp_taken := sp_done a, sp_open := open_opers n a, sp_phase := Copied,
       sp_done := [], sp_queue := (\<lambda>_. 0)\<rparr>"
| "spec_act n Calculate a = a\<lparr>sp_read := sp_rec a, sp_phase := Calculated\<rparr>"
| "spec_act n Reset a = a\<lparr>sp_rec := [], sp_phase := Taken\<rparr>"

fun act_legal :: "nat \<Rightarrow> oper_act \<Rightarrow> report_spec \<Rightarrow> bool" where
  "act_legal n (QueueTime i v) a \<longleftrightarrow> i < n \<and> sp_pend a i = None"
| "act_legal n (Begin i now) a \<longleftrightarrow> i < n \<and> sp_pend a i = None \<and> sp_phase a \<in> {Idle, Taken}"
| "act_legal n (End i now) a \<longleftrightarrow> i < n \<and> sp_pend a i = None \<and> sp_phase a \<in> {Idle, Taken}"
| "act_legal n (Record i) a \<longleftrightarrow> i < n \<and> sp_pend a i \<noteq> None"
| "act_legal n (Copy now) a \<longleftrightarrow> sp_phase a \<in> {Idle, Taken}"
| "act_legal n Calculate a \<longleftrightarrow> sp_phase a = Copied"
| "act_legal n Reset a \<longleftrightarrow> sp_phase a = Calculated"

fun spec_run :: "nat \<Rightarrow> oper_act list \<Rightarrow> report_spec \<Rightarrow> report_spec" where
  "spec_run n [] a = a"
| "spec_run n (x # xs) a = spec_run n xs (spec_act n x a)"

fun run_legal :: "nat \<Rightarrow> oper_act list \<Rightarrow> report_spec \<Rightarrow> bool" where
  "run_legal n [] a \<longleftrightarrow> True"
| "run_legal n (x # xs) a \<longleftrightarrow> act_legal n x a \<and> run_legal n xs (spec_act n x a)"

text \<open>The copy of the timers covers the durations \<open>ds\<close>, and its running timers are those of \<open>os\<close>.\<close>

definition copy_holds :: "sb_timer list \<Rightarrow> u64 list \<Rightarrow> (timespec \<times> u64) list \<Rightarrow> bool" where
  "copy_holds ts ds os \<longleftrightarrow>
     timers_cover ts ds \<and> os = map (\<lambda>t. (time_start t, queue_time t)) (filter sb_timer_running ts)"

definition pct_read :: "u32 \<Rightarrow> u64 list \<Rightarrow> real \<Rightarrow> bool" where
  "pct_read pct_rank vs v \<longleftrightarrow>
     (\<exists>p p'. hist_of p (map sample vs) \<and> sb_percentile_calculate p (real (unat pct_rank)) = Some (v, p'))"

definition oper_refines :: "nat \<Rightarrow> u32 \<Rightarrow> report_spec \<Rightarrow> oper_sys \<Rightarrow> bool" where
  "oper_refines n pct_rank a s \<longleftrightarrow>
     oper_holds a (os_log s) \<and> length (log_timers (os_log s)) = n \<and> oper_rank (os_log s) = pct_rank \<and>
     sb_timer_initialized (os_cum s) \<and> os_pend s = sp_pend a \<and>
     (sp_phase a \<noteq> Idle \<longrightarrow> copy_holds (os_copy s) (sp_taken a) (sp_open a)) \<and>
     (sp_phase a \<in> {Calculated, Taken} \<longrightarrow> pct_read pct_rank (sp_read a) (os_pct s))"

lemma calculate_keeps:
  assumes "sb_percentile_calculate p q = Some (v, p')" and "hist_of p xs"
  shows "hist_of p' xs"
proof -
  have "percentile_wf p" using assms(2) by (simp add: hist_of_def)
  then have "p' = p \<or> p' = p\<lparr>pc_tmp := pc_values p\<rparr>"
    using assms(1) by (auto simp: sb_percentile_calculate_def percentile_wf_def Let_def
        split: option.splits if_splits)
  then show ?thesis
    using assms(2) same_scale_simps [of p' p]
    by (auto simp: hist_of_def percentile_wf_def same_scale_def nearest_def)
qed

lemma copy_holds_timers:
  assumes "oper_timers a ts" and "timers_cover ts (sp_done a)"
  shows "copy_holds ts (sp_done a) (open_opers (length ts) a)"
proof -
  have "filter sb_timer_running ts = map ((!) ts) (filter (sp_run a) [0..<length ts])"
  proof -
    have "filter sb_timer_running ts = filter sb_timer_running (map ((!) ts) [0..<length ts])"
      by (simp add: map_nth)
    also have "\<dots> = map ((!) ts) (filter (\<lambda>i. sb_timer_running (ts ! i)) [0..<length ts])"
      by (simp add: filter_map o_def)
    also have "filter (\<lambda>i. sb_timer_running (ts ! i)) [0..<length ts] = filter (sp_run a) [0..<length ts]"
      using assms(1) by (intro filter_cong) (auto simp: oper_timers_def)
    finally show ?thesis .
  qed
  then have "map (\<lambda>t. (time_start t, queue_time t)) (filter sb_timer_running ts) = open_opers (length ts) a"
    using assms(1) by (auto simp: open_opers_def oper_timers_def)
  with assms(2) show ?thesis by (simp add: copy_holds_def)
qed

lemma copy_step:
  assumes "oper_holds a L" and "sb_timer_initialized ct"
  shows "\<exists>total ct' L'. report_copy now ct L = Some (log_timers L, total, ct', L') \<and>
           oper_holds (a\<lparr>sp_done := [], sp_queue := (\<lambda>_. 0)\<rparr>) L' \<and> sb_timer_initialized ct' \<and>
           length (log_timers L') = length (log_timers L) \<and> oper_rank L' = oper_rank L"
proof -
  let ?ts = "log_timers L"
  obtain ns ct' msgs where sp: "sb_timer_split now ct = Some (ns, ct', msgs)"
    using split_defined [OF assms(2)] by blast
  then have ct': "sb_timer_initialized ct'"
    by (auto simp: sb_timer_split_def sb_timer_initialized_def sb_timer_update_def Let_def
        split: timer_state.splits if_splits)
  have r0: "log_ready (L\<lparr>log_timers := map sb_timer_reset ?ts\<rparr>)"
    using assms(1) by (simp add: oper_holds_def log_ready_def)
  obtain L' where L': "log_all msgs (L\<lparr>log_timers := map sb_timer_reset ?ts\<rparr>) = Some L'" "log_ready L'"
    "oper_rank L' = oper_rank L" "oper_percentile L' = oper_percentile L" "log_timers L' = map sb_timer_reset ?ts"
    using log_all_frame [OF r0, of msgs] by auto
  have "list_all2 timer_stats (map sb_timer_reset ?ts) (map (\<lambda>_. []) ?ts)"
    by (simp add: list_all2_conv_all_nth timer_stats_reset)
  then have "timers_cover (map sb_timer_reset ?ts) []"
    unfolding timers_cover_def by (intro exI [of _ "map (\<lambda>_. []) ?ts"]) simp
  moreover have "oper_timers (a\<lparr>sp_done := [], sp_queue := (\<lambda>_. 0)\<rparr>) (map sb_timer_reset ?ts)"
    using assms(1) by (simp add: oper_holds_def oper_timers_def sb_timer_reset_def sb_timer_initialized_def
        sb_timer_running_def)
  ultimately have "oper_holds (a\<lparr>sp_done := [], sp_queue := (\<lambda>_. 0)\<rparr>) L'"
    using L' assms(1) by (simp add: oper_holds_def)
  with L' sp ct' show ?thesis by (simp add: report_copy_def Let_def)
qed

lemma percentile_step:
  assumes "oper_holds a L" and "unat (oper_rank L) \<le> 100" and "length (sp_rec a) < 2 ^ 64"
  shows "\<exists>v L'. report_percentile L = Some (v, L') \<and> pct_read (oper_rank L) (sp_rec a) v \<and>
           oper_holds a L' \<and> log_timers L' = log_timers L \<and> oper_rank L' = oper_rank L"
proof -
  have h: "hist_of (oper_percentile L) (map sample (sp_rec a))" using assms(1) by (simp add: oper_holds_def)
  obtain v p' where p': "sb_percentile_calculate (oper_percentile L) (real (unat (oper_rank L))) = Some (v, p')"
    using calculate_defined [OF h, of "real (unat (oper_rank L))"] assms(2,3) by auto
  then have "oper_holds a (L\<lparr>oper_percentile := p'\<rparr>)"
    using assms(1) calculate_keeps [OF p' h] by (simp add: oper_holds_def log_ready_def)
  moreover have "pct_read (oper_rank L) (sp_rec a) v" using h p' by (auto simp: pct_read_def)
  ultimately show ?thesis using p' by (simp add: report_percentile_def)
qed

lemma reset_step: "oper_holds a L \<Longrightarrow> oper_holds (a\<lparr>sp_rec := []\<rparr>) (report_reset L)"
  by (auto simp: oper_holds_def report_reset_def log_ready_def oper_timers_def hist_of_reset hist_of_def [of "oper_percentile L"])

lemma queue_step:
  assumes "oper_holds a L" and "i < length (log_timers L)"
  shows "oper_holds (a\<lparr>sp_queue := (sp_queue a)(i := v)\<rparr>)
           (L\<lparr>log_timers := (log_timers L)[i := (log_timers L ! i)\<lparr>queue_time := v\<rparr>]\<rparr>)"
proof -
  let ?ts = "log_timers L" let ?t = "(log_timers L ! i)\<lparr>queue_time := v\<rparr>"
  have "timers_cover ?ts (sp_done a)" using assms(1) by (simp add: oper_holds_def)
  from timers_cover_update [OF this assms(2), of ?t "[]"] have "timers_cover (?ts[i := ?t]) (sp_done a)"
    by (simp add: timer_stats_def)
  moreover have "oper_timers (a\<lparr>sp_queue := (sp_queue a)(i := v)\<rparr>) (?ts[i := ?t])"
    using assms by (auto simp: oper_holds_def oper_timers_def nth_list_update sb_timer_initialized_def
        sb_timer_running_def)
  ultimately show ?thesis using assms(1) by (simp add: oper_holds_def log_ready_def)
qed

text \<open>Every legal step of the logger succeeds and does what the specification says.\<close>

lemma oper_holds_more [simp]:
  "oper_holds (a\<lparr>sp_pend := x\<rparr>) L = oper_holds a L" "oper_holds (a\<lparr>sp_phase := y\<rparr>) L = oper_holds a L"
  "oper_holds (a\<lparr>sp_taken := z\<rparr>) L = oper_holds a L" "oper_holds (a\<lparr>sp_open := u\<rparr>) L = oper_holds a L"
  "oper_holds (a\<lparr>sp_read := w\<rparr>) L = oper_holds a L"
  by (simp_all add: oper_holds_def oper_timers_def)

lemma act_refines:
  assumes ref: "oper_refines n k a s" and leg: "act_legal n x a" and k: "unat k \<le> 100"
    and rec: "length (sp_rec a) < 2 ^ 64"
  shows "\<exists>s'. oper_act_run x s = Some s' \<and> oper_refines n k (spec_act n x a) s'"
proof -
  have h: "oper_holds a (os_log s)" "length (log_timers (os_log s)) = n" "oper_rank (os_log s) = k"
    "sb_timer_initialized (os_cum s)" "os_pend s = sp_pend a"
    using ref by (simp_all add: oper_refines_def)
  show ?thesis
  proof (cases x)
    case (QueueTime i v)
    with leg h queue_step [OF h(1), of i v] ref show ?thesis by (simp add: oper_refines_def)
  next
    case (Begin i now)
    with leg h(2) obtain L' where "oper_locked now \<lparr>mo_action = LOG_MSG_OPER_START, mo_thread = int i\<rparr> (os_log s)
        = Some (None, L')" "oper_holds (spec_begin i now a) L'" "length (log_timers L') = n" "oper_rank L' = k"
      using locked_start [OF h(1), of i now] h(3) by auto
    with Begin h ref show ?thesis by (simp add: oper_refines_def spec_begin_def)
  next
    case (End i now)
    with leg h(2) obtain L' where "oper_locked now \<lparr>mo_action = LOG_MSG_OPER_STOP, mo_thread = int i\<rparr> (os_log s)
        = Some (Some (spec_duration i now a), L')" "oper_holds (spec_end i now a) L'"
        "length (log_timers L') = n" "oper_rank L' = k"
      using locked_stop [OF h(1), of i now] h(3) by auto
    with End h ref show ?thesis by (simp add: oper_refines_def spec_end_def)
  next
    case (Record i)
    with leg obtain v where v: "sp_pend a i = Some v" by auto
    obtain L' where "oper_record v (os_log s) = Some L'" "oper_holds (a\<lparr>sp_rec := sp_rec a @ [v]\<rparr>) L'"
      "log_timers L' = log_timers (os_log s)" "oper_rank L' = oper_rank (os_log s)"
      using record_holds [OF h(1), of v] by blast
    with Record v h ref show ?thesis by (simp add: oper_refines_def)
  next
    case (Copy now)
    obtain total ct' L' where c: "report_copy now (os_cum s) (os_log s) = Some (log_timers (os_log s), total, ct', L')"
      "oper_holds (a\<lparr>sp_done := [], sp_queue := (\<lambda>_. 0)\<rparr>) L'" "sb_timer_initialized ct'"
      "length (log_timers L') = length (log_timers (os_log s))" "oper_rank L' = oper_rank (os_log s)"
      using copy_step [OF h(1,4), of now] by blast
    have "copy_holds (log_timers (os_log s)) (sp_done a) (open_opers n a)"
      using copy_holds_timers [of a "log_timers (os_log s)"] h(1,2) by (simp add: oper_holds_def)
    moreover have "oper_holds (spec_act n x a) L'" using c(2) Copy by (simp add: oper_holds_def oper_timers_def)
    ultimately show ?thesis using Copy c h by (simp add: oper_refines_def)
  next
    case Calculate
    obtain v L' where c: "report_percentile (os_log s) = Some (v, L')" "pct_read k (sp_rec a) v" "oper_holds a L'"
      "log_timers L' = log_timers (os_log s)" "oper_rank L' = k"
      using percentile_step [OF h(1)] h(3) k rec by auto
    with Calculate leg h ref show ?thesis by (simp add: oper_refines_def)
  next
    case Reset
    have "log_timers (report_reset L) = log_timers L" "oper_rank (report_reset L) = oper_rank L" for L
      by (simp_all add: report_reset_def)
    with Reset leg h ref reset_step [OF h(1)] show ?thesis by (simp add: oper_refines_def)
  qed
qed

lemma spec_act_rec: "length (sp_rec (spec_act n x a)) \<le> Suc (length (sp_rec a))"
  by (cases x) (simp_all add: spec_begin_def spec_end_def)

lemma run_refines:
  "oper_refines n k a s \<Longrightarrow> run_legal n xs a \<Longrightarrow> unat k \<le> 100 \<Longrightarrow> length (sp_rec a) + length xs < 2 ^ 64 \<Longrightarrow>
     \<exists>s'. oper_run xs s = Some s' \<and> oper_refines n k (spec_run n xs a) s'"
proof (induction xs arbitrary: a s)
  case (Cons x xs)
  then obtain s1 where s1: "oper_act_run x s = Some s1" "oper_refines n k (spec_act n x a) s1"
    using act_refines [of n k a s x] by auto
  have "length (sp_rec (spec_act n x a)) + length xs < 2 ^ 64"
    using spec_act_rec [of n x a] Cons.prems(4) by simp
  with Cons.IH [OF s1(2)] Cons.prems(2,3) s1(1) show ?case by simp
qed simp

lemma fresh_timers:
  "timers_cover (replicate n (sb_timer_init t)) []"
  "oper_timers oper_none (replicate n (sb_timer_init t))"
proof -
  have "list_all2 timer_stats (replicate n (sb_timer_init t)) (replicate n [])"
    by (simp add: list_all2_conv_all_nth timer_stats_init)
  then show "timers_cover (replicate n (sb_timer_init t)) []"
    unfolding timers_cover_def by (intro exI [of _ "replicate n []"]) simp
  show "oper_timers oper_none (replicate n (sb_timer_init t))"
    by (simp add: oper_timers_def oper_none_def sb_timer_initialized_def sb_timer_running_def)
      (simp add: sb_timer_init_def sb_timer_reset_def)
qed

text \<open>Stopping the running timers of a copy adds their durations.\<close>

lemma stop_running_stats:
  assumes "timer_stats t xs"
  shows "timer_stats (stop_running now t)
           (xs @ (if sb_timer_running t then [TIMESPEC_DIFF now (time_start t) + queue_time t] else []))"
proof (cases "sb_timer_running t")
  case True
  then have "sb_timer_initialized t" by (simp add: sb_timer_running_def sb_timer_initialized_def)
  from stop_facts [OF this, of now] True assms show ?thesis by (auto simp: stop_running_def)
qed (use assms in \<open>simp add: stop_running_def\<close>)

lemma stop_running_cover:
  assumes "list_all2 timer_stats ts xss"
  shows "\<exists>yss. list_all2 timer_stats (map (stop_running now) ts) yss \<and>
           mset (concat yss) = mset (concat xss @
             map (\<lambda>t. TIMESPEC_DIFF now (time_start t) + queue_time t) (filter sb_timer_running ts))"
  using assms
proof (induction rule: list_all2_induct)
  case (Cons t ts xs xss)
  then obtain yss where "list_all2 timer_stats (map (stop_running now) ts) yss" "mset (concat yss) = mset (concat xss @
      map (\<lambda>t. TIMESPEC_DIFF now (time_start t) + queue_time t) (filter sb_timer_running ts))" by blast
  then show ?case
    using stop_running_stats [OF Cons(1), of now]
    by (intro exI [of _ "(xs @ (if sb_timer_running t
          then [TIMESPEC_DIFF now (time_start t) + queue_time t] else [])) # yss"]) simp
qed simp

definition unfinished_durations :: "timespec \<Rightarrow> (timespec \<times> u64) list \<Rightarrow> u64 list" where
  "unfinished_durations now os = map (\<lambda>(start, queue). TIMESPEC_DIFF now start + queue) os"

lemma report_print_exact:
  fixes shutdown :: bool and now' :: timespec
  assumes c: "copy_holds ts ds os" and L: "log_ready L"
  defines "es \<equiv> ds @ (if shutdown then unfinished_durations now' os else [])"
  shows "\<exists>r L'. report_print fresh now' shutdown dbg ts total_ns pct L = Some (r, L') \<and>
     gr_unfinished r = (if shutdown then length os else 0) \<and> gr_time r = NS2SEC total_ns \<and>
     gr_events r = of_nat (length es) \<and> gr_sum r = NS2SEC (sum_list es) \<and>
     gr_min r = NS2MS (real (unat (fold min es (- 1)))) \<and> gr_max r = NS2MS (real (unat (fold max es 0))) \<and>
     gr_percentile r = NS2MS pct \<and> log_ready L' \<and> log_timers L' = log_timers L \<and>
     oper_percentile L' = oper_percentile L \<and> oper_rank L' = oper_rank L"
proof -
  let ?ts = "if shutdown then map (stop_running now') ts else ts"
  let ?t = "foldl merge_timers (sb_timer_init fresh) ?ts"
  let ?u = "if shutdown then length (filter sb_timer_running ts) else 0"
  from c obtain xss where xss: "list_all2 timer_stats ts xss" "mset (concat xss) = mset ds"
    and os: "os = map (\<lambda>t. (time_start t, queue_time t)) (filter sb_timer_running ts)"
    by (auto simp: copy_holds_def timers_cover_def)
  have od: "unfinished_durations now' os
      = map (\<lambda>t. TIMESPEC_DIFF now' (time_start t) + queue_time t) (filter sb_timer_running ts)"
    by (simp add: os unfinished_durations_def)
  have "\<exists>yss. list_all2 timer_stats ?ts yss \<and> mset (concat yss) = mset es"
    using stop_running_cover [OF xss(1), of now'] xss by (auto simp: es_def od)
  then obtain yss where yss: "list_all2 timer_stats ?ts yss" "mset (concat yss) = mset es" by blast
  have stats: "timer_stats ?t es" using timers.holds_all [OF yss(1)] timer_stats_mset [OF yss(2)] by simp
  let ?r = "make_report (length ?ts) ?u total_ns pct ?t ?ts"
  obtain L' where "log_all ((if ?u > 0
                        then [notice [], notice (''Number of unfinished transactions on forced shutdown: ''
                                                  @ show_nat ?u)] else []) @
                       report_lines (oper_rank L) ?r @ (if dbg then debug_lines ?ts else [])) L = Some L'"
    "log_ready L'" "log_timers L' = log_timers L" "oper_percentile L' = oper_percentile L" "oper_rank L' = oper_rank L"
    using log_all_frame [OF L] by blast
  then have "report_print fresh now' shutdown dbg ts total_ns pct L = Some (?r, L')"
    unfolding report_print_def Let_def by (simp split del: if_split)
  moreover have "gr_unfinished ?r = (if shutdown then length os else 0)" "gr_time ?r = NS2SEC total_ns"
    "gr_events ?r = of_nat (length es)" "gr_sum ?r = NS2SEC (sum_list es)"
    "gr_min ?r = NS2MS (real (unat (fold min es (- 1))))" "gr_max ?r = NS2MS (real (unat (fold max es 0)))"
    "gr_percentile ?r = NS2MS pct"
    using stats by (simp_all add: make_report_def Let_def timer_stats_def get_sum_time_def get_min_time_def
        get_max_time_def os)
  ultimately show ?thesis using \<open>log_ready L'\<close> \<open>log_timers L' = log_timers L\<close>
      \<open>oper_percentile L' = oper_percentile L\<close> \<open>oper_rank L' = oper_rank L\<close> by blast
qed

text \<open>The specification at the start, as \<open>log_init\<close> leaves the logger.\<close>

definition spec_start :: report_spec where
  "spec_start = oper_spec.extend oper_none
     \<lparr>sp_pend = (\<lambda>_. None), sp_phase = Idle, sp_taken = [], sp_open = [], sp_read = []\<rparr>"

lemma spec_start_holds: "oper_holds spec_start L = oper_holds oper_none L"
  by (simp add: oper_holds_def oper_timers_def spec_start_def oper_none_def oper_spec.defs)

section \<open>Properties\<close>

text \<open>C23: The suppression of repeated messages loses no line, for fewer than \<open>2 ^ 32\<close> messages that are handled one after
  another from a state in which nothing is counted: for any such sequence given to \<open>log_text\<close>, a reader of the
  output who repeats a line as often as the note behind it says recovers exactly the texts (cut to the size of the
  buffer) of the messages whose priority the verbosity admits, in order, up to the repetitions of the last line that
  are still counted in \<open>text_cnt\<close>. Repetitions are recognised by their text alone, so of a suppressed repetition only
  the text is recovered and not its priority; the order in which threads print behind \<open>text_mutex\<close> is not covered.\<close>

theorem log_text_lossless:
  assumes "log_ready L" and "text_cnt L = 0" and "text_buf L = []" and "length ms < 2 ^ 32"
  shows "\<exists>L' cs. log_all ms L = Some L' \<and> stdout L' = stdout L @ cs \<and>
           replay [] cs @ replicate (unat (text_cnt L')) (text_buf L') =
             map (\<lambda>(p, txt). buffer_line [] txt)
               (filter (\<lambda>(p, _). priority_num p \<le> unat (verbosity L)) ms)"
proof -
  have "text_sound (stdout L) [] L" using assms(2,3) by (simp add: text_sound_def)
  from log_all_sound [OF assms(1) this, of ms] assms(4) show ?thesis by (fastforce simp: text_sound_def)
qed

definition example_timer :: sb_timer where
  "example_timer = sb_timer_init \<lparr>time_start = zero_timespec, time_end = zero_timespec,
     time_split = zero_timespec, elapsed = 0, min_time = 0, max_time = 0, sum_time = 0, events = 0,
     queue_time = 0, timer_state = TIMER_UNINITIALIZED\<rparr>"

definition example_histogram :: sb_percentile where
  "example_histogram = \<lparr>pc_values = [0, 0], pc_tmp = [0, 0], total = 0, pc_size = 2, range_min = 1,
     range_max = 10, range_deduct = 0, range_mult = 1 / ln 10\<rparr>"

definition example_logger :: "sb_percentile \<Rightarrow> logger" where
  "example_logger p =
     \<lparr>handlers = (\<lambda>ty. if ty = LOG_MSG_TYPE_TEXT then [text_handler]
                       else if ty = LOG_MSG_TYPE_OPER then [oper_handler] else []),
      initialized = True, verbosity = 3, text_cnt = 0, text_buf = [], oper_rank = 95,
      oper_percentile = p, log_timers = [example_timer, example_timer], stdout = []\<rparr>"

theorem log_text_lossless_witness:
  "\<exists>L' cs. log_all [(LOG_NOTICE, ''a''), (LOG_NOTICE, ''a''), (LOG_DEBUG, ''c''), (LOG_ALERT, ''b'')]
              (example_logger example_histogram) = Some L' \<and> stdout L' = cs \<and>
     replay [] cs @ replicate (unat (text_cnt L')) (text_buf L') = [''a\<newline>'', ''a\<newline>'', ''b\<newline>'']"
  using log_text_lossless [of "example_logger example_histogram"
      "[(LOG_NOTICE, ''a''), (LOG_NOTICE, ''a''), (LOG_DEBUG, ''c''), (LOG_ALERT, ''b'')]"]
  by (simp add: example_logger_def log_ready_def buffer_line_cases TEXT_BUFFER_SIZE_def)


lemma example_logger_holds:
  assumes "hist_of p []"
  shows "oper_holds oper_none (example_logger p)"
  using assms fresh_timers [of 2] unfolding oper_holds_def log_ready_def
  by (simp add: example_logger_def example_timer_def numeral_2_eq_2) (simp add: oper_none_def)

text \<open>Thread 1 is given an event that waited 3 ns, works from 1 s to 1 s + 5 ns and is overtaken by the report before it
  has recorded the duration; thread 0 is still working at the forced shutdown.\<close>

definition example_acts :: "oper_act list" where
  "example_acts =
     [QueueTime 1 3, Begin 1 \<lparr>tv_sec = 1, tv_nsec = 0\<rparr>, Begin 0 \<lparr>tv_sec = 1, tv_nsec = 2\<rparr>,
      End 1 \<lparr>tv_sec = 1, tv_nsec = 5\<rparr>, Copy zero_timespec, Calculate, Record 1, Reset]"


text \<open>The message buffers of the logger: a line of \<open>log_text\<close> always fits its buffer, and it is
  complete exactly when text and newline are shorter than the buffer. \<open>log_errno\<close> is not as careful:
  it writes behind its buffer exactly when the text alone is longer than the buffer.\<close>

theorem log_buffer_limits:
  assumes "log_ready L"
  shows "length (buffer_line [] tx) < TEXT_BUFFER_SIZE \<and>
         (buffer_line [] tx = tx @ ''\<newline>'' \<longleftrightarrow> length tx + 1 < TEXT_BUFFER_SIZE) \<and>
         (log_errno prio e etext tx L = None \<longleftrightarrow> TEXT_BUFFER_SIZE < length tx)"
proof (intro conjI)
  show "length (buffer_line [] tx) < TEXT_BUFFER_SIZE" by (rule buffer_line_short)
  show "buffer_line [] tx = tx @ ''\<newline>'' \<longleftrightarrow> length tx + 1 < TEXT_BUFFER_SIZE"
  proof (cases "length tx + 1 < TEXT_BUFFER_SIZE")
    case False
    have "buffer_line [] tx \<noteq> tx @ ''\<newline>''"
    proof
      assume "buffer_line [] tx = tx @ ''\<newline>''"
      from arg_cong [OF this, of length] buffer_line_short [of tx] False show False by simp
    qed
    with False show ?thesis by simp
  qed (simp add: buffer_line_cases TEXT_BUFFER_SIZE_def)
  show "log_errno prio e etext tx L = None \<longleftrightarrow> TEXT_BUFFER_SIZE < length tx"
    using log_text_ready [OF assms] by (auto simp: log_errno_def snprintf_def Let_def)
qed

theorem log_buffer_limits_witness:
  "log_errno LOG_FATAL 2 ''No such file'' (replicate 5000 CHR ''x'') (example_logger example_histogram) = None"
proof -
  have "log_ready (example_logger example_histogram)" by (simp add: log_ready_def example_logger_def)
  from log_buffer_limits [OF this] show ?thesis by (simp add: TEXT_BUFFER_SIZE_def)
qed

text \<open>Which settings the logger accepts, when memory suffices: \<open>log_init\<close> succeeds exactly for
  percentiles from 1 to 100 and for verbosities that are at most 5 modulo 256 (the value is stored in
  an \<open>unsigned char\<close> before it is checked); a logger that it accepts is ready for all threads, with
  no operations and no line held back.\<close>

theorem log_init_accepts:
  assumes "handlers L LOG_MSG_TYPE_MIN = []" and "handlers L LOG_MSG_TYPE_TEXT = [text_handler]"
    and "handlers L LOG_MSG_TYPE_OPER = [oper_handler]" and "\<not> initialized L"
    and "sb_get_value_int opts ''verbosity'' = Inr v" and "sb_get_value_int opts ''percentile'' = Inr q"
    and "- 2147483648 \<le> q" and "q < 2147483648"
  shows "\<exists>rc L'. log_init True True fresh n opts L = Some (Inr (rc, L')) \<and>
           (rc = 0 \<longleftrightarrow> v mod 256 \<le> 5 \<and> 1 \<le> q \<and> q \<le> 100) \<and>
           (rc = 0 \<longrightarrow> oper_holds oper_none L' \<and> length (log_timers L') = unat n \<and>
                       unat (oper_rank L') = nat q \<and> text_cnt L' = 0 \<and> text_buf L' = [])"
proof -
  have vb: "unat (word_of_int v :: 8 word) \<le> 5 \<longleftrightarrow> v mod 256 \<le> 5"
    by (simp add: unat_eq_nat_uint uint_word_of_int nat_le_iff)
  have pq: "(word_of_int q :: u32) < 1 \<or> (word_of_int q :: u32) > 100 \<longleftrightarrow> \<not> (1 \<le> q \<and> q \<le> 100)"
  proof (cases "0 \<le> q")
    case True
    with assms(8) have "q mod 4294967296 = q" by simp
    then show ?thesis by (simp add: word_less_def uint_word_of_int linorder_not_le)
  next
    case False
    have "q mod 4294967296 = (q + 4294967296) mod 4294967296" by simp
    also have "\<dots> = q + 4294967296" using False assms(7) by (intro mod_pos_pos_trivial) linarith+
    finally have "q mod 4294967296 = q + 4294967296" .
    with False assms(7) show ?thesis by (simp add: word_less_def uint_word_of_int)
  qed
  have hs: "all_handlers L = [text_handler, oper_handler]" using assms(1-3) by (simp add: all_handlers_def)
  show ?thesis
  proof (cases "v mod 256 \<le> 5")
    case False
    with vb have "\<not> unat (word_of_int v :: 8 word) \<le> 5" by simp
    with False assms(5) show ?thesis by (simp add: log_init_def hs text_handler_init_def Let_def)
  next
    case v: True
    with vb have nv: "\<not> 5 < unat (word_of_int v :: 8 word)" by simp
    let ?L = "L\<lparr>verbosity := word_of_int v, text_cnt := 0, text_buf := []\<rparr>"
    have ti: "text_handler_init opts L = Inr (0, ?L)"
      using assms(5) nv by (simp add: text_handler_init_def Let_def)
    show ?thesis
    proof (cases "1 \<le> q \<and> q \<le> 100")
      case False
      have "log_text LOG_FATAL t ?L = Some (put_chunk (Raw (buffer_line [] t)) ?L)" for t
        using assms(4) by (simp add: log_text_def send_text_def)
      with False pq v assms(6) show ?thesis
        by (auto simp: log_init_def hs ti oper_handler_init_def Let_def)
    next
      case True
      obtain p where p: "sb_percentile_init True OPER_LOG_GRANULARITY OPER_LOG_MIN_VALUE OPER_LOG_MAX_VALUE = Inr p"
        by (simp add: sb_percentile_init_def)
      have hist: "hist_of p []"
        by (rule hist_of_init [OF _ _ _ p])
          (simp_all add: OPER_LOG_GRANULARITY_def OPER_LOG_MIN_VALUE_def OPER_LOG_MAX_VALUE_def)
      let ?ts = "replicate (unat n) (sb_timer_init fresh)"
      let ?L' = "?L\<lparr>oper_rank := word_of_int q, oper_percentile := p, log_timers := ?ts, initialized := True\<rparr>"
      have "log_init True True fresh n opts L = Some (Inr (0, ?L'))"
        using pq True assms(6) p by (simp add: log_init_def hs ti oper_handler_init_def Let_def)
      moreover have "oper_holds oper_none ?L'"
        using assms(2,3) hist fresh_timers [of "unat n" fresh]
        by (simp add: oper_holds_def log_ready_def) (simp add: oper_none_def)
      moreover have "unat (word_of_int q :: u32) = nat q"
        using True by (simp add: unat_eq_nat_uint uint_word_of_int)
      ultimately show ?thesis using v True by simp
    qed
  qed
qed

theorem log_init_accepts_witness:
  "\<exists>L'. log_init True True example_timer 2
       [\<lparr>o_name = ''verbosity'', o_type = SB_ARG_TYPE_INT, o_values = [mk_value ''256''], o_ignore = False\<rparr>,
        \<lparr>o_name = ''percentile'', o_type = SB_ARG_TYPE_INT, o_values = [mk_value ''95''], o_ignore = False\<rparr>]
       ((example_logger example_histogram)\<lparr>initialized := False\<rparr>) = Some (Inr (0, L')) \<and> length (log_timers L') = 2"
proof -
  let ?o = "[\<lparr>o_name = ''verbosity'', o_type = SB_ARG_TYPE_INT, o_values = [mk_value ''256''], o_ignore = False\<rparr>,
        \<lparr>o_name = ''percentile'', o_type = SB_ARG_TYPE_INT, o_values = [mk_value ''95''], o_ignore = False\<rparr>]"
  have o: "sb_get_value_int ?o ''verbosity'' = Inr 256" "sb_get_value_int ?o ''percentile'' = Inr 95"
    by code_simp+
  show ?thesis
    using log_init_accepts [OF _ _ _ _ o, of "(example_logger example_histogram)\<lparr>initialized := False\<rparr>" example_timer 2]
    by (auto simp: example_logger_def)
qed

end
