(* ===== verification/Sysbench_Run.thy ===== *)
theory Sysbench_Run
  imports Sysbench_Init Event_Queue Logger
begin

text \<open>
  The run of a test in \<open>sysbench/sysbench.c\<close>: the worker loop, the reporting threads, the callback of the
  start barrier, \<open>run_test\<close> and \<open>main\<close>. A test is a record of optional operations over the test's own
  world \<^typ>\<open>'w\<close>, as the function pointers of \<open>sb_test_t\<close>. The clock is a stream of readings that the
  state carries. \<open>abort\<close> sets the flag \<open>aborted\<close>. Inside \<open>run_test\<close> the part during which other threads
  run (from the first \<open>pthread_create\<close> to the last \<open>pthread_join\<close>) is an argument; its
  interleavings are the subject of the barrier and of the event queue.
\<close>

section \<open>Tests and requests\<close>

datatype sb_request_type =
  SB_REQ_TYPE_NULL | SB_REQ_TYPE_CPU | SB_REQ_TYPE_MEMORY | SB_REQ_TYPE_FILE | SB_REQ_TYPE_SQL
| SB_REQ_TYPE_THREADS | SB_REQ_TYPE_MUTEX | SB_REQ_TYPE_SCRIPT

record 'r sb_request =
  req_type :: sb_request_type
  req_data :: "'r option"

record ('w, 'r) sb_operations =
  top_init :: "('w \<Rightarrow> int \<times> 'w) option"
  top_prepare :: "('w \<Rightarrow> int \<times> 'w) option"
  top_thread_init :: "(nat \<Rightarrow> 'w \<Rightarrow> int \<times> 'w) option"
  top_print_mode :: "('w \<Rightarrow> 'w) option"
  top_get_request :: "(nat \<Rightarrow> 'w \<Rightarrow> 'r sb_request \<times> 'w) option"
  top_execute_request :: "('r sb_request \<Rightarrow> nat \<Rightarrow> 'w \<Rightarrow> int \<times> 'w) option"
  top_print_stats :: "(sb_stat \<Rightarrow> 'w \<Rightarrow> 'w) option"
  top_thread_done :: "(nat \<Rightarrow> 'w \<Rightarrow> int \<times> 'w) option"
  top_cleanup :: "('w \<Rightarrow> int \<times> 'w) option"
  top_done :: "('w \<Rightarrow> int \<times> 'w) option"

record 'w sb_commands =
  cmd_help :: "('w \<Rightarrow> int \<times> 'w) option"
  cmd_prepare :: "('w \<Rightarrow> int \<times> 'w) option"
  cmd_cleanup :: "('w \<Rightarrow> int \<times> 'w) option"

record ('w, 'r) sb_test =
  t_sname :: string
  t_lname :: string
  t_ops :: "('w, 'r) sb_operations"
  t_cmds :: "'w sb_commands"
  t_args :: "sb_arg list option"

definition get_request :: "('w, 'r) sb_test \<Rightarrow> nat \<Rightarrow> 'w \<Rightarrow> 'r sb_request \<times> 'w" where
  "get_request test tid w =
     (case top_get_request (t_ops test) of
        Some f \<Rightarrow> f tid w
      | None \<Rightarrow> (\<lparr>req_type = SB_REQ_TYPE_NULL, req_data = None\<rparr>, w))"

definition execute_request :: "('w, 'r) sb_test \<Rightarrow> 'r sb_request \<Rightarrow> nat \<Rightarrow> 'w \<Rightarrow> int \<times> 'w" where
  "execute_request test r tid w =
     (case top_execute_request (t_ops test) of Some f \<Rightarrow> f r tid w | None \<Rightarrow> (1, w))"

section \<open>State\<close>

record 'w run_state =
  glob :: sb_globals
  run_exec_timer :: sb_timer
  run_cum1 :: sb_timer
  run_cum2 :: sb_timer
  running :: u32
  evq :: event_queue
  tworld :: 'w
  clock :: "nat \<Rightarrow> timespec"
  ticks :: nat
  aborted :: bool
  rng :: rnd_state
  lgr :: logger

definition read_clock :: "'w run_state \<Rightarrow> timespec \<times> 'w run_state" where
  "read_clock s = (clock s (ticks s), s\<lparr>ticks := ticks s + 1\<rparr>)"

text \<open>\<open>sb_timer_value (&sb_globals.exec_timer)\<close>.\<close>

definition exec_time :: "'w run_state \<Rightarrow> u64 \<times> 'w run_state" where
  "exec_time s =
     (let (now, s) = read_clock s in
      case sb_timer_value now (run_exec_timer s) of
        None \<Rightarrow> (0, s\<lparr>aborted := True\<rparr>)
      | Some (v, t, _) \<Rightarrow> (v, s\<lparr>run_exec_timer := t\<rparr>))"

text \<open>Calls of the logger. \<open>print_global_stats\<close> overwrites every field of its local timer, so any
  value serves for it.\<close>

definition with_log :: "(logger \<Rightarrow> logger option) \<Rightarrow> 'w run_state \<Rightarrow> 'w run_state" where
  "with_log f s = (case f (lgr s) of None \<Rightarrow> s\<lparr>aborted := True\<rparr> | Some L \<Rightarrow> s\<lparr>lgr := L\<rparr>)"

definition global_stats :: "'w run_state \<Rightarrow> 'w run_state" where
  "global_stats s =
     (let (now, s) = read_clock s in
      case print_global_stats (run_cum2 s) now now False (debug (glob s)) (run_cum2 s) (lgr s) of
        None \<Rightarrow> s\<lparr>aborted := True\<rparr>
      | Some (_, ct, L) \<Rightarrow> s\<lparr>run_cum2 := ct, lgr := L\<rparr>)"

section \<open>The worker thread\<close>

datatype 's step_result = Again 's | Stop 's | Blocked

text \<open>One round of the worker's loop. In the tx-rate mode it blocks while the queue is empty.\<close>

definition worker_dequeue :: "nat \<Rightarrow> 'w run_state \<Rightarrow> 'w run_state step_result" where
  "worker_dequeue tid s =
     (if queue_is_full (evq s) then Stop (with_log (log_text LOG_FATAL ''Event queue is full.'') s)
      else if eq_length (evq s) = 0 then Blocked
      else let (start, q) = worker_take 0 (evq s); (v, s) = exec_time (s\<lparr>evq := q\<rparr>) in
        Again (s\<lparr>lgr := (lgr s)\<lparr>log_timers :=
          (log_timers (lgr s))[tid := (log_timers (lgr s) ! tid)\<lparr>queue_time := v - start\<rparr>]\<rparr>\<rparr>))"

definition worker_request :: "('w, 'r) sb_test \<Rightarrow> nat \<Rightarrow> 'w run_state \<Rightarrow> 'w run_state step_result" where
  "worker_request test tid s =
     (let (req, w) = get_request test tid (tworld s); s = s\<lparr>tworld := w\<rparr>;
          (rc, s) = (if req_type req \<noteq> SB_REQ_TYPE_NULL
                     then (let (rc, w) = execute_request test req tid (tworld s) in (rc, s\<lparr>tworld := w\<rparr>))
                     else (0, s))
      in if rc \<noteq> 0 then Stop s
         else let s = (if g_tx_rate (glob s) > 0 then s\<lparr>evq := worker_finish (evq s)\<rparr> else s);
                  (expired, s) = (if max_time (glob s) \<noteq> 0
                                  then (let (v, s) = exec_time s
                                        in (v \<ge> SEC2NS (ucast (max_time (glob s))), s))
                                  else (False, s))
              in if expired then Stop s
                 else if req_type req \<noteq> SB_REQ_TYPE_NULL \<and> g_error (glob s) = 0 then Again s
                 else Stop s)"

definition worker_round :: "('w, 'r) sb_test \<Rightarrow> nat \<Rightarrow> 'w run_state \<Rightarrow> 'w run_state step_result" where
  "worker_round test tid s =
     (if g_tx_rate (glob s) > 0
      then (case worker_dequeue tid s of Again s \<Rightarrow> worker_request test tid s | r \<Rightarrow> r)
      else worker_request test tid s)"

text \<open>The loop may run forever; \<^const>\<open>None\<close> is that it does not return.\<close>

partial_function (option) worker_loop ::
  "('w, 'r) sb_test \<Rightarrow> nat \<Rightarrow> 'w run_state \<Rightarrow> 'w run_state option" where
  "worker_loop test tid s =
     (case worker_round test tid s of
        Again s' \<Rightarrow> worker_loop test tid s'
      | Stop s' \<Rightarrow> Some s'
      | Blocked \<Rightarrow> None)"

text \<open>The worker before and after the start barrier, whose result is \<open>brc\<close>.\<close>

definition worker_start :: "('w, 'r) sb_test \<Rightarrow> nat \<Rightarrow> 'w run_state \<Rightarrow> bool \<times> 'w run_state" where
  "worker_start test tid s =
     (let (rc, s) = (case top_thread_init (t_ops test) of
                       None \<Rightarrow> (0, s)
                     | Some f \<Rightarrow> (let (rc, w) = f tid (tworld s) in (rc, s\<lparr>tworld := w\<rparr>)))
      in if rc \<noteq> 0
         then let s = with_log (log_text LOG_DEBUG
                        (''Worker thread (#'' @ show_nat tid @ '') failed to initialize!'')) s
              in (False, s\<lparr>glob := (glob s)\<lparr>g_error := 1\<rparr>\<rparr>)
         else (True, with_log (log_text LOG_DEBUG (''Worker thread (#'' @ show_nat tid @ '') started!'')) s))"

definition worker_thread ::
  "('w, 'r) sb_test \<Rightarrow> nat \<Rightarrow> bool \<Rightarrow> int \<Rightarrow> 'w run_state \<Rightarrow> 'w run_state option" where
  "worker_thread test tid started brc s =
     (if \<not> started \<or> brc < 0 then Some s
      else case worker_loop test tid s of
        None \<Rightarrow> None
      | Some s \<Rightarrow>
          (case top_thread_done (t_ops test) of
             None \<Rightarrow> Some s
           | Some f \<Rightarrow> Some (s\<lparr>tworld := snd (f tid (tworld s))\<rparr>)))"

section \<open>Reports\<close>

text \<open>The loop that finds the time of the next intermediate report.\<close>

partial_function (option) report_advance :: "u64 \<Rightarrow> u64 \<Rightarrow> u64 \<Rightarrow> u64 option" where
  "report_advance interval_ns curr_ns prev_ns =
     (let next_ns = prev_ns + interval_ns
      in if curr_ns \<ge> next_ns then report_advance interval_ns curr_ns next_ns else Some next_ns)"

text \<open>\<open>report_thread_proc\<close>: the first pause and \<open>prev_ns\<close> after the barrier (\<^const>\<open>None\<close>: the thread
  ends), then one round after a pause: the report, and the new \<open>prev_ns\<close> and \<open>pause_ns\<close>.\<close>

definition report_start ::
  "('w, 'r) sb_test \<Rightarrow> u64 \<Rightarrow> int \<Rightarrow> 'w run_state \<Rightarrow> (u64 \<times> u64 \<times> 'w run_state) option" where
  "report_start test interval_ns brc s =
     (if brc < 0 \<or> top_print_stats (t_ops test) = None then None
      else let (v, s) = exec_time s in Some (v + interval_ns, interval_ns, s))"

definition report_round ::
  "('w, 'r) sb_test \<Rightarrow> u64 \<Rightarrow> u64 \<Rightarrow> 'w run_state \<Rightarrow> (u64 \<times> u64 \<times> 'w run_state) option" where
  "report_round test interval_ns prev_ns s =
     (case top_print_stats (t_ops test) of
        None \<Rightarrow> None
      | Some f \<Rightarrow>
          (let s = (if report_interval (glob s) > 0
                    then s\<lparr>tworld := f SB_STAT_INTERMEDIATE (tworld s)\<rparr> else s);
               (curr_ns, s) = exec_time s
           in case report_advance interval_ns curr_ns prev_ns of
                None \<Rightarrow> None | Some next_ns \<Rightarrow> Some (next_ns, next_ns - curr_ns, s)))"

text \<open>\<open>checkpoints_thread_proc\<close> after the barrier; the log holds the checkpoints that are reported
  with the pause before each.\<close>

fun checkpoints_loop ::
  "('w, 'r) sb_test \<Rightarrow> u32 list \<Rightarrow> 'w run_state \<Rightarrow> (u32 \<times> u64) list \<times> 'w run_state" where
  "checkpoints_loop test [] s = ([], s)"
| "checkpoints_loop test (c # cs) s =
     (let next_ns = SEC2NS (ucast c); (curr_ns, s) = exec_time s in
      if next_ns \<le> curr_ns then checkpoints_loop test cs s
      else let (_, s) = exec_time s;
               s = with_log (log_timestamp LOG_NOTICE (run_exec_timer s) ''Checkpoint report:'') s;
               s = (case top_print_stats (t_ops test) of
                      None \<Rightarrow> s | Some f \<Rightarrow> s\<lparr>tworld := f SB_STAT_CUMULATIVE (tworld s)\<rparr>);
               (reps, s) = checkpoints_loop test cs (global_stats s)
           in ((c, next_ns - curr_ns) # reps, s))"

definition checkpoints_thread_proc ::
  "('w, 'r) sb_test \<Rightarrow> int \<Rightarrow> 'w run_state \<Rightarrow> (u32 \<times> u64) list \<times> 'w run_state" where
  "checkpoints_thread_proc test brc s =
     (if brc < 0 \<or> top_print_stats (t_ops test) = None then ([], s)
      else checkpoints_loop test (checkpoints (glob s)) s)"

section \<open>Start and end of a run\<close>

text \<open>\<open>sb_timer_start\<close> and \<open>sb_timer_stop\<close> of one of the global timers.\<close>

definition on_timer ::
  "(timespec \<Rightarrow> sb_timer \<Rightarrow> (sb_timer \<times> log) option) \<Rightarrow> ('w run_state \<Rightarrow> sb_timer) \<Rightarrow>
   (sb_timer \<Rightarrow> 'w run_state \<Rightarrow> 'w run_state) \<Rightarrow> 'w run_state \<Rightarrow> 'w run_state" where
  "on_timer f get put s =
     (let (now, s) = read_clock s in
      case f now (get s) of None \<Rightarrow> s\<lparr>aborted := True\<rparr> | Some (t, _) \<Rightarrow> put t s)"

abbreviation put_exec :: "sb_timer \<Rightarrow> 'w run_state \<Rightarrow> 'w run_state" where
  "put_exec t s \<equiv> s\<lparr>run_exec_timer := t\<rparr>"
abbreviation put_cum1 :: "sb_timer \<Rightarrow> 'w run_state \<Rightarrow> 'w run_state" where
  "put_cum1 t s \<equiv> s\<lparr>run_cum1 := t\<rparr>"
abbreviation put_cum2 :: "sb_timer \<Rightarrow> 'w run_state \<Rightarrow> 'w run_state" where
  "put_cum2 t s \<equiv> s\<lparr>run_cum2 := t\<rparr>"

definition threads_started_callback :: "'w run_state \<Rightarrow> int \<times> 'w run_state" where
  "threads_started_callback s =
     (if g_error (glob s) \<noteq> 0 then (1, s)
      else let s = s\<lparr>running := num_threads (glob s)\<rparr>;
               s = on_timer sb_timer_start run_exec_timer put_exec s;
               s = on_timer sb_timer_start run_cum1 put_cum1 s;
               s = on_timer sb_timer_start run_cum2 put_cum2 s
           in (0, s))"

definition barrier_threads :: "sb_globals \<Rightarrow> u32" where
  "barrier_threads g =
     1 + num_threads g + (if report_interval g > 0 then 1 else 0) +
     (if g_tx_rate g > 0 then 1 else 0) + (if checkpoints g \<noteq> [] then 1 else 0)"

definition call_op :: "('w \<Rightarrow> int \<times> 'w) option \<Rightarrow> 'w run_state \<Rightarrow> int \<times> 'w run_state" where
  "call_op op s =
     (case op of None \<Rightarrow> (0, s) | Some f \<Rightarrow> (let (rc, w) = f (tworld s) in (rc, s\<lparr>tworld := w\<rparr>)))"

text \<open>
  The threads that \<open>run_test\<close> creates before it waits at the barrier, in order; \<open>create\<close> tells
  whether \<open>pthread_create\<close> succeeds. \<^const>\<open>None\<close>: a creation failed and \<open>run_test\<close> returns 1.
\<close>

datatype sb_thread_kind = ReportThread | EventgenThread | CheckpointsThread | WorkerThread nat

definition planned_threads :: "sb_globals \<Rightarrow> sb_thread_kind list" where
  "planned_threads g =
     (if report_interval g > 0 then [ReportThread] else []) @
     (if g_tx_rate g > 0 then [EventgenThread] else []) @
     (if checkpoints g \<noteq> [] then [CheckpointsThread] else []) @
     map WorkerThread [0..<unat (num_threads g)]"

definition create_threads :: "(sb_thread_kind \<Rightarrow> bool) \<Rightarrow> sb_globals \<Rightarrow> sb_thread_kind list option" where
  "create_threads create g =
     (if list_all create (planned_threads g) then Some (planned_threads g) else None)"

text \<open>
  \<open>run_test\<close>. \<open>barrier_rc\<close> is the result of initialising the barrier's mutex and condition variable,
  \<open>phase\<close> the concurrent part: from the created threads and the state it gives the result of the
  main thread's \<open>sb_barrier_wait\<close> and the state when all workers have been joined.
\<close>

text \<open>\<open>print_run_mode\<close>: the lines it logs, the seeding of the random number generator and the test's
  own report. \<open>srnd\<close> is \<open>sb_srnd\<close> of the C library, \<open>now\<close> the value of \<open>time (NULL)\<close>.\<close>

definition run_mode_lines :: "sb_globals \<Rightarrow> log" where
  "run_mode_lines g =
     [(LOG_NOTICE, ''Running the test with following options:''),
      (LOG_NOTICE, ''Number of threads: '' @ show_int (sint (num_threads g)))] @
     (if g_tx_rate g > 0
      then [(LOG_NOTICE, ''Target transaction rate: '' @ show_int (sint (g_tx_rate g)) @ ''/sec'')] else []) @
     (if report_interval g \<noteq> 0
      then [(LOG_NOTICE, ''Report intermediate results every '' @ show_int (sint (report_interval g))
                           @ '' second(s)'')] else []) @
     (if checkpoints g \<noteq> []
      then [(LOG_NOTICE, ''Report checkpoint(s) at '' @ checkpoint_list_str (checkpoints g) @ '' seconds'')]
      else []) @
     (if debug g then [(LOG_NOTICE, ''Debug mode enabled.\<newline>'')] else []) @
     (if validate g then [(LOG_NOTICE, ''Additional request validation enabled.\<newline>'')] else [])"

definition seed_random :: "(int \<Rightarrow> rnd_state \<Rightarrow> rnd_state) \<Rightarrow> int \<Rightarrow> sb_globals \<Rightarrow> rnd_state \<Rightarrow> log \<times> rnd_state" where
  "seed_random srnd now g r =
     (let (m1, r) = (if rand_init g
            then ([(LOG_NOTICE, ''Initializing random number generator from timer.\<newline>'')], srnd now r)
            else ([], r));
          (m2, r) = (if rand_seed g \<noteq> 0
            then ([(LOG_NOTICE, ''Initializing random number generator from seed ('' @ show_int (rand_seed g)
                     @ '').\<newline>'')], srnd (rand_seed g) r)
            else ([(LOG_NOTICE, ''Random number generator seed is 0 and will be ignored\<newline>'')], r))
      in (m1 @ m2, r))"

definition print_run_mode ::
  "(int \<Rightarrow> rnd_state \<Rightarrow> rnd_state) \<Rightarrow> int \<Rightarrow> ('w, 'r) sb_test \<Rightarrow> 'w run_state \<Rightarrow> 'w run_state" where
  "print_run_mode srnd now test s =
     (let g = glob s; (m, r) = seed_random srnd now g (rng s);
          s = with_log (log_all (run_mode_lines g @ m @
                (if force_shutdown g
                 then [(LOG_NOTICE, ''Forcing shutdown in ''
                          @ show_nat (unat (sb_globals.max_time g + timeout g)) @ '' seconds'')] else []) @
                [(LOG_NOTICE, [])])) (s\<lparr>rng := r\<rparr>)
      in case top_print_mode (t_ops test) of None \<Rightarrow> s | Some f \<Rightarrow> s\<lparr>tworld := f (tworld s)\<rparr>)"

definition run_setup :: "'w run_state \<Rightarrow> 'w run_state" where
  "run_setup s =
     s\<lparr>run_exec_timer := sb_timer_init (run_exec_timer s), run_cum1 := sb_timer_init (run_cum1 s),
       run_cum2 := sb_timer_init (run_cum2 s)\<rparr>"

definition run_finish :: "('w, 'r) sb_test \<Rightarrow> 'w run_state \<Rightarrow> int \<times> 'w run_state" where
  "run_finish test s =
     (let s = s\<lparr>running := running s - num_threads (glob s)\<rparr>;
          s = on_timer sb_timer_stop run_exec_timer put_exec s;
          s = on_timer sb_timer_stop run_cum1 put_cum1 s;
          s = on_timer sb_timer_stop run_cum2 put_cum2 s;
          s = s\<lparr>glob := (glob s)\<lparr>report_interval := 0\<rparr>\<rparr>;
          (rc, s) = call_op (top_cleanup (t_ops test)) s
      in if rc \<noteq> 0 then (1, s)
         else let s = (case top_print_stats (t_ops test) of
                         Some f \<Rightarrow> (if g_error (glob s) = 0
                                    then s\<lparr>tworld := f SB_STAT_CUMULATIVE (tworld s)\<rparr> else s)
                       | None \<Rightarrow> s);
                  (_, s) = call_op (top_done (t_ops test)) s
              in (if g_error (glob s) \<noteq> 0 then 1 else 0, s))"

definition run_test ::
  "(int \<Rightarrow> rnd_state \<Rightarrow> rnd_state) \<Rightarrow> int \<Rightarrow> int \<Rightarrow> (sb_thread_kind \<Rightarrow> bool) \<Rightarrow>
   (sb_thread_kind list \<Rightarrow> 'w run_state \<Rightarrow> int \<times> 'w run_state) \<Rightarrow>
   ('w, 'r) sb_test \<Rightarrow> 'w run_state \<Rightarrow> int \<times> 'w run_state" where
  "run_test srnd now barrier_rc create phase test s =
     (let (rc, s) = call_op (top_init (t_ops test)) s in
      if rc \<noteq> 0 then (1, s)
      else let (rc, s) = call_op (top_prepare (t_ops test)) (run_setup (print_run_mode srnd now test s))
           in if rc \<noteq> 0 then (1, s)
              else let s = s\<lparr>evq := (evq s)\<lparr>eq_length := 0, queue_is_full := False\<rparr>, running := 0,
                               rng := (rng s)\<lparr>rnd_seed := of_nat LARGE_PRIME\<rparr>\<rparr> in
                case sb_barrier_init barrier_rc 0 (barrier_threads (glob s)) (Some threads_started_callback) of
                  Inl _ \<Rightarrow> (1, s)
                | Inr _ \<Rightarrow>
                    (case create_threads create (glob s) of
                       None \<Rightarrow> (1, s)
                     | Some ts \<Rightarrow>
                         (let (brc, s) = phase ts s in if brc < 0 then (1, s) else run_finish test s)))"

definition find_test :: "('w, 'r) sb_test list \<Rightarrow> string \<Rightarrow> ('w, 'r) sb_test option" where
  "find_test tests name = find (\<lambda>t. t_sname t = name) tests"

text \<open>
  \<open>main\<close>, from the option store after the logger and the tests have registered their options
  (\<open>reg_rc\<close> the result of that) to the exit code. \<open>script_load\<close> is the script interpreter's loader,
  \<open>alloc\<close> tells whether memory can be allocated, \<open>run\<close> is \<open>run_test\<close> with its environment.
\<close>

definition finish_log :: "'w run_state \<Rightarrow> 'w run_state" where
  "finish_log s =
     (let (now, s) = read_clock s in
      case log_done (run_cum2 s) now now False (debug (glob s)) (run_cum2 s) (lgr s) of
        None \<Rightarrow> s\<lparr>aborted := True\<rparr>
      | Some (ct, L) \<Rightarrow> s\<lparr>run_cum2 := ct, lgr := L\<rparr>)"

text \<open>The part of \<open>main\<close> after the logger has been initialised; \<open>version\<close> is \<open>VERSION_STRING\<close>.\<close>

definition sb_command ::
  "('w, 'r) sb_test list \<Rightarrow> (string \<Rightarrow> ('w, 'r) sb_test option) \<Rightarrow>
   (('w, 'r) sb_test \<Rightarrow> 'w run_state \<Rightarrow> int \<times> 'w run_state) \<Rightarrow>
   string \<Rightarrow> sb_cmd \<Rightarrow> options \<Rightarrow> 'w run_state \<Rightarrow> (int \<times> 'w run_state) option" where
  "sb_command tests script_load run version cmd opts s =
     (let s = with_log (log_text LOG_NOTICE (version @ '':  multi-threaded system evaluation benchmark\<newline>'')) s;
          testname = sb_get_value_string opts ''test'';
          test = (case testname of
                    None \<Rightarrow> None
                  | Some n \<Rightarrow> (case find_test tests n of Some t \<Rightarrow> Some t | None \<Rightarrow> script_load n))
      in if cmd = SB_COMMAND_HELP then
           (case test of
              None \<Rightarrow> Some (0, s)
            | Some t \<Rightarrow> Some (0, snd (call_op (cmd_help (t_cmds t)) s)))
         else case (testname, test) of
           (None, _) \<Rightarrow> Some (1, s)
         | (Some _, None) \<Rightarrow> Some (1, s)
         | (Some _, Some t) \<Rightarrow>
             (if cmd = SB_COMMAND_PREPARE then
                (if cmd_prepare (t_cmds t) = None then Some (1, s)
                 else Some (call_op (cmd_prepare (t_cmds t)) s))
              else if cmd = SB_COMMAND_CLEANUP then
                (if cmd_cleanup (t_cmds t) = None then Some (1, s)
                 else Some (call_op (cmd_cleanup (t_cmds t)) s))
              else let (rc, s) = run t s in
                if rc \<noteq> 0 then Some (1, s) else Some (0, finish_log s)))"

text \<open>The handler of \<open>SIGALRM\<close> for a forced shutdown, up to \<open>exit (2)\<close>.\<close>

definition sigalrm_forced_shutdown_handler :: "('w, 'r) sb_test option \<Rightarrow> 'w run_state \<Rightarrow> int \<times> 'w run_state" where
  "sigalrm_forced_shutdown_handler current_test s =
     (let s = on_timer sb_timer_stop run_exec_timer put_exec s;
          s = on_timer sb_timer_stop run_cum1 put_cum1 s;
          s = on_timer sb_timer_stop run_cum2 put_cum2 s;
          s = with_log (log_text LOG_FATAL ''The --max-time limit has expired, forcing shutdown...'') s;
          s = (case Option.bind current_test (\<lambda>t. top_print_stats (t_ops t)) of
                 None \<Rightarrow> s | Some f \<Rightarrow> s\<lparr>tworld := f SB_STAT_CUMULATIVE (tworld s)\<rparr>);
          (now, s) = read_clock s
      in (2, case log_done (run_cum2 s) now now True (debug (glob s)) (run_cum2 s) (lgr s) of
               None \<Rightarrow> s\<lparr>aborted := True\<rparr>
             | Some (ct, L) \<Rightarrow> s\<lparr>run_cum2 := ct, lgr := L\<rparr>))"

definition sb_main ::
  "files \<Rightarrow> (string \<Rightarrow> real option) \<Rightarrow> bool \<Rightarrow> int \<Rightarrow> ('w, 'r) sb_test list \<Rightarrow>
   (string \<Rightarrow> ('w, 'r) sb_test option) \<Rightarrow>
   (('w, 'r) sb_test \<Rightarrow> 'w run_state \<Rightarrow> int \<times> 'w run_state) \<Rightarrow> string \<Rightarrow>
   string list \<Rightarrow> options \<Rightarrow> 'w run_state \<Rightarrow> (int \<times> 'w run_state) option" where
  "sb_main fs scan alloc reg_rc tests script_load run version argv opts s =
     (if reg_rc \<noteq> 0 then Some (1, s)
      else case parse_arguments fs (map t_args tests) argv opts of
        (rc, cmd, opts) \<Rightarrow>
          (if rc \<noteq> 0 then Some (1, s)
           else if cmd = SB_COMMAND_VERSION \<or> sb_get_value_flag opts ''version'' then Some (0, s)
           else if cmd = SB_COMMAND_NULL then Some (1, s)
           else case sb_init fs scan alloc opts ((glob s)\<lparr>command := cmd\<rparr>) (rng s) of
             None \<Rightarrow> None
           | Some (Inl c) \<Rightarrow> Some (1, s)
           | Some (Inr (g, r, opts)) \<Rightarrow>
               (let s = s\<lparr>glob := g, rng := r\<rparr> in
                case log_init alloc alloc (run_cum2 s) (num_threads g) opts (lgr s) of
                  None \<Rightarrow> None
                | Some (Inl c) \<Rightarrow> Some (c, s)
                | Some (Inr (lrc, L)) \<Rightarrow>
                    (if lrc \<noteq> 0 then Some (1, s\<lparr>lgr := L\<rparr>)
                     else sb_command tests script_load run version cmd opts (s\<lparr>lgr := L\<rparr>)))))"

section \<open>Facts about a run\<close>

lemma report_advance_first:
  assumes "0 < unat iv" and "max (unat prev) (unat cur) + unat iv < 2 ^ 64"
  shows "\<exists>k nxt. report_advance iv cur prev = Some nxt \<and> 0 < k \<and> unat nxt = unat prev + k * unat iv \<and>
                 unat cur < unat nxt \<and> unat nxt \<le> max (unat prev) (unat cur) + unat iv"
  using assms(2)
proof (induction "unat cur - unat prev" arbitrary: prev rule: less_induct)
  case less
  have n: "unat (prev + iv) = unat prev + unat iv" using less.prems by (simp add: unat_word_ariths)
  show ?case
  proof (cases "cur \<ge> prev + iv")
    case False
    then have "report_advance iv cur prev = Some (prev + iv)"
      by (subst report_advance.simps) (simp add: Let_def)
    moreover have "unat cur < unat prev + unat iv" using False n by (simp add: word_le_nat_alt)
    ultimately show ?thesis
      using n assms(1) by (intro exI [of _ 1] exI [of _ "prev + iv"]) simp
  next
    case True
    then have le: "unat prev + unat iv \<le> unat cur" using n by (simp add: word_le_nat_alt)
    have dec: "unat cur - unat (prev + iv) < unat cur - unat prev" using le n assms(1) by simp
    have bnd: "max (unat (prev + iv)) (unat cur) + unat iv < 2 ^ 64"
      using le n less.prems by simp
    from less.hyps [OF dec bnd] obtain k nxt where
      k: "report_advance iv cur (prev + iv) = Some nxt" "unat nxt = unat (prev + iv) + k * unat iv"
        "unat cur < unat nxt" "unat nxt \<le> max (unat (prev + iv)) (unat cur) + unat iv"
      by blast
    have "report_advance iv cur prev = Some nxt"
      using True k(1) by (subst report_advance.simps) (simp add: Let_def)
    moreover have "unat nxt = unat prev + Suc k * unat iv" using k(2) n by simp
    moreover have "unat nxt \<le> max (unat prev) (unat cur) + unat iv" using k(4) le n by simp
    ultimately show ?thesis using k(3) by blast
  qed
qed

lemma planned_threads_length:
  assumes "unat (num_threads g) < 4294967292"
  shows "unat (barrier_threads g) = Suc (length (planned_threads g))"
proof -
  let ?n = "Suc (length (planned_threads g))"
  have "num_threads g = of_nat (unat (num_threads g))" by (simp add: of_nat_unat)
  then have "barrier_threads g = of_nat ?n"
    by (simp add: barrier_threads_def planned_threads_def)
  moreover have "?n < 2 ^ 32" using assms by (simp add: planned_threads_def)
  ultimately show ?thesis by (simp only: unat_of_nat) (simp add: take_bit_nat_eq_self)
qed

lemma start_timer_running:
  "sb_timer_initialized t \<Longrightarrow> \<exists>t' m. sb_timer_start now t = Some (t', m) \<and> sb_timer_running t'"
  by (cases "timer_state t")
    (auto simp: sb_timer_start_def sb_timer_initialized_def sb_timer_running_def Let_def)

lemma on_timer_start:
  assumes "sb_timer_initialized (get s)" and "\<And>k. get (s\<lparr>ticks := k\<rparr>) = get s"
  shows "\<exists>t k. on_timer sb_timer_start get put s = put t (s\<lparr>ticks := k\<rparr>) \<and> sb_timer_running t"
proof -
  obtain t m where t: "sb_timer_start (clock s (ticks s)) (get s) = Some (t, m)" "sb_timer_running t"
    using start_timer_running [OF assms(1)] by blast
  then have "on_timer sb_timer_start get put s = put t (s\<lparr>ticks := ticks s + 1\<rparr>)"
    using assms(2) by (simp add: on_timer_def read_clock_def)
  with t(2) show ?thesis by blast
qed

lemma callback_starts_timers:
  assumes "g_error (glob s) = 0" and "sb_timer_initialized (run_exec_timer s)"
    and "sb_timer_initialized (run_cum1 s)" and "sb_timer_initialized (run_cum2 s)"
  shows "\<exists>s'. threads_started_callback s = (0, s') \<and> running s' = num_threads (glob s) \<and>
              sb_timer_running (run_exec_timer s') \<and> sb_timer_running (run_cum1 s') \<and>
              sb_timer_running (run_cum2 s')"
proof -
  let ?s0 = "s\<lparr>running := num_threads (glob s)\<rparr>"
  obtain t1 k1 where 1: "on_timer sb_timer_start run_exec_timer put_exec ?s0 = put_exec t1 (?s0\<lparr>ticks := k1\<rparr>)"
    "sb_timer_running t1" using on_timer_start [of run_exec_timer ?s0 put_exec] assms(2) by auto
  let ?s1 = "put_exec t1 (?s0\<lparr>ticks := k1\<rparr>)"
  obtain t2 k2 where 2: "on_timer sb_timer_start run_cum1 put_cum1 ?s1 = put_cum1 t2 (?s1\<lparr>ticks := k2\<rparr>)"
    "sb_timer_running t2" using on_timer_start [of run_cum1 ?s1 put_cum1] assms(3) by auto
  let ?s2 = "put_cum1 t2 (?s1\<lparr>ticks := k2\<rparr>)"
  obtain t3 k3 where 3: "on_timer sb_timer_start run_cum2 put_cum2 ?s2 = put_cum2 t3 (?s2\<lparr>ticks := k3\<rparr>)"
    "sb_timer_running t3" using on_timer_start [of run_cum2 ?s2 put_cum2] assms(4) by auto
  show ?thesis
    using assms(1) 1 2 3 unfolding threads_started_callback_def Let_def
    by (simp only: 1(1) 2(1) 3(1)) simp
qed

section \<open>The start of the threads\<close>

text \<open>
  What a thread does before it calls \<open>sb_barrier_wait\<close>: a worker initialises itself and notes a
  failure in \<open>sb_globals.error\<close>, the event generator sets up its queue. The result tells whether it succeeded.
\<close>

definition thread_prologue ::
  "('w, 'r) sb_test \<Rightarrow> sb_thread_kind \<Rightarrow> 'w run_state \<Rightarrow> bool \<times> 'w run_state" where
  "thread_prologue test k s =
     (case k of
        WorkerThread tid \<Rightarrow> worker_start test tid s
      | EventgenThread \<Rightarrow>
          (True, with_log (log_text LOG_DEBUG ''Event generating thread started'')
                   (s\<lparr>evq := eventgen_init (evq s)\<rparr>))
      | ReportThread \<Rightarrow> (True, with_log (log_text LOG_DEBUG ''Reporting thread started'') s)
      | CheckpointsThread \<Rightarrow> (True, with_log (log_text LOG_DEBUG ''Checkpoints report thread started'') s))"

text \<open>
  The created threads \<open>ts\<close> and the main thread, which has the last index at the barrier. \<open>st_init\<close>
  holds for each created thread what its prologue returned, if it has run. The steps are the
  prologue of a thread, a step of the main thread or of a thread whose prologue has run inside
  \<open>sb_barrier_wait\<close>, and, made by the environment, a spurious wake-up.
\<close>

record 'w start_sys =
  st_bar :: "'w run_state barrier_sys"
  st_init :: "bool option list"

inductive start_own ::
  "('w, 'r) sb_test \<Rightarrow> sb_thread_kind list \<Rightarrow> 'w start_sys \<Rightarrow> 'w start_sys \<Rightarrow> bool"
  for test ts where
  prologue: "i < length ts \<Longrightarrow> st_init s ! i = None \<Longrightarrow>
     thread_prologue test (ts ! i) (env (st_bar s)) = (ok, r) \<Longrightarrow>
     start_own test ts s
       (s\<lparr>st_bar := (st_bar s)\<lparr>env := r\<rparr>, st_init := (st_init s)[i := Some ok]\<rparr>)"
| wait: "i = length ts \<or> (i < length ts \<and> st_init s ! i \<noteq> None) \<Longrightarrow>
     sb_barrier_wait i (st_bar s) b \<Longrightarrow> start_own test ts s (s\<lparr>st_bar := b\<rparr>)"

inductive start_step ::
  "('w, 'r) sb_test \<Rightarrow> sb_thread_kind list \<Rightarrow> 'w start_sys \<Rightarrow> 'w start_sys \<Rightarrow> bool"
  for test ts where
  own: "start_own test ts s t \<Longrightarrow> start_step test ts s t"
| spurious: "spurious_wakeup i (st_bar s) b \<Longrightarrow> start_step test ts s (s\<lparr>st_bar := b\<rparr>)"

text \<open>The state when \<open>run_test\<close> has initialised the barrier; the shared state is \<open>r\<close>.\<close>

definition start_state :: "'w run_state sb_barrier \<Rightarrow> 'w run_state \<Rightarrow> 'w start_sys" where
  "start_state b r =
     (let ts = planned_threads (glob r) in
      \<lparr>st_bar = \<lparr>bar = b, env = r, thr = replicate (Suc (length ts)) Outside\<rparr>,
       st_init = replicate (length ts) None\<rparr>)"

definition prologues_left :: "'w start_sys \<Rightarrow> nat" where
  "prologues_left s = length (filter (\<lambda>x. x = None) (st_init s))"

definition start_left :: "'w start_sys \<Rightarrow> nat" where
  "start_left s = prologues_left s + steps_left (st_bar s)"

text \<open>What every prologue keeps, and the invariant: \<open>e\<close> is the shared state at the last arrival.\<close>

definition same_start :: "'w run_state \<Rightarrow> 'w run_state \<Rightarrow> bool" where
  "same_start r e \<longleftrightarrow>
     num_threads (glob e) = num_threads (glob r) \<and> running e = running r \<and>
     run_exec_timer e = run_exec_timer r \<and> run_cum1 e = run_cum1 r \<and> run_cum2 e = run_cum2 r"

definition start_inv_at :: "sb_thread_kind list \<Rightarrow> 'w run_state \<Rightarrow> 'w run_state \<Rightarrow> 'w start_sys \<Rightarrow> bool" where
  "start_inv_at ts r e s \<longleftrightarrow>
     barrier_inv e (st_bar s) \<and> callback (bar (st_bar s)) = Some threads_started_callback \<and>
     same_start r e \<and> (g_error (glob e) \<noteq> 0 \<longleftrightarrow> g_error (glob r) \<noteq> 0 \<or> Some False \<in> set (st_init s)) \<and>
     length (st_init s) = length ts \<and> length (thr (st_bar s)) = Suc (length ts) \<and>
     (\<forall>i < length ts. st_init s ! i = None \<longrightarrow> thr (st_bar s) ! i = Outside)"

definition start_sys_inv :: "sb_thread_kind list \<Rightarrow> 'w run_state \<Rightarrow> 'w start_sys \<Rightarrow> bool" where
  "start_sys_inv ts r s \<longleftrightarrow> (\<exists>e. start_inv_at ts r e s)"

lemma with_log_keeps [simp]:
  "glob (with_log f s) = glob s" "running (with_log f s) = running s"
  "run_exec_timer (with_log f s) = run_exec_timer s" "run_cum1 (with_log f s) = run_cum1 s"
  "run_cum2 (with_log f s) = run_cum2 s"
  by (simp_all add: with_log_def split: option.split)

lemma thread_prologue_keeps:
  assumes "thread_prologue test k s = (ok, r)"
  shows "same_start s r" and "g_error (glob r) \<noteq> 0 \<longleftrightarrow> g_error (glob s) \<noteq> 0 \<or> \<not> ok"
  using assms
  by (auto simp: thread_prologue_def worker_start_def same_start_def Let_def
      split: sb_thread_kind.splits option.splits prod.splits if_splits)

lemma before_last_env: "before_last e s \<Longrightarrow> before_last r (s\<lparr>env := r\<rparr>)"
  by (simp add: before_last_def outside_def)

lemma set_update_None:
  assumes "i < length xs" and "xs ! i = None"
  shows "Some x \<in> set (xs[i := Some y]) \<longleftrightarrow> x = y \<or> Some x \<in> set xs"
proof
  assume "Some x \<in> set (xs[i := Some y])"
  then show "x = y \<or> Some x \<in> set xs" using set_update_subset_insert [of xs i "Some y"] by auto
next
  assume "x = y \<or> Some x \<in> set xs"
  then show "Some x \<in> set (xs[i := Some y])"
  proof
    assume "Some x \<in> set xs"
    then obtain j where "j < length xs" "xs ! j = Some x" by (auto simp: in_set_conv_nth)
    with assms(2) show ?thesis by (metis length_list_update nth_list_update_neq nth_mem option.distinct(1))
  qed (use assms(1) in \<open>simp add: set_update_memI\<close>)
qed

lemma start_inv_outside:
  "start_inv_at ts r e s \<Longrightarrow> j < length ts \<Longrightarrow> st_init s ! j = None \<Longrightarrow>
     thr (st_bar s) ! j = Outside \<and> j < length (thr (st_bar s)) \<and> j < length (st_init s)"
  by (simp add: start_inv_at_def)

lemma prologue_inv:
  assumes inv: "start_inv_at ts r e s" and i: "i < length ts" "st_init s ! i = None"
    and p: "thread_prologue test (ts ! i) (env (st_bar s)) = (ok, r')"
  shows "start_inv_at ts r r' (s\<lparr>st_bar := (st_bar s)\<lparr>env := r'\<rparr>, st_init := (st_init s)[i := Some ok]\<rparr>)"
proof -
  have o: "i < length (thr (st_bar s))" "thr (st_bar s) ! i = Outside" "i < length (st_init s)"
    using start_inv_outside [OF inv i] by simp_all
  then have b: "before_last e (st_bar s)"
    using outside_before [OF _ o(1,2)] inv by (simp add: start_inv_at_def)
  then have e: "env (st_bar s) = e" by (simp add: before_last_def)
  have "Some False \<in> set ((st_init s)[i := Some ok]) \<longleftrightarrow> \<not> ok \<or> Some False \<in> set (st_init s)"
    using set_update_None [OF o(3) i(2), of False ok] by auto
  then have "g_error (glob r') \<noteq> 0 \<longleftrightarrow>
      g_error (glob r) \<noteq> 0 \<or> Some False \<in> set ((st_init s)[i := Some ok])"
    using thread_prologue_keeps(2) [OF p] inv unfolding e start_inv_at_def by blast
  moreover have "same_start r r'"
    using thread_prologue_keeps(1) [OF p] inv unfolding e start_inv_at_def same_start_def by simp
  moreover have "\<forall>j < length ts. (st_init s)[i := Some ok] ! j = None \<longrightarrow> thr (st_bar s) ! j = Outside"
    using start_inv_outside [OF inv] o(3) by (metis nth_list_update_eq nth_list_update_neq option.distinct(1))
  ultimately show ?thesis
    using inv before_last_env [OF b, of r'] by (simp add: start_inv_at_def barrier_inv_def)
qed

lemma wait_others:
  assumes "sb_barrier_wait i s t" and "j \<noteq> i" and "j < length (thr s)" and "thr s ! j = Outside"
  shows "thr t ! j = Outside"
  using assms by (cases rule: sb_barrier_wait.cases) auto

lemma spurious_others:
  assumes "spurious_wakeup i s t" and "j < length (thr s)" and "thr s ! j = Outside"
  shows "thr t ! j = Outside"
  using assms by (cases rule: spurious_wakeup.cases) (auto simp: nth_list_update)

lemma start_own_inv:
  assumes inv: "start_inv_at ts r e s" and st: "start_own test ts s t"
  shows "\<exists>e'. start_inv_at ts r e' t"
  using st
proof (cases rule: start_own.cases)
  case (prologue i ok r')
  from prologue_inv [OF inv prologue(2-4)] show ?thesis unfolding prologue(1) by blast
next
  case (wait i b)
  have "barrier_inv e b" "callback (bar b) = callback (bar (st_bar s))"
    "length (thr b) = length (thr (st_bar s))"
    using wait_inv [OF _ wait(3), of e] wait_callback [OF wait(3)] wait_decreases [OF wait(3)] inv
    by (simp_all add: start_inv_at_def)
  moreover have "thr b ! j = Outside" if "j < length ts" "st_init s ! j = None" for j
  proof -
    have "j \<noteq> i" using wait(2) that by auto
    then show ?thesis using wait_others [OF wait(3)] start_inv_outside [OF inv that] by blast
  qed
  ultimately have "start_inv_at ts r e t" using inv unfolding wait(1) by (simp add: start_inv_at_def)
  then show ?thesis by blast
qed

lemma start_step_inv:
  assumes "start_sys_inv ts r s" and st: "start_step test ts s t"
  shows "start_sys_inv ts r t"
proof -
  obtain e where inv: "start_inv_at ts r e s" using assms(1) by (auto simp: start_sys_inv_def)
  show ?thesis
    using st
  proof (cases rule: start_step.cases)
    case own
    from start_own_inv [OF inv own] show ?thesis by (simp add: start_sys_inv_def)
  next
    case (spurious i b)
    have "barrier_inv e b" "bar b = bar (st_bar s)" "length (thr b) = length (thr (st_bar s))"
      using spurious_inv [OF _ spurious(2), of e] spurious_keeps [OF spurious(2)] inv
      by (simp_all add: start_inv_at_def)
    moreover have "thr b ! j = Outside" if "j < length ts" "st_init s ! j = None" for j
      using spurious_others [OF spurious(2), of j] start_inv_outside [OF inv that] by simp
    ultimately have "start_inv_at ts r e t"
      using inv unfolding spurious(1) by (simp add: start_inv_at_def)
    then show ?thesis by (auto simp: start_sys_inv_def)
  qed
qed

lemma start_progress:
  assumes "start_sys_inv ts r s" and "\<not> all_returned (st_bar s)"
  shows "\<exists>t. start_own test ts s t"
proof -
  obtain e where inv: "start_inv_at ts r e s" using assms(1) by (auto simp: start_sys_inv_def)
  then have "barrier_inv e (st_bar s)" by (simp add: start_inv_at_def)
  from wait_progress [OF this assms(2)]
  obtain i b where w: "sb_barrier_wait i (st_bar s) b" "i < length (thr (st_bar s))" by blast
  show ?thesis
  proof (cases "i < length ts \<and> st_init s ! i = None")
    case True
    obtain ok r' where "thread_prologue test (ts ! i) (env (st_bar s)) = (ok, r')" by fastforce
    with True show ?thesis by (blast intro: start_own.prologue)
  next
    case False
    then have "i = length ts \<or> (i < length ts \<and> st_init s ! i \<noteq> None)"
      using w(2) inv by (auto simp: start_inv_at_def less_Suc_eq)
    from start_own.wait [OF this w(1)] show ?thesis by blast
  qed
qed

lemma start_decreases:
  assumes "start_sys_inv ts r s" and "start_own test ts s t"
  shows "start_left t < start_left s"
  using assms(2)
proof (cases rule: start_own.cases)
  case (prologue i ok r')
  have "i < length (st_init s)"
    using assms(1) prologue(2) by (auto simp: start_sys_inv_def start_inv_at_def)
  from filter_update_length [OF this, of "\<lambda>x. x = None" "Some ok"] prologue(3)
  show ?thesis unfolding prologue(1)
    by (simp add: start_left_def prologues_left_def steps_left_def outside_def woken_def)
next
  case (wait i b)
  from wait_decreases [OF wait(3)] show ?thesis
    unfolding wait(1) by (simp add: start_left_def prologues_left_def)
qed

definition start_init :: "sb_thread_kind list \<Rightarrow> 'w run_state \<Rightarrow> 'w start_sys \<Rightarrow> bool" where
  "start_init ts r s \<longleftrightarrow>
     (\<exists>b. s = start_state b r \<and> ts = planned_threads (glob r) \<and>
          unat (num_threads (glob r)) < 4294967292 \<and>
          sb_barrier_init 0 0 (barrier_threads (glob r)) (Some threads_started_callback) = Inr b)"

lemma start_init_inv: "start_init ts r s \<Longrightarrow> start_sys_inv ts r s"
proof -
  assume "start_init ts r s"
  then obtain b where s: "s = start_state b r" "ts = planned_threads (glob r)"
    and n: "unat (num_threads (glob r)) < 4294967292"
    and b: "sb_barrier_init 0 0 (barrier_threads (glob r)) (Some threads_started_callback) = Inr b"
    by (auto simp: start_init_def)
  have "barrier_start (st_bar s)"
    unfolding barrier_start_def s(1)
    using b planned_threads_length [OF n]
    by (intro conjI exI [of _ "barrier_threads (glob r)"] exI [of _ "Some threads_started_callback"])
      (simp_all add: start_state_def Let_def)
  then have "barrier_inv r (st_bar s)"
    using start_inv [of "st_bar s" r] by (simp add: s(1) start_state_def Let_def)
  moreover have "callback b = Some threads_started_callback"
    using b by (auto simp: sb_barrier_init_def split: if_splits)
  ultimately have "start_inv_at ts r r s"
    unfolding s by (auto simp: start_inv_at_def start_state_def same_start_def Let_def nth_append
        simp del: replicate_Suc)
  then show ?thesis by (auto simp: start_sys_inv_def)
qed

interpretation sts: progress_system "start_init ts r" "start_step test ts" "start_sys_inv ts r"
    "start_own test ts" "\<lambda>s. all_returned (st_bar s)" start_left for test ts r
  by unfold_locales (fact start_init_inv start_step_inv start_step.own start_progress start_decreases)+

section \<open>Properties\<close>

text \<open>C9: A worker thread executes the requests of its test in order, each once, and its loop ends:
  without a time limit and outside the tx-rate mode, with a test that hands out the requests
  \<open>rem w\<close> and then the null request, and whose execution fails exactly on the requests \<open>bad\<close>, the
  requests executed are those up to and including the first bad one, or all of them.\<close>

theorem worker_executes_requests:
  assumes "g_tx_rate (glob s) = 0" and "max_time (glob s) = 0" and "g_error (glob s) = 0"
    and get: "\<And>w. \<exists>w'. dn w' = dn w \<and> (case rem w of
        [] \<Rightarrow> \<exists>r. get_request test tid w = (r, w') \<and> req_type r = SB_REQ_TYPE_NULL
      | r # rs \<Rightarrow> get_request test tid w = (r, w') \<and> req_type r \<noteq> SB_REQ_TYPE_NULL \<and> rem w' = rs)"
    and exec: "\<And>r w. \<exists>rc w'. execute_request test r tid w = (rc, w') \<and> rem w' = rem w \<and>
        dn w' = dn w @ [r] \<and> (rc \<noteq> 0 \<longleftrightarrow> bad r)"
  shows "\<exists>s'. worker_loop test tid s = Some s' \<and>
              dn (tworld s') = dn (tworld s) @ takeWhile (\<lambda>r. \<not> bad r) (rem (tworld s))
                                 @ take 1 (dropWhile (\<lambda>r. \<not> bad r) (rem (tworld s)))"
  using assms(1-3)
proof (induction "rem (tworld s)" arbitrary: s)
  case Nil
  obtain w' r where g: "get_request test tid (tworld s) = (r, w')" "req_type r = SB_REQ_TYPE_NULL"
    "dn w' = dn (tworld s)"
    using get [of "tworld s"] Nil.hyps [symmetric] by auto
  then have "worker_round test tid s = Stop (s\<lparr>tworld := w'\<rparr>)"
    using Nil.prems by (simp add: worker_round_def worker_request_def Let_def)
  then have "worker_loop test tid s = Some (s\<lparr>tworld := w'\<rparr>)" by (subst worker_loop.simps) simp
  with g(3) show ?case using Nil.hyps [symmetric] by simp
next
  case (Cons r rs)
  obtain w1 where g: "get_request test tid (tworld s) = (r, w1)" "req_type r \<noteq> SB_REQ_TYPE_NULL"
    "rem w1 = rs" "dn w1 = dn (tworld s)"
    using get [of "tworld s"] Cons.hyps(2) [symmetric] by auto
  obtain rc w2 where e: "execute_request test r tid w1 = (rc, w2)" "rem w2 = rs"
    "dn w2 = dn (tworld s) @ [r]" "rc \<noteq> 0 \<longleftrightarrow> bad r"
    using exec [of r w1] g(3,4) by auto
  have round: "worker_round test tid s
      = (if bad r then Stop (s\<lparr>tworld := w2\<rparr>) else Again (s\<lparr>tworld := w2\<rparr>))"
    using Cons.prems g(1,2) e(1,4) by (simp add: worker_round_def worker_request_def Let_def)
  show ?case
  proof (cases "bad r")
    case True
    then have "worker_loop test tid s = Some (s\<lparr>tworld := w2\<rparr>)"
      using round by (subst worker_loop.simps) simp
    with True e(3) show ?thesis using Cons.hyps(2) [symmetric] by simp
  next
    case False
    then have loop: "worker_loop test tid s = worker_loop test tid (s\<lparr>tworld := w2\<rparr>)"
      using round by (subst worker_loop.simps) simp
    from Cons.hyps(1) [of "s\<lparr>tworld := w2\<rparr>"] e(2,3) Cons.prems
    show ?thesis unfolding loop Cons.hyps(2) [symmetric] using False by simp
  qed
qed

text \<open>A test for examples: its world is the requests left and the requests executed.\<close>

definition example_test :: "(nat sb_request list \<times> nat sb_request list, nat) sb_test" where
  "example_test = \<lparr>t_sname = ''example'', t_lname = ''example test'',
     t_ops = \<lparr>top_init = None, top_prepare = None, top_thread_init = None, top_print_mode = None,
       top_get_request = Some (\<lambda>_ w. case filter (\<lambda>r. req_type r \<noteq> SB_REQ_TYPE_NULL) (fst w) of
           [] \<Rightarrow> (\<lparr>req_type = SB_REQ_TYPE_NULL, req_data = None\<rparr>, w)
         | r # rs \<Rightarrow> (r, (rs, snd w))),
       top_execute_request = Some (\<lambda>r _ w. (if req_data r = None then 1 else 0, (fst w, snd w @ [r]))),
       top_print_stats = None, top_thread_done = None, top_cleanup = None, top_done = None\<rparr>,
     t_cmds = \<lparr>cmd_help = None, cmd_prepare = None, cmd_cleanup = None\<rparr>, t_args = None\<rparr>"

abbreviation (input) cpu_request :: "'r \<Rightarrow> 'r sb_request" where
  "cpu_request n \<equiv> \<lparr>req_type = SB_REQ_TYPE_CPU, req_data = Some n\<rparr>"

definition example_globals :: sb_globals where
  "example_globals = \<lparr>command = SB_COMMAND_RUN, g_error = 0, num_threads = 2, report_interval = 0,
     checkpoints = [], g_tx_rate = 0, max_requests = 3, sb_globals.max_time = 0, debug = False,
     force_shutdown = False, timeout = 0, validate = False, thread_stack_size = 65536,
     rand_init = False, rand_seed = 0\<rparr>"

definition example_run :: "'w \<Rightarrow> 'w run_state" where
  "example_run w =
     (let t = sb_timer_init \<lparr>time_start = zero_timespec, time_end = zero_timespec,
                time_split = zero_timespec, elapsed = 0, min_time = 0, sb_timer.max_time = 0, sum_time = 0,
                events = 0, queue_time = 0, timer_state = TIMER_UNINITIALIZED\<rparr>
      in \<lparr>glob = example_globals, run_exec_timer = t, run_cum1 = t, run_cum2 = t, running = 0,
          evq = eq example_eq, tworld = w, clock = (\<lambda>_. zero_timespec), ticks = 0,
          aborted = False, rng = default_rnd, lgr = example_logger example_histogram\<rparr>)"

theorem worker_executes_requests_witness:
  "\<exists>s'. worker_loop example_test 0 (example_run ([cpu_request 1, cpu_request 2], [])) = Some s' \<and>
        snd (tworld s') = [cpu_request 1, cpu_request 2]"
proof -
  let ?s = "example_run ([cpu_request (1 :: nat), cpu_request 2], [])"
  let ?rem = "\<lambda>w. filter (\<lambda>r. req_type r \<noteq> SB_REQ_TYPE_NULL) (fst w) :: nat sb_request list"
  have get: "\<exists>w'. snd w' = snd w \<and> (case ?rem w of
        [] \<Rightarrow> \<exists>r. get_request example_test 0 w = (r, w') \<and> req_type r = SB_REQ_TYPE_NULL
      | r # rs \<Rightarrow> get_request example_test 0 w = (r, w') \<and> req_type r \<noteq> SB_REQ_TYPE_NULL \<and> ?rem w' = rs)"
    for w :: "nat sb_request list \<times> nat sb_request list"
  proof (cases "?rem w")
    case (Cons r rs)
    then have "r \<in> set (?rem w)" and "set rs \<subseteq> set (?rem w)" by auto
    then have "req_type r \<noteq> SB_REQ_TYPE_NULL" and "?rem (rs, snd w) = rs" by (auto simp: filter_id_conv)
    then show ?thesis using Cons
      by (intro exI [of _ "(rs, snd w)"]) (simp add: get_request_def example_test_def)
  next
    case Nil
    then show ?thesis by (intro exI [of _ w]) (simp add: get_request_def example_test_def)
  qed
  have exec: "\<exists>rc w'. execute_request example_test r 0 w = (rc, w') \<and> ?rem w' = ?rem w \<and>
        snd w' = snd w @ [r] \<and> (rc \<noteq> 0 \<longleftrightarrow> req_data r = None)" for r w
    by (auto simp: execute_request_def example_test_def)
  have g: "g_tx_rate (glob ?s) = 0" "max_time (glob ?s) = 0" "g_error (glob ?s) = 0"
    by (simp_all add: example_run_def example_globals_def Let_def)
  show ?thesis
    using worker_executes_requests [where dn = snd and rem = ?rem, OF g get exec]
    by (simp add: example_run_def Let_def)
qed

text \<open>The schedule of the intermediate reports: after a report the thread always finds the next
  report time (the loop that looks for it ends), it lies on the grid of the interval that starts at
  the previous report time, it is the first grid point after the present time, and the pause is
  exactly what is missing until then.\<close>

theorem report_round_schedule:
  assumes "top_print_stats (t_ops test) = Some f" and "0 < unat iv"
    and "exec_time (if report_interval (glob s) > 0
                    then s\<lparr>tworld := f SB_STAT_INTERMEDIATE (tworld s)\<rparr> else s) = (cur, s')"
    and "max (unat prev) (unat cur) + unat iv < 2 ^ 64"
  shows "\<exists>k nxt pause. report_round test iv prev s = Some (nxt, pause, s') \<and> 0 < k \<and>
           unat nxt = unat prev + k * unat iv \<and> unat cur < unat nxt \<and>
           (0 < k - 1 \<longrightarrow> unat prev + (k - 1) * unat iv \<le> unat cur) \<and>
           unat cur + unat pause = unat nxt"
proof -
  obtain k nxt where k: "report_advance iv cur prev = Some nxt" "0 < k"
    "unat nxt = unat prev + k * unat iv" "unat cur < unat nxt"
    "unat nxt \<le> max (unat prev) (unat cur) + unat iv"
    using report_advance_first [OF assms(2,4)] by blast
  obtain j where j: "k = Suc j" using k(2) by (cases k) auto
  have "0 < k - 1 \<longrightarrow> unat prev + (k - 1) * unat iv \<le> unat cur"
  proof
    assume "0 < k - 1"
    then have "unat iv \<le> j * unat iv" using j by simp
    then show "unat prev + (k - 1) * unat iv \<le> unat cur"
      using k(3,5) assms(2) j by (simp add: max_def split: if_splits)
  qed
  moreover have "unat (nxt - cur) = unat nxt - unat cur"
    using k(4) by (simp add: unat_sub word_le_nat_alt)
  ultimately show ?thesis
    using assms(1,3) k by (intro exI [of _ k] exI [of _ nxt] exI [of _ "nxt - cur"])
      (simp add: report_round_def Let_def del: unat_sub)
qed

theorem report_round_schedule_witness:
  "\<exists>k nxt pause s'. report_round (example_test\<lparr>t_ops := (t_ops example_test)\<lparr>top_print_stats := Some (\<lambda>_ w. w)\<rparr>\<rparr>)
       1000 0 (example_run ([], [])) = Some (nxt, pause, s') \<and> unat nxt = k * 1000"
proof -
  let ?t = "example_test\<lparr>t_ops := (t_ops example_test)\<lparr>top_print_stats := Some (\<lambda>_ w. w)\<rparr>\<rparr>"
  let ?s = "example_run ([], []) :: (nat sb_request list \<times> nat sb_request list) run_state"
  have e: "exec_time ?s = (0, ?s\<lparr>ticks := 1\<rparr>)"
    by (simp add: exec_time_def read_clock_def example_run_def Let_def sb_timer_value_def sb_timer_init_def
        sb_timer_reset_def)
  show ?thesis
    using report_round_schedule [of ?t "\<lambda>_ w. w" 1000 ?s 0 "?s\<lparr>ticks := 1\<rparr>" 0] e
    by (auto simp: example_run_def example_globals_def Let_def)
qed

text \<open>C10: The start of a run with fewer than \<open>2^32 - 4\<close> worker threads (the counter of the barrier is
  an \<open>unsigned int\<close>): the barrier that \<open>run_test\<close> initialises expects exactly the threads that it creates
  and itself. Under every interleaving of the initialisations of the threads, their steps at the
  barrier and spurious wake-ups, as long as some thread has not passed the barrier one of them can make
  a step of its own, and the number of such steps is bounded (the alarm that limits the initialisation
  does not go off). When all have passed, either no error was set and every
  worker was initialised, every thread goes on and the timers run, or a worker failed, every thread
  gets -1, and timers and the number of running threads are as before.\<close>

theorem start_barrier_outcome:
  assumes "unat (num_threads (glob r)) < 4294967292"
    and "sb_barrier_init 0 0 (barrier_threads (glob r)) (Some threads_started_callback) = Inr b"
    and "sb_timer_initialized (run_exec_timer r)" "sb_timer_initialized (run_cum1 r)"
      "sb_timer_initialized (run_cum2 r)"
    and "(start_step test (planned_threads (glob r)))\<^sup>*\<^sup>* (start_state b r) t"
  shows "(\<not> all_returned (st_bar t) \<longrightarrow> (\<exists>u. start_own test (planned_threads (glob r)) t u)) \<and>
         (\<forall>k u. (start_own test (planned_threads (glob r)) ^^ k) t u \<longrightarrow> k \<le> start_left t) \<and>
         (all_returned (st_bar t) \<longrightarrow>
            (let e = env (st_bar t) in
             if g_error (glob r) = 0 \<and> Some False \<notin> set (st_init t)
             then set (thr (st_bar t)) \<subseteq> {Returned 0, Returned 1} \<and>
                  running e = num_threads (glob r) \<and> sb_timer_running (run_exec_timer e) \<and>
                  sb_timer_running (run_cum1 e) \<and> sb_timer_running (run_cum2 e)
             else set (thr (st_bar t)) \<subseteq> {Returned (- 1)} \<and> running e = running r \<and>
                  run_exec_timer e = run_exec_timer r \<and> run_cum1 e = run_cum1 r \<and> run_cum2 e = run_cum2 r))"
proof (intro conjI impI allI)
  let ?ts = "planned_threads (glob r)"
  have i: "start_init ?ts r (start_state b r)" using assms(1,2) by (auto simp: start_init_def)
  show "\<exists>u. start_own test ?ts t u" if "\<not> all_returned (st_bar t)"
    by (rule sts.reach_progress [OF i assms(6) that])
  show "k \<le> start_left t" if "(start_own test ?ts ^^ k) t u" for k u
    by (rule sts.reach_own_run_bounded [OF i assms(6) that])
  obtain e where inv: "start_inv_at ?ts r e t"
    using sts.reach_inv [OF i assms(6)] by (auto simp: start_sys_inv_def)
  assume all: "all_returned (st_bar t)"
  have after: "after_last e (st_bar t)"
    using returned_after_last [OF _ all, of e] inv by (simp add: start_inv_at_def)
  have cb: "run_callback (bar (st_bar t)) e = threads_started_callback e"
    using inv by (simp add: start_inv_at_def run_callback_def)
  have same: "same_start r e"
    and err: "g_error (glob e) = 0 \<longleftrightarrow> g_error (glob r) = 0 \<and> Some False \<notin> set (st_init t)"
    using inv by (auto simp: start_inv_at_def)
  show "let e = env (st_bar t) in
             if g_error (glob r) = 0 \<and> Some False \<notin> set (st_init t)
             then set (thr (st_bar t)) \<subseteq> {Returned 0, Returned 1} \<and>
                  running e = num_threads (glob r) \<and> sb_timer_running (run_exec_timer e) \<and>
                  sb_timer_running (run_cum1 e) \<and> sb_timer_running (run_cum2 e)
             else set (thr (st_bar t)) \<subseteq> {Returned (- 1)} \<and> running e = running r \<and>
                  run_exec_timer e = run_exec_timer r \<and> run_cum1 e = run_cum1 r \<and> run_cum2 e = run_cum2 r"
  proof (cases "g_error (glob e) = 0")
    case True
    obtain s' where s': "threads_started_callback e = (0, s')" "running s' = num_threads (glob e)"
        "sb_timer_running (run_exec_timer s')" "sb_timer_running (run_cum1 s')"
        "sb_timer_running (run_cum2 s')"
      using callback_starts_timers [OF True] assms(3-5) same by (auto simp: same_start_def)
    with after cb have "env (st_bar t) = s'" "set (thr (st_bar t)) \<subseteq> {Woken 0, Returned 0, Returned 1}"
      by (simp_all add: after_last_def)
    with all s' True err same show ?thesis by (auto simp: all_returned_def same_start_def Let_def)
  next
    case False
    then have "threads_started_callback e = (1, e)" by (simp add: threads_started_callback_def)
    with after cb have "env (st_bar t) = e" "set (thr (st_bar t)) \<subseteq> {Woken 0, Returned (- 1)}"
      by (simp_all add: after_last_def)
    with all False err same show ?thesis by (auto simp: all_returned_def same_start_def Let_def)
  qed
qed

theorem start_barrier_outcome_witness:
  "\<exists>b. sb_barrier_init 0 0 (barrier_threads example_globals)
         (Some (threads_started_callback :: (nat sb_request list \<times> nat sb_request list) run_state \<Rightarrow> _)) = Inr b \<and>
       (\<exists>u. start_own example_test (planned_threads example_globals)
              (start_state b (example_run ([], []))) u)"
proof -
  let ?r = "example_run ([], []) :: (nat sb_request list \<times> nat sb_request list) run_state"
  have g: "glob ?r = example_globals" by (simp add: example_run_def Let_def)
  have n: "barrier_threads example_globals = 3" by (simp add: barrier_threads_def example_globals_def)
  obtain b where b: "sb_barrier_init 0 0 (barrier_threads (glob ?r))
         (Some (threads_started_callback :: (nat sb_request list \<times> nat sb_request list) run_state \<Rightarrow> _)) = Inr b"
    unfolding g n by (simp add: sb_barrier_init_def)
  have "unat (num_threads (glob ?r)) < 4294967292" by (simp add: g example_globals_def)
  moreover have "sb_timer_initialized (run_exec_timer ?r)" "sb_timer_initialized (run_cum1 ?r)"
    "sb_timer_initialized (run_cum2 ?r)"
    by (simp_all add: example_run_def Let_def sb_timer_initialized_def sb_timer_init_def)
  moreover have "\<not> all_returned (st_bar (start_state b ?r))"
    by (simp add: all_returned_def start_state_def Let_def)
  ultimately show ?thesis
    using start_barrier_outcome [OF _ b _ _ _ rtranclp.rtrancl_refl, of example_test] b by (auto simp: g)
qed

end
