(* ===== verification/Test_Env.thy ===== *)
theory Test_Env
  imports Sysbench_Run
begin

text \<open>
  What the tests under \<open>tests\<close> use of the rest of the program: the settings \<open>sb_globals\<close>, the logger with the
  timers of the threads, the random numbers, and the timers \<open>exec_timer\<close> and \<open>cumulative_timer1\<close>. Each test extends
  this record with its own static variables. \<^const>\<open>None\<close> is undefined behaviour or \<open>abort\<close>.
\<close>

record test_env =
  te_glob :: sb_globals
  te_lgr :: logger
  te_clock :: "nat \<Rightarrow> timespec"
  te_ticks :: nat
  te_rng :: rnd_state
  te_exec :: sb_timer
  te_cum1 :: sb_timer

definition say :: "log_msg_priority \<Rightarrow> string \<Rightarrow> 'a test_env_scheme \<Rightarrow> 'a test_env_scheme option" where
  "say p txt e = map_option (\<lambda>L. e\<lparr>te_lgr := L\<rparr>) (log_text p txt (te_lgr e))"

definition say_all :: "log \<Rightarrow> 'a test_env_scheme \<Rightarrow> 'a test_env_scheme option" where
  "say_all ms e = map_option (\<lambda>L. e\<lparr>te_lgr := L\<rparr>) (log_all ms (te_lgr e))"

text \<open>\<open>LOG_EVENT_START\<close> and \<open>LOG_EVENT_STOP\<close> read the clock once.\<close>

definition event_start :: "nat \<Rightarrow> 'a test_env_scheme \<Rightarrow> 'a test_env_scheme option" where
  "event_start tid e =
     map_option (\<lambda>L. e\<lparr>te_lgr := L, te_ticks := te_ticks e + 1\<rparr>)
       (LOG_EVENT_START (te_clock e (te_ticks e)) (int tid) (te_lgr e))"

definition event_stop :: "nat \<Rightarrow> 'a test_env_scheme \<Rightarrow> 'a test_env_scheme option" where
  "event_stop tid e =
     map_option (\<lambda>L. e\<lparr>te_lgr := L, te_ticks := te_ticks e + 1\<rparr>)
       (LOG_EVENT_STOP (te_clock e (te_ticks e)) (int tid) (te_lgr e))"

text \<open>\<open>sb_rnd ()\<close>, and \<open>sb_timer_split\<close> of the two timers.\<close>

definition draw :: "'a test_env_scheme \<Rightarrow> nat \<times> 'a test_env_scheme" where
  "draw e = (let (r, g) = sb_rnd (te_rng e) in (r, e\<lparr>te_rng := g\<rparr>))"

definition split_exec :: "'a test_env_scheme \<Rightarrow> (u64 \<times> 'a test_env_scheme) option" where
  "split_exec e =
     do { (ns, t, ms) \<leftarrow> sb_timer_split (te_clock e (te_ticks e)) (te_exec e);
          e \<leftarrow> say_all ms (e\<lparr>te_exec := t, te_ticks := te_ticks e + 1\<rparr>);
          Some (ns, e) }"

definition split_cum1 :: "'a test_env_scheme \<Rightarrow> (u64 \<times> 'a test_env_scheme) option" where
  "split_cum1 e =
     do { (ns, t, ms) \<leftarrow> sb_timer_split (te_clock e (te_ticks e)) (te_cum1 e);
          e \<leftarrow> say_all ms (e\<lparr>te_cum1 := t, te_ticks := te_ticks e + 1\<rparr>);
          Some (ns, e) }"

text \<open>A working logger with a timer for each of \<open>n\<close> threads: messages and events succeed and leave it
  working, whatever was measured.\<close>

definition env_ok :: "nat \<Rightarrow> 'a test_env_scheme \<Rightarrow> bool" where
  "env_ok n e \<longleftrightarrow> (\<exists>a :: oper_spec. oper_holds a (te_lgr e)) \<and> length (log_timers (te_lgr e)) = n"

lemma oper_holds_log:
  assumes "oper_holds a L"
  obtains L' where "log_all ms L = Some L'" "oper_holds a L'" "length (log_timers L') = length (log_timers L)"
proof -
  have "log_ready L" using assms by (simp add: oper_holds_def)
  from log_all_frame [OF this, of ms] obtain L' where L': "log_all ms L = Some L'" "log_ready L'"
    "oper_percentile L' = oper_percentile L" "log_timers L' = log_timers L" by blast
  then have "oper_holds a L'" using assms by (simp add: oper_holds_def)
  with L' that show ?thesis by simp
qed

lemma env_ok_say_all:
  assumes "env_ok n e"
  obtains L where "say_all ms e = Some (e\<lparr>te_lgr := L\<rparr>)" "env_ok n (e\<lparr>te_lgr := L\<rparr>)"
proof -
  from assms obtain a :: oper_spec where h: "oper_holds a (te_lgr e)" and n: "length (log_timers (te_lgr e)) = n"
    by (auto simp: env_ok_def)
  obtain L where L: "log_all ms (te_lgr e) = Some L" "oper_holds a L" "length (log_timers L) = n"
    using oper_holds_log [OF h, of ms] n by metis
  show ?thesis
  proof (rule that [of L])
    show "say_all ms e = Some (e\<lparr>te_lgr := L\<rparr>)" by (simp add: say_all_def L(1))
    show "env_ok n (e\<lparr>te_lgr := L\<rparr>)" using L(2,3) by (auto simp: env_ok_def)
  qed
qed

lemma say_as_all: "say p txt e = say_all [(p, txt)] e"
  by (simp add: say_def say_all_def split: option.split)

lemma env_ok_say:
  assumes "env_ok n e"
  obtains L where "say p txt e = Some (e\<lparr>te_lgr := L\<rparr>)" "env_ok n (e\<lparr>te_lgr := L\<rparr>)"
  using env_ok_say_all [OF assms, of "[(p, txt)]"] unfolding say_as_all by blast

lemma env_ok_start:
  assumes "env_ok n e" and "tid < n"
  obtains L where "event_start tid e = Some (e\<lparr>te_lgr := L, te_ticks := te_ticks e + 1\<rparr>)"
    "env_ok n (e\<lparr>te_lgr := L, te_ticks := te_ticks e + 1\<rparr>)"
proof -
  from assms obtain a :: oper_spec where h: "oper_holds a (te_lgr e)" "length (log_timers (te_lgr e)) = n"
    by (auto simp: env_ok_def)
  from oper_start [OF h(1), of tid "te_clock e (te_ticks e)"] assms(2) h(2) obtain L and a' :: oper_spec where
    "LOG_EVENT_START (te_clock e (te_ticks e)) (int tid) (te_lgr e) = Some L" "oper_holds a' L"
    "length (log_timers L) = n" by auto
  then show thesis by (intro that [of L]) (auto simp: event_start_def env_ok_def)
qed

lemma env_ok_stop:
  assumes "env_ok n e" and "tid < n"
  obtains L where "event_stop tid e = Some (e\<lparr>te_lgr := L, te_ticks := te_ticks e + 1\<rparr>)"
    "env_ok n (e\<lparr>te_lgr := L, te_ticks := te_ticks e + 1\<rparr>)"
proof -
  from assms obtain a :: oper_spec where h: "oper_holds a (te_lgr e)" "length (log_timers (te_lgr e)) = n"
    by (auto simp: env_ok_def)
  from oper_stop [OF h(1), of tid "te_clock e (te_ticks e)"] assms(2) h(2) obtain L and a' :: oper_spec where
    "LOG_EVENT_STOP (te_clock e (te_ticks e)) (int tid) (te_lgr e) = Some L" "oper_holds a' L"
    "length (log_timers L) = n" by auto
  then show thesis by (intro that [of L]) (auto simp: event_stop_def env_ok_def)
qed

text \<open>Messages, events and random numbers change the common part only.\<close>

lemma env_frames:
  "say p txt e = Some e' \<Longrightarrow> \<exists>L. e' = e\<lparr>te_lgr := L\<rparr>"
  "event_start tid e = Some e' \<Longrightarrow> \<exists>L k. e' = e\<lparr>te_lgr := L, te_ticks := k\<rparr>"
  "event_stop tid e = Some e' \<Longrightarrow> \<exists>L k. e' = e\<lparr>te_lgr := L, te_ticks := k\<rparr>"
  "draw e = (r, e') \<Longrightarrow> \<exists>g. e' = e\<lparr>te_rng := g\<rparr>"
  by (auto simp: say_def event_start_def event_stop_def draw_def Let_def split: prod.splits)

section \<open>Runs of one worker\<close>

text \<open>The rounds of one worker without other threads: \<open>worker_runs test tid w n w'\<close> if it executes \<open>n\<close> requests from
  the world \<open>w\<close> on and stops in \<open>w'\<close>, after a null request or a failure.\<close>

inductive worker_runs :: "('w, 'r) sb_test \<Rightarrow> nat \<Rightarrow> 'w \<Rightarrow> nat \<Rightarrow> 'w \<Rightarrow> bool" for test tid where
  no_more: "get_request test tid w = (r, w') \<Longrightarrow> req_type r = SB_REQ_TYPE_NULL \<Longrightarrow> worker_runs test tid w 0 w'"
| failed: "get_request test tid w = (r, w1) \<Longrightarrow> req_type r \<noteq> SB_REQ_TYPE_NULL \<Longrightarrow>
    execute_request test r tid w1 = (rc, w') \<Longrightarrow> rc \<noteq> 0 \<Longrightarrow> worker_runs test tid w 1 w'"
| again: "get_request test tid w = (r, w1) \<Longrightarrow> req_type r \<noteq> SB_REQ_TYPE_NULL \<Longrightarrow>
    execute_request test r tid w1 = (0, w2) \<Longrightarrow> worker_runs test tid w2 n w' \<Longrightarrow>
    worker_runs test tid w (Suc n) w'"

text \<open>Outside the tx-rate mode and without a time limit the loop of the worker does exactly this.\<close>

definition plain_run :: "'w run_state \<Rightarrow> bool" where
  "plain_run s \<longleftrightarrow> g_tx_rate (glob s) = 0 \<and> max_time (glob s) = 0 \<and> g_error (glob s) = 0"

lemma worker_loop_runs:
  assumes "worker_runs test tid w n w'" and "plain_run s" and "tworld s = w"
  shows "worker_loop test tid s = Some (s\<lparr>tworld := w'\<rparr>)"
  using assms
proof (induction arbitrary: s)
  case (no_more w r w')
  then have "worker_round test tid s = Stop (s\<lparr>tworld := w'\<rparr>)"
    by (simp add: plain_run_def worker_round_def worker_request_def Let_def)
  then show ?case by (subst worker_loop.simps) simp
next
  case (failed w r w1 rc w')
  then have "worker_round test tid s = Stop (s\<lparr>tworld := w'\<rparr>)"
    by (simp add: plain_run_def worker_round_def worker_request_def Let_def)
  then show ?case by (subst worker_loop.simps) simp
next
  case (again w r w1 w2 n w')
  then have "worker_round test tid s = Again (s\<lparr>tworld := w2\<rparr>)"
    by (simp add: plain_run_def worker_round_def worker_request_def Let_def)
  then have "worker_loop test tid s = worker_loop test tid (s\<lparr>tworld := w2\<rparr>)"
    by (subst worker_loop.simps) simp
  also have "\<dots> = Some (s\<lparr>tworld := w'\<rparr>)"
    using again.IH [of "s\<lparr>tworld := w2\<rparr>"] again.prems by (simp add: plain_run_def)
  finally show ?case .
qed

text \<open>A worker whose rounds never stop does not return.\<close>

lemma worker_never_stops:
  assumes "P s" and "\<And>s. P s \<Longrightarrow> \<exists>s'. worker_round test tid s = Again s' \<and> P s'"
  shows "worker_loop test tid s = None"
proof (rule ccontr)
  assume "worker_loop test tid s \<noteq> None"
  then obtain r where r: "worker_loop test tid s = Some r" by auto
  have "test = test \<longrightarrow> tid = tid \<longrightarrow> \<not> P s"
  proof (rule worker_loop.raw_induct [where P = "\<lambda>te ti s _. te = test \<longrightarrow> ti = tid \<longrightarrow> \<not> P s", OF _ r], intro impI notI)
    fix wl te ti s r
    assume IH: "\<And>te ti s r. wl te ti s = Some r \<Longrightarrow> te = test \<longrightarrow> ti = tid \<longrightarrow> \<not> P s"
      and body: "(case worker_round te ti s of Again x \<Rightarrow> wl te ti x | Stop x \<Rightarrow> Some x | Blocked \<Rightarrow> None) = Some r"
      and "te = test" "ti = tid" "P s"
    then show False using assms(2) [OF \<open>P s\<close>] by auto
  qed
  with assms(1) show False by simp
qed

end
