(* ===== verification/Bench_Tests.thy ===== *)
theory Bench_Tests
  imports Test_Env
begin

text \<open>
  The tests \<open>cpu\<close>, \<open>threads\<close>, \<open>mutex\<close> and \<open>memory\<close> under \<open>tests\<close>: static variables as records, one definition per
  operation, and the tests as the records of operations that \<open>sysbench.c\<close> runs. In such a record the
  world is an optional state; \<^const>\<open>None\<close> is that an operation was undefined or ended the process. Code under one mutex is
  one step; the locks themselves are not part of the state.
\<close>

definition lift_test_op :: "('s \<Rightarrow> (int \<times> 's) option) \<Rightarrow> 's option \<Rightarrow> int \<times> 's option" where
  "lift_test_op f w = (case Option.bind w f of None \<Rightarrow> (1, None) | Some (rc, s) \<Rightarrow> (rc, Some s))"

definition lift_get :: "('s \<Rightarrow> ('r sb_request \<times> 's) option) \<Rightarrow> 's option \<Rightarrow> 'r sb_request \<times> 's option" where
  "lift_get f w =
     (case Option.bind w f of
        None \<Rightarrow> (\<lparr>req_type = SB_REQ_TYPE_NULL, req_data = None\<rparr>, None)
      | Some (r, s) \<Rightarrow> (r, Some s))"

definition lift_init :: "('s \<Rightarrow> (int + int \<times> 's) option) \<Rightarrow> 's option \<Rightarrow> int \<times> 's option" where
  "lift_init f w =
     (case Option.bind w f of
        None \<Rightarrow> (1, None) | Some (Inl rc) \<Rightarrow> (rc, None) | Some (Inr (rc, s)) \<Rightarrow> (rc, Some s))"

definition no_ops :: "('w, 'r) sb_operations" where
  "no_ops = \<lparr>top_init = None, top_prepare = None, top_thread_init = None, top_print_mode = None,
     top_get_request = None, top_execute_request = None, top_print_stats = None, top_thread_done = None,
     top_cleanup = None, top_done = None\<rparr>"

definition no_cmds :: "'w sb_commands" where
  "no_cmds = \<lparr>cmd_help = None, cmd_prepare = None, cmd_cleanup = None\<rparr>"

abbreviation (input) null_request :: "'r sb_request" where
  "null_request \<equiv> \<lparr>req_type = SB_REQ_TYPE_NULL, req_data = None\<rparr>"

section \<open>CPU\<close>

record cpu_state = test_env +
  max_prime :: u32
  cpu_performed :: u32

definition cpu_args :: "sb_arg list" where
  "cpu_args = [mk_arg ''cpu-max-prime'' ''upper limit for primes generator'' SB_ARG_TYPE_INT (Some ''10000'')]"

definition cpu_init :: "options \<Rightarrow> cpu_state \<Rightarrow> (int + int \<times> cpu_state) option" where
  "cpu_init opts s =
     (case sb_get_value_int opts ''cpu-max-prime'' of
        Inl rc \<Rightarrow> Some (Inl rc)
      | Inr prime_option \<Rightarrow>
          if prime_option \<le> 0
          then do { s \<leftarrow> say LOG_FATAL (''Invalid value of cpu-max-prime: '' @ show_int prime_option @ ''.'') s;
                    Some (Inr (1, s)) }
          else Some (Inr (0, s\<lparr>max_prime := word_of_int prime_option, cpu_performed := 0\<rparr>)))"

text \<open>\<open>cpu_get_request\<close> reads the counter without the lock and increments it under the lock.\<close>

definition cpu_exhausted :: "cpu_state \<Rightarrow> bool" where
  "cpu_exhausted s \<longleftrightarrow> max_requests (te_glob s) > 0 \<and> cpu_performed s \<ge> max_requests (te_glob s)"

definition cpu_count :: "cpu_state \<Rightarrow> cpu_state" where
  "cpu_count s = s\<lparr>cpu_performed := cpu_performed s + 1\<rparr>"

definition cpu_get_request :: "cpu_state \<Rightarrow> unit sb_request \<times> cpu_state" where
  "cpu_get_request s =
     (if cpu_exhausted s then (null_request, s)
      else (\<lparr>req_type = SB_REQ_TYPE_CPU, req_data = None\<rparr>, cpu_count s))"

text \<open>The loops over \<open>l\<close> (from \<open>l\<close> on, the value with which the loop ends) and over \<open>c\<close>.\<close>

function find_divisor :: "nat \<Rightarrow> nat \<Rightarrow> nat" where
  "find_divisor c l = (if real l \<le> sqrt (real c) then (if c mod l = 0 then l else find_divisor c (l + 1)) else l)"
  by auto
termination
proof (relation "measure (\<lambda>(c, l). nat \<lceil>sqrt (real c)\<rceil> + 1 - l)")
  fix c l :: nat
  assume "real l \<le> sqrt (real c)"
  then have "l \<le> nat \<lceil>sqrt (real c)\<rceil>" by linarith
  then show "((c, l + 1), (c, l)) \<in> measure (\<lambda>(c, l). nat \<lceil>sqrt (real c)\<rceil> + 1 - l)" by simp
qed simp

definition cpu_primes :: "nat \<Rightarrow> nat" where
  "cpu_primes limit = fold (\<lambda>c n. if real (find_divisor c 2) > sqrt (real c) then n + 1 else n) [3..<limit] 0"

definition cpu_execute_request :: "nat \<Rightarrow> cpu_state \<Rightarrow> (int \<times> cpu_state) option" where
  "cpu_execute_request tid s =
     do { s \<leftarrow> event_start tid s; let n = cpu_primes (unat (max_prime s)); s \<leftarrow> event_stop tid s; Some (0, s) }"

definition cpu_print_mode :: "cpu_state \<Rightarrow> cpu_state option" where
  "cpu_print_mode s =
     do { s \<leftarrow> say LOG_INFO ''Doing CPU performance benchmark\<newline>'' s;
          say LOG_NOTICE (''Prime numbers limit: '' @ show_int (sint (max_prime s)) @ [CHR 0x0A]) s }"

definition cpu_test :: "options \<Rightarrow> (cpu_state option, unit) sb_test" where
  "cpu_test opts = \<lparr>t_sname = ''cpu'', t_lname = ''CPU performance test'',
     t_ops = no_ops\<lparr>top_init := Some (lift_init (cpu_init opts)), top_print_mode := Some (\<lambda>w. Option.bind w cpu_print_mode),
       top_get_request := Some (\<lambda>_. lift_get (Some \<circ> cpu_get_request)),
       top_execute_request := Some (\<lambda>_ tid. lift_test_op (cpu_execute_request tid)),
       top_done := Some (lift_test_op (\<lambda>s. Some (0, s)))\<rparr>,
     t_cmds = no_cmds, t_args = Some cpu_args\<rparr>"

section \<open>Threads\<close>

record threads_state = test_env +
  thread_yields :: u32
  thread_locks :: u32
  test_mutexes :: nat
  threads_performed :: u32

definition threads_args :: "sb_arg list" where
  "threads_args =
    [mk_arg ''thread-yields'' ''number of yields to do per request'' SB_ARG_TYPE_INT (Some ''1000''),
     mk_arg ''thread-locks'' ''number of locks per thread'' SB_ARG_TYPE_INT (Some ''8'')]"

definition threads_init :: "options \<Rightarrow> threads_state \<Rightarrow> int + int \<times> threads_state" where
  "threads_init opts s =
     (case sb_get_value_int opts ''thread-yields'' of
        Inl rc \<Rightarrow> Inl rc
      | Inr y \<Rightarrow>
          (case sb_get_value_int opts ''thread-locks'' of
             Inl rc \<Rightarrow> Inl rc
           | Inr l \<Rightarrow> Inr (0, s\<lparr>thread_yields := word_of_int y, thread_locks := word_of_int l,
                               threads_performed := 0\<rparr>)))"

text \<open>\<open>test_mutexes\<close> is the number of mutexes in the array; \<open>alloc\<close> tells whether \<open>malloc\<close> succeeds.\<close>

definition threads_prepare :: "bool \<Rightarrow> threads_state \<Rightarrow> (int \<times> threads_state) option" where
  "threads_prepare alloc s =
     (if \<not> alloc then do { s \<leftarrow> say LOG_FATAL ''Memory allocation failure!'' s; Some (1, s) }
      else Some (0, s\<lparr>test_mutexes := unat (thread_locks s)\<rparr>))"

definition threads_cleanup :: "threads_state \<Rightarrow> int \<times> threads_state" where
  "threads_cleanup s = (0, s\<lparr>test_mutexes := 0\<rparr>)"

definition threads_get_request :: "threads_state \<Rightarrow> (nat sb_request \<times> threads_state) option" where
  "threads_get_request s =
     (if max_requests (te_glob s) > 0 \<and> threads_performed s \<ge> max_requests (te_glob s)
      then Some (null_request, s)
      else if thread_locks s = 0 then None
      else Some (\<lparr>req_type = SB_REQ_TYPE_THREADS, req_data = Some (unat (threads_performed s mod thread_locks s))\<rparr>,
                 s\<lparr>threads_performed := threads_performed s + 1\<rparr>))"

text \<open>The loop locks and unlocks one element of the array \<open>thread_yields\<close> times.\<close>

definition threads_execute_request :: "nat sb_request \<Rightarrow> nat \<Rightarrow> threads_state \<Rightarrow> (int \<times> threads_state) option" where
  "threads_execute_request r tid s =
     do { lock_num \<leftarrow> req_data r; s \<leftarrow> event_start tid s;
          if thread_yields s > 0 \<and> lock_num \<ge> test_mutexes s then None
          else do { s \<leftarrow> event_stop tid s; Some (0, s) } }"

definition threads_test :: "options \<Rightarrow> bool \<Rightarrow> (threads_state option, nat) sb_test" where
  "threads_test opts alloc = \<lparr>t_sname = ''threads'', t_lname = ''Threads subsystem performance test'',
     t_ops = no_ops\<lparr>top_init := Some (lift_init (\<lambda>s. Some (threads_init opts s))),
       top_prepare := Some (lift_test_op (threads_prepare alloc)),
       top_print_mode := Some (\<lambda>w. Option.bind w (\<lambda>s. do {
         s \<leftarrow> say LOG_INFO ''Doing thread subsystem performance test'' s;
         say LOG_INFO (''Thread yields per test: '' @ show_int (sint (thread_yields s)) @ '' Locks used: ''
           @ show_int (sint (thread_locks s))) s })),
       top_get_request := Some (\<lambda>_. lift_get threads_get_request),
       top_execute_request := Some (\<lambda>r tid. lift_test_op (threads_execute_request r tid)),
       top_done := Some (lift_test_op (Some \<circ> threads_cleanup))\<rparr>,
     t_cmds = no_cmds, t_args = Some threads_args\<rparr>"

section \<open>Mutex\<close>

record mutex_state = test_env +
  mutex_num :: u32
  mutex_loops :: u32
  mutex_locks :: u32
  global_var :: u32
  mutex_array :: nat
  c_rand :: "nat \<Rightarrow> nat"
  c_rand_pos :: nat

record mutex_request =
  nlocks :: u32
  nloops :: u32

definition mutex_args :: "sb_arg list" where
  "mutex_args =
    [mk_arg ''mutex-num'' ''total size of mutex array'' SB_ARG_TYPE_INT (Some ''4096''),
     mk_arg ''mutex-locks'' ''number of mutex locks to do per thread'' SB_ARG_TYPE_INT (Some ''50000''),
     mk_arg ''mutex-loops'' ''number of empty loops to do inside mutex lock'' SB_ARG_TYPE_INT (Some ''10000'')]"

definition mutex_init :: "options \<Rightarrow> bool \<Rightarrow> mutex_state \<Rightarrow> (int + int \<times> mutex_state) option" where
  "mutex_init opts alloc s =
     (case (sb_get_value_int opts ''mutex-num'', sb_get_value_int opts ''mutex-loops'',
            sb_get_value_int opts ''mutex-locks'') of
        (Inr n, Inr lp, Inr lk) \<Rightarrow>
          (let s = s\<lparr>mutex_num := word_of_int n, mutex_loops := word_of_int lp, mutex_locks := word_of_int lk\<rparr> in
           if \<not> alloc then do { s \<leftarrow> say LOG_FATAL ''Memory allocation failure!'' s; Some (Inr (1, s)) }
           else Some (Inr (0, s\<lparr>mutex_array := unat (mutex_num s)\<rparr>)))
      | _ \<Rightarrow> Some (Inl EXIT_FAILURE))"

definition mutex_done :: "mutex_state \<Rightarrow> int \<times> mutex_state" where
  "mutex_done s = (0, s\<lparr>mutex_array := 0\<rparr>)"

definition mutex_get_request :: "mutex_state \<Rightarrow> mutex_request sb_request \<times> mutex_state" where
  "mutex_get_request s =
     (\<lparr>req_type = SB_REQ_TYPE_MUTEX, req_data = Some \<lparr>nlocks = mutex_locks s, nloops = mutex_loops s\<rparr>\<rparr>, s)"

text \<open>The \<open>do\<close> loop; the result is the sequence of the locks taken. \<open>c_rand\<close> gives the values of \<open>rand ()\<close>.\<close>

function mutex_loop :: "u32 \<Rightarrow> mutex_state \<Rightarrow> (nat list \<times> mutex_state) option" where
  "mutex_loop n s =
     (if mutex_num s = 0 then None
      else let current_lock = c_rand s (c_rand_pos s) mod unat (mutex_num s);
               s = s\<lparr>c_rand_pos := c_rand_pos s + 1\<rparr>
      in if current_lock \<ge> mutex_array s then None
         else let s = s\<lparr>global_var := global_var s + 1\<rparr>; n = n - 1 in
           if n > 0 then map_option (\<lambda>(ls, s). (current_lock # ls, s)) (mutex_loop n s)
           else Some ([current_lock], s))"
  by auto
termination
proof (relation "measure (\<lambda>(n, _). unat (n - 1))")
  fix n m :: u32 and s s' and l k :: nat
  show "((m, s'), n, s) \<in> measure (\<lambda>(n, _). unat (n - 1))" if "m = n - 1" and "0 < m"
  proof -
    have "unat (m - 1) < unat m" using that(2) by (simp add: unat_minus_one unat_gt_0)
    then show ?thesis using that(1) by simp
  qed
qed simp

definition mutex_execute_request ::
  "mutex_request sb_request \<Rightarrow> nat \<Rightarrow> mutex_state \<Rightarrow> (int \<times> mutex_state) option" where
  "mutex_execute_request r tid s =
     do { q \<leftarrow> req_data r; s \<leftarrow> event_start tid s; (ls, s) \<leftarrow> mutex_loop (nlocks q) s;
          s \<leftarrow> event_stop tid s; Some (1, s) }"

definition mutex_test :: "options \<Rightarrow> bool \<Rightarrow> (mutex_state option, mutex_request) sb_test" where
  "mutex_test opts alloc = \<lparr>t_sname = ''mutex'', t_lname = ''Mutex performance test'',
     t_ops = no_ops\<lparr>top_init := Some (lift_init (mutex_init opts alloc)),
       top_print_mode := Some (\<lambda>w. Option.bind w (say LOG_INFO ''Doing mutex performance test'')),
       top_get_request := Some (\<lambda>_. lift_get (Some \<circ> mutex_get_request)),
       top_execute_request := Some (\<lambda>r tid. lift_test_op (mutex_execute_request r tid)),
       top_done := Some (lift_test_op (Some \<circ> mutex_done))\<rparr>,
     t_cmds = no_cmds, t_args = Some mutex_args\<rparr>"

section \<open>Memory\<close>

datatype sb_mem_op = SB_MEM_OP_NONE | SB_MEM_OP_READ | SB_MEM_OP_WRITE
datatype sb_mem_scope = SB_MEM_SCOPE_GLOBAL | SB_MEM_SCOPE_LOCAL

record mem_request =
  mr_type :: sb_mem_op
  mr_block_size :: u64
  mr_scope :: sb_mem_scope

text \<open>A buffer is the list of its integers; a buffer that was never allocated is absent. \<open>mem_tmp\<close> is the last
  value the loops assign to \<open>tmp\<close>.\<close>

record memory_state = test_env +
  memory_block_size :: int
  memory_total_size :: int
  memory_scope :: sb_mem_scope
  memory_oper :: sb_mem_op
  memory_access_rnd :: bool
  memory_hugetlb :: bool
  total_ops :: u32
  total_bytes :: int
  last_bytes :: int
  mem_buffers :: "int list list"
  mem_buffer :: "int list option"
  mem_tmp :: int

definition memory_args :: "sb_arg list" where
  "memory_args =
    [mk_arg ''memory-block-size'' ''size of memory block for test'' SB_ARG_TYPE_SIZE (Some ''1K''),
     mk_arg ''memory-total-size'' ''total size of data to transfer'' SB_ARG_TYPE_SIZE (Some ''100G''),
     mk_arg ''memory-scope'' ''memory access scope {global,local}'' SB_ARG_TYPE_STRING (Some ''global''),
     mk_arg ''memory-hugetlb'' ''allocate memory from HugeTLB pool'' SB_ARG_TYPE_FLAG (Some ''off''),
     mk_arg ''memory-oper'' ''type of memory operations {read, write, none}'' SB_ARG_TYPE_STRING (Some ''write''),
     mk_arg ''memory-access-mode'' ''memory access mode {seq,rnd}'' SB_ARG_TYPE_STRING (Some ''seq'')]"

text \<open>Memory for one buffer: \<open>malloc\<close> or a shared segment of huge pages. \<open>shm\<close> tells how many bytes
  the segment of the requested size has, if the calls succeed; the request is the rounded size.\<close>

definition LARGE_PAGE_SIZE :: u64 where "LARGE_PAGE_SIZE = 4 * 1024 * 1024"

definition hugetlb_size :: "u64 \<Rightarrow> u64" where
  "hugetlb_size sz = ((sz - 1) AND NOT LARGE_PAGE_SIZE) + LARGE_PAGE_SIZE"

record mem_sys =
  sys_malloc :: "nat \<Rightarrow> u64 \<Rightarrow> bool"
  sys_shm :: "nat \<Rightarrow> u64 \<Rightarrow> bool"

definition alloc_buffer :: "mem_sys \<Rightarrow> bool \<Rightarrow> nat \<Rightarrow> int \<Rightarrow> int list option" where
  "alloc_buffer sys huge i bytes =
     (if (if huge then sys_shm sys i (hugetlb_size (word_of_int bytes)) else sys_malloc sys i (word_of_int bytes))
      then Some (replicate (nat (bytes div 4)) 0) else None)"

fun alloc_buffers :: "mem_sys \<Rightarrow> bool \<Rightarrow> int \<Rightarrow> nat list \<Rightarrow> nat + int list list" where
  "alloc_buffers sys huge bytes [] = Inr []"
| "alloc_buffers sys huge bytes (i # is) =
     (case alloc_buffer sys huge i bytes of
        None \<Rightarrow> Inl i
      | Some b \<Rightarrow> (case alloc_buffers sys huge bytes is of Inl j \<Rightarrow> Inl j | Inr bs \<Rightarrow> Inr (b # bs)))"

text \<open>\<open>memory_init\<close> in two parts: the options, then the buffers. \<open>Inl\<close> is the message of a failure.
  A string option without a value is a NULL pointer for \<open>strcmp\<close>.\<close>

definition memory_options :: "options \<Rightarrow> memory_state \<Rightarrow> (string + memory_state) option" where
  "memory_options opts s =
     (let bs = sb_get_value_size opts ''memory-block-size'' in
      if bs mod 4 \<noteq> 0 then Some (Inl ''memory-block-size must be a multiple of 4!'')
      else do {
        let s = s\<lparr>memory_block_size := sint bs,
                   memory_total_size := sint (sb_get_value_size opts ''memory-total-size'')\<rparr>;
        scope \<leftarrow> sb_get_value_string opts ''memory-scope'';
        if scope \<notin> {''global'', ''local''} then Some (Inl (''Invalid value for memory-scope: '' @ scope))
        else do {
          let s = s\<lparr>memory_scope := (if scope = ''global'' then SB_MEM_SCOPE_GLOBAL else SB_MEM_SCOPE_LOCAL),
                     memory_hugetlb := sb_get_value_flag opts ''memory-hugetlb''\<rparr>;
          oper \<leftarrow> sb_get_value_string opts ''memory-oper'';
          if oper \<notin> {''write'', ''read'', ''none''} then Some (Inl (''Invalid value for memory-oper: '' @ oper))
          else do {
            let s = s\<lparr>memory_oper := (if oper = ''write'' then SB_MEM_OP_WRITE
                                       else if oper = ''read'' then SB_MEM_OP_READ else SB_MEM_OP_NONE)\<rparr>;
            mode \<leftarrow> sb_get_value_string opts ''memory-access-mode'';
            if mode \<notin> {''seq'', ''rnd''} then Some (Inl (''Invalid value for memory-access-mode: '' @ mode))
            else Some (Inr (s\<lparr>memory_access_rnd := (mode = ''rnd'')\<rparr>)) } } })"

definition memory_init :: "mem_sys \<Rightarrow> bool \<Rightarrow> options \<Rightarrow> memory_state \<Rightarrow> (int \<times> memory_state) option" where
  "memory_init sys array opts s =
     (let failed = (\<lambda>msg s. do { s \<leftarrow> say LOG_FATAL msg s; Some (1, s) }) in
      case memory_options opts s of
        None \<Rightarrow> None
      | Some (Inl msg) \<Rightarrow> failed msg s
      | Some (Inr s) \<Rightarrow>
          (if memory_scope s = SB_MEM_SCOPE_GLOBAL then
             (case alloc_buffer sys (memory_hugetlb s) 0 (memory_block_size s) of
                None \<Rightarrow> failed ''Failed to allocate buffer!'' s
              | Some b \<Rightarrow> Some (0, s\<lparr>mem_buffer := Some b\<rparr>))
           else if \<not> array then failed ''Failed to allocate buffers array!'' s
           else (case alloc_buffers sys (memory_hugetlb s) (memory_block_size s)
                   [0..<unat (num_threads (te_glob s))] of
                   Inl i \<Rightarrow> failed (''Failed to allocate buffer for thread #'' @ show_nat i @ ''!'') s
                 | Inr bs \<Rightarrow> Some (0, s\<lparr>mem_buffers := bs\<rparr>))))"

definition memory_get_request :: "memory_state \<Rightarrow> (mem_request sb_request \<times> memory_state) option" where
  "memory_get_request s =
     (if total_bytes s \<ge> memory_total_size s then Some (null_request, s)
      else let bytes = total_bytes s + memory_block_size s in
        if bytes > LONG_MAX then None
        else Some (\<lparr>req_type = SB_REQ_TYPE_MEMORY,
                     req_data = Some \<lparr>mr_type = memory_oper s, mr_block_size = word_of_int (memory_block_size s),
                                      mr_scope = memory_scope s\<rparr>\<rparr>,
                   s\<lparr>total_ops := total_ops s + 1, total_bytes := bytes\<rparr>))"

text \<open>The index of the random mode, an \<open>int\<close>: the conversion of a larger number is undefined. Then the loops
  over the block; \<open>end - buf\<close> is cut to an \<open>int\<close>.\<close>

definition mem_index :: "nat \<Rightarrow> int \<Rightarrow> nat option" where
  "mem_index rnd bytes =
     (let idx = \<lfloor>real rnd / real SB_MAX_RND * real (nat (bytes div 4))\<rfloor>
      in if idx \<le> INT_MAX then Some (nat idx) else None)"

fun rnd_loop :: "sb_mem_op \<Rightarrow> nat \<Rightarrow> nat option \<Rightarrow> int \<Rightarrow> int list \<Rightarrow> (int \<times> int list) option" where
  "rnd_loop oper 0 idx tmp buf = Some (tmp, buf)"
| "rnd_loop oper (Suc n) idx tmp buf =
     (case idx of
        None \<Rightarrow> None
      | Some i \<Rightarrow>
          if i \<ge> length buf then None
          else if oper = SB_MEM_OP_WRITE then rnd_loop oper n idx tmp (buf[i := tmp])
          else rnd_loop oper n idx (buf ! i) buf)"

fun seq_loop :: "sb_mem_op \<Rightarrow> nat \<Rightarrow> nat \<Rightarrow> int \<Rightarrow> int list \<Rightarrow> (int \<times> int list) option" where
  "seq_loop oper 0 i tmp buf = Some (tmp, buf)"
| "seq_loop oper (Suc n) i tmp buf =
     (if oper = SB_MEM_OP_NONE then seq_loop oper n (i + 1) (sint (of_nat (Suc n) :: u32)) buf
      else if i \<ge> length buf then None
      else if oper = SB_MEM_OP_WRITE then seq_loop oper n (i + 1) tmp (buf[i := tmp])
      else seq_loop oper n (i + 1) (buf ! i) buf)"

definition the_buffer :: "sb_mem_scope \<Rightarrow> nat \<Rightarrow> memory_state \<Rightarrow> int list option" where
  "the_buffer scope tid s =
     (if scope = SB_MEM_SCOPE_GLOBAL then mem_buffer s
      else if tid < length (mem_buffers s) then Some (mem_buffers s ! tid) else None)"

definition put_buffer :: "sb_mem_scope \<Rightarrow> nat \<Rightarrow> int list \<Rightarrow> memory_state \<Rightarrow> memory_state" where
  "put_buffer scope tid b s =
     (if scope = SB_MEM_SCOPE_GLOBAL then s\<lparr>mem_buffer := Some b\<rparr>
      else s\<lparr>mem_buffers := (mem_buffers s)[tid := b]\<rparr>)"

definition memory_execute_request ::
  "mem_request sb_request \<Rightarrow> nat \<Rightarrow> memory_state \<Rightarrow> (int \<times> memory_state) option" where
  "memory_execute_request r tid s =
     do { q \<leftarrow> req_data r;
          buf \<leftarrow> the_buffer (mr_scope q) tid s;
          let (rnd, s) = (if memory_access_rnd s then draw s else (0, s));
          s \<leftarrow> event_start tid s;
          if memory_access_rnd s \<and> mr_type q = SB_MEM_OP_NONE
          then do { s \<leftarrow> say LOG_FATAL ''Unknown memory request type:0. Aborting...\<newline>'' s; Some (1, s) }
          else do {
            (tmp, buf) \<leftarrow>
              (if memory_access_rnd s
               then rnd_loop (mr_type q) (nat (memory_block_size s)) (mem_index rnd (memory_block_size s)) 0 buf
               else seq_loop (mr_type q) (nat (memory_block_size s div 4)) 0 0 buf);
            s \<leftarrow> event_stop tid (put_buffer (mr_scope q) tid buf (s\<lparr>mem_tmp := tmp\<rparr>));
            Some (0, s) } }"

definition memory_print_mode :: "memory_state \<Rightarrow> memory_state option" where
  "memory_print_mode s =
     do { s \<leftarrow> say LOG_INFO ''Doing memory operations speed test'' s;
          s \<leftarrow> say LOG_INFO (''Memory block size: '' @ show_int (memory_block_size s div 1024) @ ''K\<newline>'') s;
          s \<leftarrow> say LOG_INFO (''Memory transfer size: '' @ show_int (memory_total_size s div 1024 div 1024) @ ''M\<newline>'') s;
          s \<leftarrow> say LOG_INFO (''Memory operations type: '' @ (case memory_oper s of
                 SB_MEM_OP_READ \<Rightarrow> ''read'' | SB_MEM_OP_WRITE \<Rightarrow> ''write'' | SB_MEM_OP_NONE \<Rightarrow> ''none'')) s;
          say LOG_INFO (''Memory scope type: '' @ (case memory_scope s of
            SB_MEM_SCOPE_GLOBAL \<Rightarrow> ''global'' | SB_MEM_SCOPE_LOCAL \<Rightarrow> ''local'')) s }"

text \<open>\<open>memory_print_stats\<close>: the numbers it prints.\<close>

datatype mem_report =
  MemInterval (mb_per_sec: real)
| MemTotal (mt_ops: u32) (mt_seconds: real) (mt_mb: "real option")

abbreviation (input) megabyte :: real where "megabyte \<equiv> 1024 * 1024"

definition memory_print_stats :: "sb_stat \<Rightarrow> memory_state \<Rightarrow> (mem_report \<times> memory_state) option" where
  "memory_print_stats type s =
     (case type of
        SB_STAT_INTERMEDIATE \<Rightarrow>
          do { (ns, s) \<leftarrow> split_exec s;
               Some (MemInterval (of_int (total_bytes s - last_bytes s) / megabyte / NS2SEC ns),
                     s\<lparr>last_bytes := total_bytes s\<rparr>) }
      | SB_STAT_CUMULATIVE \<Rightarrow>
          do { (ns, s) \<leftarrow> split_cum1 s;
               let rep = MemTotal (total_ops s) (NS2SEC ns)
                 (if memory_oper s \<noteq> SB_MEM_OP_NONE then Some (of_int (total_bytes s) / megabyte) else None);
               let s = s\<lparr>total_ops := 0, total_bytes := 0\<rparr>;
               s \<leftarrow> (if sb_timer_initialized (te_exec s) then map_option snd (split_exec s) else Some s);
               Some (rep, s) })"

definition memory_test :: "mem_sys \<Rightarrow> bool \<Rightarrow> options \<Rightarrow> (memory_state option, mem_request) sb_test" where
  "memory_test sys array opts = \<lparr>t_sname = ''memory'', t_lname = ''Memory functions speed test'',
     t_ops = no_ops\<lparr>top_init := Some (lift_test_op (memory_init sys array opts)),
       top_print_mode := Some (\<lambda>w. Option.bind w memory_print_mode),
       top_get_request := Some (\<lambda>_. lift_get memory_get_request),
       top_execute_request := Some (\<lambda>r tid. lift_test_op (memory_execute_request r tid)),
       top_print_stats := Some (\<lambda>type w. Option.bind w (\<lambda>s. map_option snd (memory_print_stats type s)))\<rparr>,
     t_cmds = no_cmds, t_args = Some memory_args\<rparr>"

section \<open>Counting primes\<close>

definition is_prime :: "nat \<Rightarrow> bool" where
  "is_prime p \<longleftrightarrow> 1 < p \<and> (\<forall>m. m dvd p \<longrightarrow> m = 1 \<or> m = p)"

lemma below_root: "real l \<le> sqrt (real c) \<longleftrightarrow> l * l \<le> c"
proof -
  have "real l \<le> sqrt (real c) \<longleftrightarrow> (real l)\<^sup>2 \<le> real c"
    by (meson of_nat_0_le_iff real_le_rsqrt real_sqrt_ge_0_iff sqrt_le_D order_trans real_le_lsqrt
        real_sqrt_le_iff power_mono real_sqrt_pow2_iff)
  also have "\<dots> \<longleftrightarrow> l * l \<le> c" by (metis of_nat_le_iff of_nat_power power2_eq_square)
  finally show ?thesis .
qed

lemma find_divisor_none:
  "0 < l \<Longrightarrow> \<not> real (find_divisor c l) \<le> sqrt (real c) \<longleftrightarrow> (\<forall>m. l \<le> m \<and> m * m \<le> c \<longrightarrow> \<not> m dvd c)"
proof (induction c l rule: find_divisor.induct)
  case (1 c l)
  consider "\<not> l * l \<le> c" | "l * l \<le> c" "l dvd c" | "l * l \<le> c" "\<not> l dvd c" by blast
  then show ?case
  proof cases
    case 1
    then have "\<not> (l \<le> m \<and> m * m \<le> c)" for m by (metis mult_le_mono order_trans)
    with 1 show ?thesis by (subst find_divisor.simps) (auto simp: below_root)
  next
    case 2
    then show ?thesis by (subst find_divisor.simps) (auto simp: below_root dvd_eq_mod_eq_0)
  next
    case 3
    then have fd: "find_divisor c l = find_divisor c (l + 1)"
      by (subst find_divisor.simps) (simp add: below_root dvd_eq_mod_eq_0 del: find_divisor.simps)
    have "\<not> real (find_divisor c (l + 1)) \<le> sqrt (real c)
        \<longleftrightarrow> (\<forall>m. l + 1 \<le> m \<and> m * m \<le> c \<longrightarrow> \<not> m dvd c)"
      using 3 by (intro 1(1)) (auto simp: below_root dvd_eq_mod_eq_0)
    also have "\<dots> \<longleftrightarrow> (\<forall>m. l \<le> m \<and> m * m \<le> c \<longrightarrow> \<not> m dvd c)"
      using 3(2) by (metis Suc_eq_plus1 Suc_leI le_neq_implies_less less_imp_le Suc_le_eq)
    finally show ?thesis unfolding fd .
  qed
qed

lemma prime_by_trial: "1 < c \<Longrightarrow> (\<forall>m. 2 \<le> m \<and> m * m \<le> c \<longrightarrow> \<not> m dvd c) \<longleftrightarrow> is_prime c"
proof
  assume c: "1 < c" and no: "\<forall>m. 2 \<le> m \<and> m * m \<le> c \<longrightarrow> \<not> m dvd c"
  have "d = 1 \<or> d = c" if dv: "d dvd c" for d
  proof (rule ccontr)
    assume d: "\<not> (d = 1 \<or> d = c)"
    obtain e where e: "c = d * e" using dv by blast
    have "d \<noteq> 0" "e \<noteq> 0" using c e by (cases d; cases e; simp)+
    moreover have "d \<noteq> 1" "e \<noteq> 1" using d e by auto
    ultimately have "2 \<le> d" "2 \<le> e" by auto
    then show False
      using no [rule_format, of d] no [rule_format, of e] e
      by (metis dvd_triv_left dvd_triv_right le_cases mult_le_mono1 mult_le_mono2)
  qed
  with c show "is_prime c" by (auto simp: is_prime_def)
next
  assume c: "1 < c" and p: "is_prime c"
  show "\<forall>m. 2 \<le> m \<and> m * m \<le> c \<longrightarrow> \<not> m dvd c"
  proof (intro allI impI notI)
    fix m assume m: "2 \<le> m \<and> m * m \<le> c" "m dvd c"
    then have "m = c" using p by (auto simp: is_prime_def)
    with m c show False by auto
  qed
qed

lemma find_divisor_prime: "1 < c \<Longrightarrow> real (find_divisor c 2) > sqrt (real c) \<longleftrightarrow> is_prime c"
  using find_divisor_none [of 2 c] prime_by_trial [of c] by (simp add: not_le del: find_divisor.simps)

lemma count_fold: "fold (\<lambda>c n. if P c then n + 1 else n) xs n = n + length (filter P xs)"
  by (induction xs arbitrary: n) auto

lemma cpu_primes_filter: "cpu_primes limit = length (filter is_prime [3..<limit])"
proof -
  have "fold (\<lambda>c n. if real (find_divisor c 2) > sqrt (real c) then n + 1 else n) [3..<limit] 0
      = fold (\<lambda>c n. if is_prime c then n + 1 else n) [3..<limit] (0 :: nat)"
    by (intro fold_cong) (auto simp: find_divisor_prime simp del: find_divisor.simps)
  then show ?thesis by (simp add: cpu_primes_def count_fold del: find_divisor.simps)
qed

section \<open>Threads of the CPU test\<close>

text \<open>
  The threads interleave between the test of the counter and the locked increment. \<open>cs_given\<close>
  counts the requests handed out.
\<close>

datatype cpu_pc = CpuIdle | CpuCounting | CpuRunning | CpuDone

record cpu_sys =
  cs_state :: cpu_state
  cs_pcs :: "cpu_pc list"
  cs_given :: nat

inductive cpu_step :: "cpu_sys \<Rightarrow> cpu_sys \<Rightarrow> bool" where
  check: "i < length (cs_pcs y) \<Longrightarrow> cs_pcs y ! i = CpuIdle \<Longrightarrow>
    cpu_step y (y\<lparr>cs_pcs := (cs_pcs y)[i := if cpu_exhausted (cs_state y) then CpuDone else CpuCounting]\<rparr>)"
| count: "i < length (cs_pcs y) \<Longrightarrow> cs_pcs y ! i = CpuCounting \<Longrightarrow>
    cpu_step y (y\<lparr>cs_state := cpu_count (cs_state y), cs_pcs := (cs_pcs y)[i := CpuRunning],
                  cs_given := cs_given y + 1\<rparr>)"
| run: "i < length (cs_pcs y) \<Longrightarrow> cs_pcs y ! i = CpuRunning \<Longrightarrow>
    cpu_execute_request i (cs_state y) = Some (rc, s) \<Longrightarrow>
    cpu_step y (y\<lparr>cs_state := s, cs_pcs := (cs_pcs y)[i := if rc = 0 then CpuIdle else CpuDone]\<rparr>)"

definition cpu_start :: "nat \<Rightarrow> nat \<Rightarrow> cpu_sys \<Rightarrow> bool" where
  "cpu_start n k y \<longleftrightarrow> cs_pcs y = replicate n CpuIdle \<and> cs_given y = 0 \<and> cpu_performed (cs_state y) = 0 \<and>
     unat (max_requests (te_glob (cs_state y))) = k \<and> 0 < n \<and> 0 < k \<and> k + n \<le> 2 ^ 32"

definition counting :: "cpu_sys \<Rightarrow> nat" where
  "counting y = length (filter (\<lambda>p. p = CpuCounting) (cs_pcs y))"

definition cpu_inv :: "nat \<Rightarrow> nat \<Rightarrow> cpu_sys \<Rightarrow> bool" where
  "cpu_inv n k y \<longleftrightarrow> length (cs_pcs y) = n \<and> 0 < n \<and> 0 < k \<and> k + n \<le> 2 ^ 32 \<and>
     unat (max_requests (te_glob (cs_state y))) = k \<and> unat (cpu_performed (cs_state y)) = cs_given y \<and>
     cs_given y + counting y \<le> k + n - 1 \<and> (CpuDone \<in> set (cs_pcs y) \<longrightarrow> k \<le> cs_given y)"

lemma cpu_execute_frame:
  "cpu_execute_request i s = Some (rc, s') \<Longrightarrow>
   rc = 0 \<and> te_glob s' = te_glob s \<and> cpu_performed s' = cpu_performed s \<and> max_prime s' = max_prime s"
  by (auto simp: cpu_execute_request_def Let_def dest!: env_frames split: bind_splits)

lemma counting_update:
  "i < length (cs_pcs y) \<Longrightarrow> counting (y\<lparr>cs_pcs := (cs_pcs y)[i := q]\<rparr>) + (if cs_pcs y ! i = CpuCounting then 1 else 0)
     = counting y + (if q = CpuCounting then 1 else 0)"
  using filter_update_length [of i "cs_pcs y" "\<lambda>p. p = CpuCounting" q] by (simp add: counting_def)

lemma counting_other: "cs_pcs y = cs_pcs z \<Longrightarrow> counting y = counting z"
  by (simp add: counting_def)

lemma done_update: "CpuDone \<in> set ((cs_pcs y)[i := q]) \<Longrightarrow> q = CpuDone \<or> CpuDone \<in> set (cs_pcs y)"
  using set_update_subset_insert [of "cs_pcs y" i q] by auto

lemma cpu_step_inv:
  assumes "cpu_inv n k y" and "cpu_step y z"
  shows "cpu_inv n k z"
  using assms(2)
proof cases
  case (check i)
  let ?q = "if cpu_exhausted (cs_state y) then CpuDone else CpuCounting"
  have c: "counting z = counting y + (if ?q = CpuCounting then 1 else 0)"
    using counting_update [of i y ?q] check by simp
  moreover have "counting z \<le> n" using assms(1) check by (simp add: counting_def cpu_inv_def)
      (metis length_filter_le length_list_update)
  moreover have "cpu_exhausted (cs_state y) \<longleftrightarrow> k \<le> cs_given y"
    using assms(1) by (auto simp: cpu_inv_def cpu_exhausted_def word_less_nat_alt word_le_nat_alt)
  ultimately show ?thesis
    using assms(1) check(1) done_update [of y i ?q] by (auto simp: cpu_inv_def split: if_splits)
next
  case (count i)
  have c: "counting z + 1 = counting y"
    using counting_update [of i y CpuRunning] counting_other [of z "y\<lparr>cs_pcs := (cs_pcs y)[i := CpuRunning]\<rparr>"] count
    by simp
  moreover have "cs_given y + counting y \<le> k + n - 1" "k + n \<le> 2 ^ 32" "0 < k" using assms(1) by (simp_all add: cpu_inv_def)
  ultimately have "cs_given y + 1 < 2 ^ 32" by linarith
  then have "unat (cpu_performed (cs_state y) + 1) = cs_given y + 1"
    using assms(1) by (simp add: cpu_inv_def unat_word_ariths)
  with c show ?thesis
    using assms(1) count(1) done_update [of y i CpuRunning] by (auto simp: cpu_inv_def cpu_count_def)
next
  case (run i rc s)
  then have f: "rc = 0" "te_glob s = te_glob (cs_state y)" "cpu_performed s = cpu_performed (cs_state y)"
    using cpu_execute_frame by blast+
  have "counting z = counting y"
    using counting_update [of i y CpuIdle] counting_other [of z "y\<lparr>cs_pcs := (cs_pcs y)[i := CpuIdle]\<rparr>"] run f(1)
    by simp
  then show ?thesis
    using assms(1) run(1) f done_update [of y i CpuIdle] by (auto simp: cpu_inv_def)
qed

lemma cpu_start_inv: "cpu_start n k y \<Longrightarrow> cpu_inv n k y"
  by (auto simp: cpu_start_def cpu_inv_def counting_def)

interpretation cpu: invariant_system "cpu_start n k" cpu_step "cpu_inv n k" for n k
  by unfold_locales (fact cpu_start_inv cpu_step_inv)+

section \<open>Properties\<close>


definition example_env :: test_env where
  "example_env = \<lparr>te_glob = example_globals\<lparr>max_requests := 1\<rparr>, te_lgr = example_logger example_histogram,
     te_clock = (\<lambda>_. zero_timespec), te_ticks = 0, te_rng = default_rnd, te_exec = example_timer,
     te_cum1 = example_timer\<rparr>"

definition example_cpu :: cpu_sys where
  "example_cpu = \<lparr>cs_state = test_env.extend example_env \<lparr>max_prime = 10, cpu_performed = 0\<rparr>,
     cs_pcs = [CpuIdle, CpuIdle], cs_given = 0\<rparr>"

text \<open>Both threads pass the test before either counts: two requests with a limit of one.\<close>

lemma example_cpu_run: "\<exists>z. cpu_step\<^sup>*\<^sup>* example_cpu z \<and> cs_given z = 2"
proof -
  let ?c = "\<lambda>y p. y\<lparr>cs_state := cpu_count (cs_state y), cs_pcs := p, cs_given := cs_given y + 1\<rparr>"
  let ?y1 = "example_cpu\<lparr>cs_pcs := [CpuCounting, CpuIdle]\<rparr>"
  let ?y2 = "example_cpu\<lparr>cs_pcs := [CpuCounting, CpuCounting]\<rparr>"
  let ?y3 = "?c ?y2 [CpuRunning, CpuCounting]"
  let ?y4 = "?c ?y3 [CpuRunning, CpuRunning]"
  have ex: "\<not> cpu_exhausted (cs_state example_cpu)"
    by (simp add: cpu_exhausted_def example_cpu_def example_env_def test_env.extend_def example_globals_def)
  have "cpu_step example_cpu ?y1" using cpu_step.check [of 0 example_cpu] ex by (simp add: example_cpu_def)
  moreover have "cpu_step ?y1 ?y2" using cpu_step.check [of 1 ?y1] ex by simp
  moreover have "cpu_step ?y2 ?y3" using cpu_step.count [of 0 ?y2] by simp
  moreover have "cpu_step ?y3 ?y4" using cpu_step.count [of 1 ?y3] by simp
  ultimately have "cpu_step\<^sup>*\<^sup>* example_cpu ?y4" by (meson r_into_rtranclp rtranclp_trans)
  then show ?thesis by (intro exI [of _ ?y4]) (simp add: example_cpu_def)
qed


text \<open>C38: Executing a request of the CPU test counts the prime numbers from 3 up to \<open>cpu-max-prime\<close> (exclusive):
  trial division up to the square root finds exactly the primes, and the loops end.\<close>

theorem cpu_counts_primes:
  "cpu_primes limit = card {p. 3 \<le> p \<and> p < limit \<and> is_prime p}"
proof -
  have "cpu_primes limit = card (set (filter is_prime [3..<limit]))"
    by (simp only: cpu_primes_filter distinct_card distinct_filter distinct_upt)
  also have "set (filter is_prime [3..<limit]) = {p. 3 \<le> p \<and> p < limit \<and> is_prime p}" by auto
  finally show ?thesis .
qed

section \<open>The mutex test\<close>

text \<open>The number of rounds of a \<open>do\<close> loop that decrements an unsigned counter.\<close>

definition lock_rounds :: "u32 \<Rightarrow> nat" where
  "lock_rounds n = (if n = 0 then 2 ^ 32 else unat n)"

lemma lock_rounds_step: "n - 1 \<noteq> 0 \<Longrightarrow> lock_rounds n = Suc (lock_rounds (n - 1))" "lock_rounds 1 = 1"
proof -
  assume m: "n - 1 \<noteq> 0"
  show "lock_rounds n = Suc (lock_rounds (n - 1))"
  proof (cases "n = 0")
    case True
    then show ?thesis by (simp add: lock_rounds_def unsigned_minus_1_eq_mask mask_eq_exp_minus_1)
  next
    case False
    then have "unat (n - 1) = unat n - 1" "0 < unat n" by (simp_all add: unat_minus_one unat_gt_0)
    with m False show ?thesis by (simp add: lock_rounds_def)
  qed
qed (simp add: lock_rounds_def)

lemma mutex_loop_rounds:
  assumes "mutex_num s \<noteq> 0" and "mutex_array s = unat (mutex_num s)"
  shows "\<exists>ls. length ls = lock_rounds n \<and> (\<forall>l \<in> set ls. l < unat (mutex_num s)) \<and>
    mutex_loop n s = Some (ls, s\<lparr>c_rand_pos := c_rand_pos s + lock_rounds n,
                                  global_var := global_var s + of_nat (lock_rounds n)\<rparr>)"
  using assms
proof (induction "lock_rounds n" arbitrary: n s)
  case 0
  then show ?case by (simp add: lock_rounds_def unat_eq_zero split: if_splits)
next
  case (Suc k)
  let ?l = "c_rand s (c_rand_pos s) mod unat (mutex_num s)"
  let ?s = "s\<lparr>c_rand_pos := c_rand_pos s + 1, global_var := global_var s + 1\<rparr>"
  have l: "?l < unat (mutex_num s)" using Suc.prems(1) by (simp add: unat_gt_0)
  show ?case
  proof (cases "n - 1 = 0")
    case True
    then have "n = 1" by simp
    then have "mutex_loop n s = Some ([?l], ?s)"
      using Suc.prems l by (subst mutex_loop.simps) (simp add: Let_def)
    then show ?thesis using l \<open>n = 1\<close> by (simp add: lock_rounds_step)
  next
    case False
    then have loop: "mutex_loop n s = map_option (\<lambda>(ls, s). (?l # ls, s)) (mutex_loop (n - 1) ?s)"
      using Suc.prems l by (subst mutex_loop.simps) (simp add: Let_def word_gt_0 del: mutex_loop.simps)
    have "\<exists>ls. length ls = lock_rounds (n - 1) \<and> (\<forall>l \<in> set ls. l < unat (mutex_num ?s)) \<and>
      mutex_loop (n - 1) ?s = Some (ls, ?s\<lparr>c_rand_pos := c_rand_pos ?s + lock_rounds (n - 1),
                                  global_var := global_var ?s + of_nat (lock_rounds (n - 1))\<rparr>)"
      using Suc False by (intro Suc.hyps(1)) (simp_all add: lock_rounds_step)
    then obtain ls where "length ls = lock_rounds (n - 1)" "\<forall>l \<in> set ls. l < unat (mutex_num s)"
      "mutex_loop (n - 1) ?s = Some (ls, ?s\<lparr>c_rand_pos := c_rand_pos ?s + lock_rounds (n - 1),
                                  global_var := global_var ?s + of_nat (lock_rounds (n - 1))\<rparr>)"
      by (auto simp del: mutex_loop.simps)
    then show ?thesis using l False
      by (intro exI [of _ "?l # ls"]) (simp add: loop lock_rounds_step add.assoc add.commute [of _ 1] del: mutex_loop.simps)
  qed
qed

text \<open>In the mutex test a worker executes exactly one request, whatever \<open>max-requests\<close> says, and then ends: the
  request takes as many locks as \<open>mutex-locks\<close> says, each of the array, and increments the shared counter
  once under each. A number of 0 wraps around to \<open>2 ^ 32\<close> locks.\<close>

theorem mutex_single_request:
  assumes "plain_run st" and "tworld st = Some s" and "env_ok n s" and "tid < n"
    and "mutex_num s \<noteq> 0" and "mutex_array s = unat (mutex_num s)"
  shows "\<exists>s'. worker_loop (mutex_test opts alloc) tid st = Some (st\<lparr>tworld := Some s'\<rparr>) \<and>
              c_rand_pos s' = c_rand_pos s + (if mutex_locks s = 0 then 2 ^ 32 else unat (mutex_locks s)) \<and>
              global_var s' = global_var s + mutex_locks s"
proof -
  let ?r = "\<lparr>req_type = SB_REQ_TYPE_MUTEX, req_data = Some \<lparr>nlocks = mutex_locks s, nloops = mutex_loops s\<rparr>\<rparr>"
  obtain L where L: "event_start tid s = Some (s\<lparr>te_lgr := L, te_ticks := te_ticks s + 1\<rparr>)"
    "env_ok n (s\<lparr>te_lgr := L, te_ticks := te_ticks s + 1\<rparr>)" using env_ok_start [OF assms(3,4)] by blast
  let ?s1 = "s\<lparr>te_lgr := L, te_ticks := te_ticks s + 1\<rparr>" let ?k = "lock_rounds (mutex_locks s)"
  from mutex_loop_rounds [of ?s1 "mutex_locks s"] assms(5,6) obtain ls where ls:
    "mutex_loop (mutex_locks s) ?s1 = Some (ls, ?s1\<lparr>c_rand_pos := c_rand_pos s + ?k, global_var := global_var s + of_nat ?k\<rparr>)"
    by (auto simp del: mutex_loop.simps)
  let ?s2 = "?s1\<lparr>c_rand_pos := c_rand_pos s + ?k, global_var := global_var s + of_nat ?k\<rparr>"
  have "env_ok n ?s2" using L(2) by (simp add: env_ok_def)
  from env_ok_stop [OF this assms(4)] obtain L' where
    L': "event_stop tid ?s2 = Some (?s2\<lparr>te_lgr := L', te_ticks := te_ticks ?s2 + 1\<rparr>)" by blast
  have e: "mutex_execute_request ?r tid s = Some (1, ?s2\<lparr>te_lgr := L', te_ticks := te_ticks ?s2 + 1\<rparr>)"
    using L(1) ls L' by (simp add: mutex_execute_request_def del: mutex_loop.simps)
  have "worker_runs (mutex_test opts alloc) tid (Some s) 1 (Some (?s2\<lparr>te_lgr := L', te_ticks := te_ticks ?s2 + 1\<rparr>))"
    using e by (intro worker_runs.failed [of _ _ _ ?r "Some s"])
      (auto simp: get_request_def execute_request_def mutex_test_def lift_get_def lift_test_op_def mutex_get_request_def)
  from worker_loop_runs [OF this assms(1,2)] show ?thesis
    by (auto simp: lock_rounds_def)
qed

definition example_mutex :: mutex_state where
  "example_mutex = test_env.extend example_env
     \<lparr>mutex_num = 4, mutex_loops = 1, mutex_locks = 0, global_var = 7, mutex_array = 4, c_rand = (\<lambda>n. n), c_rand_pos = 0\<rparr>"

lemma example_env_ok: "env_ok 2 (test_env.extend example_env x)"
proof -
  have "hist_of example_histogram []"
    by (simp add: hist_of_def percentile_wf_def example_histogram_def less_Suc_eq nth_Cons')
  then have "oper_holds oper_none (example_logger example_histogram)" by (rule example_logger_holds)
  moreover have "length (log_timers (example_logger example_histogram)) = 2" by (simp add: example_logger_def)
  ultimately show ?thesis unfolding env_ok_def test_env.extend_def example_env_def by auto
qed

lemma example_run_plain [simp]: "plain_run (example_run w)"
  by (simp add: plain_run_def example_run_def example_globals_def Let_def)

lemma example_run_world [simp]: "tworld (example_run w) = w"
  by (simp add: example_run_def Let_def)

theorem mutex_single_request_witness:
  "\<exists>s'. worker_loop (mutex_test [] True) 1 (example_run (Some example_mutex))
          = Some ((example_run (Some example_mutex))\<lparr>tworld := Some s'\<rparr>) \<and> c_rand_pos s' = 2 ^ 32 \<and> global_var s' = 7"
proof -
  let ?s = example_mutex
  have m: "mutex_num ?s = 4" "mutex_array ?s = 4" "mutex_locks ?s = 0" "c_rand_pos ?s = 0" "global_var ?s = 7"
    by (simp_all add: example_mutex_def test_env.extend_def)
  have "env_ok 2 ?s" unfolding example_mutex_def by (rule example_env_ok)
  from mutex_single_request [OF example_run_plain example_run_world this, of 1 "[]" True] m show ?thesis by simp
qed

section \<open>The threads test\<close>

text \<open>The results of \<open>m\<close> calls of an operation that runs under a lock, whichever threads make them.\<close>

fun call_times :: "nat \<Rightarrow> ('s \<Rightarrow> ('r \<times> 's) option) \<Rightarrow> 's \<Rightarrow> ('r list \<times> 's) option" where
  "call_times 0 f s = Some ([], s)"
| "call_times (Suc m) f s =
     do { (r, s) \<leftarrow> f s; (rs, s) \<leftarrow> call_times m f s; Some (r # rs, s) }"

text \<open>A source of requests: a state that knows the requests it will hand out, then null requests.\<close>

locale request_source =
  fixes get :: "'s \<Rightarrow> ('r sb_request \<times> 's) option" and inv :: "'s \<Rightarrow> bool" and rest :: "'s \<Rightarrow> 'r sb_request list"
  assumes get_next: "inv s \<Longrightarrow> \<exists>s'. inv s' \<and> (case rest s of
      [] \<Rightarrow> get s = Some (null_request, s') \<and> rest s' = []
    | r # rs \<Rightarrow> get s = Some (r, s') \<and> rest s' = rs)"
begin

lemma calls:
  "inv s \<Longrightarrow> \<exists>s'. call_times m get s = Some (take m (rest s @ replicate m null_request), s') \<and> inv s' \<and> rest s' = drop m (rest s)"
proof (induction m arbitrary: s)
  case (Suc m)
  show ?case
  proof (cases "rest s")
    case Nil
    then obtain s1 where s1: "get s = Some (null_request, s1)" "inv s1" "rest s1 = []" using get_next [OF Suc.prems] by auto
    with Suc.IH [OF s1(2)] Nil show ?thesis by auto
  next
    case (Cons r rs)
    then obtain s1 where s1: "get s = Some (r, s1)" "inv s1" "rest s1 = rs" using get_next [OF Suc.prems] by auto
    have "take m (rs @ replicate m null_request) = take m (rs @ replicate (Suc m) null_request)"
      by (simp add: take_append del: replicate_Suc)
    with Suc.IH [OF s1(2)] s1 Cons show ?thesis by auto
  qed
qed simp

end

definition lock_request :: "u32 \<Rightarrow> nat \<Rightarrow> nat sb_request" where
  "lock_request locks i = \<lparr>req_type = SB_REQ_TYPE_THREADS, req_data = Some (i mod unat locks)\<rparr>"

definition threads_inv :: "u32 \<Rightarrow> u32 \<Rightarrow> threads_state \<Rightarrow> bool" where
  "threads_inv l k s \<longleftrightarrow> thread_locks s = l \<and> max_requests (te_glob s) = k \<and> l \<noteq> 0 \<and> k \<noteq> 0 \<and>
     unat (threads_performed s) \<le> unat k"

definition threads_rest :: "u32 \<Rightarrow> u32 \<Rightarrow> threads_state \<Rightarrow> nat sb_request list" where
  "threads_rest l k s = map (lock_request l) [unat (threads_performed s)..<unat k]"

interpretation threads: request_source threads_get_request "threads_inv l k" "threads_rest l k" for l k
proof
  fix s assume inv: "threads_inv l k s"
  let ?p = "unat (threads_performed s)"
  show "\<exists>s'. threads_inv l k s' \<and> (case threads_rest l k s of
      [] \<Rightarrow> threads_get_request s = Some (null_request, s') \<and> threads_rest l k s' = []
    | r # rs \<Rightarrow> threads_get_request s = Some (r, s') \<and> threads_rest l k s' = rs)"
  proof (cases "?p < unat k")
    case True
    let ?s = "s\<lparr>threads_performed := threads_performed s + 1\<rparr>"
    have "unat k < 2 ^ LENGTH(32)" by (rule unsigned_less)
    then have "?p + 1 < 2 ^ 32" using True by simp
    then have p: "unat (threads_performed s + 1) = ?p + 1" by (simp add: unat_word_ariths)
    have "threads_get_request s = Some (lock_request l ?p, ?s)"
      using True inv by (simp add: threads_get_request_def threads_inv_def lock_request_def word_le_nat_alt unat_mod)
    with inv True p show ?thesis
      by (intro exI [of _ ?s]) (simp add: threads_inv_def threads_rest_def upt_conv_Cons)
  next
    case False
    with inv show ?thesis
      by (intro exI [of _ s]) (simp add: threads_inv_def threads_rest_def threads_get_request_def word_le_nat_alt word_gt_0)
  qed
qed

text \<open>The operations of the test, called by \<open>n\<close> threads in any order, keep the array of mutexes.\<close>

inductive threads_step :: "nat \<Rightarrow> threads_state \<Rightarrow> threads_state \<Rightarrow> bool" for n where
  get: "threads_get_request s = Some (r, s') \<Longrightarrow> threads_step n s s'"
| execute: "tid < n \<Longrightarrow> threads_execute_request r tid s = Some (rc, s') \<Longrightarrow> threads_step n s s'"

definition threads_ready :: "nat \<Rightarrow> u32 \<Rightarrow> threads_state \<Rightarrow> bool" where
  "threads_ready n l s \<longleftrightarrow> env_ok n s \<and> thread_locks s = l \<and> test_mutexes s = unat l"

lemma threads_execute_ready:
  assumes "threads_ready n l s" and "tid < n"
  shows "threads_execute_request r tid s = Some (rc, s') \<Longrightarrow> threads_ready n l s'"
    and "l \<noteq> 0 \<Longrightarrow> \<exists>s'. threads_execute_request (lock_request l i) tid s = Some (0, s')"
proof -
  have e: "env_ok n s" using assms(1) by (simp add: threads_ready_def)
  obtain L where L: "event_start tid s = Some (s\<lparr>te_lgr := L, te_ticks := te_ticks s + 1\<rparr>)"
    "env_ok n (s\<lparr>te_lgr := L, te_ticks := te_ticks s + 1\<rparr>)" using env_ok_start [OF e assms(2)] by blast
  obtain L' where L': "event_stop tid (s\<lparr>te_lgr := L, te_ticks := te_ticks s + 1\<rparr>)
      = Some (s\<lparr>te_lgr := L', te_ticks := te_ticks s + 2\<rparr>)" "env_ok n (s\<lparr>te_lgr := L', te_ticks := te_ticks s + 2\<rparr>)"
    using env_ok_stop [OF L(2) assms(2)] by auto
  show "threads_execute_request r tid s = Some (rc, s') \<Longrightarrow> threads_ready n l s'"
    using L(1) L' assms(1) by (auto simp: threads_execute_request_def threads_ready_def split: if_splits bind_splits)
  show "l \<noteq> 0 \<Longrightarrow> \<exists>s'. threads_execute_request (lock_request l i) tid s = Some (0, s')"
    using L(1) L'(1) assms(1)
    by (auto simp: threads_execute_request_def threads_ready_def lock_request_def not_le unat_gt_0)
qed

lemma threads_step_ready: "threads_ready n l s \<Longrightarrow> threads_step n s s' \<Longrightarrow> threads_ready n l s'"
proof (erule threads_step.cases)
  fix u v r assume "threads_ready n l s" "s = u" "s' = v" "threads_get_request u = Some (r, v)"
  then show "threads_ready n l s'"
    by (auto simp: threads_get_request_def threads_ready_def env_ok_def split: if_splits)
qed (use threads_execute_ready(1) in blast)

interpretation thr: invariant_system "threads_ready n l" "threads_step n" "threads_ready n l" for n l
  by unfold_locales (fact threads_step_ready | assumption)+

text \<open>C39: The threads test with \<open>thread-locks\<close> and \<open>max-requests\<close> above 0 hands out exactly \<open>max-requests\<close> requests, to
  whichever threads ask, and gives each the next lock in turn. With the array that \<open>threads_prepare\<close> allocates, every
  such request is executed without an access outside it and succeeds, in every state that requests
  of \<open>n\<close> threads, fetched and executed in any order, lead to.\<close>

theorem threads_locks_in_turn:
  assumes "threads_init opts s0 = Inr (0, s1)" and "threads_prepare True s1 = Some (0, s)"
    and "thread_locks s \<noteq> 0" and "max_requests (te_glob s) = k" and "k \<noteq> 0" and "env_ok n s"
  shows "(\<exists>s'. call_times m threads_get_request s =
            Some (map (lock_request (thread_locks s)) [0..<min m (unat k)]
                  @ replicate (m - unat k) null_request, s')) \<and>
         ((threads_step n)\<^sup>*\<^sup>* s t \<longrightarrow> tid < n \<longrightarrow>
           (\<exists>t'. threads_execute_request (lock_request (thread_locks s) i) tid t = Some (0, t')))"
proof -
  have p: "threads_performed s = 0" "test_mutexes s = unat (thread_locks s)"
    using assms(1,2) by (auto simp: threads_init_def threads_prepare_def split: sum.splits)
  have "threads_ready n (thread_locks s) s" using assms(6) p(2) by (simp add: threads_ready_def)
  then have "(threads_step n)\<^sup>*\<^sup>* s t \<longrightarrow> tid < n \<longrightarrow>
      (\<exists>t'. threads_execute_request (lock_request (thread_locks s) i) tid t = Some (0, t'))"
    using thr.reach_inv [of n "thread_locks s" s t] threads_execute_ready(2) assms(3) by blast
  moreover have "threads_inv (thread_locks s) k s" using assms(3-5) p(1) by (simp add: threads_inv_def)
  from threads.calls [OF this, of m] have "\<exists>s'. call_times m threads_get_request s =
      Some (take m (map (lock_request (thread_locks s)) [0..<unat k] @ replicate m null_request), s')"
    using p(1) by (auto simp: threads_rest_def)
  moreover have "take m (map (lock_request (thread_locks s)) [0..<unat k] @ replicate m null_request)
      = map (lock_request (thread_locks s)) [0..<min m (unat k)] @ replicate (m - unat k) null_request"
    by (simp add: take_map min_def)
  ultimately show ?thesis by simp
qed

definition example_threads :: threads_state where
  "example_threads = test_env.extend (example_env\<lparr>te_glob := example_globals\<rparr>)
     \<lparr>thread_yields = 5, thread_locks = 2, test_mutexes = 2, threads_performed = 0\<rparr>"

definition example_opts :: options where
  "example_opts = map (\<lambda>(n, v). \<lparr>o_name = n, o_type = SB_ARG_TYPE_INT, o_values = [mk_value v], o_ignore = False\<rparr>)
     [(''thread-yields'', ''5''), (''thread-locks'', ''2'')]"

lemma example_opts_values:
  "sb_get_value_int example_opts ''thread-yields'' = Inr 5" "sb_get_value_int example_opts ''thread-locks'' = Inr 2"
  by code_simp+

theorem threads_locks_in_turn_witness:
  "\<exists>s s' t t'. threads_init example_opts example_threads = Inr (0, s) \<and>
     call_times 4 threads_get_request s =
       Some ([lock_request 2 0, lock_request 2 1, lock_request 2 2, null_request], s') \<and>
     threads_get_request s = Some (lock_request 2 0, t) \<and>
     threads_execute_request (lock_request 2 0) 1 t = Some (0, t')"
proof -
  let ?s = "example_threads\<lparr>thread_yields := 5, thread_locks := 2, threads_performed := 0\<rparr>"
  have i: "threads_init example_opts example_threads = Inr (0, ?s)"
    by (simp add: threads_init_def example_opts_values)
  have p: "threads_prepare True ?s = Some (0, ?s\<lparr>test_mutexes := 2\<rparr>)" by (simp add: threads_prepare_def)
  have s: "?s\<lparr>test_mutexes := 2\<rparr> = ?s" by (simp add: example_threads_def test_env.extend_def)
  have l: "thread_locks ?s \<noteq> 0" "max_requests (te_glob ?s) = 3" "(3 :: u32) \<noteq> 0"
    by (simp_all add: example_threads_def test_env.extend_def example_env_def example_globals_def)
  have "env_ok 2 example_threads"
    using example_env_ok unfolding example_threads_def by (simp add: env_ok_def test_env.extend_def example_env_def)
  then have e: "env_ok 2 ?s" by (simp add: env_ok_def)
  let ?t = "?s\<lparr>threads_performed := 1\<rparr>"
  have g: "threads_get_request ?s = Some (lock_request 2 0, ?t)"
    using l by (simp add: threads_get_request_def lock_request_def)
  then have "(threads_step 2)\<^sup>*\<^sup>* ?s ?t" by (blast intro: threads_step.get)
  with threads_locks_in_turn [OF i p [unfolded s] l e, of 4 ?t 1 0] have
    "\<exists>s'. call_times 4 threads_get_request ?s = Some (map (lock_request 2) [0..<3] @ [null_request], s')"
    "\<exists>t'. threads_execute_request (lock_request 2 0) 1 ?t = Some (0, t')" by simp_all
  moreover have "map (lock_request 2) [0..<3] = [lock_request 2 0, lock_request 2 1, lock_request 2 2]"
    by (simp add: upt_rec numeral_2_eq_2)
  ultimately show ?thesis using i g by auto
qed

section \<open>The memory test\<close>

text \<open>After a successful \<open>memory_init\<close> each thread finds a buffer of the block size, and every access of the
  loops is inside it.\<close>

definition mem_ready :: "nat \<Rightarrow> memory_state \<Rightarrow> bool" where
  "mem_ready tid s \<longleftrightarrow> 0 \<le> memory_block_size s \<and> memory_block_size s mod 4 = 0 \<and>
     (memory_access_rnd s \<longrightarrow> memory_block_size s \<le> 2 ^ 33) \<and>
     (\<exists>b. the_buffer (memory_scope s) tid s = Some b \<and> length b = nat (memory_block_size s div 4))"

lemma the_buffer_counters [simp]:
  "the_buffer scope tid (s\<lparr>total_ops := a, total_bytes := b\<rparr>) = the_buffer scope tid s"
  "the_buffer scope tid (s\<lparr>total_ops := a\<rparr>) = the_buffer scope tid s"
  by (simp_all add: the_buffer_def)

lemma rnd_loop_ok:
  "length buf = m \<Longrightarrow> idx < m \<Longrightarrow> \<exists>tmp' buf'. rnd_loop oper n (Some idx) tmp buf = Some (tmp', buf') \<and> length buf' = m"
  by (induction n arbitrary: tmp buf) auto

lemma seq_loop_ok:
  "length buf = m \<Longrightarrow> i + n \<le> m \<Longrightarrow> \<exists>tmp' buf'. seq_loop oper n i tmp buf = Some (tmp', buf') \<and> length buf' = m"
  by (induction n arbitrary: i tmp buf) auto

lemma mem_index_ok:
  assumes "r < SB_MAX_RND" and "0 < bytes" and "bytes mod 4 = 0" and "bytes \<le> 2 ^ 33"
  shows "\<exists>i. mem_index r bytes = Some i \<and> i < nat (bytes div 4)"
proof -
  define n where "n = nat (bytes div 4)"
  define x where "x = \<lfloor>real r / real SB_MAX_RND * real n\<rfloor>"
  have n: "0 < n" "int n \<le> INT_MAX + 1"
    using assms(2-4) zdiv_mono1 [of bytes "2 ^ 33" 4] unfolding n_def by auto
  then have "real r / real SB_MAX_RND * real n < 1 * real n"
    using assms(1) by (intro mult_strict_right_mono) simp_all
  then have x: "x < int n" "0 \<le> x" unfolding x_def by linarith (simp add: SB_MAX_RND_def)
  then have "mem_index r bytes = Some (nat x)"
    unfolding mem_index_def Let_def n_def [symmetric] x_def [symmetric] using n(2) by simp
  moreover have "nat x < n" using x by linarith
  ultimately show ?thesis unfolding n_def by blast
qed

lemma draw_range: "draw s = (r, s') \<Longrightarrow> r < SB_MAX_RND"
  by (auto simp: draw_def sb_rnd_def SB_MAX_RND_def)

lemma alloc_buffers_ok:
  "alloc_buffers sys huge bytes is = Inr bs \<Longrightarrow> length bs = length is \<and> (\<forall>b \<in> set bs. length b = nat (bytes div 4))"
  by (induction "is" arbitrary: bs) (auto simp: alloc_buffer_def split: option.splits sum.splits if_splits)

lemma sint_multiple_of_4: "w mod 4 = 0 \<Longrightarrow> sint w mod 4 = 0" for w :: u64
proof -
  assume "w mod 4 = 0"
  then have "uint (w mod 4) = 0" by simp
  then have "4 dvd uint w" by (simp add: uint_mod dvd_eq_mod_eq_0)
  then have "4 dvd (uint w + 2 ^ 63) mod 2 ^ 64" by (intro dvd_mod dvd_add) simp_all
  then have "4 dvd (uint w + 2 ^ 63) mod 2 ^ 64 - 2 ^ 63" by (rule dvd_diff) simp
  moreover have "sint w = (uint w + 2 ^ 63) mod 2 ^ 64 - 2 ^ 63"
    using int_word_sint [of "uint w", where ?'a = 64] by simp
  ultimately show ?thesis by simp
qed

lemma memory_init_ready:
  assumes "memory_init sys array opts s = Some (0, s')" and "0 \<le> memory_block_size s'"
    and "tid < unat (num_threads (te_glob s'))" and "memory_access_rnd s' \<longrightarrow> memory_block_size s' \<le> 2 ^ 33"
  shows "mem_ready tid s'"
proof -
  from assms(1) obtain s1 where s1: "memory_options opts s = Some (Inr s1)"
    by (auto simp: memory_init_def Let_def split: option.splits sum.splits bind_splits)
  have "memory_block_size s1 = sint (sb_get_value_size opts ''memory-block-size'') \<and>
      sb_get_value_size opts ''memory-block-size'' mod 4 = 0"
    using s1 by (auto simp: memory_options_def Let_def split: if_splits bind_splits)
  then have m: "memory_block_size s1 mod 4 = 0" using sint_multiple_of_4 by metis
  show ?thesis
  proof (cases "memory_scope s1 = SB_MEM_SCOPE_GLOBAL")
    case True
    then obtain b where b: "alloc_buffer sys (memory_hugetlb s1) 0 (memory_block_size s1) = Some b"
      "s' = s1\<lparr>mem_buffer := Some b\<rparr>"
      using assms(1) s1 by (auto simp: memory_init_def Let_def split: option.splits bind_splits)
    with True m assms(2,4) show ?thesis
      by (auto simp: mem_ready_def the_buffer_def alloc_buffer_def split: if_splits)
  next
    case False
    then obtain bs where b: "alloc_buffers sys (memory_hugetlb s1) (memory_block_size s1)
        [0..<unat (num_threads (te_glob s1))] = Inr bs" "s' = s1\<lparr>mem_buffers := bs\<rparr>"
      using assms(1) s1 by (auto simp: memory_init_def Let_def split: option.splits bind_splits sum.splits if_splits)
    with False m assms(2-4) alloc_buffers_ok [OF b(1)] show ?thesis
      by (auto simp: mem_ready_def the_buffer_def)
  qed
qed

lemma mem_ready_execute:
  assumes "mem_ready tid s" and "env_ok n s" and "tid < n" and "\<not> (memory_access_rnd s \<and> memory_oper s = SB_MEM_OP_NONE)"
    and "q = \<lparr>mr_type = memory_oper s, mr_block_size = sz, mr_scope = memory_scope s\<rparr>"
  shows "\<exists>s'. memory_execute_request \<lparr>req_type = ty, req_data = Some q\<rparr> tid s = Some (0, s') \<and> mem_ready tid s' \<and> env_ok n s' \<and>
     memory_block_size s' = memory_block_size s \<and> memory_total_size s' = memory_total_size s \<and>
     memory_access_rnd s' = memory_access_rnd s \<and> memory_oper s' = memory_oper s \<and>
     total_bytes s' = total_bytes s \<and> total_ops s' = total_ops s"
proof -
  let ?m = "nat (memory_block_size s div 4)"
  obtain b where b: "the_buffer (memory_scope s) tid s = Some b" "length b = ?m"
    and bs: "0 \<le> memory_block_size s" "memory_block_size s mod 4 = 0"
      "memory_access_rnd s \<longrightarrow> memory_block_size s \<le> 2 ^ 33" using assms(1) by (auto simp: mem_ready_def)
  obtain rnd g where d: "(if memory_access_rnd s then draw s else (0, s)) = (rnd, s\<lparr>te_rng := g\<rparr>)" and r: "rnd < SB_MAX_RND"
  proof (cases "memory_access_rnd s")
    case True
    obtain r s' where d: "draw s = (r, s')" by fastforce
    with True that show ?thesis using env_frames(4) [OF d] draw_range [OF d] by auto
  next
    case False
    then show ?thesis using that [of 0 "te_rng s"] by (simp add: SB_MAX_RND_def)
  qed
  have "env_ok n (s\<lparr>te_rng := g\<rparr>)" using assms(2) by (simp add: env_ok_def)
  from env_ok_start [OF this assms(3)] obtain L where
    L: "event_start tid (s\<lparr>te_rng := g\<rparr>) = Some (s\<lparr>te_rng := g, te_lgr := L, te_ticks := te_ticks s + 1\<rparr>)"
    "env_ok n (s\<lparr>te_rng := g, te_lgr := L, te_ticks := te_ticks s + 1\<rparr>)" by auto
  let ?s1 = "s\<lparr>te_rng := g, te_lgr := L, te_ticks := te_ticks s + 1\<rparr>"
  have "\<exists>tmp buf. (if memory_access_rnd s
               then rnd_loop (memory_oper s) (nat (memory_block_size s)) (mem_index rnd (memory_block_size s)) 0 b
               else seq_loop (memory_oper s) ?m 0 0 b) = Some (tmp, buf) \<and> length buf = ?m"
  proof (cases "memory_block_size s = 0")
    case False
    show ?thesis
    proof (cases "memory_access_rnd s")
      case True
      then obtain i where "mem_index rnd (memory_block_size s) = Some i" "i < ?m"
        using mem_index_ok [OF r _ bs(2)] bs(1,3) \<open>memory_block_size s \<noteq> 0\<close> by auto
      with True rnd_loop_ok [OF b(2), of i] show ?thesis by simp
    qed (use seq_loop_ok [OF b(2), of 0 ?m] in simp)
  qed (use b(2) in simp)
  then obtain tmp buf where l: "(if memory_access_rnd s
               then rnd_loop (memory_oper s) (nat (memory_block_size s)) (mem_index rnd (memory_block_size s)) 0 b
               else seq_loop (memory_oper s) ?m 0 0 b) = Some (tmp, buf)" "length buf = ?m" by blast
  let ?s2 = "put_buffer (memory_scope s) tid buf (?s1\<lparr>mem_tmp := tmp\<rparr>)"
  have "env_ok n ?s2" using L(2) by (simp add: env_ok_def put_buffer_def)
  from env_ok_stop [OF this assms(3)] obtain L' where
    L': "event_stop tid ?s2 = Some (?s2\<lparr>te_lgr := L', te_ticks := te_ticks ?s2 + 1\<rparr>)"
    "env_ok n (?s2\<lparr>te_lgr := L', te_ticks := te_ticks ?s2 + 1\<rparr>)" by blast
  have "memory_execute_request \<lparr>req_type = ty, req_data = Some q\<rparr> tid s
      = Some (0, ?s2\<lparr>te_lgr := L', te_ticks := te_ticks ?s2 + 1\<rparr>)"
    using b(1) d L(1) l(1) L'(1) assms(4,5) by (cases "memory_access_rnd s") (simp_all add: memory_execute_request_def)
  moreover have "mem_ready tid (?s2\<lparr>te_lgr := L', te_ticks := te_ticks ?s2 + 1\<rparr>)"
    using b(1) l(2) bs by (auto simp: mem_ready_def put_buffer_def the_buffer_def split: if_splits)
  ultimately show ?thesis using L'(2) by (auto simp: put_buffer_def)
qed

lemma memory_runs:
  assumes "mem_ready tid s" and "env_ok n s" and "tid < n" and "0 < memory_block_size s"
    and "\<not> (memory_access_rnd s \<and> memory_oper s = SB_MEM_OP_NONE)" and "0 \<le> total_bytes s"
    and "memory_total_size s + memory_block_size s \<le> LONG_MAX"
    and "m = nat ((memory_total_size s - total_bytes s + memory_block_size s - 1) div memory_block_size s)"
  shows "\<exists>s'. worker_runs (memory_test sys array opts) tid (Some s) m (Some s') \<and>
     total_bytes s' = total_bytes s + int m * memory_block_size s \<and> total_ops s' = total_ops s + of_nat m"
  using assms
proof (induction m arbitrary: s)
  case 0
  let ?b = "memory_block_size s"
  have "\<not> 0 < (memory_total_size s - total_bytes s + ?b - 1) div ?b" using 0 by simp
  then have "memory_total_size s - total_bytes s + ?b - 1 < ?b" using 0(4) by (simp add: pos_imp_zdiv_pos_iff)
  then have "memory_get_request s = Some (null_request, s)" by (simp add: memory_get_request_def)
  then have "worker_runs (memory_test sys array opts) tid (Some s) 0 (Some s)"
    by (intro worker_runs.no_more [of _ _ _ null_request]) (simp_all add: get_request_def memory_test_def lift_get_def)
  then show ?case by (intro exI [of _ s]) simp
next
  case (Suc m)
  let ?b = "memory_block_size s"
  let ?q = "\<lparr>mr_type = memory_oper s, mr_block_size = word_of_int ?b, mr_scope = memory_scope s\<rparr>"
  let ?r = "\<lparr>req_type = SB_REQ_TYPE_MEMORY, req_data = Some ?q\<rparr>"
  let ?s1 = "s\<lparr>total_ops := total_ops s + 1, total_bytes := total_bytes s + ?b\<rparr>"
  have "0 < (memory_total_size s - total_bytes s + ?b - 1) div ?b" using Suc.prems(8) by simp
  then have lt: "total_bytes s < memory_total_size s"
    using Suc.prems(4) by (simp add: pos_imp_zdiv_pos_iff)
  with Suc.prems(7) have g: "memory_get_request s = Some (?r, ?s1)" by (simp add: memory_get_request_def Let_def)
  have ready: "mem_ready tid ?s1" "env_ok n ?s1" using Suc.prems(1,2) by (auto simp: mem_ready_def env_ok_def)
  obtain s2 where e: "memory_execute_request ?r tid ?s1 = Some (0, s2)" "mem_ready tid s2" "env_ok n s2"
     "memory_block_size s2 = ?b" "memory_total_size s2 = memory_total_size s"
     "memory_access_rnd s2 = memory_access_rnd s" "memory_oper s2 = memory_oper s"
     "total_bytes s2 = total_bytes s + ?b" "total_ops s2 = total_ops s + 1"
    using mem_ready_execute [OF ready Suc.prems(3), of ?q] Suc.prems(5) by auto
  have "(memory_total_size s - total_bytes s + ?b - 1) div ?b = (memory_total_size s - (total_bytes s + ?b) + ?b - 1) div ?b + 1"
    using Suc.prems(4) div_add_self2 [of ?b "memory_total_size s - total_bytes s - 1"] by (simp add: algebra_simps)
  then have "m = nat ((memory_total_size s2 - total_bytes s2 + memory_block_size s2 - 1) div memory_block_size s2)"
    using Suc.prems(8) e by simp
  then obtain s' where s': "worker_runs (memory_test sys array opts) tid (Some s2) m (Some s')"
    "total_bytes s' = total_bytes s2 + int m * memory_block_size s2" "total_ops s' = total_ops s2 + of_nat m"
    using Suc.IH [of s2] Suc.prems e by auto
  have "worker_runs (memory_test sys array opts) tid (Some s) (Suc m) (Some s')"
    using g e(1) s'(1) by (intro worker_runs.again [of _ _ _ ?r "Some ?s1" "Some s2"])
      (simp_all add: get_request_def execute_request_def memory_test_def lift_get_def lift_test_op_def)
  then show ?case using s'(2,3) e by (intro exI [of _ s']) (simp add: algebra_simps)
qed

text \<open>C36: The memory test transfers the whole of \<open>memory-total-size\<close> and then ends: after a successful
  initialisation with a block size above 0 (in the random mode at most 8 GiB, the range of the \<open>int\<close> index), a total
  size above 0 and a sum of the two that does not exceed \<open>LONG_MAX\<close>, a worker that runs alone, without a time limit
  and outside the tx-rate mode, executes the quotient of the sizes, rounded up, as requests; every access stays inside
  its buffer. The random mode cannot be combined with the operation \<open>none\<close>: the first request fails.\<close>

theorem memory_transfers_total:
  assumes "memory_init sys array opts s0 = Some (0, s)" and "plain_run st" and "tworld st = Some s"
    and "env_ok n s" and "tid < n" and "tid < unat (num_threads (te_glob s))"
    and "total_bytes s = 0" and "total_ops s = 0" and "0 < memory_block_size s"
    and "0 < memory_total_size s" and "memory_total_size s + memory_block_size s \<le> LONG_MAX"
    and "memory_access_rnd s \<longrightarrow> memory_block_size s \<le> 2 ^ 33"
  shows "\<exists>s'. worker_loop (memory_test sys array opts) tid st = Some (st\<lparr>tworld := Some s'\<rparr>) \<and>
           (let m = (if memory_access_rnd s \<and> memory_oper s = SB_MEM_OP_NONE then 1
                     else (memory_total_size s + memory_block_size s - 1) div memory_block_size s)
            in total_bytes s' = m * memory_block_size s \<and> total_ops s' = word_of_int m)"
proof -
  have r: "mem_ready tid s" using memory_init_ready [OF assms(1) _ assms(6,12)] assms(9) by simp
  show ?thesis
  proof (cases "memory_access_rnd s \<and> memory_oper s = SB_MEM_OP_NONE")
    case False
    let ?m = "(memory_total_size s + memory_block_size s - 1) div memory_block_size s"
    have "0 \<le> ?m" using assms(9,10) by (simp add: pos_imp_zdiv_nonneg_iff)
    then show ?thesis
      using memory_runs [OF r assms(4,5,9) False _ assms(11) refl, of sys array opts] assms(7,8)
        worker_loop_runs [OF _ assms(2,3), of "memory_test sys array opts" tid] False by (auto simp: Let_def)
  next
    case True
    let ?b = "memory_block_size s"
    let ?q = "\<lparr>mr_type = memory_oper s, mr_block_size = word_of_int ?b, mr_scope = memory_scope s\<rparr>"
    let ?r = "\<lparr>req_type = SB_REQ_TYPE_MEMORY, req_data = Some ?q\<rparr>"
    let ?s1 = "s\<lparr>total_ops := total_ops s + 1, total_bytes := total_bytes s + ?b\<rparr>"
    have g: "memory_get_request s = Some (?r, ?s1)" using assms(7,10,11) by (simp add: memory_get_request_def Let_def)
    obtain b where b: "the_buffer (memory_scope s) tid ?s1 = Some b"
      using r by (auto simp: mem_ready_def)
    obtain rnd g where d: "draw ?s1 = (rnd, ?s1\<lparr>te_rng := g\<rparr>)" by (cases "draw ?s1") (auto dest: env_frames(4))
    have "env_ok n (?s1\<lparr>te_rng := g\<rparr>)" using assms(4) by (simp add: env_ok_def)
    from env_ok_start [OF this assms(5)] obtain L where
      L: "event_start tid (?s1\<lparr>te_rng := g\<rparr>) = Some (?s1\<lparr>te_rng := g, te_lgr := L, te_ticks := te_ticks s + 1\<rparr>)"
        "env_ok n (?s1\<lparr>te_rng := g, te_lgr := L, te_ticks := te_ticks s + 1\<rparr>)" by auto
    let ?e = "?s1\<lparr>te_rng := g, te_lgr := L, te_ticks := te_ticks s + 1\<rparr>"
    obtain L' where L': "say LOG_FATAL ''Unknown memory request type:0. Aborting...\<newline>'' ?e = Some (?e\<lparr>te_lgr := L'\<rparr>)"
      using env_ok_say [OF L(2)] by blast
    let ?s2 = "?e\<lparr>te_lgr := L'\<rparr>"
    have "memory_execute_request ?r tid ?s1 = Some (1, ?s2)"
      using True b d L(1) L' by (simp add: memory_execute_request_def)
    with g have "worker_runs (memory_test sys array opts) tid (Some s) 1 (Some ?s2)"
      by (intro worker_runs.failed [of _ _ _ ?r "Some ?s1" 1])
        (simp_all add: get_request_def execute_request_def memory_test_def lift_get_def lift_test_op_def)
    from worker_loop_runs [OF this assms(2,3)] True assms(7,8) show ?thesis by (auto simp: Let_def)
  qed
qed

definition example_mem_opts :: options where
  "example_mem_opts = map (\<lambda>(n, ty, v). \<lparr>o_name = n, o_type = ty, o_values = [mk_value v], o_ignore = False\<rparr>)
     [(''memory-block-size'', SB_ARG_TYPE_SIZE, ''8''), (''memory-total-size'', SB_ARG_TYPE_SIZE, ''20''),
      (''memory-scope'', SB_ARG_TYPE_STRING, ''local''), (''memory-oper'', SB_ARG_TYPE_STRING, ''write''),
      (''memory-access-mode'', SB_ARG_TYPE_STRING, ''rnd'')]"

lemma example_mem_values:
  "sb_get_value_size example_mem_opts ''memory-block-size'' = 8"
  "sb_get_value_size example_mem_opts ''memory-total-size'' = 20"
  "sb_get_value_string example_mem_opts ''memory-scope'' = Some ''local''"
  "sb_get_value_string example_mem_opts ''memory-oper'' = Some ''write''"
  "sb_get_value_string example_mem_opts ''memory-access-mode'' = Some ''rnd''"
  "sb_get_value_flag example_mem_opts ''memory-hugetlb'' = False"
  by code_simp+

definition example_memory :: memory_state where
  "example_memory = test_env.extend example_env
     \<lparr>memory_block_size = 8, memory_total_size = 20, memory_scope = SB_MEM_SCOPE_LOCAL, memory_oper = SB_MEM_OP_WRITE,
      memory_access_rnd = True, memory_hugetlb = False, total_ops = 0, total_bytes = 0, last_bytes = 0,
      mem_buffers = [[0, 0], [0, 0]], mem_buffer = None, mem_tmp = 0\<rparr>"

definition example_mem_sys :: mem_sys where
  "example_mem_sys = \<lparr>sys_malloc = (\<lambda>_ _. True), sys_shm = (\<lambda>_ _. False)\<rparr>"

lemma example_memory_init: "memory_init example_mem_sys True example_mem_opts example_memory = Some (0, example_memory)"
proof -
  have "memory_options example_mem_opts example_memory = Some (Inr example_memory)"
    unfolding memory_options_def example_mem_values by (simp add: example_memory_def test_env.extend_def)
  moreover have "unat (num_threads (te_glob example_memory)) = 2"
    by (simp add: example_memory_def test_env.extend_def example_env_def example_globals_def)
  moreover have "memory_scope example_memory = SB_MEM_SCOPE_LOCAL" "memory_hugetlb example_memory = False"
    "memory_block_size example_memory = 8" "example_memory\<lparr>mem_buffers := [[0, 0], [0, 0]]\<rparr> = example_memory"
    by (simp_all add: example_memory_def test_env.extend_def)
  moreover have "[0..<2] = [0, 1 :: nat]" "replicate 2 (0 :: int) = [0, 0]" by (simp_all add: upt_rec numeral_2_eq_2)
  ultimately show ?thesis by (simp add: memory_init_def alloc_buffer_def example_mem_sys_def Let_def)
qed

theorem memory_transfers_total_witness:
  "\<exists>s'. worker_loop (memory_test example_mem_sys True example_mem_opts) 1 (example_run (Some example_memory))
          = Some ((example_run (Some example_memory))\<lparr>tworld := Some s'\<rparr>) \<and> total_bytes s' = 24 \<and> total_ops s' = 3"
proof -
  have m: "memory_block_size example_memory = 8" "memory_total_size example_memory = 20" "total_bytes example_memory = 0"
    "total_ops example_memory = 0" "memory_oper example_memory = SB_MEM_OP_WRITE"
    "unat (num_threads (te_glob example_memory)) = 2"
    by (simp_all add: example_memory_def test_env.extend_def example_env_def example_globals_def)
  have "env_ok 2 example_memory" unfolding example_memory_def by (rule example_env_ok)
  from memory_transfers_total [OF example_memory_init example_run_plain example_run_world this, of 1] m
  show ?thesis by (simp add: Let_def)
qed

text \<open>A block size of 0 is accepted, and the worker then never stops.\<close>

theorem memory_zero_block_never_ends:
  assumes "plain_run st" and "tworld st = Some s" and "memory_block_size s = 0" and "total_bytes s < memory_total_size s"
    and "mem_ready tid s" and "env_ok n s" and "tid < n" and "\<not> (memory_access_rnd s \<and> memory_oper s = SB_MEM_OP_NONE)"
    and "memory_total_size s \<le> LONG_MAX"
  shows "worker_loop (memory_test sys array opts) tid st = None"
proof -
  let ?t = "memory_test sys array opts"
  define P where "P st \<longleftrightarrow> plain_run st \<and> (\<exists>s. tworld st = Some s \<and> memory_block_size s = 0 \<and>
    total_bytes s < memory_total_size s \<and> mem_ready tid s \<and> env_ok n s \<and>
    \<not> (memory_access_rnd s \<and> memory_oper s = SB_MEM_OP_NONE) \<and> memory_total_size s \<le> LONG_MAX)" for st
  have "P st" using assms by (auto simp: P_def)
  then show ?thesis
  proof (rule worker_never_stops)
    fix st :: "memory_state option run_state" assume "P st"
    then obtain s where s: "plain_run st" "tworld st = Some s" "memory_block_size s = 0" "total_bytes s < memory_total_size s"
      "mem_ready tid s" "env_ok n s" "\<not> (memory_access_rnd s \<and> memory_oper s = SB_MEM_OP_NONE)"
      "memory_total_size s \<le> LONG_MAX" by (auto simp: P_def)
    let ?q = "\<lparr>mr_type = memory_oper s, mr_block_size = 0, mr_scope = memory_scope s\<rparr>"
    let ?r = "\<lparr>req_type = SB_REQ_TYPE_MEMORY, req_data = Some ?q\<rparr>"
    let ?s1 = "s\<lparr>total_ops := total_ops s + 1\<rparr>"
    have ready: "mem_ready tid ?s1" "env_ok n ?s1" using s(5,6) by (auto simp: mem_ready_def env_ok_def)
    obtain s2 where e: "memory_execute_request ?r tid ?s1 = Some (0, s2)" "mem_ready tid s2" "env_ok n s2"
      "memory_block_size s2 = 0" "memory_total_size s2 = memory_total_size s"
      "memory_access_rnd s2 = memory_access_rnd s" "memory_oper s2 = memory_oper s" "total_bytes s2 = total_bytes s"
      using mem_ready_execute [OF ready assms(7), of ?q 0 SB_REQ_TYPE_MEMORY] s(3,7) by auto
    have g: "memory_get_request s = Some (?r, ?s1)" using s(3,4,8) by (simp add: memory_get_request_def Let_def)
    have "worker_round ?t tid st = Again (st\<lparr>tworld := Some s2\<rparr>)"
      using s(1,2) g e(1) by (simp add: plain_run_def worker_round_def worker_request_def get_request_def
          execute_request_def memory_test_def lift_get_def lift_test_op_def)
    moreover have "P (st\<lparr>tworld := Some s2\<rparr>)" using s e by (auto simp: P_def plain_run_def)
    ultimately show "\<exists>st'. worker_round ?t tid st = Again st' \<and> P st'" by blast
  qed
qed

end
