(* ===== verification/File_IO.thy ===== *)
theory File_IO
  imports Bench_Tests CRC32
begin

text \<open>
  The file test (\<open>tests/fileio/sb_fileio.c\<close>), as \<open>config.h\<close> configures it: Linux with 64-bit pointers, \<open>mmap\<close>, \<open>libaio\<close>,
  \<open>fdatasync\<close> and \<open>posix_memalign\<close>. The operating system is an argument: a record of system calls on a world of
  type \<^typ>\<open>'w\<close>. A buffer is the list of its bytes; \<open>pt_buffer\<close> is absent where \<open>posix_memalign\<close> failed, and what fresh
  memory holds is an argument. \<open>long long\<close> values are integers, which stay far inside their range; \<open>double\<close> is real.
  \<^const>\<open>None\<close> is undefined behaviour: an access outside an array, a division by zero, a NULL pointer. The functions
  that run under \<open>SB_THREAD_MUTEX\<close> are one step.
\<close>

section \<open>Data\<close>

datatype file_test_mode =
  MODE_READ | MODE_WRITE | MODE_REWRITE | MODE_RND_READ | MODE_RND_WRITE | MODE_RND_RW | MODE_MIXED
datatype file_fsync_mode = FSYNC_ALL | FSYNC_DATA
datatype file_io_mode = FILE_IO_MODE_SYNC | FILE_IO_MODE_ASYNC | FILE_IO_MODE_MMAP
datatype file_flags = SB_FILE_FLAG_NORMAL | SB_FILE_FLAG_SYNC | SB_FILE_FLAG_DSYNC | SB_FILE_FLAG_DIRECTIO
datatype sb_file_op = FILE_OP_TYPE_NULL | FILE_OP_TYPE_READ | FILE_OP_TYPE_WRITE | FILE_OP_TYPE_FSYNC

record file_request =
  fr_file_id :: u32
  fr_pos :: int
  fr_size :: int
  fr_op :: sb_file_op

record per_thread_t =
  pt_buffer :: "u8 list option"
  pt_file_id :: u32
  pt_pos :: int

text \<open>An operation handed to \<open>libaio\<close>: its type and length, and what the kernel is told to do.\<close>

record aio_oper =
  ao_type :: sb_file_op
  ao_len :: int
  ao_fd :: int
  ao_offset :: int

text \<open>The system calls. \<open>open\<close> takes the name, whether \<open>O_CREAT\<close> is given, and the extra flags; reads give the
  result and the bytes stored. A mapping is a number. The asynchronous calls may change the thread's buffer.\<close>

record 'w file_sys =
  os_open :: "string \<Rightarrow> bool \<Rightarrow> file_flags \<Rightarrow> 'w \<Rightarrow> int \<times> 'w"
  os_unlink :: "string \<Rightarrow> 'w \<Rightarrow> 'w"
  os_close :: "int \<Rightarrow> 'w \<Rightarrow> 'w"
  os_seek_end :: "int \<Rightarrow> 'w \<Rightarrow> int \<times> 'w"
  os_write :: "int \<Rightarrow> u8 list \<Rightarrow> 'w \<Rightarrow> int \<times> 'w"
  os_pread :: "int \<Rightarrow> nat \<Rightarrow> int \<Rightarrow> 'w \<Rightarrow> (int \<times> u8 list) \<times> 'w"
  os_pwrite :: "int \<Rightarrow> u8 list \<Rightarrow> int \<Rightarrow> 'w \<Rightarrow> int \<times> 'w"
  os_fsync :: "int \<Rightarrow> 'w \<Rightarrow> int \<times> 'w"
  os_fdatasync :: "int \<Rightarrow> 'w \<Rightarrow> int \<times> 'w"
  os_ftruncate :: "int \<Rightarrow> int \<Rightarrow> 'w \<Rightarrow> int \<times> 'w"
  os_mmap :: "int \<Rightarrow> int \<Rightarrow> 'w \<Rightarrow> int option \<times> 'w"
  os_munmap :: "int \<Rightarrow> 'w \<Rightarrow> 'w"
  os_mread :: "int \<Rightarrow> int \<Rightarrow> nat \<Rightarrow> 'w \<Rightarrow> u8 list"
  os_mwrite :: "int \<Rightarrow> int \<Rightarrow> u8 list \<Rightarrow> 'w \<Rightarrow> 'w"
  os_msync :: "int \<Rightarrow> 'w \<Rightarrow> int \<times> 'w"
  os_io_queue_init :: "nat \<Rightarrow> u32 \<Rightarrow> 'w \<Rightarrow> int \<times> 'w"
  os_io_queue_release :: "nat \<Rightarrow> 'w \<Rightarrow> 'w"
  os_io_submit :: "nat \<Rightarrow> aio_oper \<Rightarrow> u8 list option \<Rightarrow> 'w \<Rightarrow> int \<times> u8 list option \<times> 'w"
  os_io_getevents :: "nat \<Rightarrow> int \<Rightarrow> u32 \<Rightarrow> u8 list option \<Rightarrow> 'w \<Rightarrow> int \<times> (aio_oper \<times> int) list \<times> u8 list option \<times> 'w"
  os_errno :: "'w \<Rightarrow> int \<times> string"

text \<open>The rest of the environment: the byte order, the address of each thread's buffer, fresh memory for buffers,
  what the array \<open>per_thread\<close> holds after \<open>malloc\<close>, whether \<open>malloc\<close> succeeds, \<open>sscanf\<close>, and the format \<open>%.5g\<close>.\<close>

record 'w file_env =
  fe_os :: "'w file_sys"
  fe_little :: bool
  fe_addr :: "nat \<Rightarrow> nat"
  fe_memalign :: "nat \<Rightarrow> nat \<Rightarrow> u8 list option"
  fe_junk :: "nat \<Rightarrow> u32 \<times> int"
  fe_malloc :: bool
  fe_scan :: "string \<Rightarrow> real option"
  fe_show_g :: "rat \<Rightarrow> string"

record 'w file_state = test_env +
  num_files :: u32
  total_size :: int
  file_size :: int
  file_block_size :: int
  file_extra_flags :: file_flags
  file_fsync_freq :: int
  file_fsync_all :: bool
  file_fsync_end :: bool
  file_fsync_mode :: file_fsync_mode
  file_rw_ratio :: real
  file_merged_requests :: int
  file_max_request_size :: int
  file_io_mode :: file_io_mode
  file_async_backlog :: u32
  position :: int
  current_file :: u32
  fsynced_file :: u32
  fsynced_file2 :: u32
  is_dirty :: bool
  f_read_ops :: u32
  f_write_ops :: u32
  f_other_ops :: u32
  last_other_ops :: u32
  f_performed :: u32
  bytes_read :: u64
  last_bytes_read :: u64
  bytes_written :: u64
  last_bytes_written :: u64
  test_mode :: file_test_mode
  prev_req :: file_request
  per_thread :: "per_thread_t list"
  file_percentile :: sb_percentile
  fds :: "int list"
  mmaps :: "int list"
  aio_pending :: "u32 list"
  f_world :: 'w

definition fileio_args :: "sb_arg list" where
  "fileio_args =
    [mk_arg ''file-num'' ''number of files to create'' SB_ARG_TYPE_INT (Some ''128''),
     mk_arg ''file-block-size'' ''block size to use in all IO operations'' SB_ARG_TYPE_INT (Some ''16384''),
     mk_arg ''file-total-size'' ''total size of files to create'' SB_ARG_TYPE_SIZE (Some ''2G''),
     mk_arg ''file-test-mode'' ''test mode {seqwr, seqrewr, seqrd, rndrd, rndwr, rndrw}'' SB_ARG_TYPE_STRING None,
     mk_arg ''file-io-mode'' ''file operations mode {sync,async,mmap}'' SB_ARG_TYPE_STRING (Some ''sync''),
     mk_arg ''file-async-backlog'' ''number of asynchronous operatons to queue per thread'' SB_ARG_TYPE_INT (Some ''128''),
     mk_arg ''file-extra-flags'' ''additional flags to use on opening files {sync,dsync,direct}'' SB_ARG_TYPE_STRING (Some []),
     mk_arg ''file-fsync-freq'' ''do fsync() after this number of requests (0 - don't use fsync())'' SB_ARG_TYPE_INT (Some ''100''),
     mk_arg ''file-fsync-all'' ''do fsync() after each write operation'' SB_ARG_TYPE_FLAG (Some ''off''),
     mk_arg ''file-fsync-end'' ''do fsync() at the end of test'' SB_ARG_TYPE_FLAG (Some ''on''),
     mk_arg ''file-fsync-mode'' ''which method to use for synchronization {fsync, fdatasync}'' SB_ARG_TYPE_STRING (Some ''fsync''),
     mk_arg ''file-merged-requests'' ''merge at most this number of IO requests if possible (0 - don't merge)'' SB_ARG_TYPE_INT (Some ''0''),
     mk_arg ''file-rw-ratio'' ''reads/writes ratio for combined test'' SB_ARG_TYPE_FLOAT (Some ''1.5'')]"

section \<open>Requests\<close>

text \<open>The warnings of \<open>check_seq_req\<close> about a request \<open>r\<close> that follows \<open>p\<close>.\<close>

definition check_seq_req :: "u32 \<Rightarrow> int \<Rightarrow> file_request \<Rightarrow> file_request \<Rightarrow> log" where
  "check_seq_req nfiles fsize p r =
     (if fr_op r = FILE_OP_TYPE_FSYNC \<or> fr_op r = FILE_OP_TYPE_NULL \<or> fr_op p = FILE_OP_TYPE_NULL then []
      else if fr_file_id r - fr_file_id p > 1 \<and> \<not> (fr_file_id r = 0 \<and> fr_file_id p = nfiles - 1)
      then [(LOG_WARNING, ''Discovered too large file difference in seq requests!'')]
      else if fr_file_id r = fr_file_id p
      then (if fr_pos r - fr_pos p \<noteq> fr_size p
            then [(LOG_WARNING, ''Discovered too large position difference in seq request!'')] else [])
      else if fr_pos p + fr_size p \<noteq> fsize \<or> fr_pos r \<noteq> 0
      then [(LOG_WARNING, ''Invalid file switch found!''),
            (LOG_WARNING, ''Old: file_id: '' @ show_int (sint (fr_file_id p)) @ '', pos: '' @ show_int (to_int32 (fr_pos p))
               @ ''  size: '' @ show_int (to_int32 (fr_size p))),
            (LOG_WARNING, ''New: file_id: '' @ show_int (sint (fr_file_id r)) @ '', pos: '' @ show_int (to_int32 (fr_pos r))
               @ ''  size: '' @ show_int (to_int32 (fr_size r)))]
      else [])"

abbreviation (input) file_req :: "file_request \<Rightarrow> file_request sb_request" where
  "file_req r \<equiv> \<lparr>req_type = SB_REQ_TYPE_FILE, req_data = Some r\<rparr>"

definition fsync_req :: "u32 \<Rightarrow> file_request" where
  "fsync_req f = \<lparr>fr_file_id = f, fr_pos = 0, fr_size = 0, fr_op = FILE_OP_TYPE_FSYNC\<rparr>"

definition all_performed :: "'w file_state \<Rightarrow> bool" where
  "all_performed s \<longleftrightarrow> max_requests (te_glob s) > 0 \<and> f_performed s \<ge> max_requests (te_glob s)"

text \<open>The periodic \<open>fsync\<close> of the next file.\<close>

definition periodic_fsync :: "'w file_state \<Rightarrow> file_request \<times> 'w file_state" where
  "periodic_fsync s =
     (let r = fsync_req (fsynced_file s); s = s\<lparr>fsynced_file := fsynced_file s + 1\<rparr>
      in (r, if fsynced_file s = num_files s then s\<lparr>fsynced_file := 0, is_dirty := False\<rparr> else s))"

definition fsync_due :: "'w file_state \<Rightarrow> bool" where
  "fsync_due s \<longleftrightarrow> file_fsync_freq s \<noteq> 0 \<and> is_dirty s \<and> f_performed s mod word_of_int (file_fsync_freq s) = 0"

definition seq_writes :: "'w file_state \<Rightarrow> bool" where
  "seq_writes s \<longleftrightarrow> test_mode s = MODE_WRITE \<or> test_mode s = MODE_REWRITE"

text \<open>A data request: the counters and the rewind to the first file, the request, and the move to the next position.\<close>

definition seq_begin :: "'w file_state \<Rightarrow> 'w file_state" where
  "seq_begin s =
     (let s = s\<lparr>f_performed := f_performed s + 1, is_dirty := is_dirty s \<or> seq_writes s\<rparr>
      in if current_file s = num_files s then s\<lparr>position := 0, current_file := 0\<rparr> else s)"

definition seq_request :: "'w file_state \<Rightarrow> file_request" where
  "seq_request s =
     \<lparr>fr_file_id = current_file s, fr_pos = position s,
      fr_size = (if file_merged_requests s > 0
                 then (if position s + file_max_request_size s \<le> file_size s
                       then file_max_request_size s else file_size s - position s)
                 else file_block_size s),
      fr_op = (if seq_writes s then FILE_OP_TYPE_WRITE else FILE_OP_TYPE_READ)\<rparr>"

definition seq_scroll :: "int \<Rightarrow> 'w file_state \<Rightarrow> 'w file_state" where
  "seq_scroll sz s =
     (if position s + sz = file_size s then s\<lparr>position := 0, current_file := current_file s + 1\<rparr>
      else s\<lparr>position := position s + sz\<rparr>)"

definition file_get_seq_request :: "'w file_state \<Rightarrow> (file_request sb_request \<times> 'w file_state) option" where
  "file_get_seq_request s =
     (if all_performed s then
        (if file_fsync_end s \<and> seq_writes s \<and> fsynced_file2 s < num_files s
         then Some (file_req (fsync_req (fsynced_file2 s)), s\<lparr>fsynced_file2 := fsynced_file2 s + 1\<rparr>)
         else Some (null_request, s))
      else if seq_writes s \<and> fsync_due s then (let (r, s) = periodic_fsync s in Some (file_req r, s))
      else
        (let s = seq_begin s; r = seq_request s; s = seq_scroll (fr_size r) s
         in if validate (te_glob s)
            then do { s \<leftarrow> say_all (check_seq_req (num_files s) (file_size s) (prev_req s) r) s;
                      Some (file_req r, s\<lparr>prev_req := r\<rparr>) }
            else Some (file_req r, s)))"

text \<open>The position of a random request. The loop draws again while another thread uses the block.\<close>

definition rnd_position :: "nat \<Rightarrow> 'w file_state \<Rightarrow> (u32 \<times> int) option" where
  "rnd_position randnum s =
     (let tmppos = \<lfloor>real randnum / real SB_MAX_RND * real_of_int (total_size s)\<rfloor> in
      if file_block_size s = 0 \<or> file_size s = 0 then None
      else let tmppos = tmppos - tmppos mod file_block_size s
           in Some (word_of_int (tmppos div file_size s), tmppos mod file_size s))"

definition block_in_use :: "nat \<Rightarrow> u32 \<times> int \<Rightarrow> per_thread_t list \<Rightarrow> bool" where
  "block_in_use tid b pts = (\<exists>i < length pts. i \<noteq> tid \<and> pt_file_id (pts ! i) = fst b \<and> pt_pos (pts ! i) = snd b)"

partial_function (option) rnd_block :: "nat \<Rightarrow> 'w file_state \<Rightarrow> ((u32 \<times> int) \<times> 'w file_state) option" where
  "rnd_block tid s =
     (let (randnum, s) = draw s in
      case rnd_position randnum s of
        None \<Rightarrow> None
      | Some b \<Rightarrow>
          (if validate (te_glob s) \<and> block_in_use tid b (per_thread s) then rnd_block tid s else Some (b, s)))"

definition file_get_rnd_request :: "nat \<Rightarrow> 'w file_state \<Rightarrow> (file_request sb_request \<times> 'w file_state) option" where
  "file_get_rnd_request tid s =
     (let mode = (if test_mode s = MODE_RND_RW
                  then (if real_of_int (sint (f_read_ops s + 1)) / real_of_int (sint (f_write_ops s + 1)) < file_rw_ratio s
                        then MODE_RND_READ else MODE_RND_WRITE)
                  else test_mode s)
      in if all_performed s then
           (if file_fsync_end s \<and> test_mode s \<in> {MODE_RND_WRITE, MODE_RND_RW, MODE_MIXED} \<and> fsynced_file2 s < num_files s
            then Some (file_req (fsync_req (fsynced_file2 s)), s\<lparr>fsynced_file2 := fsynced_file2 s + 1\<rparr>)
            else Some (null_request, s))
         else if fsync_due s then (let (r, s) = periodic_fsync s in Some (file_req r, s))
         else
           (let op = (if mode = MODE_RND_WRITE then FILE_OP_TYPE_WRITE else FILE_OP_TYPE_READ)
            in do { ((f, p), s) \<leftarrow> rnd_block tid s;
                    if tid \<ge> length (per_thread s) then None
                    else let s = s\<lparr>per_thread := (per_thread s)[tid := (per_thread s ! tid)\<lparr>pt_file_id := f, pt_pos := p\<rparr>],
                                   f_performed := f_performed s + 1\<rparr>;
                             s = (if op = FILE_OP_TYPE_WRITE then s\<lparr>is_dirty := True\<rparr> else s)
                         in Some (file_req \<lparr>fr_file_id = f, fr_pos = p, fr_size = file_block_size s, fr_op = op\<rparr>, s) }))"

definition file_get_request :: "nat \<Rightarrow> 'w file_state \<Rightarrow> (file_request sb_request \<times> 'w file_state) option" where
  "file_get_request tid s =
     (if test_mode s \<in> {MODE_WRITE, MODE_REWRITE, MODE_READ} then file_get_seq_request s
      else file_get_rnd_request tid s)"

section \<open>Blocks with a checksum\<close>

text \<open>Integers in memory: \<open>n\<close> bytes, the low ones first, or in the other order.\<close>

definition bytes_of :: "nat \<Rightarrow> 'a::len word \<Rightarrow> u8 list" where
  "bytes_of n w = map (\<lambda>k. ucast (drop_bit (8 * k) w)) [0..<n]"

definition store_word :: "bool \<Rightarrow> nat \<Rightarrow> 'a::len word \<Rightarrow> u8 list" where
  "store_word little n w = (if little then bytes_of n w else rev (bytes_of n w))"

definition load_word :: "bool \<Rightarrow> u8 list \<Rightarrow> 'a::len word" where
  "load_word little bs = foldr (\<lambda>b acc. ucast b OR push_bit 8 acc) (if little then bs else rev bs) 0"

abbreviation (input) FILE_CHECKSUM_LENGTH :: nat where "FILE_CHECKSUM_LENGTH \<equiv> 4"
abbreviation (input) FILE_OFFSET_LENGTH :: nat where "FILE_OFFSET_LENGTH \<equiv> 8"

text \<open>\<open>buf[i] = sb_rnd () & 0xFF\<close>\<close>

fun draw_bytes :: "nat \<Rightarrow> 'a test_env_scheme \<Rightarrow> u8 list \<times> 'a test_env_scheme" where
  "draw_bytes 0 s = ([], s)"
| "draw_bytes (Suc n) s = (let (r, s) = draw s; (bs, s) = draw_bytes n s in (of_nat r # bs, s))"

definition block_checksum :: "'w file_env \<Rightarrow> nat \<Rightarrow> u8 list \<Rightarrow> u32" where
  "block_checksum E tid bs = ucast (crc32 (fe_little E) (fe_addr E tid) 0 (Some bs))"

text \<open>The format \<open>%x\<close>.\<close>

fun show_hex :: "nat \<Rightarrow> string" where
  "show_hex n = (if n < 16 then [''0123456789abcdef'' ! n] else show_hex (n div 16) @ [''0123456789abcdef'' ! (n mod 16)])"

declare show_hex.simps [simp del]

text \<open>\<open>file_fill_buffer\<close> of the buffer of thread \<open>tid\<close>. For a length below 12 the bound of the loop, of type
  \<open>size_t\<close>, wraps around, and the loop runs out of the buffer.\<close>

definition file_fill_buffer ::
  "'w file_env \<Rightarrow> nat \<Rightarrow> u8 list \<Rightarrow> u32 \<Rightarrow> u64 \<Rightarrow> 'w file_state \<Rightarrow> (u8 list \<times> 'w file_state) option" where
  "file_fill_buffer E tid buf len offset s =
     (if unat len < FILE_CHECKSUM_LENGTH + FILE_OFFSET_LENGTH \<or> length buf < unat len then None
      else let (bs, s) = draw_bytes (unat len - (FILE_CHECKSUM_LENGTH + FILE_OFFSET_LENGTH)) s
           in Some (bs @ store_word (fe_little E) 4 (block_checksum E tid bs) @ store_word (fe_little E) 8 offset
                      @ drop (unat len) buf, s))"

definition file_validate_buffer ::
  "'w file_env \<Rightarrow> nat \<Rightarrow> u8 list \<Rightarrow> u32 \<Rightarrow> u64 \<Rightarrow> 'w file_state \<Rightarrow> (int \<times> 'w file_state) option" where
  "file_validate_buffer E tid buf len offset s =
     (if unat len < FILE_CHECKSUM_LENGTH + FILE_OFFSET_LENGTH \<or> length buf < unat len then None
      else let cs_offset = unat len - (FILE_CHECKSUM_LENGTH + FILE_OFFSET_LENGTH);
               checksum = block_checksum E tid (take cs_offset buf);
               stored = load_word (fe_little E) (take 4 (drop cs_offset buf)) :: u32;
               stored_offset = load_word (fe_little E) (take 8 (drop (cs_offset + 4) buf)) :: u64
           in if checksum \<noteq> stored
              then do { s \<leftarrow> say LOG_FATAL ''Checksum mismatch in block: '' s;
                        s \<leftarrow> say LOG_FATAL (''    Calculated value: 0x'' @ show_hex (unat checksum)
                                              @ ''    Stored value: 0x'' @ show_hex (unat stored)) s;
                        Some (1, s) }
              else if offset \<noteq> stored_offset
              then do { s \<leftarrow> say LOG_FATAL ''Offset mismatch in block:'' s;
                        s \<leftarrow> say LOG_FATAL (''   Actual offset: '' @ show_int (sint offset)
                                              @ ''    Stored offset: '' @ show_int (sint stored_offset)) s;
                        Some (1, s) }
              else Some (0, s))"

section \<open>File operations\<close>

definition say_errno :: "'w file_env \<Rightarrow> log_msg_priority \<Rightarrow> string \<Rightarrow> 'w file_state \<Rightarrow> 'w file_state option" where
  "say_errno E p txt s =
     (let (n, t) = os_errno (fe_os E) (f_world s)
      in map_option (\<lambda>L. s\<lparr>te_lgr := L\<rparr>) (log_errno p n t txt (te_lgr s)))"

text \<open>The outcome of \<open>log_errno\<close> or \<open>log_text\<close> and \<open>return 1\<close>.\<close>

definition fail_errno :: "'w file_env \<Rightarrow> string \<Rightarrow> 'w file_state \<Rightarrow> (int \<times> 'w file_state) option" where
  "fail_errno E txt s = map_option (Pair 1) (say_errno E LOG_FATAL txt s)"

definition fail_text :: "string \<Rightarrow> 'w file_state \<Rightarrow> (int \<times> 'w file_state) option" where
  "fail_text txt s = map_option (Pair 1) (say LOG_FATAL txt s)"

definition thread_buffer :: "nat \<Rightarrow> 'w file_state \<Rightarrow> u8 list option option" where
  "thread_buffer tid s = (if tid < length (per_thread s) then Some (pt_buffer (per_thread s ! tid)) else None)"

definition set_buffer :: "nat \<Rightarrow> u8 list option \<Rightarrow> 'w file_state \<Rightarrow> 'w file_state" where
  "set_buffer tid b s = s\<lparr>per_thread := (per_thread s)[tid := (per_thread s ! tid)\<lparr>pt_buffer := b\<rparr>]\<rparr>"

text \<open>The events that \<open>io_getevents\<close> returned, up to the first failure.\<close>

fun file_events :: "nat \<Rightarrow> (aio_oper \<times> int) list \<Rightarrow> 'w file_state \<Rightarrow> (int \<times> 'w file_state) option" where
  "file_events tid [] s = Some (0, s)"
| "file_events tid ((oper, res) # evs) s =
     (let next = (\<lambda>s. file_events tid evs (s\<lparr>aio_pending := (aio_pending s)[tid := aio_pending s ! tid - 1]\<rparr>)) in
      case ao_type oper of
        FILE_OP_TYPE_FSYNC \<Rightarrow>
          (if res \<noteq> 0 then fail_text ''Asynchronous fsync failed!\<newline>'' s
           else next (s\<lparr>f_other_ops := f_other_ops s + 1\<rparr>))
      | FILE_OP_TYPE_READ \<Rightarrow>
          (if res \<noteq> ao_len oper then fail_text ''Asynchronous read failed!\<newline>'' s
           else next (s\<lparr>f_read_ops := f_read_ops s + 1, bytes_read := bytes_read s + word_of_int (ao_len oper)\<rparr>))
      | FILE_OP_TYPE_WRITE \<Rightarrow>
          (if res \<noteq> ao_len oper then fail_text ''Asynchronous write failed!\<newline>'' s
           else next (s\<lparr>f_write_ops := f_write_ops s + 1, bytes_written := bytes_written s + word_of_int (ao_len oper)\<rparr>))
      | FILE_OP_TYPE_NULL \<Rightarrow> next s)"

definition file_wait :: "'w file_env \<Rightarrow> nat \<Rightarrow> int \<Rightarrow> 'w file_state \<Rightarrow> (int \<times> 'w file_state) option" where
  "file_wait E tid nreq s =
     do { buf \<leftarrow> thread_buffer tid s;
          let (nr, evs, buf, w) = os_io_getevents (fe_os E) tid nreq (file_async_backlog s) buf (f_world s);
          let s = set_buffer tid buf (s\<lparr>f_world := w\<rparr>);
          if nr < 1 then fail_errno E ''io_getevents() failed!'' s
          else file_events tid (take (nat nr) evs) s }"

definition file_submit_or_wait :: "'w file_env \<Rightarrow> aio_oper \<Rightarrow> nat \<Rightarrow> 'w file_state \<Rightarrow> (int \<times> 'w file_state) option" where
  "file_submit_or_wait E oper tid s =
     (if \<not> fe_malloc E then fail_text ''Failed to allocate AIO operation!'' s
      else do {
        buf \<leftarrow> thread_buffer tid s;
        let (r, buf, w) = os_io_submit (fe_os E) tid oper buf (f_world s);
        let s = set_buffer tid buf (s\<lparr>f_world := w\<rparr>);
        if r < 1 then fail_errno E ''io_submit() failed!'' s
        else if tid \<ge> length (aio_pending s) then None
        else let s = s\<lparr>aio_pending := (aio_pending s)[tid := aio_pending s ! tid + 1]\<rparr>
             in if aio_pending s ! tid < file_async_backlog s then Some (0, s) else file_wait E tid 1 s })"

definition file_thread_done :: "'w file_env \<Rightarrow> nat \<Rightarrow> 'w file_state \<Rightarrow> (int \<times> 'w file_state) option" where
  "file_thread_done E tid s =
     (if file_io_mode s \<noteq> FILE_IO_MODE_ASYNC then Some (0, s)
      else if tid \<ge> length (aio_pending s) then None
      else if aio_pending s ! tid > 0 then file_wait E tid (int (unat (aio_pending s ! tid))) s
      else Some (0, s))"

text \<open>Synchronous and asynchronous mode call \<open>fsync\<close> or \<open>fdatasync\<close>; the branch for an asynchronous \<open>fsync\<close> is
  never reached.\<close>

definition file_fsync :: "'w file_env \<Rightarrow> u32 \<Rightarrow> 'w file_state \<Rightarrow> (int \<times> 'w file_state) option" where
  "file_fsync E fid s =
     (if unat fid \<ge> length (fds s) then None
      else let fd = fds s ! unat fid in
        if file_io_mode s \<in> {FILE_IO_MODE_SYNC, FILE_IO_MODE_ASYNC} then
          (let (r, w) = (if file_fsync_mode s = FSYNC_ALL then os_fsync (fe_os E) fd (f_world s)
                         else os_fdatasync (fe_os E) fd (f_world s))
           in Some (r, s\<lparr>f_world := w\<rparr>))
        else if unat fid \<ge> length (mmaps s) then None
        else (let (r, w) = os_msync (fe_os E) (mmaps s ! unat fid) (f_world s) in Some (r, s\<lparr>f_world := w\<rparr>)))"

definition file_pread :: "'w file_env \<Rightarrow> u32 \<Rightarrow> int \<Rightarrow> int \<Rightarrow> nat \<Rightarrow> 'w file_state \<Rightarrow> (int \<times> 'w file_state) option" where
  "file_pread E fid cnt offset tid s =
     (if unat fid \<ge> length (fds s) then None
      else let fd = fds s ! unat fid in
        if file_io_mode s = FILE_IO_MODE_ASYNC then
          map_option (\<lambda>(rc, s). (if rc \<noteq> 0 then 0 else cnt, s))
            (file_submit_or_wait E \<lparr>ao_type = FILE_OP_TYPE_READ, ao_len = cnt, ao_fd = fd, ao_offset = offset\<rparr> tid s)
        else do {
          buf \<leftarrow> thread_buffer tid s;
          (case buf of
             None \<Rightarrow> (if file_io_mode s = FILE_IO_MODE_SYNC then Some (-1, s) else None)
           | Some b \<Rightarrow>
               (if nat cnt > length b then None
                else if file_io_mode s = FILE_IO_MODE_SYNC then
                  (let ((n, bs), w) = os_pread (fe_os E) fd (nat cnt) offset (f_world s)
                   in Some (n, set_buffer tid (Some (bs @ drop (length bs) b)) (s\<lparr>f_world := w\<rparr>)))
                else if unat fid \<ge> length (mmaps s) then None
                else let bs = os_mread (fe_os E) (mmaps s ! unat fid) offset (nat cnt) (f_world s)
                     in Some (cnt, set_buffer tid (Some (bs @ drop (length bs) b)) s))) })"

definition file_pwrite :: "'w file_env \<Rightarrow> u32 \<Rightarrow> int \<Rightarrow> int \<Rightarrow> nat \<Rightarrow> 'w file_state \<Rightarrow> (int \<times> 'w file_state) option" where
  "file_pwrite E fid cnt offset tid s =
     (if unat fid \<ge> length (fds s) then None
      else let fd = fds s ! unat fid in
        if file_io_mode s = FILE_IO_MODE_ASYNC then
          map_option (\<lambda>(rc, s). (if rc \<noteq> 0 then 0 else cnt, s))
            (file_submit_or_wait E \<lparr>ao_type = FILE_OP_TYPE_WRITE, ao_len = cnt, ao_fd = fd, ao_offset = offset\<rparr> tid s)
        else do {
          buf \<leftarrow> thread_buffer tid s;
          (case buf of
             None \<Rightarrow> (if file_io_mode s = FILE_IO_MODE_SYNC then Some (-1, s) else None)
           | Some b \<Rightarrow>
               (if nat cnt > length b then None
                else if file_io_mode s = FILE_IO_MODE_SYNC then
                  (let (n, w) = os_pwrite (fe_os E) fd (take (nat cnt) b) offset (f_world s) in Some (n, s\<lparr>f_world := w\<rparr>))
                else if unat fid \<ge> length (mmaps s) then None
                else Some (cnt, s\<lparr>f_world := os_mwrite (fe_os E) (mmaps s ! unat fid) offset (take (nat cnt) b) (f_world s)\<rparr>))) })"

section \<open>Executing a request\<close>

text \<open>\<open>sb_percentile_update (&local_percentile, sb_timer_value (&timers[thread_id]))\<close>\<close>

definition note_response :: "nat \<Rightarrow> 'w file_state \<Rightarrow> 'w file_state option" where
  "note_response tid s =
     (if tid \<ge> length (log_timers (te_lgr s)) then None
      else do { (v, t, ms) \<leftarrow> sb_timer_value (te_clock s (te_ticks s)) (log_timers (te_lgr s) ! tid);
                p \<leftarrow> sb_percentile_update (file_percentile s) (of_nat (unat v));
                Some (s\<lparr>te_ticks := te_ticks s + 1, file_percentile := p\<rparr>) })"

definition exec_write :: "'w file_env \<Rightarrow> file_request \<Rightarrow> nat \<Rightarrow> 'w file_state \<Rightarrow> (int \<times> 'w file_state) option" where
  "exec_write E r tid s =
     do { s \<leftarrow> (if validate (te_glob s)
                then do { mb \<leftarrow> thread_buffer tid s; b \<leftarrow> mb;
                          (b, s) \<leftarrow> file_fill_buffer E tid b (word_of_int (fr_size r)) (word_of_int (fr_pos r)) s;
                          Some (set_buffer tid (Some b) s) }
                else Some s);
          s \<leftarrow> event_start tid s;
          (n, s) \<leftarrow> file_pwrite E (fr_file_id r) (fr_size r) (fr_pos r) tid s;
          if n \<noteq> fr_size r then fail_errno E (''Failed to write file! file: '' @ show_int (fds s ! unat (fr_file_id r))
                                              @ '' pos: '' @ show_int (fr_pos r)) s
          else do {
            (rc, s) \<leftarrow> (if file_fsync_all s then file_fsync E (fr_file_id r) s else Some (0, s));
            if rc \<noteq> 0 then fail_errno E (''Failed to fsync file! file: '' @ show_int (fds s ! unat (fr_file_id r))) s
            else do {
              s \<leftarrow> event_stop tid (if file_fsync_all s then s\<lparr>f_other_ops := f_other_ops s + 1\<rparr> else s);
              s \<leftarrow> note_response tid s;
              Some (0, if file_io_mode s \<noteq> FILE_IO_MODE_ASYNC
                       then s\<lparr>f_write_ops := f_write_ops s + 1, bytes_written := bytes_written s + word_of_int (fr_size r)\<rparr>
                       else s) } } }"

definition exec_read :: "'w file_env \<Rightarrow> file_request \<Rightarrow> nat \<Rightarrow> 'w file_state \<Rightarrow> (int \<times> 'w file_state) option" where
  "exec_read E r tid s =
     do { s \<leftarrow> event_start tid s;
          (n, s) \<leftarrow> file_pread E (fr_file_id r) (fr_size r) (fr_pos r) tid s;
          if n \<noteq> fr_size r then fail_errno E (''Failed to read file! file: '' @ show_int (fds s ! unat (fr_file_id r))
                                              @ '' pos: '' @ show_int (fr_pos r)) s
          else do {
            s \<leftarrow> event_stop tid s;
            s \<leftarrow> note_response tid s;
            (rc, s) \<leftarrow> (if validate (te_glob s)
                         then do { mb \<leftarrow> thread_buffer tid s; b \<leftarrow> mb;
                                   file_validate_buffer E tid b (word_of_int (fr_size r)) (word_of_int (fr_pos r)) s }
                         else Some (0, s));
            if rc \<noteq> 0 then fail_text (''Validation failed on file '' @ show_int (sint (fr_file_id r))
                                       @ '', block offset 0x'' @ show_hex (unat (word_of_int (fr_pos r) :: u32))
                                       @ '', exiting...'') s
            else Some (0, if file_io_mode s \<noteq> FILE_IO_MODE_ASYNC
                          then s\<lparr>f_read_ops := f_read_ops s + 1, bytes_read := bytes_read s + word_of_int (fr_size r)\<rparr>
                          else s) } }"

definition exec_fsync :: "'w file_env \<Rightarrow> file_request \<Rightarrow> 'w file_state \<Rightarrow> (int \<times> 'w file_state) option" where
  "exec_fsync E r s =
     (if file_fsync_all s then Some (0, s)
      else do { (rc, s) \<leftarrow> file_fsync E (fr_file_id r) s;
                if rc \<noteq> 0 then fail_errno E (''Failed to fsync file! id: '' @ show_nat (unat (fr_file_id r)) @ '' fd: ''
                                             @ show_int (fds s ! unat (fr_file_id r))) s
                else Some (0, if file_io_mode s \<noteq> FILE_IO_MODE_ASYNC
                              then s\<lparr>f_other_ops := f_other_ops s + 1\<rparr> else s) })"

definition file_execute_request ::
  "'w file_env \<Rightarrow> file_request sb_request \<Rightarrow> nat \<Rightarrow> 'w file_state \<Rightarrow> (int \<times> 'w file_state) option" where
  "file_execute_request E sb_req tid s =
     do { r \<leftarrow> req_data sb_req;
          s \<leftarrow> (if debug (te_glob s)
                then say LOG_DEBUG (''Executing request, operation: ''
                       @ show_nat (case fr_op r of FILE_OP_TYPE_NULL \<Rightarrow> 0 | FILE_OP_TYPE_READ \<Rightarrow> 1
                                   | FILE_OP_TYPE_WRITE \<Rightarrow> 2 | FILE_OP_TYPE_FSYNC \<Rightarrow> 3)
                       @ '', file_id: '' @ show_int (sint (fr_file_id r)) @ '', pos: '' @ show_int (to_int32 (fr_pos r))
                       @ '', size: '' @ show_int (to_int32 (fr_size r))) s
                else Some s);
          if fr_file_id r > num_files s
          then fail_text (''Incorrect file id in request: '' @ show_nat (unat (fr_file_id r))) s
          else if fr_pos r + fr_size r > file_size s
          then fail_text ''Too large position discovered in request!'' s
          else if unat (fr_file_id r) \<ge> length (fds s) then None
          else case fr_op r of
            FILE_OP_TYPE_NULL \<Rightarrow> fail_text ''Execute of NULL request called !, aborting'' s
          | FILE_OP_TYPE_WRITE \<Rightarrow> exec_write E r tid s
          | FILE_OP_TYPE_READ \<Rightarrow> exec_read E r tid s
          | FILE_OP_TYPE_FSYNC \<Rightarrow> exec_fsync E r s }"

section \<open>Options\<close>

text \<open>\<open>parse_arguments\<close>, in the order of the code. A step ends the process, fails with a message, or goes on; after a
  failure the test does not run, so the settings read so far do not matter.\<close>

datatype parse_stop = ParseExit int | ParseFail string

type_synonym 'w parser = "'w file_state \<Rightarrow> (parse_stop + 'w file_state) option"

fun parse_steps :: "'w parser list \<Rightarrow> 'w parser" where
  "parse_steps [] s = Some (Inr s)"
| "parse_steps (f # fs) s = (case f s of Some (Inr s) \<Rightarrow> parse_steps fs s | r \<Rightarrow> r)"

definition int_option :: "options \<Rightarrow> string \<Rightarrow> (int \<Rightarrow> 'w parser) \<Rightarrow> 'w parser" where
  "int_option opts name f s = (case sb_get_value_int opts name of Inl rc \<Rightarrow> Some (Inl (ParseExit rc)) | Inr v \<Rightarrow> f v s)"

definition parse_sizes :: "options \<Rightarrow> 'w parser" where
  "parse_sizes opts = int_option opts ''file-num'' (\<lambda>n s.
     let s = s\<lparr>num_files := word_of_int n\<rparr> in
     if num_files s = 0 then Some (Inl (ParseFail ''Invalid value for file-num: 0''))
     else let s = s\<lparr>total_size := sint (sb_get_value_size opts ''file-total-size'')\<rparr> in
       if total_size s \<le> 0
       then Some (Inl (ParseFail (''Invalid value for file-total-size: '' @ show_int (total_size s))))
       else Some (Inr (s\<lparr>file_size := total_size s div int (unat (num_files s))\<rparr>)))"

definition parse_test_mode :: "options \<Rightarrow> 'w parser" where
  "parse_test_mode opts s =
     (if command (te_glob s) \<noteq> SB_COMMAND_RUN then Some (Inr s)
      else case sb_get_value_string opts ''file-test-mode'' of
        None \<Rightarrow> Some (Inl (ParseFail ''Missing required argument: --file-test-mode''))
      | Some m \<Rightarrow>
          (case map_of [(''seqwr'', MODE_WRITE), (''seqrewr'', MODE_REWRITE), (''seqrd'', MODE_READ),
                        (''rndrd'', MODE_RND_READ), (''rndwr'', MODE_RND_WRITE), (''rndrw'', MODE_RND_RW)] m of
             None \<Rightarrow> Some (Inl (ParseFail (''Invalid IO operations mode: '' @ m @ ''.'')))
           | Some t \<Rightarrow> Some (Inr (s\<lparr>test_mode := t\<rparr>))))"

definition parse_io_mode :: "options \<Rightarrow> 'w parser" where
  "parse_io_mode opts s =
     (let m = (case sb_get_value_string opts ''file-io-mode'' of None \<Rightarrow> ''sync'' | Some m \<Rightarrow> m) in
      case map_of [(''sync'', FILE_IO_MODE_SYNC), (''async'', FILE_IO_MODE_ASYNC), (''mmap'', FILE_IO_MODE_MMAP)] m of
        None \<Rightarrow> Some (Inl (ParseFail (''unknown I/O mode: '' @ m)))
      | Some t \<Rightarrow> Some (Inr (s\<lparr>file_io_mode := t\<rparr>)))"

text \<open>The product of the block size and the number of merged requests is an \<open>int\<close>.\<close>

definition parse_block_size :: "options \<Rightarrow> 'w parser" where
  "parse_block_size opts = int_option opts ''file-merged-requests'' (\<lambda>m s.
     if m < 0 then Some (Inl (ParseFail (''Invalid value for file-merged-requests: '' @ show_int m @ ''.'')))
     else let b = to_int32 (uint (sb_get_value_size opts ''file-block-size'')) in
       if b \<le> 0 then Some (Inl (ParseFail (''Invalid value for file-block-size: '' @ show_int b @ ''.'')))
       else if m > 0 \<and> b * m > INT_MAX then None
       else Some (Inr (s\<lparr>file_merged_requests := m, file_block_size := b,
                         file_max_request_size := (if m > 0 then b * m else b)\<rparr>)))"

definition parse_extra_flags :: "options \<Rightarrow> 'w parser" where
  "parse_extra_flags opts s =
     (let m = (case sb_get_value_string opts ''file-extra-flags'' of None \<Rightarrow> [] | Some m \<Rightarrow> m) in
      case map_of [([], SB_FILE_FLAG_NORMAL), (''sync'', SB_FILE_FLAG_SYNC), (''dsync'', SB_FILE_FLAG_DSYNC),
                   (''direct'', SB_FILE_FLAG_DIRECTIO)] m of
        None \<Rightarrow> Some (Inl (ParseFail (''Invalid value for file-extra-flags: '' @ m)))
      | Some t \<Rightarrow> Some (Inr (s\<lparr>file_extra_flags := t\<rparr>)))"

definition parse_fsync :: "options \<Rightarrow> 'w parser" where
  "parse_fsync opts = int_option opts ''file-fsync-freq'' (\<lambda>q s.
     if q < 0 then Some (Inl (ParseFail (''Invalid value for file-fsync-freq: '' @ show_int q @ ''.'')))
     else let every = sb_get_value_flag opts ''file-fsync-all'';
              s = s\<lparr>file_fsync_freq := (if every then 0 else q), file_fsync_all := every,
                    file_fsync_end := (if every then False else sb_get_value_flag opts ''file-fsync-end'')\<rparr>
          in case sb_get_value_string opts ''file-fsync-mode'' of
               None \<Rightarrow> None
             | Some m \<Rightarrow>
                 (if m = ''fsync'' then Some (Inr (s\<lparr>file_fsync_mode := FSYNC_ALL\<rparr>))
                  else if m = ''fdatasync'' then Some (Inr (s\<lparr>file_fsync_mode := FSYNC_DATA\<rparr>))
                  else Some (Inl (ParseFail (''Invalid fsync mode: '' @ m @ ''.'')))))"

definition parse_rw_ratio :: "'w file_env \<Rightarrow> options \<Rightarrow> 'w parser" where
  "parse_rw_ratio E opts s =
     (case sb_get_value_float (fe_scan E) opts ''file-rw-ratio'' of
        None \<Rightarrow> None
      | Some q \<Rightarrow>
          (if q < 0 then Some (Inl (ParseFail (''Invalid value file file-rw-ratio: -'' @ show_fixed 0 6 (- q) @ ''.'')))
           else Some (Inr (s\<lparr>file_rw_ratio := q\<rparr>))))"

definition new_per_thread :: "'w file_env \<Rightarrow> 'w file_state \<Rightarrow> per_thread_t list" where
  "new_per_thread E s =
     map (\<lambda>i. \<lparr>pt_buffer = fe_memalign E i (nat (file_max_request_size s)), pt_file_id = fst (fe_junk E i),
               pt_pos = snd (fe_junk E i)\<rparr>) [0..<unat (num_threads (te_glob s))]"

definition file_parse_arguments :: "'w file_env \<Rightarrow> options \<Rightarrow> 'w file_state \<Rightarrow> (int + int \<times> 'w file_state) option" where
  "file_parse_arguments E opts s =
     (case parse_steps [parse_sizes opts, parse_test_mode opts, parse_io_mode opts, parse_block_size opts,
                        parse_extra_flags opts, parse_fsync opts, parse_rw_ratio E opts] s of
        None \<Rightarrow> None
      | Some (Inl (ParseExit rc)) \<Rightarrow> Some (Inl rc)
      | Some (Inl (ParseFail msg)) \<Rightarrow> map_option Inr (fail_text msg s)
      | Some (Inr s) \<Rightarrow> Some (Inr (0, s\<lparr>per_thread := new_per_thread E s\<rparr>)))"

section \<open>Start and end of a test\<close>

definition init_vars :: "'w file_state \<Rightarrow> 'w file_state" where
  "init_vars s =
     (let s = s\<lparr>position := 0, current_file := 0, fsynced_file := 0, fsynced_file2 := 0, f_performed := 0,
                is_dirty := False\<rparr>
      in if validate (te_glob s)
         then s\<lparr>prev_req := \<lparr>fr_file_id = 0, fr_pos = 0, fr_size = 0, fr_op = FILE_OP_TYPE_NULL\<rparr>\<rparr> else s)"

definition clear_stats :: "'w file_state \<Rightarrow> 'w file_state option" where
  "clear_stats s =
     (let s = s\<lparr>f_read_ops := 0, f_write_ops := 0, f_other_ops := 0, last_other_ops := 0, bytes_read := 0,
                last_bytes_read := 0, bytes_written := 0, last_bytes_written := 0\<rparr>
      in if sb_timer_initialized (te_exec s) then map_option snd (split_exec s) else Some s)"

fun init_queues :: "'w file_env \<Rightarrow> nat list \<Rightarrow> 'w file_state \<Rightarrow> (int \<times> 'w file_state) option" where
  "init_queues E [] s = Some (0, s)"
| "init_queues E (i # is) s =
     (let (r, w) = os_io_queue_init (fe_os E) i (file_async_backlog s) (f_world s); s = s\<lparr>f_world := w\<rparr>
      in if r \<noteq> 0 then fail_errno E ''io_queue_init() failed!'' s
         else if \<not> fe_malloc E then fail_errno E ''Failed to allocate async I/O context!'' s
         else init_queues E is s)"

definition file_async_init :: "'w file_env \<Rightarrow> options \<Rightarrow> 'w file_state \<Rightarrow> (int + int \<times> 'w file_state) option" where
  "file_async_init E opts s =
     (if file_io_mode s \<noteq> FILE_IO_MODE_ASYNC then Some (Inr (0, s))
      else case sb_get_value_int opts ''file-async-backlog'' of
        Inl rc \<Rightarrow> Some (Inl rc)
      | Inr n \<Rightarrow>
          (let s = s\<lparr>file_async_backlog := word_of_int n\<rparr>; threads = unat (num_threads (te_glob s)) in
           if file_async_backlog s \<le> 0
           then map_option Inr (fail_text ''Invalid value of file-async-backlog: 0'' s)
           else map_option Inr (init_queues E [0..<threads] (s\<lparr>aio_pending := replicate threads 0\<rparr>))))"

definition file_async_done :: "'w file_env \<Rightarrow> 'w file_state \<Rightarrow> 'w file_state" where
  "file_async_done E s =
     (if file_io_mode s \<noteq> FILE_IO_MODE_ASYNC then s
      else s\<lparr>aio_pending := [],
             f_world := fold (os_io_queue_release (fe_os E)) [0..<unat (num_threads (te_glob s))] (f_world s)\<rparr>)"

definition file_init :: "'w file_env \<Rightarrow> options \<Rightarrow> 'w file_state \<Rightarrow> (int + int \<times> 'w file_state) option" where
  "file_init E opts s =
     (case file_parse_arguments E opts s of
        None \<Rightarrow> None
      | Some (Inl rc) \<Rightarrow> Some (Inl rc)
      | Some (Inr (rc, s)) \<Rightarrow>
          (if rc \<noteq> 0 then Some (Inr (1, s))
           else if \<not> fe_malloc E then map_option Inr (fail_text ''Memory allocation failure.'' s)
           else case file_async_init E opts s of
             None \<Rightarrow> None
           | Some (Inl rc) \<Rightarrow> Some (Inl rc)
           | Some (Inr (rc, s)) \<Rightarrow>
               (if rc \<noteq> 0 then Some (Inr (1, s))
                else do { s \<leftarrow> clear_stats (init_vars s);
                          (case sb_percentile_init (fe_malloc E) 100000 1 (10 ^ 13) of
                             Inl _ \<Rightarrow> Some (Inr (1, s))
                           | Inr p \<Rightarrow> Some (Inr (0, s\<lparr>file_percentile := p\<rparr>))) })))"

definition file_name :: "nat \<Rightarrow> string" where
  "file_name i = ''test_file.'' @ show_int (sint (of_nat i :: u32))"

text \<open>\<open>sb_open\<close>; every flag has an equivalent on this platform. \<open>O_CREAT\<close> is not given.\<close>

definition sb_open :: "'w file_env \<Rightarrow> string \<Rightarrow> 'w file_state \<Rightarrow> int \<times> 'w file_state" where
  "sb_open E name s =
     (let (fd, w) = os_open (fe_os E) name False (file_extra_flags s) (f_world s) in (fd, s\<lparr>f_world := w\<rparr>))"

fun open_files :: "'w file_env \<Rightarrow> nat list \<Rightarrow> 'w file_state \<Rightarrow> (int \<times> 'w file_state) option" where
  "open_files E [] s = Some (0, s)"
| "open_files E (i # is) s =
     do { let s = (if test_mode s = MODE_WRITE then s\<lparr>f_world := os_unlink (fe_os E) (file_name i) (f_world s)\<rparr> else s);
          s \<leftarrow> say LOG_DEBUG (''Opening file: '' @ file_name i) s;
          let (fd, s) = sb_open E (file_name i) s;
          if fd < 0 then fail_errno E (''Cannot open file '' @ [CHR 0x27] @ file_name i @ [CHR 0x27]) s
          else open_files E is (s\<lparr>fds := fds s @ [fd]\<rparr>) }"

fun extend_files :: "'w file_env \<Rightarrow> nat list \<Rightarrow> 'w file_state \<Rightarrow> (int \<times> 'w file_state) option" where
  "extend_files E [] s = Some (0, s)"
| "extend_files E (i # is) s =
     (let (r, w) = os_ftruncate (fe_os E) (fds s ! i) (file_size s) (f_world s); s = s\<lparr>f_world := w\<rparr>
      in if r \<noteq> 0 then fail_errno E (''ftruncate() failed on file '' @ show_nat i) s else extend_files E is s)"

fun map_files :: "'w file_env \<Rightarrow> nat list \<Rightarrow> 'w file_state \<Rightarrow> (int \<times> 'w file_state) option" where
  "map_files E [] s = Some (0, s)"
| "map_files E (i # is) s =
     (let (m, w) = os_mmap (fe_os E) (fds s ! i) (file_size s) (f_world s); s = s\<lparr>f_world := w\<rparr>
      in case m of
           None \<Rightarrow> fail_errno E (''mmap() failed on file '' @ show_nat i) s
         | Some a \<Rightarrow> map_files E is (s\<lparr>mmaps := mmaps s @ [a]\<rparr>))"

definition file_mmap_prepare :: "'w file_env \<Rightarrow> 'w file_state \<Rightarrow> (int \<times> 'w file_state) option" where
  "file_mmap_prepare E s =
     (if file_io_mode s \<noteq> FILE_IO_MODE_MMAP then Some (0, s)
      else do { (rc, s) \<leftarrow> (if test_mode s = MODE_WRITE then extend_files E [0..<unat (num_files s)] s else Some (0, s));
                if rc \<noteq> 0 then Some (rc, s) else map_files E [0..<unat (num_files s)] (s\<lparr>mmaps := []\<rparr>) })"

definition file_prepare :: "'w file_env \<Rightarrow> 'w file_state \<Rightarrow> (int \<times> 'w file_state) option" where
  "file_prepare E s =
     do { (rc, s) \<leftarrow> open_files E [0..<unat (num_files s)] (s\<lparr>fds := []\<rparr>);
          if rc \<noteq> 0 then Some (rc, s) else file_mmap_prepare E s }"

definition file_mmap_done :: "'w file_env \<Rightarrow> 'w file_state \<Rightarrow> 'w file_state" where
  "file_mmap_done E s =
     (if file_io_mode s \<noteq> FILE_IO_MODE_MMAP then s
      else s\<lparr>mmaps := [], f_world := fold (os_munmap (fe_os E)) (mmaps s) (f_world s)\<rparr>)"

definition file_done :: "'w file_env \<Rightarrow> 'w file_state \<Rightarrow> int \<times> 'w file_state" where
  "file_done E s =
     (let s = s\<lparr>f_world := fold (os_close (fe_os E)) (fds s) (f_world s)\<rparr>;
          s = file_mmap_done E (file_async_done E s)
      in (0, s\<lparr>per_thread := []\<rparr>))"

section \<open>Commands\<close>

text \<open>The loop of \<open>create_files\<close> that appends blocks to one file, for block sizes above zero it ends. The result tells
  whether all writes succeeded, and \<open>written\<close>.\<close>

partial_function (option) write_blocks ::
  "'w file_env \<Rightarrow> int \<Rightarrow> int \<Rightarrow> int \<Rightarrow> 'w file_state \<Rightarrow> (bool \<times> int \<times> 'w file_state) option" where
  "write_blocks E fd offset written s =
     (if offset \<ge> file_size s then Some (True, written, s)
      else do {
        mb \<leftarrow> thread_buffer 0 s;
        (mb, s) \<leftarrow> (if validate (te_glob s)
                     then do { b \<leftarrow> mb;
                               (b, s) \<leftarrow> file_fill_buffer E 0 b (word_of_int (file_block_size s)) (word_of_int offset) s;
                               Some (Some b, set_buffer 0 (Some b) s) }
                     else Some (mb, s));
        if mb = None then Some (False, written, s)
        else if nat (file_block_size s) > length (the mb) then None
        else let (r, w) = os_write (fe_os E) fd (take (nat (file_block_size s)) (the mb)) (f_world s);
                 s = s\<lparr>f_world := w\<rparr>
             in if r < 0 then Some (False, written, s)
                else write_blocks E fd (offset + file_block_size s) (written + file_block_size s) s })"

fun create_each :: "'w file_env \<Rightarrow> nat list \<Rightarrow> int \<Rightarrow> 'w file_state \<Rightarrow> (int \<times> int \<times> 'w file_state) option" where
  "create_each E [] written s = Some (0, written, s)"
| "create_each E (i # is) written s =
     (let (fd, w) = os_open (fe_os E) (file_name i) True (file_extra_flags s) (f_world s); s = s\<lparr>f_world := w\<rparr> in
      if fd < 0 then map_option (\<lambda>(rc, s). (rc, written, s)) (fail_errno E ''Can't open file'' s)
      else do {
        let (offset, w) = os_seek_end (fe_os E) fd (f_world s);
        s \<leftarrow> say LOG_NOTICE ((if offset \<ge> file_size s then ''Reusing existing file ''
                              else if offset > 0 then ''Extending existing file '' else ''Creating file '') @ file_name i)
               (s\<lparr>f_world := w\<rparr>);
        (ok, written, s) \<leftarrow> write_blocks E fd offset written s;
        if \<not> ok then do { (rc, s) \<leftarrow> fail_errno E ''Failed to write file!'' s;
                          Some (rc, written, s\<lparr>f_world := os_close (fe_os E) fd (f_world s)\<rparr>) }
        else create_each E is written (s\<lparr>f_world := os_close (fe_os E) fd (snd (os_fsync (fe_os E) fd (f_world s)))\<rparr>) })"

definition flags_num :: "file_flags \<Rightarrow> nat" where
  "flags_num f = (case f of SB_FILE_FLAG_NORMAL \<Rightarrow> 0 | SB_FILE_FLAG_SYNC \<Rightarrow> 1 | SB_FILE_FLAG_DSYNC \<Rightarrow> 2 | SB_FILE_FLAG_DIRECTIO \<Rightarrow> 3)"

definition create_files :: "'w file_env \<Rightarrow> 'w file_state \<Rightarrow> (int \<times> 'w file_state) option" where
  "create_files E s =
     do { s \<leftarrow> say_all
            [(LOG_NOTICE, show_int (sint (num_files s)) @ '' files, '' @ show_int (file_size s div 1024) @ ''Kb each, ''
                @ show_int (file_size s * int (unat (num_files s)) div (1024 * 1024)) @ ''Mb total''),
             (LOG_NOTICE, ''Creating files for the test...''),
             (LOG_NOTICE, ''Extra file open flags: '' @ show_hex (flags_num (file_extra_flags s)))] s;
          let start = te_clock s (te_ticks s);
          (rc, written, s) \<leftarrow> create_each E [0..<unat (num_files s)] 0 (s\<lparr>te_ticks := te_ticks s + 1\<rparr>);
          if rc \<noteq> 0 then Some (1, s)
          else do {
            let seconds = NS2SEC (TIMESPEC_DIFF (te_clock s (te_ticks s)) start);
            s \<leftarrow> say LOG_NOTICE
                   (if written > 0
                    then show_int written @ '' bytes written in '' @ show_fixed 0 2 seconds @ '' seconds (''
                           @ show_fixed 0 2 (real_of_int written / megabyte / seconds) @ '' MB/sec).''
                    else ''No bytes written.'') (s\<lparr>te_ticks := te_ticks s + 1\<rparr>);
            Some (0, s) } }"

definition remove_files :: "'w file_env \<Rightarrow> 'w file_state \<Rightarrow> (int \<times> 'w file_state) option" where
  "remove_files E s =
     do { s \<leftarrow> say LOG_NOTICE ''Removing test files...'' s;
          Some (0, s\<lparr>f_world := fold (\<lambda>i. os_unlink (fe_os E) (file_name i)) [0..<unat (num_files s)] (f_world s)\<rparr>) }"

definition file_cmd_prepare :: "'w file_env \<Rightarrow> options \<Rightarrow> 'w file_state \<Rightarrow> (int + int \<times> 'w file_state) option" where
  "file_cmd_prepare E opts s =
     (case file_parse_arguments E opts s of
        None \<Rightarrow> None
      | Some (Inl rc) \<Rightarrow> Some (Inl rc)
      | Some (Inr (rc, s)) \<Rightarrow>
          (if rc \<noteq> 0 then Some (Inr (1, s))
           else map_option Inr (if test_mode s = MODE_WRITE then remove_files E s else create_files E s)))"

definition file_cmd_cleanup :: "'w file_env \<Rightarrow> options \<Rightarrow> 'w file_state \<Rightarrow> (int + int \<times> 'w file_state) option" where
  "file_cmd_cleanup E opts s =
     (case file_parse_arguments E opts s of
        None \<Rightarrow> None
      | Some (Inl rc) \<Rightarrow> Some (Inl rc)
      | Some (Inr (rc, s)) \<Rightarrow> (if rc \<noteq> 0 then Some (Inr (1, s)) else map_option Inr (remove_files E s)))"

section \<open>Reports\<close>

text \<open>The numbers \<open>file_print_stats\<close> prints; differences of unsigned counters wrap around.\<close>

record file_interval =
  fi_read :: u64
  fi_written :: u64
  fi_other :: u64
  fi_seconds :: real
  fi_response_ms :: real

record file_total =
  ft_reads :: u32
  ft_writes :: u32
  ft_other :: u32
  ft_bytes_read :: u64
  ft_bytes_written :: u64
  ft_seconds :: real

datatype file_report = FileInterval file_interval | FileTotal file_total

definition file_print_stats :: "real \<Rightarrow> sb_stat \<Rightarrow> 'w file_state \<Rightarrow> (file_report \<times> 'w file_state) option" where
  "file_print_stats prank type s =
     (case type of
        SB_STAT_INTERMEDIATE \<Rightarrow>
          do { (ns, s) \<leftarrow> split_exec s;
               let rep = \<lparr>fi_read = bytes_read s - last_bytes_read s, fi_written = bytes_written s - last_bytes_written s,
                          fi_other = word_of_int (sint (f_other_ops s - last_other_ops s)), fi_seconds = NS2SEC ns,
                          fi_response_ms = 0\<rparr>;
               let s = s\<lparr>last_bytes_read := bytes_read s, last_bytes_written := bytes_written s, last_other_ops := f_other_ops s\<rparr>;
               (resp, p) \<leftarrow> sb_percentile_calculate (file_percentile s) prank;
               Some (FileInterval (rep\<lparr>fi_response_ms := NS2MS resp\<rparr>), s\<lparr>file_percentile := sb_percentile_reset p\<rparr>) }
      | SB_STAT_CUMULATIVE \<Rightarrow>
          do { (ns, s) \<leftarrow> split_cum1 s;
               let rep = \<lparr>ft_reads = f_read_ops s, ft_writes = f_write_ops s, ft_other = f_other_ops s,
                          ft_bytes_read = bytes_read s, ft_bytes_written = bytes_written s, ft_seconds = NS2SEC ns\<rparr>;
               s \<leftarrow> clear_stats s;
               Some (FileTotal rep, s) })"

definition get_io_mode_str :: "file_io_mode \<Rightarrow> string" where
  "get_io_mode_str m = (case m of FILE_IO_MODE_SYNC \<Rightarrow> ''synchronous'' | FILE_IO_MODE_ASYNC \<Rightarrow> ''asynchronous''
     | FILE_IO_MODE_MMAP \<Rightarrow> ''fast mmaped'')"

definition get_test_mode_str :: "file_test_mode \<Rightarrow> string" where
  "get_test_mode_str m = (case m of MODE_WRITE \<Rightarrow> ''sequential write (creation)'' | MODE_REWRITE \<Rightarrow> ''sequential rewrite''
     | MODE_READ \<Rightarrow> ''sequential read'' | MODE_RND_READ \<Rightarrow> ''random read'' | MODE_RND_WRITE \<Rightarrow> ''random write''
     | MODE_RND_RW \<Rightarrow> ''random r/w'' | MODE_MIXED \<Rightarrow> ''mixed'')"

definition size_text :: "'w file_env \<Rightarrow> int \<Rightarrow> string" where
  "size_text E n = (let (v, c) = sb_print_value_size (rat_of_int n) in fe_show_g E v @ (case c of None \<Rightarrow> [] | Some c \<Rightarrow> [c]))"

definition mode_lines :: "'w file_env \<Rightarrow> 'w file_state \<Rightarrow> string list" where
  "mode_lines E s =
     [''Extra file open flags: '' @ show_hex (flags_num (file_extra_flags s)),
      show_int (sint (num_files s)) @ '' files, '' @ size_text E (file_size s) @ ''b each'',
      size_text E (file_size s * int (unat (num_files s))) @ ''b total file size'',
      ''Block size '' @ size_text E (file_block_size s) @ ''b''] @
     (if file_merged_requests s > 0
      then [''Merging requests  up to '' @ size_text E (file_max_request_size s) @ ''b for sequential IO.''] else []) @
     (if test_mode s \<in> {MODE_RND_WRITE, MODE_RND_READ, MODE_RND_RW}
      then [''Number of IO requests: '' @ show_int (sint (max_requests (te_glob s))),
            ''Read/Write ratio for combined random IO test: '' @ show_fixed 2 2 (file_rw_ratio s)] else []) @
     (if file_fsync_freq s > 0
      then [''Periodic FSYNC enabled, calling fsync() each '' @ show_int (file_fsync_freq s) @ '' requests.''] else []) @
     (if file_fsync_end s then [''Calling fsync() at the end of test, Enabled.''] else []) @
     (if file_fsync_all s then [''Calling fsync() after each write operation.''] else []) @
     [''Using '' @ get_io_mode_str (file_io_mode s) @ '' I/O mode''] @
     (if validate (te_glob s) then [''Using checksums validation.''] else []) @
     [''Doing '' @ get_test_mode_str (test_mode s) @ '' test'']"

definition file_print_mode :: "'w file_env \<Rightarrow> 'w file_state \<Rightarrow> 'w file_state option" where
  "file_print_mode E s = say_all (map (Pair LOG_NOTICE) (mode_lines E s)) s"

definition fileio_test :: "'w file_env \<Rightarrow> options \<Rightarrow> real \<Rightarrow> ('w file_state option, file_request) sb_test" where
  "fileio_test E opts prank = \<lparr>t_sname = ''fileio'', t_lname = ''File I/O test'',
     t_ops = no_ops\<lparr>top_init := Some (lift_init (file_init E opts)),
       top_prepare := Some (lift_test_op (file_prepare E)),
       top_print_mode := Some (\<lambda>w. Option.bind w (file_print_mode E)),
       top_get_request := Some (\<lambda>tid. lift_get (file_get_request tid)),
       top_execute_request := Some (\<lambda>r tid. lift_test_op (file_execute_request E r tid)),
       top_print_stats := Some (\<lambda>type w. Option.bind w (\<lambda>s. map_option snd (file_print_stats prank type s))),
       top_thread_done := Some (\<lambda>tid. lift_test_op (file_thread_done E tid)),
       top_done := Some (lift_test_op (Some \<circ> file_done E))\<rparr>,
     t_cmds = \<lparr>cmd_help = None, cmd_prepare = Some (lift_init (file_cmd_prepare E opts)),
       cmd_cleanup = Some (lift_init (file_cmd_cleanup E opts))\<rparr>,
     t_args = Some fileio_args\<rparr>"

end
