(* ===== verification/File_Gen.thy ===== *)
theory File_Gen
  imports File_IO
begin

text \<open>
  The requests that the file test hands out: the complete schedule of the sequential modes as a
  \<open>request_source\<close>, and the positions of the random modes.
\<close>

section \<open>The schedule of the sequential modes\<close>

text \<open>What the schedule depends on: files, their size, the size of a request, whether the mode writes, the period of
  \<open>fsync\<close>, whether files are synced at the end, and the number of requests.\<close>

record seq_conf =
  sc_files :: nat
  sc_size :: int
  sc_step :: int
  sc_writes :: bool
  sc_freq :: nat
  sc_end :: bool
  sc_max :: nat

definition seq_conf_of :: "'w file_state \<Rightarrow> seq_conf" where
  "seq_conf_of s = \<lparr>sc_files = unat (num_files s), sc_size = file_size s,
     sc_step = (if file_merged_requests s > 0 then file_max_request_size s else file_block_size s),
     sc_writes = seq_writes s, sc_freq = nat (file_fsync_freq s),
     sc_end = file_fsync_end s, sc_max = unat (max_requests (te_glob s))\<rparr>"

text \<open>Request number \<open>i\<close>: file after file, each from its start to its end in steps, cyclically.\<close>

definition sc_tiles :: "seq_conf \<Rightarrow> nat" where
  "sc_tiles c = nat ((sc_size c + sc_step c - 1) div sc_step c)"

definition seq_data :: "seq_conf \<Rightarrow> nat \<Rightarrow> file_request" where
  "seq_data c i =
     (let p = int (i mod sc_tiles c) * sc_step c
      in \<lparr>fr_file_id = of_nat (i div sc_tiles c mod sc_files c), fr_pos = p, fr_size = min (sc_step c) (sc_size c - p),
          fr_op = (if sc_writes c then FILE_OP_TYPE_WRITE else FILE_OP_TYPE_READ)\<rparr>)"

definition fsyncs :: "seq_conf \<Rightarrow> nat \<Rightarrow> file_request list" where
  "fsyncs c f = map (\<lambda>i. fsync_req (of_nat i)) [f..<sc_files c]"

text \<open>After every \<open>sc_freq\<close> requests all files are synced once, in order, but not after the last request; at the
  end all files are synced once more.\<close>

definition periodic :: "seq_conf \<Rightarrow> nat \<Rightarrow> file_request list" where
  "periodic c j = (if sc_writes c \<and> sc_freq c \<noteq> 0 \<and> j mod sc_freq c = 0 \<and> j < sc_max c then fsyncs c 0 else [])"

definition at_end :: "seq_conf \<Rightarrow> nat \<Rightarrow> file_request list" where
  "at_end c f = (if sc_writes c \<and> sc_end c then fsyncs c f else [])"

definition seq_tail :: "seq_conf \<Rightarrow> nat \<Rightarrow> file_request list" where
  "seq_tail c j = concat (map (\<lambda>i. seq_data c i # periodic c (i + 1)) [j..<sc_max c]) @ at_end c 0"

definition seq_schedule :: "seq_conf \<Rightarrow> file_request list" where
  "seq_schedule c = seq_tail c 0"

text \<open>The requests that follow in a given state.\<close>

definition seq_rest :: "seq_conf \<Rightarrow> 'w file_state \<Rightarrow> file_request sb_request list" where
  "seq_rest c s =
     (let j = unat (f_performed s) in
      map (\<lambda>r. \<lparr>req_type = SB_REQ_TYPE_FILE, req_data = Some r\<rparr>)
       (if j \<ge> sc_max c then at_end c (unat (fsynced_file2 s))
        else if sc_writes c \<and> fsync_due s then fsyncs c (unat (fsynced_file s)) @ seq_tail c j
        else seq_tail c j))"

definition conf_ok :: "seq_conf \<Rightarrow> bool" where
  "conf_ok c \<longleftrightarrow> 0 < sc_files c \<and> sc_files c < 2 ^ 32 \<and> 0 < sc_step c \<and> 0 < sc_size c \<and> 0 < sc_max c \<and> sc_freq c < 2 ^ 31"

definition seq_inv :: "seq_conf \<Rightarrow> logger \<Rightarrow> 'w file_state \<Rightarrow> bool" where
  "seq_inv c L s \<longleftrightarrow>
     seq_conf_of s = c \<and> conf_ok c \<and> 0 \<le> file_fsync_freq s \<and>
     (file_merged_requests s > 0 \<or> sc_step c dvd sc_size c) \<and> te_lgr s = L \<and>
     (let j = unat (f_performed s) in
       j \<le> sc_max c \<and> position s = int (j mod sc_tiles c) * sc_step c \<and> unat (current_file s) \<le> sc_files c \<and>
       (if unat (current_file s) = sc_files c then 0 else unat (current_file s)) = j div sc_tiles c mod sc_files c \<and>
       (unat (current_file s) = sc_files c \<longrightarrow> j mod sc_tiles c = 0) \<and>
       unat (fsynced_file s) < sc_files c \<and> (fsynced_file s \<noteq> 0 \<longrightarrow> sc_writes c \<and> fsync_due s \<and> j < sc_max c) \<and>
       unat (fsynced_file2 s) \<le> sc_files c \<and> (j < sc_max c \<longrightarrow> fsynced_file2 s = 0) \<and>
       (is_dirty s \<longrightarrow> sc_writes c) \<and>
       (validate (te_glob s) \<longrightarrow> 2 \<le> sc_files c \<and>
          (if j = 0 then fr_op (prev_req s) = FILE_OP_TYPE_NULL else prev_req s = seq_data c (j - 1))))"

lemma seq_conf_of_frames [simp]:
  "seq_conf_of (s\<lparr>fsynced_file := x\<rparr>) = seq_conf_of s" "seq_conf_of (s\<lparr>fsynced_file2 := x\<rparr>) = seq_conf_of s"
  "seq_conf_of (s\<lparr>is_dirty := b\<rparr>) = seq_conf_of s" "seq_conf_of (s\<lparr>prev_req := r\<rparr>) = seq_conf_of s"
  "fsync_due (s\<lparr>fsynced_file := x\<rparr>) = fsync_due s" "fsync_due (s\<lparr>fsynced_file2 := x\<rparr>) = fsync_due s"
  "fsync_due (s\<lparr>prev_req := r\<rparr>) = fsync_due s"
  by (simp_all add: seq_conf_of_def seq_writes_def fsync_due_def)

lemma tiles_pos: "conf_ok c \<Longrightarrow> 0 < sc_tiles c"
  by (simp add: conf_ok_def sc_tiles_def pos_imp_zdiv_pos_iff)

text \<open>The last request of a file ends at its end, the others before it.\<close>

lemma tile_ends:
  assumes "conf_ok c" and "k < sc_tiles c"
  shows "int k * sc_step c < sc_size c"
    and "int k * sc_step c + min (sc_step c) (sc_size c - int k * sc_step c) = sc_size c \<longleftrightarrow> Suc k = sc_tiles c"
    and "Suc k < sc_tiles c \<Longrightarrow> min (sc_step c) (sc_size c - int k * sc_step c) = sc_step c"
proof -
  let ?m = "sc_step c" and ?f = "sc_size c"
  have m: "0 < ?m" "0 < ?f" using assms(1) by (auto simp: conf_ok_def)
  have t: "int (sc_tiles c) = (?f + ?m - 1) div ?m"
    using m by (simp add: sc_tiles_def pos_imp_zdiv_nonneg_iff)
  have "(?f + ?m - 1) div ?m * ?m + (?f + ?m - 1) mod ?m = ?f + ?m - 1" by simp
  then have up: "int (sc_tiles c) * ?m \<le> ?f + ?m - 1" and lo: "?f \<le> int (sc_tiles c) * ?m"
    unfolding t using pos_mod_bound [OF m(1), of "?f + ?m - 1"] pos_mod_sign [OF m(1), of "?f + ?m - 1"] by linarith+
  have "int (Suc k) * ?m \<le> int (sc_tiles c) * ?m" using assms(2) m by (intro mult_right_mono) auto
  then show "int k * ?m < ?f" using up m by (simp add: algebra_simps)
  have *: "Suc k < sc_tiles c \<Longrightarrow> int k * ?m + ?m < ?f"
  proof -
    assume "Suc k < sc_tiles c"
    then have "int (Suc (Suc k)) * ?m \<le> int (sc_tiles c) * ?m" using m by (intro mult_right_mono) auto
    then show ?thesis using up m by (simp add: algebra_simps)
  qed
  then show "Suc k < sc_tiles c \<Longrightarrow> min ?m (?f - int k * ?m) = ?m" by fastforce
  show "int k * ?m + min ?m (?f - int k * ?m) = ?f \<longleftrightarrow> Suc k = sc_tiles c"
  proof
    assume "int k * ?m + min ?m (?f - int k * ?m) = ?f"
    then show "Suc k = sc_tiles c" using * assms(2) by (cases "Suc k < sc_tiles c") auto
  next
    assume "Suc k = sc_tiles c"
    then have "?f \<le> int k * ?m + ?m" using lo by (metis add.commute distrib_left mult.commute mult.right_neutral of_nat_Suc)
    then show "int k * ?m + min ?m (?f - int k * ?m) = ?f" by auto
  qed
qed

lemma seq_conf_fields:
  assumes "seq_conf_of s = c"
  shows "unat (num_files s) = sc_files c" "file_size s = sc_size c" "unat (max_requests (te_glob s)) = sc_max c"
    "nat (file_fsync_freq s) = sc_freq c" "file_fsync_end s = sc_end c"
    "seq_writes s = sc_writes c"
    "(if file_merged_requests s > 0 then file_max_request_size s else file_block_size s) = sc_step c"
  using assms by (auto simp: seq_conf_of_def)

lemma fsync_due_nat:
  assumes "seq_conf_of s = c" and "conf_ok c" and "0 \<le> file_fsync_freq s"
  shows "fsync_due s \<longleftrightarrow> sc_freq c \<noteq> 0 \<and> is_dirty s \<and> unat (f_performed s) mod sc_freq c = 0"
proof -
  have "file_fsync_freq s = int (sc_freq c)" using assms(1,3) by (auto simp: seq_conf_of_def)
  moreover have "unat (word_of_int (int (sc_freq c)) :: u32) = sc_freq c"
    using assms(2) by (simp add: conf_ok_def unat_of_nat take_bit_nat_eq_self)
  ultimately show ?thesis by (simp add: fsync_due_def unat_mod word_unat_eq_iff)
qed

lemma next_slot:
  assumes "0 < K" and "0 < n"
  shows "Suc (j mod K) = K \<Longrightarrow> Suc j mod K = 0 \<and> Suc j div K mod n = (if Suc (j div K mod n) = n then 0 else Suc (j div K mod n))"
    and "Suc (j mod K) \<noteq> K \<Longrightarrow> Suc j mod K = Suc (j mod K) \<and> Suc j div K mod n = j div K mod n"
  using assms by (auto simp: mod_Suc div_Suc)

lemma seq_invD:
  assumes "seq_inv c L s" and "j = unat (f_performed s)"
  shows "seq_conf_of s = c" "conf_ok c" "0 \<le> file_fsync_freq s" "te_lgr s = L" "j \<le> sc_max c"
    "file_merged_requests s > 0 \<or> sc_step c dvd sc_size c"
    "position s = int (j mod sc_tiles c) * sc_step c" "unat (current_file s) \<le> sc_files c"
    "unat (current_file s) = sc_files c \<Longrightarrow> j mod sc_tiles c = 0 \<and> j div sc_tiles c mod sc_files c = 0"
    "unat (current_file s) \<noteq> sc_files c \<Longrightarrow> unat (current_file s) = j div sc_tiles c mod sc_files c"
    "unat (fsynced_file s) < sc_files c" "fsynced_file s \<noteq> 0 \<Longrightarrow> sc_writes c \<and> fsync_due s \<and> j < sc_max c"
    "unat (fsynced_file2 s) \<le> sc_files c" "j < sc_max c \<Longrightarrow> fsynced_file2 s = 0" "is_dirty s \<Longrightarrow> sc_writes c"
    "validate (te_glob s) \<Longrightarrow> 2 \<le> sc_files c"
    "validate (te_glob s) \<Longrightarrow> j = 0 \<Longrightarrow> fr_op (prev_req s) = FILE_OP_TYPE_NULL"
    "validate (te_glob s) \<Longrightarrow> j \<noteq> 0 \<Longrightarrow> prev_req s = seq_data c (j - 1)"
  using assms(1) unfolding seq_inv_def assms(2) Let_def by (simp_all split: if_splits)

text \<open>The size of the next request is that of the schedule.\<close>

lemma seq_size:
  assumes "conf_ok c" and "k < sc_tiles c" and "mg > 0 \<or> sc_step c dvd sc_size c"
  shows "(if mg > (0 :: int) then (if int k * sc_step c + sc_step c \<le> sc_size c then sc_step c else sc_size c - int k * sc_step c)
          else sc_step c) = min (sc_step c) (sc_size c - int k * sc_step c)"
proof (cases "mg > 0")
  case False
  with assms(3) obtain q where q: "sc_size c = sc_step c * q" by (auto elim: dvdE)
  have "int k * sc_step c < sc_size c" "0 < sc_step c" using tile_ends(1) [OF assms(1,2)] assms(1) by (auto simp: conf_ok_def)
  then have "int k < q" unfolding q by (simp add: mult.commute)
  then have "(int k + 1) * sc_step c \<le> sc_size c" using \<open>0 < sc_step c\<close> unfolding q mult.commute [of _ q]
    by (intro mult_right_mono) auto
  with False show ?thesis by (simp add: algebra_simps)
qed auto

lemma seq_begin_fields [simp]:
  "f_performed (seq_begin s) = f_performed s + 1" "is_dirty (seq_begin s) \<longleftrightarrow> is_dirty s \<or> seq_writes s"
  "position (seq_begin s) = (if current_file s = num_files s then 0 else position s)"
  "current_file (seq_begin s) = (if current_file s = num_files s then 0 else current_file s)"
  "seq_conf_of (seq_begin s) = seq_conf_of s" "seq_writes (seq_begin s) = seq_writes s" "te_glob (seq_begin s) = te_glob s"
  "num_files (seq_begin s) = num_files s" "file_size (seq_begin s) = file_size s" "prev_req (seq_begin s) = prev_req s"
  "te_lgr (seq_begin s) = te_lgr s" "fsynced_file (seq_begin s) = fsynced_file s" "fsynced_file2 (seq_begin s) = fsynced_file2 s"
  "file_merged_requests (seq_begin s) = file_merged_requests s" "file_fsync_freq (seq_begin s) = file_fsync_freq s"
  by (simp_all add: seq_begin_def Let_def seq_conf_of_def seq_writes_def)

lemma seq_scroll_fields [simp]:
  "f_performed (seq_scroll z s) = f_performed s" "is_dirty (seq_scroll z s) = is_dirty s"
  "position (seq_scroll z s) = (if position s + z = file_size s then 0 else position s + z)"
  "current_file (seq_scroll z s) = (if position s + z = file_size s then current_file s + 1 else current_file s)"
  "seq_conf_of (seq_scroll z s) = seq_conf_of s" "te_glob (seq_scroll z s) = te_glob s"
  "num_files (seq_scroll z s) = num_files s" "file_size (seq_scroll z s) = file_size s" "prev_req (seq_scroll z s) = prev_req s"
  "te_lgr (seq_scroll z s) = te_lgr s" "fsynced_file (seq_scroll z s) = fsynced_file s" "fsynced_file2 (seq_scroll z s) = fsynced_file2 s"
  "file_merged_requests (seq_scroll z s) = file_merged_requests s" "file_fsync_freq (seq_scroll z s) = file_fsync_freq s"
  by (simp_all add: seq_scroll_def seq_conf_of_def seq_writes_def)

text \<open>The next data request is the one of the schedule.\<close>

lemma seq_begin_slot:
  assumes inv: "seq_inv c L s" and j: "j = unat (f_performed s)"
  shows "current_file (seq_begin s) = of_nat (j div sc_tiles c mod sc_files c)"
    and "position (seq_begin s) = int (j mod sc_tiles c) * sc_step c"
    and "seq_request (seq_begin s) = seq_data c j"
proof -
  let ?K = "sc_tiles c"
  note d = seq_invD [OF inv j]
  note f = seq_conf_fields [OF d(1)] and fb = seq_conf_fields [of "seq_begin s", simplified, OF d(1)]
  have k: "j mod ?K < ?K" using tiles_pos [OF d(2)] by simp
  have eq: "current_file s = num_files s \<longleftrightarrow> unat (current_file s) = sc_files c" using f(1) by (simp add: word_unat_eq_iff)
  show cur: "current_file (seq_begin s) = of_nat (j div ?K mod sc_files c)"
    unfolding seq_begin_fields eq using d(9)
    by (cases "unat (current_file s) = sc_files c") (simp_all add: d(10) [symmetric])
  show pos: "position (seq_begin s) = int (j mod ?K) * sc_step c"
    unfolding seq_begin_fields eq using d(7,9) by simp
  have "fr_size (seq_request (seq_begin s)) = min (sc_step c) (sc_size c - int (j mod ?K) * sc_step c)"
    using seq_size [OF d(2) k d(6)] fb(2,7) pos
    by (cases "file_merged_requests s > 0") (simp_all add: seq_request_def del: seq_begin_fields(3))
  then show "seq_request (seq_begin s) = seq_data c j"
    using cur pos fb(6) by (intro file_request.equality) (simp_all add: seq_request_def seq_data_def Let_def)
qed

lemma unat_Suc_u32: "unat (w :: u32) < n \<Longrightarrow> n < 2 ^ 32 \<Longrightarrow> unat (w + 1) = unat w + 1"
  by (simp add: unat_word_ariths)

lemma unat_bound_u32: "unat (w :: u32) < 2 ^ 32"
  using unsigned_less [of w, where 'a = nat] by simp

lemma seq_max_bound: "seq_conf_of s = c \<Longrightarrow> sc_max c < 2 ^ 32"
  using unat_bound_u32 [of "max_requests (te_glob s)"] by (auto simp: seq_conf_of_def)

text \<open>Consecutive requests of the schedule pass the check of \<open>check_seq_req\<close>, if there are at least two files.\<close>

lemma check_seq_data:
  assumes "conf_ok c" and "2 \<le> sc_files c" and "unat nf = sc_files c" and "0 < j"
  shows "check_seq_req nf (sc_size c) (seq_data c (j - 1)) (seq_data c j) = []"
proof -
  let ?K = "sc_tiles c" and ?n = "sc_files c"
  obtain i where j: "j = Suc i" using assms(4) by (cases j) auto
  have K: "0 < ?K" using tiles_pos [OF assms(1)] .
  have n: "?n < 2 ^ 32" using assms(1) by (simp add: conf_ok_def)
  let ?f = "i div ?K mod ?n"
  have f: "?f < ?n" using assms(2) by simp
  have i: "i mod ?K < ?K" using K by simp
  show ?thesis
  proof (cases "Suc (i mod ?K) = ?K")
    case False
    then show ?thesis
      using next_slot(2) [OF K, of ?n i] assms(2) tile_ends(3) [OF assms(1), of "i mod ?K"] i j
      by (simp add: check_seq_req_def seq_data_def Let_def algebra_simps)
  next
    case True
    note s = next_slot(1) [OF K _ True, of ?n]
    have e: "int (i mod ?K) * sc_step c + min (sc_step c) (sc_size c - int (i mod ?K) * sc_step c) = sc_size c"
      using tile_ends(2) [OF assms(1) i] True by simp
    have nf: "nf = of_nat ?n" unfolding assms(3) [symmetric] by simp
    have q: "of_nat (Suc ?f) - of_nat ?f = (1 :: u32)" by simp
    show ?thesis
    proof (cases "Suc ?f = ?n")
      case True
      then have "(of_nat ?f :: u32) = nf - 1" "?f \<noteq> 0" unfolding nf using assms(2)
        by (metis add_diff_cancel_left' of_nat_Suc) (use True assms(2) in linarith)
      moreover have "(of_nat ?f :: u32) \<noteq> 0"
        using \<open>?f \<noteq> 0\<close> f n by (simp add: word_unat_eq_iff unat_of_nat take_bit_nat_eq_self)
      ultimately show ?thesis using s True e assms(2) j
        by (simp add: check_seq_req_def seq_data_def Let_def)
    next
      case False
      have "(of_nat (Suc ?f) :: u32) \<noteq> of_nat ?f" using q by (metis diff_self zero_neq_one)
      then show ?thesis using s False e assms(2) j q
        by (simp add: check_seq_req_def seq_data_def Let_def del: of_nat_Suc)
    qed
  qed
qed


lemma all_performed_nat: "seq_conf_of s = c \<Longrightarrow> conf_ok c \<Longrightarrow> all_performed s \<longleftrightarrow> sc_max c \<le> unat (f_performed s)"
  by (auto simp: all_performed_def word_le_nat_alt word_gt_0 seq_conf_of_def conf_ok_def unat_gt_0)

lemma fsyncs_Cons: "f < sc_files c \<Longrightarrow> fsyncs c f = fsync_req (of_nat f) # fsyncs c (Suc f)"
  by (simp add: fsyncs_def upt_conv_Cons)

lemma fsyncs_Nil: "sc_files c \<le> f \<Longrightarrow> fsyncs c f = []"
  by (simp add: fsyncs_def)

lemma seq_tail_Cons: "j < sc_max c \<Longrightarrow> seq_tail c j = seq_data c j # periodic c (Suc j) @ seq_tail c (Suc j)"
  by (simp add: seq_tail_def upt_conv_Cons)

lemma seq_tail_end: "seq_tail c (sc_max c) = at_end c 0"
  by (simp add: seq_tail_def)

text \<open>One call, in the three situations: at the end, when a periodic \<open>fsync\<close> is due, and otherwise.\<close>

lemma seq_step_end:
  assumes inv: "seq_inv c L s" and fin: "all_performed s"
  shows "\<exists>s'. seq_inv c L s' \<and> (case seq_rest c s of
      [] \<Rightarrow> file_get_seq_request s = Some (null_request, s') \<and> seq_rest c s' = []
    | r # rs \<Rightarrow> file_get_seq_request s = Some (r, s') \<and> seq_rest c s' = rs)"
proof -
  note d = seq_invD [OF inv refl]
  note f = seq_conf_fields [OF d(1)]
  have j: "unat (f_performed s) = sc_max c" using fin all_performed_nat [OF d(1,2)] d(5) by simp
  let ?go = "file_fsync_end s \<and> seq_writes s \<and> fsynced_file2 s < num_files s"
  show ?thesis
  proof (cases ?go)
    case True
    let ?s = "s\<lparr>fsynced_file2 := fsynced_file2 s + 1\<rparr>"
    have lt: "unat (fsynced_file2 s) < sc_files c" using True f(1) by (simp add: word_less_nat_alt)
    have u: "unat (fsynced_file2 s + 1) = Suc (unat (fsynced_file2 s))"
      using unat_Suc_u32 [OF lt] d(2) by (simp add: conf_ok_def)
    have i: "seq_inv c L ?s"
      using inv j u lt by (simp add: seq_inv_def Let_def cong: if_cong split del: if_split)
    have e: "seq_rest c s = file_req (fsync_req (fsynced_file2 s)) # seq_rest c ?s"
      using True lt j u f(5,6) by (simp add: seq_rest_def Let_def at_end_def fsyncs_Cons)
    have g: "file_get_seq_request s = Some (file_req (fsync_req (fsynced_file2 s)), ?s)"
      using fin True by (simp add: file_get_seq_request_def)
    show ?thesis by (intro exI [of _ ?s]) (simp only: e list.case i g simp_thms)
  next
    case False
    then have e: "seq_rest c s = []"
      using j f(1,5,6) by (auto simp: seq_rest_def Let_def at_end_def word_less_nat_alt fsyncs_Nil)
    have g: "file_get_seq_request s = Some (null_request, s)"
      using fin False by (auto simp: file_get_seq_request_def)
    show ?thesis by (intro exI [of _ s]) (simp only: e list.case inv g simp_thms)
  qed
qed

lemma seq_step_fsync:
  assumes inv: "seq_inv c L s" and go: "\<not> all_performed s" "seq_writes s \<and> fsync_due s"
  shows "\<exists>s' r. seq_inv c L s' \<and> seq_rest c s = r # seq_rest c s' \<and> file_get_seq_request s = Some (r, s')"
proof -
  note d = seq_invD [OF inv refl]
  note f = seq_conf_fields [OF d(1)]
  have j: "unat (f_performed s) < sc_max c" using go(1) all_performed_nat [OF d(1,2)] by simp
  let ?r = "file_req (fsync_req (fsynced_file s))"
  have u: "unat (fsynced_file s + 1) = Suc (unat (fsynced_file s))"
    using unat_Suc_u32 [OF d(11)] d(2) by (simp add: conf_ok_def)
  have eq: "fsynced_file s + 1 = num_files s \<longleftrightarrow> Suc (unat (fsynced_file s)) = sc_files c"
    using f(1) u by (simp add: word_unat_eq_iff)
  show ?thesis
  proof (cases "Suc (unat (fsynced_file s)) = sc_files c")
    case True
    let ?s = "s\<lparr>fsynced_file := 0, is_dirty := False\<rparr>"
    have "seq_inv c L ?s"
      using inv j d(2) by (simp add: seq_inv_def Let_def conf_ok_def cong: if_cong split del: if_split)
    moreover have "seq_rest c s = ?r # seq_rest c ?s"
      using go(2) j True f(6) by (simp add: seq_rest_def Let_def fsyncs_Cons fsyncs_Nil fsync_due_def)
    moreover have "file_get_seq_request s = Some (?r, ?s)"
      using go eq True by (simp add: file_get_seq_request_def periodic_fsync_def Let_def)
    ultimately show ?thesis by blast
  next
    case False
    let ?s = "s\<lparr>fsynced_file := fsynced_file s + 1\<rparr>"
    have due: "fsync_due ?s" using go(2) by (simp add: fsync_due_def)
    have "seq_inv c L ?s"
      using inv j u False d(11) go(2) f(6) due by (simp add: seq_inv_def Let_def cong: if_cong split del: if_split)
    moreover have "seq_rest c s = ?r # seq_rest c ?s"
      using go(2) j f(6) u d(11) due by (simp add: seq_rest_def Let_def fsyncs_Cons)
    moreover have "file_get_seq_request s = Some (?r, ?s)"
      using go eq False by (simp add: file_get_seq_request_def periodic_fsync_def Let_def)
    ultimately show ?thesis by blast
  qed
qed
lemma seq_scroll_slot:
  assumes c: "conf_ok c" and cur: "current_file s = of_nat (j div sc_tiles c mod sc_files c)"
    and pos: "position s = int (j mod sc_tiles c) * sc_step c" and t: "t = seq_scroll (fr_size (seq_data c j)) s"
    and sz: "file_size s = sc_size c"
  shows "position t = int (Suc j mod sc_tiles c) * sc_step c \<and> unat (current_file t) \<le> sc_files c \<and>
     (if unat (current_file t) = sc_files c then 0 else unat (current_file t)) = Suc j div sc_tiles c mod sc_files c \<and>
     (unat (current_file t) = sc_files c \<longrightarrow> Suc j mod sc_tiles c = 0)"
proof -
  let ?K = "sc_tiles c" and ?n = "sc_files c"
  have K: "0 < ?K" "0 < ?n" "?n < 2 ^ 32" using tiles_pos [OF c] c by (simp_all add: conf_ok_def)
  have k: "j mod ?K < ?K" using K(1) by simp
  let ?f = "j div ?K mod ?n"
  have f: "?f < ?n" using K(2) by simp
  have u: "unat (current_file s) = ?f" unfolding cur using f K(3) by (simp add: unat_of_nat take_bit_nat_eq_self)
  then have u1: "unat (current_file s + 1) = Suc ?f" using unat_Suc_u32 [of "current_file s" ?n] f K(3) by simp
  note e = tile_ends [OF c k]
  show ?thesis
  proof (cases "Suc (j mod ?K) = ?K")
    case True
    then show ?thesis unfolding t seq_scroll_fields using next_slot(1) [OF K(1,2) True] e(2) pos sz u1 f
      by (simp add: seq_data_def Let_def)
  next
    case False
    then have "min (sc_step c) (sc_size c - int (j mod ?K) * sc_step c) = sc_step c" using k by (intro e(3)) linarith
    then show ?thesis unfolding t seq_scroll_fields using next_slot(2) [OF K(1,2) False] e(2) pos sz u f False
      by (simp add: seq_data_def Let_def algebra_simps)
  qed
qed

lemma seq_step_data:
  assumes inv: "seq_inv c L s" and go: "\<not> all_performed s" "\<not> (seq_writes s \<and> fsync_due s)"
  shows "\<exists>s' r. seq_inv c L s' \<and> seq_rest c s = r # seq_rest c s' \<and> file_get_seq_request s = Some (r, s')"
proof -
  define j where "j = unat (f_performed s)"
  let ?K = "sc_tiles c" and ?n = "sc_files c"
  note d = seq_invD [OF inv j_def]
  note f = seq_conf_fields [OF d(1)] and b = seq_begin_slot [OF inv j_def]
  have j: "j < sc_max c" using go(1) all_performed_nat [OF d(1,2)] by (simp add: j_def)
  have K: "0 < ?K" "0 < ?n" using tiles_pos [OF d(2)] d(2) by (simp_all add: conf_ok_def)
  have u: "unat (f_performed s + 1) = Suc j" using unat_Suc_u32 [OF j [unfolded j_def] seq_max_bound [OF d(1)]] by (simp add: j_def)
  let ?r = "seq_data c j"
  define t where "t = seq_scroll (fr_size ?r) (seq_begin s)"
  define s' where "s' = (if validate (te_glob s) then t\<lparr>prev_req := ?r\<rparr> else t)"
  have fs: "fsynced_file s = 0" using d(12) go(2) f(6) by auto
  have "say_all (check_seq_req (num_files t) (file_size t) (prev_req t) ?r) t = Some t" if v: "validate (te_glob s)"
  proof -
    have "check_seq_req (num_files t) (file_size t) (prev_req t) ?r = []"
    proof (cases "j = 0")
      case True
      then show ?thesis using d(17) [OF v] by (simp add: t_def check_seq_req_def)
    next
      case False
      then show ?thesis using check_seq_data [OF d(2) d(16) [OF v] f(1)] d(18) [OF v] f(2) by (simp add: t_def)
    qed
    then show ?thesis by (simp add: say_all_def)
  qed
  then have g: "file_get_seq_request s = Some (file_req ?r, s')"
    using go b(3) by (simp only: file_get_seq_request_def Let_def if_False t_def [symmetric] s'_def) (auto simp: t_def)
  have due: "fsync_due s' \<longleftrightarrow> sc_freq c \<noteq> 0 \<and> (is_dirty s \<or> sc_writes c) \<and> Suc j mod sc_freq c = 0"
    using fsync_due_nat [of s' c] d(1-3) f(6) u by (simp add: s'_def t_def)
  have "seq_rest c s = file_req ?r # seq_rest c s'"
    using go(2) f(6) j due d(14) fs seq_tail_Cons [OF j] seq_tail_end [of c]
    by (cases "Suc j = sc_max c") (auto simp: seq_rest_def Let_def j_def [symmetric] u s'_def t_def periodic_def)
  moreover have "seq_inv c L s'"
  proof -
    have slot: "position t = int (Suc j mod ?K) * sc_step c \<and> unat (current_file t) \<le> ?n \<and>
        (if unat (current_file t) = ?n then 0 else unat (current_file t)) = Suc j div ?K mod ?n \<and>
        (unat (current_file t) = ?n \<longrightarrow> Suc j mod ?K = 0)"
      unfolding t_def using seq_scroll_slot [OF d(2) b(1,2) refl] f(2) by simp
    have "conf_ok c" "Suc j \<le> sc_max c" "seq_conf_of t = c" "te_lgr t = L" "fsynced_file t = 0" "fsynced_file2 t = 0"
      "is_dirty t \<longrightarrow> sc_writes c" "te_glob t = te_glob s" "unat (f_performed t) = Suc j"
      "file_fsync_freq t = file_fsync_freq s" "file_merged_requests t = file_merged_requests s"
      using d(1,2,4,15) d(14) [OF j] j fs f(6) u by (auto simp: t_def)
    then show ?thesis using slot d(3,6,16) K(2)
      by (cases "validate (te_glob s)") (simp_all add: s'_def seq_inv_def Let_def cong: if_cong split del: if_split)
  qed
  ultimately show ?thesis using g by blast
qed

interpretation seq: request_source file_get_seq_request "seq_inv c L" "seq_rest c" for c L
proof
  fix s :: "'a file_state"
  assume inv: "seq_inv c L s"
  show "\<exists>s'. seq_inv c L s' \<and> (case seq_rest c s of
      [] \<Rightarrow> file_get_seq_request s = Some (null_request, s') \<and> seq_rest c s' = []
    | r # rs \<Rightarrow> file_get_seq_request s = Some (r, s') \<and> seq_rest c s' = rs)"
  proof (cases "all_performed s")
    case True
    then show ?thesis by (rule seq_step_end [OF inv])
  next
    case False
    obtain s' r where "seq_inv c L s'" "seq_rest c s = r # seq_rest c s'" "file_get_seq_request s = Some (r, s')"
      using seq_step_fsync [OF inv False] seq_step_data [OF inv False] by blast
    then show ?thesis by (intro exI [of _ s']) simp
  qed
qed

text \<open>What \<open>init_vars\<close> sets up.\<close>

lemma seq_init:
  assumes "conf_ok (seq_conf_of s)" and "0 \<le> file_fsync_freq s"
    and "file_merged_requests s > 0 \<or> file_block_size s dvd file_size s"
    and "validate (te_glob s) \<longrightarrow> 2 \<le> unat (num_files s)"
  shows "seq_inv (seq_conf_of s) (te_lgr s) (init_vars s)"
    and "seq_rest (seq_conf_of s) (init_vars s) = map file_req (seq_schedule (seq_conf_of s))"
proof -
  have c: "seq_conf_of (init_vars s) = seq_conf_of s"
    by (simp add: init_vars_def Let_def seq_conf_of_def seq_writes_def)
  have z: "current_file (init_vars s) = 0" "position (init_vars s) = 0" "fsynced_file (init_vars s) = 0"
    "fsynced_file2 (init_vars s) = 0" "f_performed (init_vars s) = 0" "\<not> is_dirty (init_vars s)"
    "te_lgr (init_vars s) = te_lgr s" "te_glob (init_vars s) = te_glob s" "file_fsync_freq (init_vars s) = file_fsync_freq s"
    "file_merged_requests (init_vars s) = file_merged_requests s"
    "validate (te_glob s) \<Longrightarrow> fr_op (prev_req (init_vars s)) = FILE_OP_TYPE_NULL"
    by (simp_all add: init_vars_def Let_def)
  show "seq_inv (seq_conf_of s) (te_lgr s) (init_vars s)"
    using assms by (simp add: seq_inv_def c z) (auto simp: conf_ok_def seq_conf_of_def)
  show "seq_rest (seq_conf_of s) (init_vars s) = map file_req (seq_schedule (seq_conf_of s))"
    using assms(1) by (simp add: seq_rest_def z fsync_due_def seq_schedule_def conf_ok_def)
qed

lemma seq_schedule_cases:
  "r \<in> set (seq_schedule c) \<Longrightarrow> (\<exists>i < sc_max c. r = seq_data c i) \<or> (sc_writes c \<and> (\<exists>f < sc_files c. r = fsync_req (of_nat f)))"
  by (auto simp: seq_schedule_def seq_tail_def periodic_def at_end_def fsyncs_def split: if_splits)

lemma seq_schedule_bounds:
  assumes "conf_ok c" and "r \<in> set (seq_schedule c)"
  shows "unat (fr_file_id r) < sc_files c \<and> 0 \<le> fr_pos r \<and> fr_pos r + fr_size r \<le> sc_size c"
  using seq_schedule_cases [OF assms(2)]
proof (elim disjE conjE exE)
  fix i assume r: "r = seq_data c i"
  let ?k = "i mod sc_tiles c"
  have "?k < sc_tiles c" using tiles_pos [OF assms(1)] by simp
  then have "int ?k * sc_step c < sc_size c" by (rule tile_ends(1) [OF assms(1)])
  moreover have "i div sc_tiles c mod sc_files c < sc_files c" using assms(1) by (simp add: conf_ok_def)
  moreover have "0 \<le> int ?k * sc_step c" using assms(1) by (simp add: conf_ok_def)
  ultimately show ?thesis using assms(1)
    by (simp add: r seq_data_def Let_def conf_ok_def unat_of_nat take_bit_nat_eq_self)
next
  fix f assume "f < sc_files c" "r = fsync_req (of_nat f)"
  with assms(1) show ?thesis by (simp add: fsync_req_def conf_ok_def unat_of_nat take_bit_nat_eq_self)
qed

text \<open>C14: The sequential modes of the file test follow one schedule, whichever threads ask, when \<open>max-requests\<close>, the number
  of files, their size and the block size are above 0, \<open>file-fsync-freq\<close> is below 2^31, and either requests are merged
  or the block size divides the size of a file. The schedule has exactly \<open>max-requests\<close> reads or writes, which go
  through each file from its start to its end and through the files in turn, and start again after the last. In the
  writing modes every file is synced once, in order, each time another \<open>file-fsync-freq\<close> requests were handed out and
  more are to follow: the last request is followed by no such sync, only by the one of every file that
  \<open>file-fsync-end\<close> asks for. Then there are no further requests. Under these conditions each request lies inside its
  file, a merged one is cut at the end of the file, and the check of the order of requests that \<open>--validate\<close> adds never
  warns, when with \<open>--validate\<close> there are at least two files.\<close>

theorem seq_requests_schedule:
  assumes "num_files s \<noteq> 0" and "0 < file_size s" and "max_requests (te_glob s) \<noteq> 0"
    and "0 < file_block_size s" and "0 < file_max_request_size s" and "0 \<le> file_fsync_freq s" and "file_fsync_freq s < 2 ^ 31"
    and "file_merged_requests s > 0 \<or> file_block_size s dvd file_size s"
    and "validate (te_glob s) \<longrightarrow> 2 \<le> unat (num_files s)"
  shows "\<exists>s'. call_times m file_get_seq_request (init_vars s) =
            Some (take m (map file_req (seq_schedule (seq_conf_of s)) @ replicate m null_request), s') \<and>
          te_lgr s' = te_lgr s \<and>
          (\<forall>r \<in> set (seq_schedule (seq_conf_of s)).
             unat (fr_file_id r) < unat (num_files s) \<and> 0 \<le> fr_pos r \<and> fr_pos r + fr_size r \<le> file_size s)"
proof -
  let ?c = "seq_conf_of s"
  have ok: "conf_ok ?c"
    using assms(1-7) unat_bound_u32 [of "num_files s"] by (auto simp: conf_ok_def seq_conf_of_def unat_gt_0)
  note i = seq_init [OF ok assms(6,8,9)]
  obtain s' where "call_times m file_get_seq_request (init_vars s) =
      Some (take m (map file_req (seq_schedule ?c) @ replicate m null_request), s')" "seq_inv ?c (te_lgr s) s'"
    using seq.calls [OF i(1), of m] unfolding i(2) by blast
  moreover from this(2) have "te_lgr s' = te_lgr s" by (rule seq_invD(4) [OF _ refl])
  moreover note seq_schedule_bounds [OF ok]
  ultimately show ?thesis using seq_conf_fields(1,2) [of s, OF refl] by auto
qed

definition example_file :: "unit file_state" where
  "example_file = test_env.extend (example_env\<lparr>te_glob := example_globals\<lparr>validate := True\<rparr>\<rparr>)
     \<lparr>num_files = 2, total_size = 64, file_size = 32, file_block_size = 16, file_extra_flags = SB_FILE_FLAG_NORMAL,
      file_fsync_freq = 2, file_fsync_all = False, file_fsync_end = True, file_fsync_mode = FSYNC_ALL, file_rw_ratio = 1,
      file_merged_requests = 0, file_max_request_size = 16, file_io_mode = FILE_IO_MODE_SYNC, file_async_backlog = 0,
      position = 0, current_file = 0, fsynced_file = 0, fsynced_file2 = 0, is_dirty = False, f_read_ops = 0, f_write_ops = 0,
      f_other_ops = 0, last_other_ops = 0, f_performed = 0, bytes_read = 0, last_bytes_read = 0, bytes_written = 0,
      last_bytes_written = 0, test_mode = MODE_REWRITE,
      prev_req = \<lparr>fr_file_id = 0, fr_pos = 0, fr_size = 0, fr_op = FILE_OP_TYPE_NULL\<rparr>,
      per_thread = replicate 2 \<lparr>pt_buffer = Some (replicate 16 0), pt_file_id = 9, pt_pos = 0\<rparr>, file_percentile = example_histogram,
      fds = [3, 4], mmaps = [], aio_pending = [], f_world = ()\<rparr>"

abbreviation (input) write_req :: "u32 \<Rightarrow> int \<Rightarrow> file_request" where
  "write_req f p \<equiv> \<lparr>fr_file_id = f, fr_pos = p, fr_size = 16, fr_op = FILE_OP_TYPE_WRITE\<rparr>"

lemma example_schedule:
  "seq_schedule (seq_conf_of example_file) =
     [write_req 0 0, write_req 0 16, fsync_req 0, fsync_req 1, write_req 1 0, fsync_req 0, fsync_req 1]"
proof -
  have c: "seq_conf_of example_file = \<lparr>sc_files = 2, sc_size = 32, sc_step = 16, sc_writes = True, sc_freq = 2,
      sc_end = True, sc_max = 3\<rparr>"
    by (simp add: seq_conf_of_def seq_writes_def example_file_def test_env.extend_def example_env_def example_globals_def)
  show ?thesis unfolding c by code_simp
qed

theorem seq_requests_schedule_witness:
  "\<exists>s'. call_times 8 file_get_seq_request (init_vars example_file) =
     Some (map file_req [write_req 0 0, write_req 0 16, fsync_req 0, fsync_req 1, write_req 1 0, fsync_req 0, fsync_req 1]
           @ [null_request], s')"
proof -
  have "num_files example_file \<noteq> 0" "0 < file_size example_file" "max_requests (te_glob example_file) \<noteq> 0"
    "0 < file_block_size example_file" "0 < file_max_request_size example_file" "0 \<le> file_fsync_freq example_file"
    "file_fsync_freq example_file < 2 ^ 31"
    "file_merged_requests example_file > 0 \<or> file_block_size example_file dvd file_size example_file"
    "validate (te_glob example_file) \<longrightarrow> 2 \<le> unat (num_files example_file)"
    by (simp_all add: example_file_def test_env.extend_def example_env_def example_globals_def)
  from seq_requests_schedule [OF this, of 8] show ?thesis unfolding example_schedule by (auto simp: eval_nat_numeral)
qed

text \<open>With a single file the check warns at every new pass over it, although the order is right.\<close>

theorem single_file_false_warning:
  assumes "conf_ok c" and "sc_files c = 1"
  shows "check_seq_req 1 (sc_size c) (seq_data c (sc_tiles c - 1)) (seq_data c (sc_tiles c)) =
     [(LOG_WARNING, ''Discovered too large position difference in seq request!'')]"
proof -
  have K: "0 < sc_tiles c" using tiles_pos [OF assms(1)] .
  let ?k = "sc_tiles c - 1"
  have k: "?k < sc_tiles c" using K by simp
  have "int ?k * sc_step c + min (sc_step c) (sc_size c - int ?k * sc_step c) = sc_size c" using tile_ends(2) [OF assms(1) k] K by simp
  moreover have "0 < sc_size c" using assms(1) by (simp add: conf_ok_def)
  ultimately show ?thesis using k assms(2) by (simp add: check_seq_req_def seq_data_def Let_def)
qed

end
