(* ===== verification/File_Rnd.thy ===== *)
theory File_Rnd
  imports File_Gen
begin

text \<open>
  The random modes of the file test: requests lie inside their files when the sizes divide, and with \<open>--validate\<close> no two
  threads work on the same block at the same time.
\<close>

section \<open>Positions\<close>

lemma rnd_position_cases:
  assumes "rnd_position k s = Some (f, p)" and "k < SB_MAX_RND"
    and "total_size s = int (unat (num_files s)) * file_size s" and "0 < file_block_size s"
    and "file_block_size s dvd file_size s" and "0 < file_size s" and "num_files s \<noteq> 0"
  shows "unat f < unat (num_files s) \<and> 0 \<le> p \<and> p + file_block_size s \<le> file_size s \<and> file_block_size s dvd p"
proof -
  let ?b = "file_block_size s" and ?z = "file_size s" and ?n = "int (unat (num_files s))" and ?t = "total_size s"
  define x where "x = \<lfloor>real k / real SB_MAX_RND * real_of_int ?t\<rfloor>"
  define y where "y = x - x mod ?b"
  have fp: "f = word_of_int (y div ?z)" "p = y mod ?z"
    using assms(1,4,6) unfolding rnd_position_def Let_def y_def x_def by auto
  have t: "0 < ?t" unfolding assms(3)
    using assms(6,7) by (intro mult_pos_pos) (simp_all only: of_nat_0_less_iff unat_gt_0 not_False_eq_True)
  then have x0: "0 \<le> x" unfolding x_def by simp
  have y: "0 \<le> y" "y \<le> x"
    using x0 assms(4) pos_mod_sign [of ?b x] zmod_le_nonneg_dividend [of x ?b] unfolding y_def by linarith+
  have yd: "?b dvd y" unfolding y_def by (simp add: minus_mod_eq_mult_div)
  have "real k / real SB_MAX_RND * real_of_int ?t < 1 * real_of_int ?t"
    using assms(2) t by (intro mult_strict_right_mono) simp_all
  then have "x < ?t" unfolding x_def by (simp add: floor_less_iff)
  then have lt: "y < ?n * ?z" using y(2) assms(3) by simp
  have "y div ?z * ?z \<le> y" using assms(6) div_mult_mod_eq [of y ?z] pos_mod_sign [of ?z y] by linarith
  then have "y div ?z * ?z < ?n * ?z" using lt by linarith
  then have q: "0 \<le> y div ?z" "y div ?z < ?n"
    using y(1) assms(6) by (simp_all only: pos_imp_zdiv_nonneg_iff mult_less_cancel_right_pos)
  have r: "0 \<le> y mod ?z" "y mod ?z < ?z" "?b dvd y mod ?z" using assms(5,6) yd by (simp_all add: dvd_mod)
  have "?b dvd ?z - y mod ?z" using r(3) assms(5) by (rule dvd_diff [rotated])
  then have "?b \<le> ?z - y mod ?z" using r(2) by (intro zdvd_imp_le) simp_all
  then have "y mod ?z + ?b \<le> ?z" by simp
  moreover have "unat f < unat (num_files s)"
  proof -
    have "nat (y div ?z) < unat (num_files s)" using q by (simp only: nat_less_iff)
    moreover have "f = of_nat (nat (y div ?z))" unfolding fp using q(1) by simp
    ultimately show ?thesis using unat_bound_u32 [of "num_files s"] by (simp add: unat_of_nat take_bit_nat_eq_self)
  qed
  ultimately show ?thesis using r fp by simp
qed

text \<open>What a successful \<open>rnd_block\<close> found.\<close>

lemma rnd_block_result:
  assumes "rnd_block tid s = Some (b, s')"
  shows "\<exists>k g. k < SB_MAX_RND \<and> s' = s\<lparr>te_rng := g\<rparr> \<and> rnd_position k s = Some b \<and>
     (validate (te_glob s) \<longrightarrow> \<not> block_in_use tid b (per_thread s))"
proof -
  have "case y of (b, s') \<Rightarrow> \<exists>k g. k < SB_MAX_RND \<and> s' = s\<lparr>te_rng := g\<rparr> \<and> rnd_position k s = Some b \<and>
     (validate (te_glob s) \<longrightarrow> \<not> block_in_use tid b (per_thread s))" if "rnd_block tid s = Some y" for y
  proof (rule rnd_block.raw_induct [where P = "\<lambda>tid s y. case y of (b, s') \<Rightarrow> \<exists>k g. k < SB_MAX_RND \<and> s' = s\<lparr>te_rng := g\<rparr> \<and>
      rnd_position k s = Some b \<and> (validate (te_glob s) \<longrightarrow> \<not> block_in_use tid b (per_thread s))", OF _ that])
    fix rec :: "nat \<Rightarrow> 'a file_state \<Rightarrow> ((u32 \<times> int) \<times> 'a file_state) option" and tid s y
    assume IH: "\<And>tid s y. rec tid s = Some y \<Longrightarrow> case y of (b, s') \<Rightarrow> \<exists>k g. k < SB_MAX_RND \<and> s' = s\<lparr>te_rng := g\<rparr> \<and>
        rnd_position k s = Some b \<and> (validate (te_glob s) \<longrightarrow> \<not> block_in_use tid b (per_thread s))"
      and body: "(let (randnum, s) = draw s in case rnd_position randnum s of None \<Rightarrow> None
        | Some b \<Rightarrow> if validate (te_glob s) \<and> block_in_use tid b (per_thread s) then rec tid s else Some (b, s)) = Some y"
    obtain k s1 where dr: "draw s = (k, s1)" by fastforce
    obtain g where s1: "s1 = s\<lparr>te_rng := g\<rparr>" using env_frames(4) [OF dr] by blast
    have f: "rnd_position n (s\<lparr>te_rng := g\<rparr>) = rnd_position n s" for n g by (simp add: rnd_position_def Let_def)
    obtain b where b: "rnd_position k s = Some b" using body dr s1 f by (cases "rnd_position k s") auto
    show "case y of (b, s') \<Rightarrow> \<exists>k g. k < SB_MAX_RND \<and> s' = s\<lparr>te_rng := g\<rparr> \<and> rnd_position k s = Some b \<and>
        (validate (te_glob s) \<longrightarrow> \<not> block_in_use tid b (per_thread s))"
    proof (cases "validate (te_glob s) \<and> block_in_use tid b (per_thread s)")
      case True
      then have "rec tid s1 = Some y" using body dr b s1 f by simp
      from IH [OF this] show ?thesis using s1 f by fastforce
    next
      case False
      then have "y = (b, s1)" using body dr b s1 f by auto
      then show ?thesis using False draw_range [OF dr] b s1 by auto
    qed
  qed
  from this [OF assms] show ?thesis by simp
qed

text \<open>The outcome of \<open>file_get_rnd_request\<close>: an \<open>fsync\<close> or no request, which leaves the blocks of all threads as they are,
  or a block that \<open>rnd_block\<close> found, which is noted for the thread.\<close>

definition data_op :: "file_request sb_request \<Rightarrow> file_request option" where
  "data_op q = (case req_data q of Some r \<Rightarrow> (if fr_op r \<in> {FILE_OP_TYPE_READ, FILE_OP_TYPE_WRITE} then Some r else None) | None \<Rightarrow> None)"

definition blocks :: "'w file_state \<Rightarrow> (u32 \<times> int) list" where
  "blocks s = map (\<lambda>p. (pt_file_id p, pt_pos p)) (per_thread s)"

lemma rnd_request_cases:
  assumes "file_get_rnd_request tid s = Some (q, s')"
  obtains "data_op q = None" "blocks s' = blocks s" "te_glob s' = te_glob s" "file_io_mode s' = file_io_mode s"
  | k r where "data_op q = Some r" "k < SB_MAX_RND" "rnd_position k s = Some (fr_file_id r, fr_pos r)"
      "fr_size r = file_block_size s" "tid < length (blocks s)" "te_glob s' = te_glob s"
      "blocks s' = (blocks s)[tid := (fr_file_id r, fr_pos r)]"
      "validate (te_glob s) \<Longrightarrow> \<not> block_in_use tid (fr_file_id r, fr_pos r) (per_thread s)"
      "file_io_mode s' = file_io_mode s"
proof (cases "all_performed s \<or> fsync_due s")
  case True
  with assms have "data_op q = None" "blocks s' = blocks s" "te_glob s' = te_glob s" "file_io_mode s' = file_io_mode s"
    by (auto simp: file_get_rnd_request_def periodic_fsync_def Let_def data_op_def fsync_req_def blocks_def split: if_splits)
  then show ?thesis by (rule that(1))
next
  case False
  with assms obtain f p s1 op where b: "rnd_block tid s = Some ((f, p), s1)" and op: "op \<in> {FILE_OP_TYPE_READ, FILE_OP_TYPE_WRITE}"
    and q: "q = file_req \<lparr>fr_file_id = f, fr_pos = p, fr_size = file_block_size s1, fr_op = op\<rparr>" and t: "tid < length (per_thread s1)"
    and pt: "per_thread s' = (per_thread s1)[tid := (per_thread s1 ! tid)\<lparr>pt_file_id := f, pt_pos := p\<rparr>]" and g: "te_glob s' = te_glob s1" "file_io_mode s' = file_io_mode s1"
    by (auto simp: file_get_rnd_request_def Let_def split: bind_splits if_splits)
  from rnd_block_result [OF b] obtain k g where r: "k < SB_MAX_RND" "s1 = s\<lparr>te_rng := g\<rparr>" "rnd_position k s = Some (f, p)"
    "validate (te_glob s) \<longrightarrow> \<not> block_in_use tid (f, p) (per_thread s)" by blast
  show ?thesis
  proof (rule that(2))
    show "data_op q = Some \<lparr>fr_file_id = f, fr_pos = p, fr_size = file_block_size s, fr_op = op\<rparr>"
      using op q r(2) by (auto simp: data_op_def)
  qed (use r t pt g in \<open>auto simp: blocks_def map_update\<close>)
qed

text \<open>C40: When the files divide the total size evenly and the blocks divide a file, each random read or write lies inside an
  existing file, at a multiple of the block size.\<close>

theorem rnd_request_in_file:
  assumes "file_get_rnd_request tid s = Some (q, s')" and "data_op q = Some r"
    and "total_size s = int (unat (num_files s)) * file_size s" and "0 < file_block_size s"
    and "file_block_size s dvd file_size s" and "0 < file_size s" and "num_files s \<noteq> 0"
  shows "unat (fr_file_id r) < unat (num_files s) \<and> 0 \<le> fr_pos r \<and> fr_pos r + fr_size r \<le> file_size s \<and>
     file_block_size s dvd fr_pos r"
  using assms(1)
proof (cases rule: rnd_request_cases)
  case (2 k r')
  with assms(2) have "r' = r" by simp
  with 2 show ?thesis using rnd_position_cases [OF 2(3,2) assms(3-7)] by simp
qed (use assms(2) in simp)

text \<open>Executing a request changes the contents of buffers only, not the blocks that are noted nor the mode.\<close>

definition same_blocks :: "'w file_state \<Rightarrow> 'w file_state \<Rightarrow> bool" where
  "same_blocks s s' \<longleftrightarrow> blocks s' = blocks s \<and> te_glob s' = te_glob s \<and> file_io_mode s' = file_io_mode s"

named_theorems same \<open>operations that keep the blocks of the threads\<close>

lemma same_refl [intro, simp]: "same_blocks s s"
  by (simp add: same_blocks_def)

lemma same_trans: "same_blocks s t \<Longrightarrow> same_blocks t u \<Longrightarrow> same_blocks s u"
  by (simp add: same_blocks_def)

lemma same_upd [simp]:
  "same_blocks s (t\<lparr>f_world := w\<rparr>) = same_blocks s t" "same_blocks s (t\<lparr>te_lgr := L\<rparr>) = same_blocks s t"
  "same_blocks s (t\<lparr>te_ticks := n\<rparr>) = same_blocks s t" "same_blocks s (t\<lparr>te_rng := g\<rparr>) = same_blocks s t"
  "same_blocks s (t\<lparr>aio_pending := a\<rparr>) = same_blocks s t" "same_blocks s (t\<lparr>f_other_ops := x\<rparr>) = same_blocks s t"
  "same_blocks s (t\<lparr>f_read_ops := x\<rparr>) = same_blocks s t" "same_blocks s (t\<lparr>f_write_ops := x\<rparr>) = same_blocks s t"
  "same_blocks s (t\<lparr>bytes_read := y\<rparr>) = same_blocks s t" "same_blocks s (t\<lparr>bytes_written := y\<rparr>) = same_blocks s t"
  "same_blocks s (t\<lparr>file_percentile := p\<rparr>) = same_blocks s t"
  "same_blocks (s\<lparr>f_world := w\<rparr>) t = same_blocks s t" "same_blocks (s\<lparr>te_lgr := L\<rparr>) t = same_blocks s t"
  "same_blocks (s\<lparr>te_ticks := n\<rparr>) t = same_blocks s t" "same_blocks (s\<lparr>te_rng := g\<rparr>) t = same_blocks s t"
  "same_blocks (s\<lparr>aio_pending := a\<rparr>) t = same_blocks s t" "same_blocks (s\<lparr>f_other_ops := x\<rparr>) t = same_blocks s t"
  "same_blocks (s\<lparr>f_read_ops := x\<rparr>) t = same_blocks s t" "same_blocks (s\<lparr>f_write_ops := x\<rparr>) t = same_blocks s t"
  "same_blocks (s\<lparr>bytes_read := y\<rparr>) t = same_blocks s t" "same_blocks (s\<lparr>bytes_written := y\<rparr>) t = same_blocks s t"
  "same_blocks (s\<lparr>file_percentile := p\<rparr>) t = same_blocks s t"
  by (simp_all add: same_blocks_def blocks_def)

lemma same_set_buffer [simp]:
  "same_blocks s (set_buffer tid b t) = same_blocks s t" "same_blocks (set_buffer tid b t) s = same_blocks t s"
proof -
  have "map (\<lambda>p. (pt_file_id p, pt_pos p)) ((per_thread t)[tid := (per_thread t ! tid)\<lparr>pt_buffer := b\<rparr>]) = blocks t"
    unfolding blocks_def by (cases "tid < length (per_thread t)") (auto simp: nth_list_update list_update_beyond intro!: nth_equalityI)
  then show "same_blocks s (set_buffer tid b t) = same_blocks s t" "same_blocks (set_buffer tid b t) s = same_blocks t s"
    by (simp_all add: same_blocks_def set_buffer_def blocks_def)
qed

lemma same_says [same]:
  "say p txt s = Some t \<Longrightarrow> same_blocks s t" "event_start tid s = Some t \<Longrightarrow> same_blocks s t"
  "event_stop tid s = Some t \<Longrightarrow> same_blocks s t" "say_errno E p txt s = Some t \<Longrightarrow> same_blocks s t"
  "fail_text txt s = Some (rc, t) \<Longrightarrow> same_blocks s t" "fail_errno E txt s = Some (rc, t) \<Longrightarrow> same_blocks s t"
  "note_response tid s = Some t \<Longrightarrow> same_blocks s t"
  by (auto simp: say_def event_start_def event_stop_def say_errno_def fail_text_def fail_errno_def note_response_def
      split: prod.splits bind_splits if_splits)

lemma same_draw_bytes: "draw_bytes n s = (bs, t) \<Longrightarrow> same_blocks s t"
proof (induction n arbitrary: s bs t)
  case (Suc n)
  obtain r s1 where r: "draw s = (r, s1)" by fastforce
  obtain b2 t2 where b: "draw_bytes n s1 = (b2, t2)" by fastforce
  have "same_blocks s s1" using env_frames(4) [OF r] by auto
  moreover have "same_blocks s1 t2" using Suc.IH [OF b] .
  moreover have "t = t2" using Suc.prems r b by simp
  ultimately show ?case by (blast intro: same_trans)
qed simp

lemma same_events [same]: "file_events tid evs s = Some (rc, t) \<Longrightarrow> same_blocks s t"
proof (induction evs arbitrary: s)
  case (Cons ev evs)
  obtain oper res where "ev = (oper, res)" by fastforce
  with Cons show ?case
    by (cases "ao_type oper") (auto simp: Let_def dest!: Cons.IH dest: same_says(5) split: if_splits)
qed simp

lemma same_io [same]:
  "file_wait E tid n s = Some (rc, t) \<Longrightarrow> same_blocks s t"
  "file_submit_or_wait E oper tid s = Some (rc, t) \<Longrightarrow> same_blocks s t"
proof -
  have w: "file_wait E tid n s = Some (rc, t) \<Longrightarrow> same_blocks s t" for tid n s rc t
    by (auto simp: file_wait_def Let_def dest!: same_events same_says(6) split: bind_splits prod.splits if_splits)
  then show "file_wait E tid n s = Some (rc, t) \<Longrightarrow> same_blocks s t" .
  show "file_submit_or_wait E oper tid s = Some (rc, t) \<Longrightarrow> same_blocks s t"
    by (auto simp: file_submit_or_wait_def Let_def dest!: w same_says(5,6) split: bind_splits prod.splits if_splits)
qed

lemma same_rw [same]:
  "file_fsync E f s = Some (rc, t) \<Longrightarrow> same_blocks s t"
  "file_pread E f n off tid s = Some (rc, t) \<Longrightarrow> same_blocks s t"
  "file_pwrite E f n off tid s = Some (rc, t) \<Longrightarrow> same_blocks s t"
  "file_fill_buffer E tid b len offset s = Some (b', t) \<Longrightarrow> same_blocks s t"
  "file_validate_buffer E tid b len offset s = Some (rc, t) \<Longrightarrow> same_blocks s t"
proof -
  show "file_fsync E f s = Some (rc, t) \<Longrightarrow> same_blocks s t"
    by (auto simp: file_fsync_def Let_def split: prod.splits if_splits)
  show "file_pread E f n off tid s = Some (rc, t) \<Longrightarrow> same_blocks s t"
    by (auto simp: file_pread_def Let_def dest!: same_io(2) split: prod.splits if_splits bind_splits option.splits)
  show "file_pwrite E f n off tid s = Some (rc, t) \<Longrightarrow> same_blocks s t"
    by (auto simp: file_pwrite_def Let_def dest!: same_io(2) split: prod.splits if_splits bind_splits option.splits)
  show "file_fill_buffer E tid b len offset s = Some (b', t) \<Longrightarrow> same_blocks s t"
    by (auto simp: file_fill_buffer_def Let_def dest!: same_draw_bytes split: prod.splits if_splits)
  show "file_validate_buffer E tid b len offset s = Some (rc, t) \<Longrightarrow> same_blocks s t"
    by (auto simp: file_validate_buffer_def Let_def dest!: same_says(1) intro: same_trans split: if_splits bind_splits)
qed

lemma same_execs [same]:
  "exec_fsync E r s = Some (rc, t) \<Longrightarrow> same_blocks s t"
  "exec_read E r tid s = Some (rc, t) \<Longrightarrow> same_blocks s t"
  "exec_write E r tid s = Some (rc, t) \<Longrightarrow> same_blocks s t"
proof -
  show "exec_fsync E r s = Some (rc, t) \<Longrightarrow> same_blocks s t"
    by (auto simp: exec_fsync_def dest!: same intro: same_trans split: bind_splits if_splits)
  show "exec_read E r tid s = Some (rc, t) \<Longrightarrow> same_blocks s t"
    unfolding exec_read_def
    by (auto dest!: same split: bind_splits if_splits; simp add: same_blocks_def)
  show "exec_write E r tid s = Some (rc, t) \<Longrightarrow> same_blocks s t"
    unfolding exec_write_def
    by (auto dest!: same split: bind_splits if_splits; simp add: same_blocks_def)
qed

lemma same_execute [same]: "file_execute_request E q tid s = Some (rc, t) \<Longrightarrow> same_blocks s t"
  unfolding file_execute_request_def
  by (auto dest!: same split: bind_splits if_splits sb_file_op.splits; simp add: same_blocks_def)

section \<open>Threads work on different blocks\<close>

text \<open>Any number of threads fetch and execute requests in any order. A thread fetches a request when it has none, and works
  on it from then until \<open>file_execute_request\<close> has returned. In the asynchronous mode that is when the read or write has
  been handed to the kernel: it is still in flight until the kernel completes it, at any later time.\<close>

record thread_io =
  current :: "file_request sb_request option"
  in_flight :: "file_request set"

type_synonym 'w rnd_sys = "(nat \<Rightarrow> thread_io) \<times> 'w file_state"

definition idle :: thread_io where
  "idle = \<lparr>current = None, in_flight = {}\<rparr>"

text \<open>The reads and writes of a thread that may be going on.\<close>

definition outstanding :: "thread_io \<Rightarrow> file_request set" where
  "outstanding t = (case current t of None \<Rightarrow> {} | Some q \<Rightarrow> set_option (data_op q)) \<union> in_flight t"

inductive rnd_step :: "'w file_env \<Rightarrow> 'w rnd_sys \<Rightarrow> 'w rnd_sys \<Rightarrow> bool" for E where
  fetch: "current (h tid) = None \<Longrightarrow> file_get_rnd_request tid s = Some (q, s') \<Longrightarrow>
    rnd_step E (h, s) (h(tid := (h tid)\<lparr>current := Some q\<rparr>), s')"
| execute: "current (h tid) = Some q \<Longrightarrow> file_execute_request E q tid s = Some (rc, s') \<Longrightarrow>
    rnd_step E (h, s) (h(tid := \<lparr>current = None,
      in_flight = in_flight (h tid) \<union> (if file_io_mode s = FILE_IO_MODE_ASYNC then set_option (data_op q) else {})\<rparr>), s')"
| complete: "r \<in> in_flight (h tid) \<Longrightarrow>
    rnd_step E (h, s) (h(tid := (h tid)\<lparr>in_flight := in_flight (h tid) - {r}\<rparr>), s)"

inductive_cases rnd_stepE: "rnd_step E z z'"

definition rnd_start :: "'w rnd_sys \<Rightarrow> bool" where
  "rnd_start z \<longleftrightarrow> validate (te_glob (snd z)) \<and> file_io_mode (snd z) \<noteq> FILE_IO_MODE_ASYNC \<and> fst z = (\<lambda>_. idle)"

text \<open>The block of each request that is going on is the one noted for its thread, and these differ.\<close>

definition apart :: "'w rnd_sys \<Rightarrow> bool" where
  "apart z \<longleftrightarrow> validate (te_glob (snd z)) \<and> file_io_mode (snd z) \<noteq> FILE_IO_MODE_ASYNC \<and> (\<forall>i. in_flight (fst z i) = {}) \<and>
     (\<forall>i. \<forall>r \<in> outstanding (fst z i). i < length (blocks (snd z)) \<and> blocks (snd z) ! i = (fr_file_id r, fr_pos r)) \<and>
     (\<forall>i j. \<forall>a \<in> outstanding (fst z i). \<forall>b \<in> outstanding (fst z j). i \<noteq> j \<longrightarrow> (fr_file_id a, fr_pos a) \<noteq> (fr_file_id b, fr_pos b))"

lemma apart_shrink:
  assumes "apart (h, s)" and "\<And>i. outstanding (h' i) \<subseteq> outstanding (h i)" and "\<And>i. in_flight (h' i) = {}"
    and "blocks s' = blocks s" and "te_glob s' = te_glob s" and "file_io_mode s' = file_io_mode s"
  shows "apart (h', s')"
proof -
  have "\<And>i r. r \<in> outstanding (h' i) \<Longrightarrow> r \<in> outstanding (h i)" using assms(2) by blast
  then show ?thesis using assms(1,3-6) unfolding apart_def fst_conv snd_conv by metis
qed

lemma block_in_use_blocks: "block_in_use tid b (per_thread s) \<longleftrightarrow> (\<exists>i < length (blocks s). i \<noteq> tid \<and> blocks s ! i = b)"
  by (auto simp: block_in_use_def blocks_def)

lemma apart_fetch:
  assumes "apart (h, s)" and "file_get_rnd_request tid s = Some (q, s')"
  shows "apart (h(tid := (h tid)\<lparr>current := Some q\<rparr>), s')"
  using assms(2)
proof (cases rule: rnd_request_cases)
  case 1
  then show ?thesis using assms(1)
    by (intro apart_shrink [OF assms(1)]) (auto simp: outstanding_def apart_def)
next
  case (2 k r)
  let ?h = "h(tid := (h tid)\<lparr>current := Some q\<rparr>)" and ?b = "\<lambda>r. (fr_file_id r, fr_pos r)"
  have v: "validate (te_glob s)" "file_io_mode s \<noteq> FILE_IO_MODE_ASYNC" "in_flight (h i) = {}" for i
    using assms(1) by (simp_all add: apart_def)
  have free: "blocks s ! i \<noteq> ?b r" if "i < length (blocks s)" "i \<noteq> tid" for i
    using 2(8) [OF v(1)] that by (auto simp: block_in_use_blocks)
  have old: "i < length (blocks s) \<and> blocks s ! i = ?b a" if "a \<in> outstanding (h i)" for i a
    using assms(1) that by (simp add: apart_def)
  have new: "?b a \<noteq> ?b r" if "a \<in> outstanding (h i)" "i \<noteq> tid" for i a
    using old [OF that(1)] free [of i] that(2) by metis
  have o: "outstanding (?h i) = (if i = tid then {r} else outstanding (h i))" for i
    using v(3) [of tid] 2(1) by (simp add: outstanding_def)
  have dis: "?b a \<noteq> ?b b" if "a \<in> outstanding (h i)" "b \<in> outstanding (h j)" "i \<noteq> j" for a b i j
    using assms(1) that by (simp add: apart_def)
  show ?thesis
    unfolding apart_def fst_conv snd_conv 2(6,7,9) o
  proof (intro conjI allI ballI impI)
    fix i a assume "a \<in> (if i = tid then {r} else outstanding (h i))"
    then show "i < length ((blocks s)[tid := ?b r])" "(blocks s)[tid := ?b r] ! i = ?b a"
      using old [of a i] 2(5) by (auto split: if_splits)
  next
    fix i j a b assume "a \<in> (if i = tid then {r} else outstanding (h i))" "b \<in> (if j = tid then {r} else outstanding (h j))" "i \<noteq> j"
    then show "?b a \<noteq> ?b b" using new [of a i] new [of b j] dis [of a i b j] by (auto split: if_splits)
  qed (use v in auto)
qed

interpretation rnd: invariant_system rnd_start "rnd_step E" apart for E
proof
  show "rnd_start z \<Longrightarrow> apart z" for z :: "'a rnd_sys" by (simp add: rnd_start_def apart_def outstanding_def idle_def)
  show "apart t" if "apart z" "rnd_step E z t" for z t
    using that(2)
  proof (cases rule: rnd_step.cases)
    case (execute h tid q s rc s')
    have a: "apart (h, s)" "file_io_mode s \<noteq> FILE_IO_MODE_ASYNC" "\<And>i. in_flight (h i) = {}"
      using that(1) execute by (simp_all add: apart_def)
    show ?thesis unfolding execute(2)
      by (rule apart_shrink [OF a(1)]) (use a same_execute [OF execute(4)] in \<open>auto simp: outstanding_def same_blocks_def\<close>)
  next
    case (complete r h tid s)
    then show ?thesis using that(1) by (auto simp: apart_def)
  qed (use that(1) apart_fetch in auto)
qed

text \<open>C15: With \<open>--validate\<close> and an I/O mode other than \<open>async\<close>, no two threads of a random mode ever work on the same block
  of the same file at the same time: in every interleaving of fetching and executing requests, the reads and writes that
  different threads have fetched and not finished are for different blocks. So a block is never read while another
  thread rewrites it, and its checksum stays meaningful. (In the mode \<open>async\<close> it does not hold.)\<close>

theorem rnd_threads_apart:
  assumes "validate (te_glob s0)" and "file_io_mode s0 \<noteq> FILE_IO_MODE_ASYNC" and "(rnd_step E)\<^sup>*\<^sup>* (\<lambda>_. idle, s0) (h, s)"
    and "a \<in> outstanding (h i)" and "b \<in> outstanding (h j)" and "i \<noteq> j"
  shows "(fr_file_id a, fr_pos a) \<noteq> (fr_file_id b, fr_pos b)"
proof -
  have "apart (h, s)" using assms(1-3) by (intro rnd.reach_inv [of "(\<lambda>_. idle, s0)"]) (simp_all add: rnd_start_def)
  then show ?thesis using assms(4-6) by (simp add: apart_def)
qed

text \<open>Two threads; the second draws the block of the first, and draws again.\<close>

definition example_rnd :: "unit file_state" where
  "example_rnd = example_file\<lparr>test_mode := MODE_RND_READ,
     te_rng := default_rnd\<lparr>lrand := (\<lambda>i. if i < 2 then 0 else 500000000)\<rparr>\<rparr>"

definition read_req :: "u32 \<Rightarrow> int \<Rightarrow> file_request" where
  "read_req f p = \<lparr>fr_file_id = f, fr_pos = p, fr_size = 16, fr_op = FILE_OP_TYPE_READ\<rparr>"

lemmas example_rnd_defs = example_rnd_def example_file_def test_env.extend_def example_env_def example_globals_def

lemma example_position:
  assumes "total_size s = 64" and "file_size s = 32" and "file_block_size s = 16"
  shows "rnd_position 0 s = Some (0, 0)" and "rnd_position 500000000 s = Some (0, 16)"
proof -
  have "\<lfloor>500000000 / 0x3fffffff * 64 :: real\<rfloor> = 29" by (simp add: floor_eq_iff)
  then show "rnd_position 500000000 s = Some (0, 16)" by (simp add: rnd_position_def SB_MAX_RND_def Let_def assms)
qed (simp add: rnd_position_def Let_def assms)

text \<open>A draw that finds a free block, and one that does not.\<close>

lemma rnd_block_hit:
  assumes "draw s = (k, s1)" and "rnd_position k s1 = Some b" and "\<not> block_in_use tid b (per_thread s1)"
  shows "rnd_block tid s = Some (b, s1)"
  using assms by (subst rnd_block.simps) simp

lemma rnd_block_miss:
  assumes "draw s = (k, s1)" and "rnd_position k s1 = Some b" and "validate (te_glob s1)" and "block_in_use tid b (per_thread s1)"
  shows "rnd_block tid s = rnd_block tid s1"
  using assms by (subst rnd_block.simps) simp

definition example_rng :: "nat \<Rightarrow> rnd_state" where
  "example_rng n = default_rnd\<lparr>lrand := (\<lambda>i. if i < 2 then 0 else 500000000), lpos := n\<rparr>"

definition example_rnd2 :: "unit file_state" where
  "example_rnd2 = example_rnd\<lparr>te_rng := example_rng 1, per_thread := (per_thread example_rnd)[0 := (per_thread example_rnd ! 0)\<lparr>pt_file_id := 0, pt_pos := 0\<rparr>],
     f_performed := 1\<rparr>"

lemma block_in_use_two:
  "block_in_use 0 b [x, y] \<longleftrightarrow> pt_file_id y = fst b \<and> pt_pos y = snd b"
  "block_in_use (Suc 0) b [x, y] \<longleftrightarrow> pt_file_id x = fst b \<and> pt_pos x = snd b"
  by (auto simp: block_in_use_def less_Suc_eq)

lemma example_draw: "te_rng s = example_rng n \<Longrightarrow> draw s = (if n < 2 then 0 else 500000000, s\<lparr>te_rng := example_rng (Suc n)\<rparr>)"
  by (simp add: draw_def sb_rnd_def example_rng_def SB_MAX_RND_def)

lemma example_rnd_fields:
  "total_size example_rnd = 64" "file_size example_rnd = 32" "file_block_size example_rnd = 16" "te_rng example_rnd = example_rng 0"
  "te_glob example_rnd = example_globals\<lparr>validate := True\<rparr>" "\<not> is_dirty example_rnd" "f_performed example_rnd = 0"
  "test_mode example_rnd = MODE_RND_READ"
  by (simp_all add: example_rnd_defs example_rng_def default_rnd_def)

lemma example_rnd_threads:
  "per_thread example_rnd = (let p = \<lparr>pt_buffer = Some (replicate 16 0), pt_file_id = 9, pt_pos = 0\<rparr> in [p, p])"
proof -
  have "replicate 2 x = [x, x]" for x :: per_thread_t by (simp add: numeral_2_eq_2)
  then show ?thesis by (simp add: example_rnd_defs Let_def)
qed

lemma example_fetch:
  "file_get_rnd_request 0 example_rnd = Some (file_req (read_req 0 0), example_rnd2)"
  "\<exists>s. file_get_rnd_request 1 example_rnd2 = Some (file_req (read_req 0 16), s)"
proof -
  note f = example_rnd_fields example_rnd_threads [unfolded Let_def]
  let ?s = "example_rnd\<lparr>te_rng := example_rng 1\<rparr>"
  have "\<not> all_performed example_rnd" by (simp add: all_performed_def f example_globals_def)
  moreover have "rnd_block 0 example_rnd = Some ((0, 0), ?s)"
    by (rule rnd_block_hit [of _ 0]) (simp_all add: example_draw [OF f(4)] example_position f block_in_use_two)
  ultimately show "file_get_rnd_request 0 example_rnd = Some (file_req (read_req 0 0), example_rnd2)"
    by (simp add: file_get_rnd_request_def fsync_due_def f Let_def read_req_def example_rnd2_def)
  let ?s1 = "example_rnd2\<lparr>te_rng := example_rng (Suc (Suc 0))\<rparr>" and ?s2 = "example_rnd2\<lparr>te_rng := example_rng (Suc (Suc (Suc 0)))\<rparr>"
  have p: "total_size example_rnd2 = 64" "file_size example_rnd2 = 32" "file_block_size example_rnd2 = 16"
    "te_rng example_rnd2 = example_rng 1" "validate (te_glob example_rnd2)" "\<not> fsync_due example_rnd2" "test_mode example_rnd2 = MODE_RND_READ"
    by (simp_all add: example_rnd2_def f fsync_due_def)
  have q: "per_thread example_rnd2 = [\<lparr>pt_buffer = Some (replicate 16 0), pt_file_id = 0, pt_pos = 0\<rparr>,
      \<lparr>pt_buffer = Some (replicate 16 0), pt_file_id = 9, pt_pos = 0\<rparr>]"
    by (simp add: example_rnd2_def f)
  have "rnd_block 1 example_rnd2 = rnd_block 1 ?s1"
    by (rule rnd_block_miss [of _ 0 _ "(0, 0)"]) (simp_all add: example_draw [OF p(4)] example_position p block_in_use_two q)
  moreover have "rnd_block 1 ?s1 = Some ((0, 16), ?s2)"
    by (rule rnd_block_hit [of _ 500000000]) (simp_all add: example_draw example_position p block_in_use_two q)
  moreover have "\<not> all_performed example_rnd2" by (simp add: all_performed_def f example_rnd2_def example_globals_def word_le_nat_alt)
  ultimately show "\<exists>s. file_get_rnd_request 1 example_rnd2 = Some (file_req (read_req 0 16), s)"
    by (simp add: file_get_rnd_request_def p q Let_def read_req_def)
qed

theorem rnd_request_in_file_witness:
  "\<exists>s. file_get_rnd_request 1 example_rnd2 = Some (file_req (read_req 0 16), s) \<and>
     unat (fr_file_id (read_req 0 16)) < 2 \<and> fr_pos (read_req 0 16) + fr_size (read_req 0 16) \<le> 32"
proof -
  obtain s where s: "file_get_rnd_request 1 example_rnd2 = Some (file_req (read_req 0 16), s)" using example_fetch(2) by blast
  have d: "data_op (file_req (read_req 0 16)) = Some (read_req 0 16)" by (simp add: data_op_def read_req_def)
  have z: "total_size example_rnd2 = 64" "file_size example_rnd2 = 32" "file_block_size example_rnd2 = 16" "num_files example_rnd2 = 2"
    by (simp_all add: example_rnd2_def example_rnd_defs)
  from rnd_request_in_file [OF s d] s show ?thesis by (intro exI [of _ s]) (simp add: z)
qed

theorem rnd_threads_apart_witness:
  "\<forall>E. \<exists>h s. (rnd_step E)\<^sup>*\<^sup>* (\<lambda>_. idle, example_rnd) (h, s) \<and> outstanding (h 0) = {read_req 0 0} \<and> outstanding (h 1) = {read_req 0 16} \<and>
     (fr_file_id (read_req 0 0), fr_pos (read_req 0 0)) \<noteq> (fr_file_id (read_req 0 16), fr_pos (read_req 0 16))"
proof
  fix E :: "unit file_env"
  have d: "data_op (file_req (read_req f p)) = Some (read_req f p)" for f p by (simp add: data_op_def read_req_def)
  obtain s where s: "file_get_rnd_request 1 example_rnd2 = Some (file_req (read_req 0 16), s)" using example_fetch(2) by blast
  let ?t = "\<lambda>f p. idle\<lparr>current := Some (file_req (read_req f p))\<rparr>"
  let ?h1 = "(\<lambda>_ :: nat. idle)(0 := ?t 0 0)"
  let ?h = "?h1(1 := ?t 0 16)"
  have "rnd_step E (\<lambda>_. idle, example_rnd) (?h1, example_rnd2)"
    using rnd_step.fetch [OF _ example_fetch(1), of "\<lambda>_. idle" E] by (simp add: idle_def)
  moreover have "rnd_step E (?h1, example_rnd2) (?h, s)"
    using rnd_step.fetch [OF _ s, of ?h1 E] by (simp add: idle_def)
  ultimately have r: "(rnd_step E)\<^sup>*\<^sup>* (\<lambda>_. idle, example_rnd) (?h, s)" by (meson r_into_rtranclp rtranclp_trans)
  have o: "outstanding (?h 0) = {read_req 0 0}" "outstanding (?h 1) = {read_req 0 16}" by (simp_all add: outstanding_def d idle_def)
  have m: "file_io_mode example_rnd \<noteq> FILE_IO_MODE_ASYNC" by (simp add: example_rnd_defs)
  have "(fr_file_id (read_req 0 0), fr_pos (read_req 0 0)) \<noteq> (fr_file_id (read_req 0 16), fr_pos (read_req 0 16))"
    using rnd_threads_apart [OF _ m r, of "read_req 0 0" 0 "read_req 0 16" 1] unfolding o by (simp add: example_rnd_fields)
  with r o show "\<exists>h s. (rnd_step E)\<^sup>*\<^sup>* (\<lambda>_. idle, example_rnd) (h, s) \<and> outstanding (h 0) = {read_req 0 0} \<and> outstanding (h 1) = {read_req 0 16} \<and>
      (fr_file_id (read_req 0 0), fr_pos (read_req 0 0)) \<noteq> (fr_file_id (read_req 0 16), fr_pos (read_req 0 16))"
    by - (rule exI [of _ ?h], rule exI [of _ s], simp only: simp_thms)
qed

text \<open>When the sizes do not divide, the last blocks lie in a file that does not exist, and the check of
  \<open>file_execute_request\<close> lets the first such number pass.\<close>

theorem rnd_file_past_end: "\<exists>s :: unit file_state. num_files s = 3 \<and> total_size s = 10 \<and> file_size s = total_size s div 3 \<and>
    file_block_size s = 1 \<and> rnd_position 0x3ffffffe s = Some (3, 0)"
proof -
  let ?s = "example_file\<lparr>num_files := 3, total_size := 10, file_size := 3, file_block_size := 1\<rparr>"
  have "\<lfloor>0x3ffffffe / 0x3fffffff * 10 :: real\<rfloor> = 9" by (simp add: floor_eq_iff)
  then have "rnd_position 0x3ffffffe ?s = Some (3, 0)" by (simp add: rnd_position_def SB_MAX_RND_def Let_def)
  then show ?thesis by (intro exI [of _ ?s]) simp
qed

theorem file_id_check_off_by_one:
  assumes "fr_file_id r = num_files s" and "fr_pos r + fr_size r \<le> file_size s" and "length (fds s) = unat (num_files s)"
    and "\<not> debug (te_glob s)"
  shows "file_execute_request E (file_req r) tid s = None"
  using assms by (simp add: file_execute_request_def)

end
