(* ===== verification/File_Data.thy ===== *)
theory File_Data
  imports File_Rnd
begin

text \<open>
  The blocks of the validating file test: a block that was filled passes the check, a damaged or misplaced one does not;
  and the mode \<open>seqwr\<close>, whose files cannot be opened.
\<close>

unbundle bit_operations_syntax

section \<open>Integers in memory\<close>

lemma bytes_of_Suc: "bytes_of (Suc n) w = ucast w # bytes_of n (drop_bit 8 w)"
  unfolding bytes_of_def upt_conv_Cons [OF zero_less_Suc] map_Suc_upt [symmetric]
  by (simp add: comp_def drop_bit_drop_bit add.commute)

lemma bytes_of_length [simp]: "length (bytes_of n w) = n" "length (store_word little n w) = n"
  by (simp_all add: bytes_of_def store_word_def)

lemma ucast_low_byte: "ucast (ucast w :: u8) = (take_bit 8 w :: 'a::len word)"
  by (rule bit_word_eqI) (auto simp: bit_take_bit_iff bit_ucast_iff)

lemma load_bytes: "load_word True (bytes_of n w) = take_bit (8 * n) w"
proof (induction n arbitrary: w)
  case 0
  show ?case by (simp add: load_word_def bytes_of_def)
next
  case (Suc n)
  have "load_word True (bytes_of (Suc n) w) = take_bit 8 w OR push_bit 8 (load_word True (bytes_of n (drop_bit 8 w)))"
    by (simp add: bytes_of_Suc load_word_def ucast_low_byte)
  also have "\<dots> = take_bit (8 * Suc n) w"
    unfolding Suc.IH by (rule bit_word_eqI) (auto simp: bit_simps)
  finally show ?case .
qed

lemma load_store:
  "load_word little (store_word little 4 (w :: u32)) = w" "load_word little (store_word little 8 (v :: u64)) = v"
proof -
  have *: "load_word little (store_word little n x) = take_bit (8 * n) x" for n and x :: "'a::len word"
    using load_bytes [of n x] by (simp add: load_word_def store_word_def)
  show "load_word little (store_word little 4 w) = w" "load_word little (store_word little 8 v) = v"
    unfolding * by (simp_all add: take_bit_word_eq_self)
qed

section \<open>Blocks\<close>

lemma block_checksum_ref: "block_checksum E tid bs = crc_ref 0 bs"
proof -
  have "ucast (ucast w :: u64) = w" for w :: u32 by (rule bit_word_eqI) (auto simp: bit_simps)
  then show ?thesis by (simp add: block_checksum_def crc32_value)
qed

lemma draw_bytes_length: "draw_bytes n s = (bs, t) \<Longrightarrow> length bs = n"
  by (induction n arbitrary: s bs t) (auto simp: Let_def split: prod.splits)

lemma fill_layout:
  assumes "file_fill_buffer E tid buf len offset s = Some (b, s1)"
  obtains bs where "length bs = unat len - 12" "12 \<le> unat len" "unat len \<le> length buf"
    "b = bs @ store_word (fe_little E) 4 (crc_ref 0 bs) @ store_word (fe_little E) 8 offset @ drop (unat len) buf"
  using assms that
  by (auto simp: file_fill_buffer_def Let_def block_checksum_ref dest: draw_bytes_length split: if_splits prod.splits)

text \<open>The check on a block of data, checksum and offset.\<close>

lemma validate_layout:
  assumes "length bs = unat len - 12" and "12 \<le> unat len"
  shows "file_validate_buffer E tid (bs @ store_word (fe_little E) 4 c @ store_word (fe_little E) 8 o' @ rest) len offset t =
    (if crc_ref 0 bs \<noteq> c
     then do { t \<leftarrow> say LOG_FATAL ''Checksum mismatch in block: '' t;
               t \<leftarrow> say LOG_FATAL (''    Calculated value: 0x'' @ show_hex (unat (crc_ref 0 bs))
                                     @ ''    Stored value: 0x'' @ show_hex (unat c)) t;
               Some (1, t) }
     else if offset \<noteq> o'
     then do { t \<leftarrow> say LOG_FATAL ''Offset mismatch in block:'' t;
               t \<leftarrow> say LOG_FATAL (''   Actual offset: '' @ show_int (sint offset) @ ''    Stored offset: '' @ show_int (sint o')) t;
               Some (1, t) }
     else Some (0, t))"
  unfolding file_validate_buffer_def using assms
  by (simp add: Let_def block_checksum_ref load_store drop_append take_append)

lemma two_messages:
  assumes "env_ok n t"
  shows "\<exists>t'. do { t \<leftarrow> say LOG_FATAL x t; t \<leftarrow> say LOG_FATAL y t; Some (1 :: int, t) } = Some (1, t')"
proof -
  obtain L where L: "say LOG_FATAL x t = Some (t\<lparr>te_lgr := L\<rparr>)" "env_ok n (t\<lparr>te_lgr := L\<rparr>)" using env_ok_say [OF assms] .
  obtain L' where "say LOG_FATAL y (t\<lparr>te_lgr := L\<rparr>) = Some (t\<lparr>te_lgr := L\<rparr>\<lparr>te_lgr := L'\<rparr>)" using env_ok_say [OF L(2)] .
  then show ?thesis using L(1) by simp
qed

text \<open>C16: A block that \<open>file_fill_buffer\<close> filled for an offset passes \<open>file_validate_buffer\<close>, whichever thread reads it and
  wherever its buffer lies in memory. A block in which up to four consecutive bytes of the data were changed, one in
  which the stored checksum was changed, and one that is read from another offset are reported with result 1.\<close>

theorem block_validation:
  assumes "file_fill_buffer E tid buf len offset s = Some (b, s1)" and "env_ok n t"
  shows "file_validate_buffer E tid' b len offset t = Some (0, t) \<and>
    (\<forall>pre d d' post. take (unat len - 12) b = pre @ d @ post \<longrightarrow> length d' = length d \<longrightarrow> length d \<le> 4 \<longrightarrow> d' \<noteq> d \<longrightarrow>
       (\<exists>t'. file_validate_buffer E tid' (pre @ d' @ post @ drop (unat len - 12) b) len offset t = Some (1, t'))) \<and>
    (\<forall>c. c \<noteq> crc_ref 0 (take (unat len - 12) b) \<longrightarrow>
       (\<exists>t'. file_validate_buffer E tid' (take (unat len - 12) b @ store_word (fe_little E) 4 c @ drop (unat len - 8) b) len offset t
          = Some (1, t'))) \<and>
    (\<forall>offset'. offset' \<noteq> offset \<longrightarrow> (\<exists>t'. file_validate_buffer E tid' b len offset' t = Some (1, t')))"
proof -
  obtain bs where bs: "length bs = unat len - 12" "12 \<le> unat len" "unat len \<le> length buf"
    and b: "b = bs @ store_word (fe_little E) 4 (crc_ref 0 bs) @ store_word (fe_little E) 8 offset @ drop (unat len) buf"
    using fill_layout [OF assms(1)] .
  note v = validate_layout [OF _ bs(2)] and m = two_messages [OF assms(2)]
  have cut: "take (unat len - 12) b = bs" "drop (unat len - 12) b = store_word (fe_little E) 4 (crc_ref 0 bs) @
      store_word (fe_little E) 8 offset @ drop (unat len) buf"
      "drop (unat len - 8) b = store_word (fe_little E) 8 offset @ drop (unat len) buf"
    unfolding b using bs by (simp_all add: drop_append)
  show ?thesis
  proof (intro conjI allI impI)
    show "file_validate_buffer E tid' b len offset t = Some (0, t)" unfolding b v [OF bs(1)] by simp
  next
    fix pre d d' post assume c: "take (unat len - 12) b = pre @ d @ post" "length d' = length d" "length d \<le> 4" "d' \<noteq> d"
    have l: "length (pre @ d' @ post) = unat len - 12" using c(1,2) bs(1) cut(1) by simp
    have "crc_ref 0 (pre @ d' @ post) \<noteq> crc_ref 0 bs"
      using burst_detected [of d' d 0 pre post] c cut(1) by simp
    then show "\<exists>t'. file_validate_buffer E tid' (pre @ d' @ post @ drop (unat len - 12) b) len offset t = Some (1, t')"
      using v [OF l, of E tid' "crc_ref 0 bs" offset "drop (unat len) buf" offset t] m unfolding cut(2) by simp
  next
    fix c assume "c \<noteq> crc_ref 0 (take (unat len - 12) b)"
    then show "\<exists>t'. file_validate_buffer E tid' (take (unat len - 12) b @ store_word (fe_little E) 4 c @ drop (unat len - 8) b) len offset t
        = Some (1, t')"
      unfolding cut v [OF bs(1)] using m by auto
  next
    fix offset' assume "offset' \<noteq> offset"
    then show "\<exists>t'. file_validate_buffer E tid' b len offset' t = Some (1, t')"
      unfolding b v [OF bs(1)] using m by auto
  qed
qed

text \<open>An operating system without files, for the instance.\<close>

definition no_files :: "'w file_sys" where
  "no_files = \<lparr>os_open = (\<lambda>_ _ _ w. (-1, w)), os_unlink = (\<lambda>_ w. w), os_close = (\<lambda>_ w. w), os_seek_end = (\<lambda>_ w. (-1, w)),
     os_write = (\<lambda>_ _ w. (-1, w)), os_pread = (\<lambda>_ _ _ w. ((-1, []), w)), os_pwrite = (\<lambda>_ _ _ w. (-1, w)),
     os_fsync = (\<lambda>_ w. (-1, w)), os_fdatasync = (\<lambda>_ w. (-1, w)), os_ftruncate = (\<lambda>_ _ w. (-1, w)),
     os_mmap = (\<lambda>_ _ w. (None, w)), os_munmap = (\<lambda>_ w. w), os_mread = (\<lambda>_ _ n _. replicate n 0), os_mwrite = (\<lambda>_ _ _ w. w),
     os_msync = (\<lambda>_ w. (-1, w)), os_io_queue_init = (\<lambda>_ _ w. (-1, w)), os_io_queue_release = (\<lambda>_ w. w),
     os_io_submit = (\<lambda>_ _ b w. (-1, b, w)), os_io_getevents = (\<lambda>_ _ _ b w. (-1, [], b, w)),
     os_errno = (\<lambda>_. (2, ''No such file or directory''))\<rparr>"

definition example_fenv :: "'w file_env" where
  "example_fenv = \<lparr>fe_os = no_files, fe_little = True, fe_addr = (\<lambda>i. 16 * i + 4), fe_memalign = (\<lambda>_ n. Some (replicate n 0)),
     fe_junk = (\<lambda>_. (0, 0)), fe_malloc = True, fe_scan = (\<lambda>_. None),
     fe_show_g = (\<lambda>_. [])\<rparr>"

theorem block_validation_witness:
  "\<exists>b s t. file_fill_buffer example_fenv 0 (replicate 16 0) 16 48 example_file = Some (b, s) \<and>
     file_validate_buffer example_fenv 1 b 16 48 example_file = Some (0, example_file) \<and>
     file_validate_buffer example_fenv 1 b 16 64 example_file = Some (1, t)"
proof -
  have "\<exists>b s. file_fill_buffer example_fenv 0 (replicate 16 0) 16 48 example_file = Some (b, s)"
    by (simp add: file_fill_buffer_def Let_def split: prod.split)
  then obtain b s where f: "file_fill_buffer example_fenv 0 (replicate 16 0) 16 48 example_file = Some (b, s)" by blast
  have "env_ok 2 (test_env.extend (example_env\<lparr>te_glob := g\<rparr>) x)" for g x
    using example_env_ok [of x] by (simp add: env_ok_def test_env.extend_def)
  then have "env_ok 2 example_file" unfolding example_file_def .
  note v = block_validation [OF f this, of 1]
  have "\<exists>t. file_validate_buffer example_fenv 1 b 16 64 example_file = Some (1, t)" using v by simp
  with v f show ?thesis by blast
qed

section \<open>Modes that cannot work\<close>

text \<open>A merged request that reads several blocks is checked as one block. Its last block holds its own offset, so the check
  of what \<open>create_files\<close> wrote fails.\<close>

theorem merged_read_fails:
  assumes "file_fill_buffer E tid buf len offset s = Some (b, s1)" and "length b = unat len" and "offset' \<noteq> offset"
    and "unat (len' :: u32) = length x + unat len" and "env_ok n t"
  shows "\<exists>t'. file_validate_buffer E tid' (x @ b) len' offset' t = Some (1, t')"
proof -
  obtain bs where bs: "length bs = unat len - 12" "12 \<le> unat len"
    and b: "b = bs @ store_word (fe_little E) 4 (crc_ref 0 bs) @ store_word (fe_little E) 8 offset @ drop (unat len) buf"
    using fill_layout [OF assms(1)] .
  have "length (x @ bs) = unat len' - 12" "12 \<le> unat len'" using bs assms(4) by simp_all
  from validate_layout [OF this, of E tid' "crc_ref 0 bs" offset "drop (unat len) buf" offset' t] show ?thesis
    unfolding b using assms(3) two_messages [OF assms(5)] by (auto simp del: append_assoc simp: append_assoc [symmetric])
qed

text \<open>The mode \<open>seqwr\<close> removes each file and opens it without \<open>O_CREAT\<close>: \<open>file_prepare\<close> fails, if a removed file is not there and
  a file that is not there cannot be opened without \<open>O_CREAT\<close>.\<close>

theorem seqwr_cannot_open:
  assumes gone: "\<And>name w. \<not> there name (os_unlink (fe_os E) name w)"
    and needs: "\<And>name fl w. \<not> there name w \<Longrightarrow> fst (os_open (fe_os E) name False fl w) < 0"
    and "test_mode s = MODE_WRITE" and "num_files s \<noteq> 0"
  shows "file_prepare E s = Some (rc, s') \<Longrightarrow> rc = 1"
proof -
  assume p: "file_prepare E s = Some (rc, s')"
  obtain k where k: "unat (num_files s) = Suc k" using assms(4) by (cases "unat (num_files s)") (simp_all add: unat_eq_zero)
  have u: "[0..<unat (num_files s)] = 0 # [1..<unat (num_files s)]" unfolding k by (simp add: upt_conv_Cons)
  have "fst (os_open (fe_os E) (file_name 0) False fl (os_unlink (fe_os E) (file_name 0) w)) < 0" for fl w
    by (rule needs [OF gone])
  then show "rc = 1"
    using p assms(3) unfolding file_prepare_def u
    by (auto simp: sb_open_def Let_def fail_errno_def say_def split: bind_splits prod.splits if_splits) (metis fst_conv not_less)+
qed

end
