(* ===== verification/DB_Driver.thy ===== *)
theory DB_Driver
  imports Options DB_Stats
begin

text \<open>
  The database abstraction layer of \<open>sysbench/db_driver.c\<close> and \<open>db_driver.h\<close>: choice of the driver,
  connections, statements, result sets, printing of bound values and multi-row inserts. A driver is
  a record of functions over the driver's own world \<^typ>\<open>'w\<close> (client library and server); the handles
  \<open>ptr\<close> it stores in the structures are numbers. A NULL pointer is \<^const>\<open>None\<close> of the argument's
  type. An operation with undefined behaviour (write past a buffer, use of a freed row, thread index out
  of bounds) has no result. Texts given to \<open>log_text\<close> are not part of the model.
\<close>

section \<open>Data\<close>

datatype db_ps_mode = DB_PS_MODE_AUTO | DB_PS_MODE_DISABLE

record db_globals =
  ps_mode :: db_ps_mode
  g_driver :: "string option"
  g_debug :: bool

record drv_caps =
  multi_rows_insert :: bool
  prepared_statements :: bool
  auto_increment :: bool
  needs_commit :: bool
  caps_serial :: bool
  unsigned_int :: bool

datatype db_error =
  SB_DB_ERROR_NONE | SB_DB_ERROR_RESTART_TRANSACTION | SB_DB_ERROR_RECONNECTED | SB_DB_ERROR_FAILED

datatype db_bind_type =
  DB_TYPE_NONE | DB_TYPE_TINYINT | DB_TYPE_SMALLINT | DB_TYPE_INT | DB_TYPE_BIGINT | DB_TYPE_FLOAT
| DB_TYPE_DOUBLE | DB_TYPE_TIME | DB_TYPE_DATE | DB_TYPE_DATETIME | DB_TYPE_TIMESTAMP | DB_TYPE_CHAR
| DB_TYPE_VARCHAR

record db_time =
  year :: u32
  month :: u32
  day :: u32
  hour :: u32
  minute :: u32
  second :: u32

text \<open>What a bound buffer points to, by the C type of the object in it.\<close>

datatype bind_data =
  CharData int | ShortData int | IntData int | LongLongData int | FloatData real | DoubleData real
| StringData string | TimeData db_time

record db_bind =
  b_type :: db_bind_type
  b_buffer :: bind_data
  b_data_len :: "u64 option"
  b_max_len :: u64
  b_is_null :: "bool option"

record db_stmt =
  st_query :: "string option"
  bound_param :: "db_bind list option"
  emulated :: bool
  st_type :: db_query_type
  st_ptr :: "nat option"

text \<open>The row of a result set: no row, an allocated row, or a pointer to a row that was freed.\<close>

datatype row_ptr = RowNull | RowLive | RowFreed

record db_result_set =
  rs_connection :: "nat option option"
  rs_statement :: "db_stmt option"
  rs_row :: row_ptr
  rs_ptr :: "nat option"
  nrows :: u64

definition zero_rs :: db_result_set where
  "zero_rs = \<lparr>rs_connection = None, rs_statement = None, rs_row = RowNull, rs_ptr = None, nrows = 0\<rparr>"

record 'w drv_ops =
  op_init :: "'w \<Rightarrow> int \<times> 'w"
  op_describe :: "('w \<Rightarrow> int \<times> drv_caps \<times> 'w) option"
  op_connect :: "'w \<Rightarrow> int \<times> nat option \<times> 'w"
  op_disconnect :: "nat option \<Rightarrow> 'w \<Rightarrow> int \<times> 'w"
  op_prepare :: "nat option \<Rightarrow> db_stmt \<Rightarrow> string \<Rightarrow> 'w \<Rightarrow> int \<times> db_stmt \<times> 'w"
  op_bind_param :: "nat option \<Rightarrow> db_stmt \<Rightarrow> db_bind list \<Rightarrow> 'w \<Rightarrow> int \<times> db_stmt \<times> 'w"
  op_bind_result :: "nat option \<Rightarrow> db_stmt \<Rightarrow> db_bind list \<Rightarrow> 'w \<Rightarrow> int \<times> db_stmt \<times> 'w"
  op_execute :: "nat option \<Rightarrow> db_stmt \<Rightarrow> db_result_set \<Rightarrow> 'w \<Rightarrow> db_error \<times> db_result_set \<times> 'w"
  op_fetch_row :: "db_result_set \<Rightarrow> 'w \<Rightarrow> int \<times> 'w"
  op_num_rows :: "db_result_set \<Rightarrow> 'w \<Rightarrow> u64"
  op_free_results :: "db_result_set \<Rightarrow> 'w \<Rightarrow> int \<times> db_result_set \<times> 'w"
  op_close :: "nat option \<Rightarrow> db_stmt \<Rightarrow> 'w \<Rightarrow> int \<times> 'w"
  op_query :: "nat option \<Rightarrow> string \<Rightarrow> db_result_set \<Rightarrow> 'w \<Rightarrow> db_error \<times> db_result_set \<times> 'w"
  op_store_results :: "db_result_set \<Rightarrow> 'w \<Rightarrow> db_error \<times> db_result_set \<times> 'w"
  op_done :: "'w \<Rightarrow> int \<times> 'w"

record 'w db_driver =
  sname :: string
  lname :: string
  drv_args :: "sb_arg list option"
  ops :: "'w drv_ops"

record 'w db_conn =
  driver :: "'w db_driver option"
  c_ptr :: "nat option"
  db_errno :: db_error
  bulk_supported :: bool
  bulk_cnt :: u32
  bulk_buffer :: "string option"
  bulk_buflen :: u32
  bulk_ptr :: u32
  bulk_ptr_orig :: u32
  bulk_commit_cnt :: u32
  bulk_commit_max :: u32
  thread_id :: int
  rs :: db_result_set

record 'w db_sys =
  world :: 'w
  stats :: db_stats

section \<open>Choice of the driver\<close>

definition db_args :: "sb_arg list" where
  "db_args =
     [\<lparr>arg_name = ''db-driver'',
       arg_desc = ''specifies database driver to use ('help' to get list of available drivers)'',
       arg_type = SB_ARG_TYPE_STRING, arg_value = None\<rparr>,
      \<lparr>arg_name = ''db-ps-mode'', arg_desc = ''prepared statements usage mode {auto, disable}'',
       arg_type = SB_ARG_TYPE_STRING, arg_value = Some ''auto''\<rparr>,
      \<lparr>arg_name = ''db-debug'', arg_desc = ''print database-specific debug information'',
       arg_type = SB_ARG_TYPE_FLAG, arg_value = Some ''off''\<rparr>]"

text \<open>\<open>db_register\<close>: the options of every driver, then those of the layer; errors are ignored.\<close>

definition db_register :: "files \<Rightarrow> 'w db_driver list \<Rightarrow> options \<Rightarrow> options" where
  "db_register fs drivers opts =
     (let opts = fold (\<lambda>drv opts. case drv_args drv of
                         None \<Rightarrow> opts | Some args \<Rightarrow> snd (sb_register_arg_set fs opts args)) drivers opts
      in snd (sb_register_arg_set fs opts db_args))"

text \<open>\<^const>\<open>None\<close>: \<open>strcmp\<close> of a NULL pointer; \<open>Inl\<close>: an invalid value.\<close>

definition db_parse_arguments :: "options \<Rightarrow> (int + db_globals) option" where
  "db_parse_arguments opts =
     (case sb_get_value_string opts ''db-ps-mode'' of
        None \<Rightarrow> None
      | Some s \<Rightarrow>
          (let rest = (\<lambda>mode. Inr \<lparr>ps_mode = mode, g_driver = sb_get_value_string opts ''db-driver'',
                                    g_debug = sb_get_value_flag opts ''db-debug''\<rparr>)
           in if s = ''auto'' then Some (rest DB_PS_MODE_AUTO)
              else if s = ''disable'' then Some (rest DB_PS_MODE_DISABLE)
              else Some (Inl 1)))"

text \<open>The search loop of \<open>db_init\<close>; \<open>drv\<close> is the variable the loop assigns.\<close>

fun find_driver :: "string \<Rightarrow> 'w db_driver option \<Rightarrow> 'w db_driver list \<Rightarrow> 'w db_driver option" where
  "find_driver name drv [] = drv"
| "find_driver name drv (d # ds) = (if sname d = name then Some d else find_driver name (Some d) ds)"

definition select_driver :: "string option \<Rightarrow> db_globals \<Rightarrow> 'w db_driver list \<Rightarrow> 'w db_driver option" where
  "select_driver name g drivers =
     (case (name, g_driver g) of
        (None, None) \<Rightarrow> (case drivers of [d] \<Rightarrow> Some d | _ \<Rightarrow> None)
      | (None, Some n) \<Rightarrow> find_driver n None drivers
      | (Some n, _) \<Rightarrow> find_driver n None drivers)"

text \<open>
  \<open>db_init\<close>. \<open>alloc\<close> tells whether the allocations succeed, \<open>mem\<close> and \<open>timers\<close> are the contents of the
  fresh memory, \<open>now\<close> the time of the reading of the clock. \<open>Inl\<close> is the result NULL.
\<close>

definition db_init ::
  "bool \<Rightarrow> db_thread_stat list \<Rightarrow> sb_timer list \<Rightarrow> timespec \<Rightarrow> options \<Rightarrow> 'w db_driver list \<Rightarrow>
   string option \<Rightarrow> 'w db_sys \<Rightarrow> ((unit + 'w db_driver \<times> db_globals) \<times> 'w db_sys) option" where
  "db_init alloc mem timers now opts drivers name s =
     (if drivers = [] then Some (Inl (), s)
      else case db_parse_arguments opts of
        None \<Rightarrow> None
      | Some (Inl _) \<Rightarrow> Some (Inl (), s)
      | Some (Inr g) \<Rightarrow>
          (case select_driver name g drivers of
             None \<Rightarrow> Some (Inl (), s)
           | Some drv \<Rightarrow>
               (let (rc, w) = op_init (ops drv) (world s); s = s\<lparr>world := w\<rparr> in
                if rc \<noteq> 0 \<or> \<not> alloc then Some (Inl (), s)
                else let st = (stats s)\<lparr>thread_stats := mem, db_debug := g_debug g\<rparr>;
                         st = (if g_debug g then st\<lparr>exec_timers := timers, fetch_timers := timers\<rparr> else st)
                     in case db_reset_stats now st of
                          None \<Rightarrow> None
                        | Some (st', _) \<Rightarrow>
                            (case sb_percentile_init alloc 100000 1 (10 ^ 13) of
                               Inl _ \<Rightarrow> Some (Inl (), s\<lparr>stats := st'\<rparr>)
                             | Inr p \<Rightarrow> Some (Inr (drv, g), s\<lparr>stats := st'\<lparr>local_percentile := p\<rparr>\<rparr>)))))"

section \<open>Connections and statements\<close>

definition db_describe :: "'w db_driver \<Rightarrow> 'w db_sys \<Rightarrow> int \<times> drv_caps option \<times> 'w db_sys" where
  "db_describe drv s =
     (case op_describe (ops drv) of
        None \<Rightarrow> (1, None, s)
      | Some f \<Rightarrow> (let (rc, caps, w) = f (world s) in (rc, Some caps, s\<lparr>world := w\<rparr>)))"

definition zero_conn :: "'w db_conn" where
  "zero_conn = \<lparr>driver = None, c_ptr = None, db_errno = SB_DB_ERROR_NONE, bulk_supported = False,
     bulk_cnt = 0, bulk_buffer = None, bulk_buflen = 0, bulk_ptr = 0, bulk_ptr_orig = 0,
     bulk_commit_cnt = 0, bulk_commit_max = 0, thread_id = 0, rs = zero_rs\<rparr>"

definition db_connect :: "bool \<Rightarrow> 'w db_driver \<Rightarrow> 'w db_sys \<Rightarrow> 'w db_conn option \<times> 'w db_sys" where
  "db_connect alloc drv s =
     (if \<not> alloc then (None, s)
      else let (rc, p, w) = op_connect (ops drv) (world s); s = s\<lparr>world := w\<rparr> in
        if rc \<noteq> 0 then (None, s) else (Some (zero_conn\<lparr>driver := Some drv, c_ptr := p\<rparr>), s))"

definition db_set_thread :: "'w db_conn \<Rightarrow> int \<Rightarrow> 'w db_conn" where
  "db_set_thread con tid = con\<lparr>thread_id := tid\<rparr>"

definition db_disconnect :: "'w db_conn \<Rightarrow> 'w db_sys \<Rightarrow> int \<times> 'w db_sys" where
  "db_disconnect con s =
     (case driver con of
        None \<Rightarrow> (1, s)
      | Some drv \<Rightarrow> (let (rc, w) = op_disconnect (ops drv) (c_ptr con) (world s) in (rc, s\<lparr>world := w\<rparr>)))"

definition zero_stmt :: db_stmt where
  "zero_stmt = \<lparr>st_query = None, bound_param = None, emulated = False, st_type = DB_QUERY_TYPE_READ,
                st_ptr = None\<rparr>"

text \<open>A connection whose driver is NULL would be dereferenced here.\<close>

definition db_prepare ::
  "bool \<Rightarrow> 'w db_conn \<Rightarrow> string \<Rightarrow> 'w db_sys \<Rightarrow> (db_stmt option \<times> 'w db_sys) option" where
  "db_prepare alloc con query s =
     (if \<not> alloc then Some (None, s)
      else case driver con of
        None \<Rightarrow> None
      | Some drv \<Rightarrow>
          (let (rc, stmt, w) = op_prepare (ops drv) (c_ptr con) zero_stmt query (world s);
               s = s\<lparr>world := w\<rparr>
           in if rc \<noteq> 0 then Some (None, s)
              else Some (Some (stmt\<lparr>st_type := db_get_query_type query\<rparr>), s)))"

text \<open>The driver of a statement's or result set's connection, when both pointers are not NULL.\<close>

definition con_driver :: "'w db_conn option \<Rightarrow> 'w db_driver option" where
  "con_driver con = (case con of None \<Rightarrow> None | Some c \<Rightarrow> driver c)"

definition db_bind_param ::
  "'w db_conn option \<Rightarrow> db_stmt \<Rightarrow> db_bind list \<Rightarrow> 'w db_sys \<Rightarrow> int \<times> db_stmt \<times> 'w db_sys" where
  "db_bind_param con stmt params s =
     (case con_driver con of
        None \<Rightarrow> (1, stmt, s)
      | Some drv \<Rightarrow>
          (let (rc, stmt', w) = op_bind_param (ops drv) (Option.bind con c_ptr) stmt params (world s) in (rc, stmt', s\<lparr>world := w\<rparr>)))"

definition db_bind_result ::
  "'w db_conn option \<Rightarrow> db_stmt \<Rightarrow> db_bind list \<Rightarrow> 'w db_sys \<Rightarrow> int \<times> db_stmt \<times> 'w db_sys" where
  "db_bind_result con stmt results s =
     (case con_driver con of
        None \<Rightarrow> (1, stmt, s)
      | Some drv \<Rightarrow>
          (let (rc, stmt', w) = op_bind_result (ops drv) (Option.bind con c_ptr) stmt results (world s) in (rc, stmt', s\<lparr>world := w\<rparr>)))"

section \<open>Queries\<close>

text \<open>What \<open>db_execute\<close> and \<open>db_query\<close> do with the driver's result: counters, and the error that the
  caller sees.\<close>

definition account_result ::
  "db_error \<Rightarrow> db_query_type \<Rightarrow> 'w db_conn \<Rightarrow> 'w db_sys \<Rightarrow> (bool \<times> 'w db_conn \<times> 'w db_sys) option" where
  "account_result err type con s =
     (let con = con\<lparr>db_errno := err\<rparr>;
          count = (\<lambda>f r con'. case upd_thread_stat (thread_id con) f (stats s) of
                       None \<Rightarrow> None | Some st \<Rightarrow> Some (r, con', s\<lparr>stats := st\<rparr>))
      in case err of
           SB_DB_ERROR_NONE \<Rightarrow>
             (case db_update_thread_stats (thread_id con) type (stats s) of
                None \<Rightarrow> None | Some st \<Rightarrow> Some (True, con, s\<lparr>stats := st\<rparr>))
         | SB_DB_ERROR_RECONNECTED \<Rightarrow>
             count (\<lambda>t. t\<lparr>reconnects := reconnects t + 1\<rparr>) False
               (con\<lparr>db_errno := SB_DB_ERROR_RESTART_TRANSACTION\<rparr>)
         | SB_DB_ERROR_RESTART_TRANSACTION \<Rightarrow>
             count (\<lambda>t. t\<lparr>db_errors := db_errors t + 1\<rparr>) False con
         | SB_DB_ERROR_FAILED \<Rightarrow> Some (False, con, s))"

text \<open>\<open>True\<close> stands for the address of the connection's result set, \<open>False\<close> for NULL.\<close>

definition db_query ::
  "'w db_conn \<Rightarrow> string \<Rightarrow> 'w db_sys \<Rightarrow> (bool \<times> 'w db_conn \<times> 'w db_sys) option" where
  "db_query con query s =
     (case driver con of
        None \<Rightarrow> Some (False, con, s)
      | Some drv \<Rightarrow>
          (let (err, r, w) = op_query (ops drv) (c_ptr con) query (zero_rs\<lparr>rs_connection := Some (c_ptr con)\<rparr>) (world s)
           in account_result err (db_get_query_type query) (con\<lparr>rs := r\<rparr>) (s\<lparr>world := w\<rparr>)))"

definition db_execute ::
  "'w db_conn option \<Rightarrow> db_stmt \<Rightarrow> 'w db_sys \<Rightarrow> (bool \<times> 'w db_conn option \<times> 'w db_sys) option" where
  "db_execute con stmt s =
     (case (con, con_driver con) of
        (Some c, Some drv) \<Rightarrow>
          (let (err, r, w) = op_execute (ops drv) (c_ptr c) stmt
                               (zero_rs\<lparr>rs_connection := Some (c_ptr c), rs_statement := Some stmt\<rparr>) (world s)
           in case account_result err (st_type stmt) (c\<lparr>rs := r\<rparr>) (s\<lparr>world := w\<rparr>) of
                None \<Rightarrow> None | Some (ok, c', s') \<Rightarrow> Some (ok, Some c', s'))
      | _ \<Rightarrow> Some (False, con, s))"

definition db_num_rows :: "'w db_conn \<Rightarrow> 'w db_sys \<Rightarrow> u64" where
  "db_num_rows con s =
     (if rs_connection (rs con) = None then 0
      else case driver con of None \<Rightarrow> 0 | Some drv \<Rightarrow> op_num_rows (ops drv) (rs con) (world s))"

fun db_free_row :: "row_ptr \<Rightarrow> row_ptr option" where
  "db_free_row RowNull = Some RowNull"
| "db_free_row RowLive = Some RowFreed"
| "db_free_row RowFreed = None"

text \<open>The result tells whether a row is returned.\<close>

definition db_fetch_row ::
  "bool \<Rightarrow> 'w db_conn \<Rightarrow> 'w db_sys \<Rightarrow> (bool \<times> 'w db_conn \<times> 'w db_sys) option" where
  "db_fetch_row alloc con s =
     (if rs_statement (rs con) \<noteq> None then Some (False, con, s)
      else if rs_connection (rs con) = None then Some (False, con, s)
      else case driver con of
        None \<Rightarrow> Some (False, con, s)
      | Some drv \<Rightarrow>
          (if rs_row (rs con) \<noteq> RowNull \<and> db_free_row (rs_row (rs con)) = None then None
           else if \<not> alloc then Some (False, con\<lparr>rs := (rs con)\<lparr>rs_row := RowNull\<rparr>\<rparr>, s)
           else let r = (rs con)\<lparr>rs_row := RowLive\<rparr>; (rc, w) = op_fetch_row (ops drv) r (world s) in
             if rc \<noteq> 0 then Some (False, con\<lparr>rs := r\<lparr>rs_row := RowFreed\<rparr>\<rparr>, s\<lparr>world := w\<rparr>)
             else Some (True, con\<lparr>rs := r\<rparr>, s\<lparr>world := w\<rparr>)))"

definition db_free_results :: "'w db_conn \<Rightarrow> 'w db_sys \<Rightarrow> (int \<times> 'w db_conn \<times> 'w db_sys) option" where
  "db_free_results con s =
     (if rs_connection (rs con) = None then Some (1, con, s)
      else case driver con of
        None \<Rightarrow> Some (1, con, s)
      | Some drv \<Rightarrow>
          (let (rc, r, w) = op_free_results (ops drv) (rs con) (world s) in
           case db_free_row (rs_row r) of
             None \<Rightarrow> None
           | Some row \<Rightarrow> Some (rc, con\<lparr>rs := r\<lparr>rs_row := row\<rparr>\<rparr>, s\<lparr>world := w\<rparr>)))"

definition db_close ::
  "'w db_conn option \<Rightarrow> db_stmt option \<Rightarrow> 'w db_sys \<Rightarrow> int \<times> 'w db_sys" where
  "db_close con stmt s =
     (case stmt of
        None \<Rightarrow> (1, s)
      | Some st \<Rightarrow>
          (case con_driver con of
             None \<Rightarrow> (1, s)
           | Some drv \<Rightarrow> (let (rc, w) = op_close (ops drv) (Option.bind con c_ptr) st (world s) in (rc, s\<lparr>world := w\<rparr>))))"

definition db_store_results :: "'w db_conn \<Rightarrow> 'w db_sys \<Rightarrow> db_error \<times> 'w db_conn \<times> 'w db_sys" where
  "db_store_results con s =
     (if rs_connection (rs con) = None then (SB_DB_ERROR_FAILED, con, s)
      else case driver con of
        None \<Rightarrow> (SB_DB_ERROR_FAILED, con, s)
      | Some drv \<Rightarrow>
          (let (err, r, w) = op_store_results (ops drv) (rs con) (world s)
           in (err, con\<lparr>rs := r\<rparr>, s\<lparr>world := w\<rparr>)))"

definition db_done :: "'w db_driver \<Rightarrow> 'w db_sys \<Rightarrow> int \<times> 'w db_sys" where
  "db_done drv s =
     (let st = (if db_debug (stats s) then (stats s)\<lparr>exec_timers := [], fetch_timers := []\<rparr> else stats s);
          st = st\<lparr>thread_stats := []\<rparr>;
          (rc, w) = op_done (ops drv) (world s)
      in (rc, s\<lparr>world := w, stats := st\<rparr>))"

section \<open>Printing of bound values\<close>

text \<open>\<open>%f\<close>: six decimals, rounded to the nearest, ties to even.\<close>

definition round_even :: "real \<Rightarrow> int" where
  "round_even x =
     (let n = \<lfloor>x\<rfloor>; d = x - of_int n
      in if d > 1 / 2 \<or> (d = 1 / 2 \<and> odd n) then n + 1 else n)"

definition show_f :: "real \<Rightarrow> string" where
  "show_f x =
     (let n = nat (round_even (\<bar>x\<bar> * 1000000)); frac = show_nat (n mod 1000000)
      in (if x < 0 then ''-'' else []) @ show_nat (n div 1000000) @ ''.'' @
         replicate (6 - length frac) (CHR ''0'') @ frac)"

text \<open>\<open>%d\<close> of an \<open>unsigned int\<close>.\<close>

definition show_d :: "u32 \<Rightarrow> string" where
  "show_d x = show_int (sint x)"

definition show_date :: "db_time \<Rightarrow> string" where
  "show_date tm = show_d (year tm) @ ''-'' @ show_d (month tm) @ ''-'' @ show_d (day tm)"

definition show_time :: "db_time \<Rightarrow> string" where
  "show_time tm = show_d (hour tm) @ '':'' @ show_d (minute tm) @ '':'' @ show_d (second tm)"

text \<open>
  The text of a bound value; the buffer is read at the type that \<open>var->type\<close> says, and a buffer that
  holds an object of another type has no result. \<open>Some None\<close> is the default branch, which prints nothing.
\<close>

fun as_char :: "bind_data \<Rightarrow> int option" where "as_char (CharData i) = Some i" | "as_char _ = None"
fun as_short :: "bind_data \<Rightarrow> int option" where "as_short (ShortData i) = Some i" | "as_short _ = None"
fun as_int :: "bind_data \<Rightarrow> int option" where "as_int (IntData i) = Some i" | "as_int _ = None"
fun as_llong :: "bind_data \<Rightarrow> int option" where "as_llong (LongLongData i) = Some i" | "as_llong _ = None"
fun as_float :: "bind_data \<Rightarrow> real option" where "as_float (FloatData x) = Some x" | "as_float _ = None"
fun as_double :: "bind_data \<Rightarrow> real option" where "as_double (DoubleData x) = Some x" | "as_double _ = None"
fun as_string :: "bind_data \<Rightarrow> string option" where "as_string (StringData s) = Some s" | "as_string _ = None"
fun as_time :: "bind_data \<Rightarrow> db_time option" where "as_time (TimeData t) = Some t" | "as_time _ = None"

definition quoted :: "string \<Rightarrow> string" where
  "quoted s = CHR 0x27 # s @ [CHR 0x27]"

definition value_text :: "db_bind_type \<Rightarrow> bind_data \<Rightarrow> string option option" where
  "value_text type buf =
     (case type of
        DB_TYPE_TINYINT \<Rightarrow> map_option (Some \<circ> show_int) (as_char buf)
      | DB_TYPE_SMALLINT \<Rightarrow> map_option (Some \<circ> show_int) (as_short buf)
      | DB_TYPE_INT \<Rightarrow> map_option (Some \<circ> show_int) (as_int buf)
      | DB_TYPE_BIGINT \<Rightarrow> map_option (Some \<circ> show_int) (as_llong buf)
      | DB_TYPE_FLOAT \<Rightarrow> map_option (Some \<circ> show_f) (as_float buf)
      | DB_TYPE_DOUBLE \<Rightarrow> map_option (Some \<circ> show_f) (as_double buf)
      | DB_TYPE_CHAR \<Rightarrow> map_option (Some \<circ> quoted) (as_string buf)
      | DB_TYPE_VARCHAR \<Rightarrow> map_option (Some \<circ> quoted) (as_string buf)
      | DB_TYPE_DATE \<Rightarrow> map_option (Some \<circ> quoted \<circ> show_date) (as_time buf)
      | DB_TYPE_TIME \<Rightarrow> map_option (Some \<circ> quoted \<circ> show_time) (as_time buf)
      | DB_TYPE_DATETIME \<Rightarrow>
          map_option (\<lambda>tm. Some (quoted (show_date tm @ '' '' @ show_time tm))) (as_time buf)
      | DB_TYPE_TIMESTAMP \<Rightarrow>
          map_option (\<lambda>tm. Some (quoted (show_date tm @ '' '' @ show_time tm))) (as_time buf)
      | DB_TYPE_NONE \<Rightarrow> Some None)"

definition print_result :: "string \<Rightarrow> nat \<Rightarrow> string option \<times> int" where
  "print_result txt buflen =
     (let (out, n) = snprintf txt buflen in (out, if n < int buflen then n else - 1))"

text \<open>The text left in the buffer (\<^const>\<open>None\<close> when it is not written) and the return value.\<close>

definition db_print_value :: "db_bind \<Rightarrow> nat \<Rightarrow> (string option \<times> int) option" where
  "db_print_value var buflen =
     (if b_is_null var = Some True then Some (print_result ''NULL'' buflen)
      else case value_text (b_type var) (b_buffer var) of
        None \<Rightarrow> None
      | Some None \<Rightarrow> Some (None, if 0 < buflen then 0 else - 1)
      | Some (Some txt) \<Rightarrow> Some (print_result txt buflen))"

section \<open>Multi-row inserts\<close>

definition BULK_PACKET_SIZE :: nat where "BULK_PACKET_SIZE = 512 * 1024"
definition ROWS_BEFORE_COMMIT :: u32 where "ROWS_BEFORE_COMMIT = 1000"

definition db_bulk_insert_init ::
  "bool \<Rightarrow> 'w db_conn \<Rightarrow> string \<Rightarrow> 'w db_sys \<Rightarrow> int \<times> 'w db_conn \<times> 'w db_sys" where
  "db_bulk_insert_init alloc con query s =
     (case driver con of
        None \<Rightarrow> (1, con, s)
      | Some drv \<Rightarrow>
          (case db_describe drv s of
             (rc, caps, s) \<Rightarrow>
               (case caps of
                  None \<Rightarrow> (1, con, s)
                | Some cp \<Rightarrow>
                    (if rc \<noteq> 0 then (1, con, s)
                     else if length query + 1 > BULK_PACKET_SIZE then (1, con, s)
                     else if \<not> alloc then
                       (1, con\<lparr>bulk_buflen := of_nat BULK_PACKET_SIZE, bulk_buffer := None\<rparr>, s)
                     else (0, con\<lparr>bulk_buflen := of_nat BULK_PACKET_SIZE,
                                  bulk_supported := multi_rows_insert cp,
                                  bulk_commit_max := (if needs_commit cp then ROWS_BEFORE_COMMIT else 0),
                                  bulk_commit_cnt := 0, bulk_buffer := Some query,
                                  bulk_ptr := of_nat (length query),
                                  bulk_ptr_orig := of_nat (length query), bulk_cnt := 0\<rparr>, s)))))"

text \<open>The loop that sends the packet: at most \<open>n\<close> attempts until one succeeds.\<close>

fun bulk_attempts ::
  "nat \<Rightarrow> 'w db_conn \<Rightarrow> string \<Rightarrow> 'w db_sys \<Rightarrow> (bool \<times> 'w db_conn \<times> 'w db_sys) option" where
  "bulk_attempts 0 con buf s = Some (False, con, s)"
| "bulk_attempts (Suc n) con buf s =
     (case db_query con buf s of
        None \<Rightarrow> None
      | Some (True, con', s') \<Rightarrow> Some (True, con', s')
      | Some (False, con', s') \<Rightarrow> bulk_attempts n con' buf s')"

text \<open>\<open>db_bulk_do_insert\<close>; the buffer is a NULL pointer only before \<open>db_bulk_insert_init\<close>, when
  \<open>bulk_cnt\<close> is 0.\<close>

definition db_bulk_do_insert ::
  "'w db_conn \<Rightarrow> bool \<Rightarrow> 'w db_sys \<Rightarrow> (int \<times> 'w db_conn \<times> 'w db_sys) option" where
  "db_bulk_do_insert con is_last s =
     (if bulk_cnt con = 0 then Some (0, con, s)
      else case bulk_buffer con of
        None \<Rightarrow> None
      | Some buf \<Rightarrow>
          (case bulk_attempts 5 con buf s of
             None \<Rightarrow> None
           | Some (False, con, s) \<Rightarrow> Some (1, con, s)
           | Some (True, con, s) \<Rightarrow>
               (let reset = (\<lambda>con. con\<lparr>bulk_ptr := bulk_ptr_orig con, bulk_cnt := 0\<rparr>) in
                if bulk_commit_max con \<noteq> 0 then
                  (let con = con\<lparr>bulk_commit_cnt := bulk_commit_cnt con + bulk_cnt con\<rparr> in
                   if is_last \<or> bulk_commit_cnt con \<ge> bulk_commit_max con then
                     (case db_query con ''COMMIT'' s of
                        None \<Rightarrow> None
                      | Some (False, con, s) \<Rightarrow> Some (1, con, s)
                      | Some (True, con, s) \<Rightarrow> Some (0, reset (con\<lparr>bulk_commit_cnt := 0\<rparr>), s))
                   else Some (0, reset con, s))
                else Some (0, reset con, s))))"

text \<open>
  \<open>strcpy\<close> of \<open>txt\<close> to the position \<open>p\<close> of a buffer of \<open>buflen\<close> bytes whose text is \<open>buf\<close>; the copy
  includes the NUL. Positions after the end of the text are uninitialised memory.
\<close>

definition buf_strcpy :: "nat \<Rightarrow> string \<Rightarrow> nat \<Rightarrow> string \<Rightarrow> string option" where
  "buf_strcpy buflen buf p txt =
     (if p \<le> length buf \<and> p + length txt + 1 \<le> buflen then Some (take p buf @ txt) else None)"

definition bulk_append :: "'w db_conn \<Rightarrow> string \<Rightarrow> 'w db_conn option" where
  "bulk_append con query =
     (case bulk_buffer con of
        None \<Rightarrow> None
      | Some buf \<Rightarrow>
          (let sep = (if bulk_cnt con > 0 then '','' else [])
           in case buf_strcpy (unat (bulk_buflen con)) buf (unat (bulk_ptr con)) (sep @ query) of
                None \<Rightarrow> None
              | Some buf' \<Rightarrow>
                  Some (con\<lparr>bulk_buffer := Some buf',
                            bulk_ptr := bulk_ptr con + (of_nat (length query) + (if bulk_cnt con > 0 then 1 else 0)),
                            bulk_cnt := bulk_cnt con + 1\<rparr>)))"

definition db_bulk_insert_next ::
  "'w db_conn \<Rightarrow> string \<Rightarrow> 'w db_sys \<Rightarrow> (int \<times> 'w db_conn \<times> 'w db_sys) option" where
  "db_bulk_insert_next con query s =
     (let query_len = of_nat (length query) :: u32;
          add = (\<lambda>con s. case bulk_append con query of None \<Rightarrow> None | Some con' \<Rightarrow> Some (0, con', s))
      in if bulk_ptr con + query_len + 1 + (if bulk_cnt con > 0 then 1 else 0) > bulk_buflen con then
           (if bulk_cnt con = 0 then Some (1, con, s)
            else case db_bulk_do_insert con False s of
                   None \<Rightarrow> None
                 | Some (rc, con, s) \<Rightarrow> (if rc \<noteq> 0 then Some (1, con, s) else add con s))
         else add con s)"

definition db_bulk_insert_done :: "'w db_conn \<Rightarrow> 'w db_sys \<Rightarrow> ('w db_conn \<times> 'w db_sys) option" where
  "db_bulk_insert_done con s =
     (case db_bulk_do_insert con True s of
        None \<Rightarrow> None
      | Some (_, con, s) \<Rightarrow> Some (con\<lparr>bulk_buffer := None\<rparr>, s))"

section \<open>Values fit or are refused\<close>

text \<open>The contract of a value printer: the whole text or the result -1.\<close>

locale value_printer =
  fixes print :: "'v \<Rightarrow> nat \<Rightarrow> (string option \<times> int) option" and text_of :: "'v \<Rightarrow> string option"
  assumes print_fits: "text_of v = Some t \<Longrightarrow> length t < n \<Longrightarrow> print v n = Some (Some t, int (length t))"
    and print_short: "text_of v = Some t \<Longrightarrow> n \<le> length t \<Longrightarrow> \<exists>out. print v n = Some (out, - 1)"
begin

lemma print_iff:
  "text_of v = Some t \<Longrightarrow> (\<exists>out r. print v n = Some (out, r) \<and> 0 \<le> r) \<longleftrightarrow> length t < n"
  using print_fits [of v t n] print_short [of v t n] by (cases "length t < n") auto

lemma print_result_cases:
  assumes "text_of v = Some t" and "print v n = Some (out, r)"
  shows "r = - 1 \<and> n \<le> length t \<or> r = int (length t) \<and> out = Some t \<and> length t < n"
  using print_fits [OF assms(1), of n] print_short [OF assms(1), of n] assms(2)
  by (cases "length t < n") auto

end

definition bind_text :: "db_bind \<Rightarrow> string option" where
  "bind_text var =
     (if b_is_null var = Some True then Some ''NULL''
      else Option.bind (value_text (b_type var) (b_buffer var)) (\<lambda>t. t))"

interpretation dbp: value_printer db_print_value bind_text
  by unfold_locales
    (auto simp: bind_text_def db_print_value_def print_result_def snprintf_def Let_def
        split: if_splits option.splits Option.bind_splits)

section \<open>What a multi-row insert sends\<close>

fun join_rows :: "string list \<Rightarrow> string" where
  "join_rows [] = []"
| "join_rows [r] = r"
| "join_rows (r # rows) = r @ '','' @ join_rows rows"

lemma join_rows_snoc: "rows \<noteq> [] \<Longrightarrow> join_rows (rows @ [r]) = join_rows rows @ '','' @ r"
proof (induction rows rule: join_rows.induct)
  case (3 r x xs)
  then show ?case by simp
qed simp_all

lemma length_join_rows: "length rows \<le> length (join_rows rows) + 1"
  by (induction rows rule: join_rows.induct) simp_all

lemma BULK_PACKET_SIZE_simps:
  "unat (of_nat BULK_PACKET_SIZE :: u32) = BULK_PACKET_SIZE" "BULK_PACKET_SIZE = 524288"
  by (simp_all add: BULK_PACKET_SIZE_def)

text \<open>A driver that executes every statement, with the list \<open>sent\<close> of the statements it was given.\<close>

definition accepts :: "('w \<Rightarrow> string list) \<Rightarrow> 'w db_driver \<Rightarrow> bool" where
  "accepts sent drv \<longleftrightarrow>
     (\<forall>p q r w. \<exists>r' w'. op_query (ops drv) p q r w = (SB_DB_ERROR_NONE, r', w') \<and> sent w' = sent w @ [q])"

definition thread_ok :: "'w db_conn \<Rightarrow> 'w db_sys \<Rightarrow> bool" where
  "thread_ok con s \<longleftrightarrow> thread_id con < 0 \<or> nat (thread_id con) < length (thread_stats (stats s))"

lemma query_accepted:
  assumes "accepts sent drv" and "driver con = Some drv" and "thread_ok con s"
  shows "\<exists>r s'. db_query con q s = Some (True, con\<lparr>rs := r, db_errno := SB_DB_ERROR_NONE\<rparr>, s') \<and>
                sent (world s') = sent (world s) @ [q] \<and>
                length (thread_stats (stats s')) = length (thread_stats (stats s))"
proof -
  obtain r w where q: "op_query (ops drv) (c_ptr con) q (zero_rs\<lparr>rs_connection := Some (c_ptr con)\<rparr>) (world s)
      = (SB_DB_ERROR_NONE, r, w)" "sent w = sent (world s) @ [q]"
    using assms(1) unfolding accepts_def by blast
  show ?thesis
    using assms(2,3) q
    by (auto simp: db_query_def account_result_def Let_def db_update_thread_stats_def
        upd_thread_stat_def thread_ok_def)
qed

definition bulk_inv :: "'w db_driver \<Rightarrow> string \<Rightarrow> 'w db_conn \<Rightarrow> 'w db_sys \<Rightarrow> string list \<Rightarrow> bool" where
  "bulk_inv drv q con s rows \<longleftrightarrow>
     driver con = Some drv \<and> thread_ok con s \<and> bulk_buflen con = of_nat BULK_PACKET_SIZE \<and>
     unat (bulk_ptr_orig con) = length q \<and> unat (bulk_ptr con) = length (q @ join_rows rows) \<and>
     length (q @ join_rows rows) + 1 \<le> BULK_PACKET_SIZE \<and> bulk_cnt con = of_nat (length rows) \<and>
     (\<exists>buf. bulk_buffer con = Some buf \<and>
            (if rows = [] then take (length q) buf = q \<and> length q \<le> length buf
             else buf = q @ join_rows rows))"

lemma bulk_inv_cnt:
  assumes "bulk_inv drv q con s rows"
  shows "bulk_cnt con = 0 \<longleftrightarrow> rows = []" and "0 < bulk_cnt con \<longleftrightarrow> rows \<noteq> []"
proof -
  have "length rows \<le> 524288"
    using assms length_join_rows [of rows] by (simp add: bulk_inv_def BULK_PACKET_SIZE_simps)
  then have "unat (bulk_cnt con) = length rows"
    using assms by (simp add: bulk_inv_def unat_of_nat take_bit_nat_eq_self)
  then show "bulk_cnt con = 0 \<longleftrightarrow> rows = []" by (metis length_0_conv unat_0 unat_eq_zero)
  then show "0 < bulk_cnt con \<longleftrightarrow> rows \<noteq> []" by (simp add: word_neq_0_conv [symmetric])
qed

lemma do_insert_sends:
  assumes acc: "accepts sent drv" and inv: "bulk_inv drv q con s rows" and ne: "rows \<noteq> []"
  shows "\<exists>con' s' tr. db_bulk_do_insert con lst s = Some (0, con', s') \<and> bulk_inv drv q con' s' [] \<and>
           sent (world s') = sent (world s) @ (q @ join_rows rows) # tr \<and> set tr \<subseteq> {''COMMIT''}"
proof -
  have cnt: "bulk_cnt con \<noteq> 0" using bulk_inv_cnt(1) [OF inv] ne by simp
  have buf: "bulk_buffer con = Some (q @ join_rows rows)" and d: "driver con = Some drv" "thread_ok con s"
    using inv ne by (auto simp: bulk_inv_def)
  obtain r1 s1 where 1: "db_query con (q @ join_rows rows) s =
      Some (True, con\<lparr>rs := r1, db_errno := SB_DB_ERROR_NONE\<rparr>, s1)"
    "sent (world s1) = sent (world s) @ [q @ join_rows rows]"
    "length (thread_stats (stats s1)) = length (thread_stats (stats s))"
    using query_accepted [OF acc d] by blast
  then have att: "bulk_attempts 5 con (q @ join_rows rows) s =
      Some (True, con\<lparr>rs := r1, db_errno := SB_DB_ERROR_NONE\<rparr>, s1)"
    by (simp add: eval_nat_numeral)
  let ?c1 = "con\<lparr>rs := r1, db_errno := SB_DB_ERROR_NONE, bulk_commit_cnt := bulk_commit_cnt con + bulk_cnt con\<rparr>"
  have d1: "driver ?c1 = Some drv" "thread_ok ?c1 s1" using d 1(3) by (auto simp: thread_ok_def)
  obtain r2 s2 where 2: "db_query ?c1 ''COMMIT'' s1 =
      Some (True, ?c1\<lparr>rs := r2, db_errno := SB_DB_ERROR_NONE\<rparr>, s2)"
    "sent (world s2) = sent (world s1) @ [''COMMIT'']"
    "length (thread_stats (stats s2)) = length (thread_stats (stats s1))"
    using query_accepted [OF acc d1] by blast
  show ?thesis
    using cnt buf att 1(2,3) 2 inv ne d1
    by (auto simp: db_bulk_do_insert_def Let_def bulk_inv_def thread_ok_def)
qed

lemma bulk_append_inv:
  assumes inv: "bulk_inv drv q con s rows" and fit: "length (q @ join_rows (rows @ [r])) + 1 \<le> BULK_PACKET_SIZE"
  shows "\<exists>con'. bulk_append con r = Some con' \<and> bulk_inv drv q con' s (rows @ [r])"
proof -
  obtain buf where b: "bulk_buffer con = Some buf" "take (length (q @ join_rows rows)) buf = q @ join_rows rows"
    "length (q @ join_rows rows) \<le> length buf"
    using inv by (auto simp: bulk_inv_def split: if_splits)
  let ?sep = "if bulk_cnt con > 0 then '','' else []"
  have sep: "join_rows (rows @ [r]) = join_rows rows @ ?sep @ r"
    using bulk_inv_cnt(2) [OF inv] join_rows_snoc [of rows r] by auto
  have ptr: "unat (bulk_ptr con) = length (q @ join_rows rows)" using inv by (simp add: bulk_inv_def)
  have cp: "buf_strcpy (unat (bulk_buflen con)) buf (unat (bulk_ptr con)) (?sep @ r)
      = Some (q @ join_rows (rows @ [r]))"
    using b inv fit unfolding sep ptr by (auto simp: buf_strcpy_def bulk_inv_def BULK_PACKET_SIZE_simps(1))
  have small: "length (q @ join_rows rows) + (length r + 1) < 2 ^ 32"
    using fit unfolding sep by (simp add: BULK_PACKET_SIZE_simps(2) split: if_splits)
  have "unat (bulk_ptr con + (of_nat (length r) + (if bulk_cnt con > 0 then 1 else 0)))
      = length (q @ join_rows (rows @ [r]))"
  proof -
    have "bulk_ptr con = of_nat (length (q @ join_rows rows))"
      using ptr by (metis of_nat_unat ucast_id)
    then have "bulk_ptr con + (of_nat (length r) + (if bulk_cnt con > 0 then 1 else 0))
        = of_nat (length (q @ join_rows (rows @ [r])))"
      unfolding sep by simp
    moreover have "length (q @ join_rows (rows @ [r])) < 2 ^ 32" using small unfolding sep by simp
    ultimately show ?thesis by (simp only: unat_of_nat) (simp add: take_bit_nat_eq_self)
  qed
  then show ?thesis
    using b(1) cp inv fit by (auto simp: bulk_append_def Let_def bulk_inv_def thread_ok_def)
qed

lemma bulk_full_test:
  assumes inv: "bulk_inv drv q con s rows" and len: "length r + 1 \<le> BULK_PACKET_SIZE"
  shows "bulk_ptr con + of_nat (length r) + 1 + (if bulk_cnt con > 0 then 1 else 0) > bulk_buflen con
           \<longleftrightarrow> length (q @ join_rows (rows @ [r])) + 1 > BULK_PACKET_SIZE"
proof -
  let ?n = "length (q @ join_rows rows) + length r + 1 + (if rows = [] then 0 else 1)"
  have ptr: "bulk_ptr con = of_nat (length (q @ join_rows rows))"
    using inv by (metis bulk_inv_def of_nat_unat ucast_id)
  have "bulk_ptr con + of_nat (length r) + 1 + (if bulk_cnt con > 0 then 1 else 0) = of_nat ?n"
    unfolding ptr using bulk_inv_cnt(2) [OF inv] by simp
  moreover have "?n < 2 ^ 32"
    using inv len by (simp add: bulk_inv_def BULK_PACKET_SIZE_simps(2))
  then have "unat (of_nat ?n :: u32) = ?n" by (simp only: unat_of_nat) (simp add: take_bit_nat_eq_self)
  moreover have "length (q @ join_rows (rows @ [r])) + 1 = ?n"
    by (cases "rows = []") (simp_all add: join_rows_snoc)
  moreover have "unat (bulk_buflen con) = BULK_PACKET_SIZE"
    using inv by (simp add: bulk_inv_def BULK_PACKET_SIZE_simps(1))
  ultimately show ?thesis by (simp only: word_less_nat_alt)
qed

lemma insert_next_sends:
  assumes acc: "accepts sent drv" and inv: "bulk_inv drv q con s rows"
    and fit: "length q + length r + 1 \<le> BULK_PACKET_SIZE"
  shows "\<exists>con' s' pend tr. db_bulk_insert_next con r s = Some (0, con', s') \<and> bulk_inv drv q con' s' pend \<and>
           (pend = rows @ [r] \<and> s' = s \<or>
            pend = [r] \<and> rows \<noteq> [] \<and> set tr \<subseteq> {''COMMIT''} \<and>
            sent (world s') = sent (world s) @ (q @ join_rows rows) # tr)"
proof (cases "length (q @ join_rows (rows @ [r])) + 1 > BULK_PACKET_SIZE")
  case False
  then obtain con' where "bulk_append con r = Some con'" "bulk_inv drv q con' s (rows @ [r])"
    using bulk_append_inv [OF inv] by (metis not_le)
  with False bulk_full_test [OF inv, of r] fit show ?thesis
    by (fastforce simp: db_bulk_insert_next_def Let_def)
next
  case True
  then have ne: "rows \<noteq> []" using fit by auto
  obtain con1 s1 tr where 1: "db_bulk_do_insert con False s = Some (0, con1, s1)"
    "bulk_inv drv q con1 s1 []" "sent (world s1) = sent (world s) @ (q @ join_rows rows) # tr"
    "set tr \<subseteq> {''COMMIT''}"
    using do_insert_sends [OF acc inv ne] by blast
  obtain con2 where 2: "bulk_append con1 r = Some con2" "bulk_inv drv q con2 s1 [r]"
    using bulk_append_inv [OF 1(2), of r] fit by auto
  have full: "bulk_ptr con + of_nat (length r) + 1 + (if bulk_cnt con > 0 then 1 else 0) > bulk_buflen con"
    using bulk_full_test [OF inv, of r] True fit by auto
  have "db_bulk_insert_next con r s = Some (0, con2, s1)"
    using full bulk_inv_cnt(1) [OF inv] ne 1(1) 2(1)
    unfolding db_bulk_insert_next_def Let_def by (simp only: if_True if_False simp_thms option.case prod.case)
  with 1 2 ne show ?thesis by blast
qed

fun bulk_insert_rows ::
  "'w db_conn \<Rightarrow> string list \<Rightarrow> 'w db_sys \<Rightarrow> (int \<times> 'w db_conn \<times> 'w db_sys) option" where
  "bulk_insert_rows con [] s = Some (0, con, s)"
| "bulk_insert_rows con (r # rows) s =
     (case db_bulk_insert_next con r s of
        None \<Rightarrow> None
      | Some (rc, con', s') \<Rightarrow> (if rc \<noteq> 0 then Some (rc, con', s') else bulk_insert_rows con' rows s'))"

text \<open>The trace of a multi-row insert: one statement per chunk of rows, COMMITs in between.\<close>

definition bulk_trace :: "string \<Rightarrow> string list list \<Rightarrow> string list \<Rightarrow> bool" where
  "bulk_trace q chunks tr \<longleftrightarrow>
     filter (\<lambda>x. x \<noteq> ''COMMIT'') tr = map (\<lambda>c. q @ join_rows c) chunks \<and>
     (\<forall>c \<in> set chunks. c \<noteq> [] \<and> length (q @ join_rows c) + 1 \<le> BULK_PACKET_SIZE)"

lemma bulk_trace_Cons:
  assumes "bulk_trace q chunks tr" and "set cs \<subseteq> {''COMMIT''}" and "c \<noteq> []"
    and "length (q @ join_rows c) + 1 \<le> BULK_PACKET_SIZE" and "take (length q) ''COMMIT'' \<noteq> q"
  shows "bulk_trace q (c # chunks) ((q @ join_rows c) # cs @ tr)"
proof -
  have "filter (\<lambda>x. x \<noteq> ''COMMIT'') cs = []" using assms(2) by (auto simp: filter_empty_conv)
  moreover have "q @ join_rows c \<noteq> ''COMMIT''" using assms(5) by (metis append_eq_conv_conj)
  ultimately show ?thesis using assms(1,3,4) by (simp add: bulk_trace_def)
qed

lemma insert_rows_sends:
  assumes acc: "accepts sent drv" and q: "take (length q) ''COMMIT'' \<noteq> q"
  shows "bulk_inv drv q con s pend \<Longrightarrow> \<forall>r \<in> set rows. length q + length r + 1 \<le> BULK_PACKET_SIZE \<Longrightarrow>
    \<exists>con' s' chunks pend' tr. bulk_insert_rows con rows s = Some (0, con', s') \<and>
      bulk_inv drv q con' s' pend' \<and> sent (world s') = sent (world s) @ tr \<and>
      bulk_trace q chunks tr \<and> concat chunks @ pend' = pend @ rows"
proof (induction rows arbitrary: con s pend)
  case Nil
  then show ?case by (fastforce simp: bulk_trace_def)
next
  case (Cons r rows)
  obtain con1 s1 p1 t1 where 1: "db_bulk_insert_next con r s = Some (0, con1, s1)"
    "bulk_inv drv q con1 s1 p1"
    "p1 = pend @ [r] \<and> s1 = s \<or> p1 = [r] \<and> pend \<noteq> [] \<and> set t1 \<subseteq> {''COMMIT''} \<and>
       sent (world s1) = sent (world s) @ (q @ join_rows pend) # t1"
    using insert_next_sends [OF acc Cons.prems(1), of r] Cons.prems(2) by auto
  obtain con2 s2 chunks p2 tr where 2: "bulk_insert_rows con1 rows s1 = Some (0, con2, s2)"
    "bulk_inv drv q con2 s2 p2" "sent (world s2) = sent (world s1) @ tr"
    "bulk_trace q chunks tr" "concat chunks @ p2 = p1 @ rows"
    using Cons.IH [OF 1(2)] Cons.prems(2) by auto
  have run: "bulk_insert_rows con (r # rows) s = Some (0, con2, s2)" using 1(1) 2(1) by simp
  from 1(3) show ?case
  proof
    assume "p1 = pend @ [r] \<and> s1 = s"
    with run 2 show ?thesis
      by (intro exI [of _ con2] exI [of _ s2] exI [of _ chunks] exI [of _ p2] exI [of _ tr]) simp
  next
    assume fl: "p1 = [r] \<and> pend \<noteq> [] \<and> set t1 \<subseteq> {''COMMIT''} \<and>
       sent (world s1) = sent (world s) @ (q @ join_rows pend) # t1"
    then have "bulk_trace q (pend # chunks) ((q @ join_rows pend) # t1 @ tr)"
      using bulk_trace_Cons [OF 2(4) _ _ _ q] Cons.prems(1) by (simp add: bulk_inv_def)
    with run 2 fl show ?thesis
      by (intro exI [of _ con2] exI [of _ s2] exI [of _ "pend # chunks"] exI [of _ p2]
          exI [of _ "(q @ join_rows pend) # t1 @ tr"]) simp
  qed
qed

lemma bulk_init_inv:
  assumes "driver con = Some drv" and "thread_ok con s" and "op_describe (ops drv) = Some f"
    and "f (world s) = (0, caps, w)" and "length q + 1 \<le> BULK_PACKET_SIZE"
  shows "\<exists>con1. db_bulk_insert_init True con q s = (0, con1, s\<lparr>world := w\<rparr>) \<and>
                bulk_inv drv q con1 (s\<lparr>world := w\<rparr>) []"
proof -
  have "unat (of_nat (length q) :: u32) = length q"
    using assms(5) by (simp add: BULK_PACKET_SIZE_simps(2) unat_of_nat take_bit_nat_eq_self)
  then show ?thesis
    using assms by (auto simp: db_bulk_insert_init_def db_describe_def bulk_inv_def thread_ok_def)
qed

section \<open>Properties\<close>

text \<open>C6: A multi-row insert delivers exactly the rows it is given, in order: with a driver that
  accepts every statement, and rows that each fit into the packet together with the INSERT prefix,
  \<open>db_bulk_insert_init\<close>, one \<open>db_bulk_insert_next\<close> per row and \<open>db_bulk_insert_done\<close> succeed without
  writing past the buffer; the statements sent, COMMITs aside, are the prefix followed by the
  comma-separated rows of consecutive non-empty chunks, each statement fits the packet size, and
  the chunks together are the rows.\<close>

theorem bulk_insert_delivers_rows:
  assumes "accepts sent drv" and "driver con = Some drv" and "thread_ok con s"
    and "op_describe (ops drv) = Some f" and "f (world s) = (0, caps, w)" and "sent w = sent (world s)"
    and "take (length q) ''COMMIT'' \<noteq> q" and "length q + 1 \<le> BULK_PACKET_SIZE"
    and "\<forall>r \<in> set rows. length q + length r + 1 \<le> BULK_PACKET_SIZE"
  shows "\<exists>con1 s1 con2 s2 con3 s3 chunks tr.
           db_bulk_insert_init True con q s = (0, con1, s1) \<and>
           bulk_insert_rows con1 rows s1 = Some (0, con2, s2) \<and>
           db_bulk_insert_done con2 s2 = Some (con3, s3) \<and>
           sent (world s3) = sent (world s) @ tr \<and> bulk_trace q chunks tr \<and> concat chunks = rows"
proof -
  let ?s1 = "s\<lparr>world := w\<rparr>"
  obtain con1 where 1: "db_bulk_insert_init True con q s = (0, con1, ?s1)" "bulk_inv drv q con1 ?s1 []"
    using bulk_init_inv [OF assms(2-5,8)] by blast
  obtain con2 s2 chunks pend tr where 2: "bulk_insert_rows con1 rows ?s1 = Some (0, con2, s2)"
    "bulk_inv drv q con2 s2 pend" "sent (world s2) = sent w @ tr" "bulk_trace q chunks tr"
    "concat chunks @ pend = rows"
    using insert_rows_sends [OF assms(1,7) 1(2) assms(9)] by auto
  show ?thesis
  proof (cases "pend = []")
    case True
    then have "db_bulk_insert_done con2 s2 = Some (con2\<lparr>bulk_buffer := None\<rparr>, s2)"
      using bulk_inv_cnt(1) [OF 2(2)] by (simp add: db_bulk_insert_done_def db_bulk_do_insert_def)
    with 1(1) 2 True assms(6) show ?thesis by fastforce
  next
    case False
    obtain con3 s3 cs where 3: "db_bulk_do_insert con2 True s2 = Some (0, con3, s3)"
      "sent (world s3) = sent (world s2) @ (q @ join_rows pend) # cs" "set cs \<subseteq> {''COMMIT''}"
      using do_insert_sends [OF assms(1) 2(2) False] by blast
    have "bulk_trace q [pend] ((q @ join_rows pend) # cs)"
      using bulk_trace_Cons [of q "[]" "[]" cs pend] 3(3) False assms(7) 2(2)
      by (simp add: bulk_trace_def bulk_inv_def)
    with 2(4) have "bulk_trace q (chunks @ [pend]) (tr @ (q @ join_rows pend) # cs)"
      by (auto simp: bulk_trace_def)
    moreover have "db_bulk_insert_done con2 s2 = Some (con3\<lparr>bulk_buffer := None\<rparr>, s3)"
      using 3(1) by (simp add: db_bulk_insert_done_def)
    moreover have "concat (chunks @ [pend]) = rows" using 2(5) by simp
    moreover have "sent (world s3) = sent (world s) @ tr @ (q @ join_rows pend) # cs"
      using 2(3) 3(2) assms(6) by simp
    ultimately show ?thesis using 1(1) 2(1) by blast
  qed
qed

text \<open>A driver for examples: its world is the list of the statements it received.\<close>

definition example_driver :: "string list db_driver" where
  "example_driver = \<lparr>sname = ''example'', lname = ''example driver'', drv_args = None, ops =
     \<lparr>op_init = (\<lambda>w. (0, w)),
      op_describe = Some (\<lambda>w. (0, \<lparr>multi_rows_insert = True, prepared_statements = True,
        auto_increment = True, needs_commit = True, caps_serial = False, unsigned_int = True\<rparr>, w)),
      op_connect = (\<lambda>w. (0, Some 1, w)), op_disconnect = (\<lambda>_ w. (0, w)),
      op_prepare = (\<lambda>_ st q w. (0, st, w)), op_bind_param = (\<lambda>_ st _ w. (0, st, w)),
      op_bind_result = (\<lambda>_ st _ w. (0, st, w)), op_execute = (\<lambda>_ _ r w. (SB_DB_ERROR_NONE, r, w)),
      op_fetch_row = (\<lambda>_ w. (1, w)), op_num_rows = (\<lambda>_ _. 0), op_free_results = (\<lambda>r w. (0, r, w)),
      op_close = (\<lambda>_ _ w. (0, w)), op_query = (\<lambda>_ q r w. (SB_DB_ERROR_NONE, r, w @ [q])),
      op_store_results = (\<lambda>r w. (SB_DB_ERROR_NONE, r, w)), op_done = (\<lambda>w. (0, w))\<rparr>\<rparr>"

definition example_sys :: "string list db_sys" where
  "example_sys = \<lparr>world = [], stats = example_stats (sb_percentile_reset
     \<lparr>pc_values = [], pc_tmp = [], total = 0, pc_size = 0, range_min = 1, range_max = 2,
      range_deduct = 0, range_mult = 1\<rparr>)\<rparr>"

definition example_conn :: "string list db_conn" where
  "example_conn = zero_conn\<lparr>driver := Some example_driver\<rparr>"

lemma example_accepts: "accepts (\<lambda>w. w) example_driver"
  by (simp add: accepts_def example_driver_def)

lemma example_conn_simps [simp]:
  "driver example_conn = Some example_driver" "thread_ok example_conn example_sys"
  "world example_sys = []"
  by (simp_all add: example_conn_def example_sys_def zero_conn_def thread_ok_def example_stats_def Let_def)

theorem bulk_insert_delivers_rows_witness:
  "\<exists>con1 s1 con2 s2 con3 s3 chunks.
     db_bulk_insert_init True example_conn ''INSERT INTO t VALUES '' example_sys = (0, con1, s1) \<and>
     bulk_insert_rows con1 [''(1)'', ''(2)''] s1 = Some (0, con2, s2) \<and>
     db_bulk_insert_done con2 s2 = Some (con3, s3) \<and>
     bulk_trace ''INSERT INTO t VALUES '' chunks (world s3) \<and> concat chunks = [''(1)'', ''(2)'']"
proof -
  obtain f caps where f: "op_describe (ops example_driver) = Some f" "f [] = (0, caps, [])"
    by (simp add: example_driver_def)
  show ?thesis
    using bulk_insert_delivers_rows [OF example_accepts example_conn_simps(1,2) f(1), of caps "[]"
        "''INSERT INTO t VALUES ''" "[''(1)'', ''(2)'']"] f(2)
    by (simp add: BULK_PACKET_SIZE_simps(2))
qed

text \<open>The size check of \<open>db_bulk_insert_next\<close> is not repeated after the buffer has been flushed:
  a row that does not fit the packet even alone is refused when it is the first row, but when rows
  are pending they are sent and the row is then copied past the end of the buffer.\<close>

theorem long_row_overflows_buffer:
  assumes "accepts sent drv" and "bulk_inv drv q con s rows"
    and "length q + length r + 1 > BULK_PACKET_SIZE" and "length r + 1 \<le> BULK_PACKET_SIZE"
  shows "db_bulk_insert_next con r s = (if rows = [] then Some (1, con, s) else None)"
proof -
  have full: "bulk_ptr con + of_nat (length r) + 1 + (if bulk_cnt con > 0 then 1 else 0) > bulk_buflen con"
    using bulk_full_test [OF assms(2,4)] assms(3)
    by (cases "rows = []") (auto simp: join_rows_snoc)
  show ?thesis
  proof (cases "rows = []")
    case True
    then show ?thesis using full bulk_inv_cnt(1) [OF assms(2)]
      unfolding db_bulk_insert_next_def Let_def by (simp only: if_True refl simp_thms)
  next
    case False
    obtain con1 s1 where 1: "db_bulk_do_insert con False s = Some (0, con1, s1)" "bulk_inv drv q con1 s1 []"
      using do_insert_sends [OF assms(1,2) False] by blast
    have "bulk_append con1 r = None"
      using 1(2) bulk_inv_cnt(2) [OF 1(2)] assms(3)
      by (auto simp: bulk_append_def buf_strcpy_def bulk_inv_def BULK_PACKET_SIZE_simps(1))
    then show ?thesis
      using full bulk_inv_cnt(1) [OF assms(2)] False 1(1)
      unfolding db_bulk_insert_next_def Let_def
      by (simp only: if_True if_False simp_thms option.case prod.case)
  qed
qed

theorem long_row_overflows_buffer_witness:
  "\<exists>con s r. db_bulk_insert_next (con :: string list db_conn) r s = None \<and> length r < BULK_PACKET_SIZE"
proof -
  let ?q = "''INSERT INTO t VALUES ''" and ?r = "replicate (BULK_PACKET_SIZE - 1) (CHR ''x'')"
  obtain f caps where f: "op_describe (ops example_driver) = Some f" "f [] = (0, caps, [])"
    by (simp add: example_driver_def)
  obtain con1 where 1: "bulk_inv example_driver ?q con1 (example_sys\<lparr>world := []\<rparr>) []"
    using bulk_init_inv [OF example_conn_simps(1,2) f(1), of caps "[]" ?q] f(2)
    by (auto simp: BULK_PACKET_SIZE_simps(2))
  obtain con2 where 2: "bulk_inv example_driver ?q con2 (example_sys\<lparr>world := []\<rparr>) [''(1)'']"
    using bulk_append_inv [OF 1, of "''(1)''"] by (auto simp: BULK_PACKET_SIZE_simps(2))
  have "db_bulk_insert_next con2 ?r (example_sys\<lparr>world := []\<rparr>) = None"
    using long_row_overflows_buffer [OF example_accepts 2, of ?r]
    by (simp add: BULK_PACKET_SIZE_simps(2))
  moreover have "length ?r < BULK_PACKET_SIZE" by (simp add: BULK_PACKET_SIZE_simps(2))
  ultimately show ?thesis by blast
qed

text \<open>How a driver's result reaches the caller of \<open>db_query\<close>: a result set is returned exactly when
  the driver reports no error; \<open>SB_DB_ERROR_RECONNECTED\<close> is never visible, it becomes
  \<open>SB_DB_ERROR_RESTART_TRANSACTION\<close>; and exactly one event is counted for the connection's thread: a
  query by its type on success, a reconnect, an ignored error, or nothing on a fatal error.\<close>

theorem db_query_error_mapping:
  assumes "driver con = Some drv" and "0 \<le> thread_id con"
    and "nat (thread_id con) < length (thread_stats (stats s))"
    and "op_query (ops drv) (c_ptr con) query (zero_rs\<lparr>rs_connection := Some (c_ptr con)\<rparr>) (world s) = (err, r, w)"
  shows "\<exists>ok con' s'. db_query con query s = Some (ok, con', s') \<and> ok = (err = SB_DB_ERROR_NONE) \<and>
           db_errno con' = (if err = SB_DB_ERROR_RECONNECTED then SB_DB_ERROR_RESTART_TRANSACTION else err) \<and>
           world s' = w \<and>
           reconnects (total_stat (thread_stats (stats s')))
             = reconnects (total_stat (thread_stats (stats s))) + (if err = SB_DB_ERROR_RECONNECTED then 1 else 0) \<and>
           db_errors (total_stat (thread_stats (stats s')))
             = db_errors (total_stat (thread_stats (stats s)))
               + (if err = SB_DB_ERROR_RESTART_TRANSACTION then 1 else 0) \<and>
           transactions (total_stat (thread_stats (stats s')))
             = transactions (total_stat (thread_stats (stats s)))
               + (if err = SB_DB_ERROR_NONE \<and> db_get_query_type query = DB_QUERY_TYPE_COMMIT then 1 else 0)"
proof -
  have u: "upd_thread_stat (thread_id con) f (stats s) = Some ((stats s)\<lparr>thread_stats :=
      (thread_stats (stats s))[nat (thread_id con) := f (thread_stats (stats s) ! nat (thread_id con))]\<rparr>)" for f
    using assms(2,3) by (simp add: upd_thread_stat_def)
  show ?thesis
    using assms
    by (cases err)
      (auto simp: db_query_def account_result_def Let_def u db_update_thread_stats_def
        total_stat_update [OF assms(3)] count_query_fields)
qed

theorem db_query_error_mapping_witness:
  "\<exists>ok con' s'. db_query example_conn ''commit'' example_sys = Some (ok, con', s') \<and> ok \<and>
     transactions (total_stat (thread_stats (stats s'))) = 1"
proof -
  have t: "0 \<le> thread_id example_conn" "nat (thread_id example_conn) < length (thread_stats (stats example_sys))"
    by (simp_all add: example_conn_def zero_conn_def example_sys_def example_stats_def Let_def)
  have q: "op_query (ops example_driver) (c_ptr example_conn) ''commit'' (zero_rs\<lparr>rs_connection := Some (c_ptr example_conn)\<rparr>)
      (world example_sys) = (SB_DB_ERROR_NONE, zero_rs\<lparr>rs_connection := Some (c_ptr example_conn)\<rparr>, [''commit''])"
    by (simp add: example_driver_def)
  have "db_get_query_type ''commit'' = DB_QUERY_TYPE_COMMIT" by code_simp
  moreover have "transactions (total_stat (thread_stats (stats example_sys))) = 0"
    by (simp add: example_sys_def example_stats_def Let_def total_stat_def add_stat_def)
  ultimately show ?thesis
    using db_query_error_mapping [OF example_conn_simps(1) t q] by auto
qed

lemma find_driver_last:
  "find_driver n d0 ds = (case List.find (\<lambda>d. sname d = n) ds of
     Some d \<Rightarrow> Some d | None \<Rightarrow> (if ds = [] then d0 else Some (last ds)))"
  by (induction ds arbitrary: d0) (auto split: option.splits)

text \<open>Which driver \<open>db_init\<close> uses for a given name: the first registered driver of that name and,
  when no driver has the name, the last registered one. The search loop leaves the variable at the
  last driver, so the message for an invalid driver name is never printed.\<close>

theorem unknown_driver_selects_last:
  assumes "drivers \<noteq> []"
  shows "select_driver (Some n) g drivers =
           Some (case List.find (\<lambda>d. sname d = n) drivers of Some d \<Rightarrow> d | None \<Rightarrow> last drivers)"
  using assms by (auto simp: select_driver_def find_driver_last split: option.splits)

theorem unknown_driver_selects_last_witness:
  "select_driver (Some ''oracle'') \<lparr>ps_mode = DB_PS_MODE_AUTO, g_driver = None, g_debug = False\<rparr>
     [example_driver] = Some example_driver"
  using unknown_driver_selects_last [of "[example_driver]" "''oracle''"]
  by (simp add: example_driver_def)

text \<open>\<open>db_fetch_row\<close> frees the row at the end of a result set but keeps the pointer to it: whatever
  operation on the result set follows the last row, another fetch or \<open>db_free_results\<close>, frees the row
  a second time.\<close>

theorem fetch_to_end_double_free:
  assumes "driver con = Some drv" and "rs_connection (rs con) \<noteq> None" and "rs_statement (rs con) = None"
    and "rs_row (rs con) \<noteq> RowFreed"
    and "op_fetch_row (ops drv) ((rs con)\<lparr>rs_row := RowLive\<rparr>) (world s) = (rc, w)" and "rc \<noteq> 0"
    and "\<And>r w. rs_row (fst (snd (op_free_results (ops drv) r w))) = rs_row r"
  shows "\<exists>con' s'. db_fetch_row True con s = Some (False, con', s') \<and>
                   db_free_results con' s' = None \<and> db_fetch_row True con' s' = None"
proof -
  have "db_free_row (rs_row (rs con)) \<noteq> None" using assms(4) by (cases "rs_row (rs con)") auto
  moreover obtain rc2 r2 w2 where
    "op_free_results (ops drv) ((rs con)\<lparr>rs_row := RowFreed\<rparr>) w = (rc2, r2, w2)" by (metis prod_cases3)
  moreover from this have "rs_row r2 = RowFreed" using assms(7) [of "(rs con)\<lparr>rs_row := RowFreed\<rparr>" w] by simp
  ultimately show ?thesis
    using assms by (auto simp: db_fetch_row_def db_free_results_def Let_def)
qed

theorem fetch_to_end_double_free_witness:
  "\<exists>con' s'. db_fetch_row True (example_conn\<lparr>rs := zero_rs\<lparr>rs_connection := Some None\<rparr>\<rparr>) example_sys
       = Some (False, con', s') \<and> db_free_results con' s' = None"
  using fetch_to_end_double_free [of "example_conn\<lparr>rs := zero_rs\<lparr>rs_connection := Some None\<rparr>\<rparr>" example_driver
      example_sys 1 "[]"]
  by (auto simp: example_driver_def zero_rs_def)

text \<open>Printing a bound value never truncates silently: the result is the length of the whole text,
  which is then in the buffer, when the text and its NUL fit, and -1 otherwise.\<close>

theorem print_value_all_or_nothing:
  assumes "bind_text var = Some t"
  shows "if length t < n then db_print_value var n = Some (Some t, int (length t))
         else \<exists>out. db_print_value var n = Some (out, - 1)"
  using dbp.print_fits [OF assms] dbp.print_short [OF assms] by auto

theorem print_value_all_or_nothing_witness:
  "db_print_value \<lparr>b_type = DB_TYPE_VARCHAR, b_buffer = StringData ''abc'', b_data_len = None, b_max_len = 3,
                   b_is_null = None\<rparr> 8 = Some (Some (quoted ''abc''), 5)"
  using print_value_all_or_nothing [of "\<lparr>b_type = DB_TYPE_VARCHAR, b_buffer = StringData ''abc'',
      b_data_len = None, b_max_len = 3, b_is_null = None\<rparr>" "quoted ''abc''" 8]
  by (simp add: bind_text_def value_text_def quoted_def)

end
