(* ===== verification/Placeholders.thy ===== *)
theory Placeholders
  imports DB_Driver
begin

text \<open>
  What the drivers share. The loop that replaces the placeholders of a query: \<open>mysql_drv_execute\<close>,
  \<open>pgsql_drv_execute\<close>, \<open>drizzle_drv_execute\<close> and \<open>ora_drv_execute\<close> put in the bound values,
  \<open>pgsql_drv_prepare\<close> and \<open>ora_drv_prepare\<close> the numbered parameters. The
  buffer grows by doubling; its contents are a string, its size a 32-bit word, \<^const>\<open>None\<close> a NULL
  buffer. \<open>emit k room\<close> prints the replacement of placeholder \<open>k\<close> into \<open>room\<close> bytes and \<open>alloc n\<close> tells
  whether \<open>realloc\<close> to \<open>n\<close> bytes succeeds. The loop has no result when it accesses memory outside the
  buffer or does not end; \<open>Inl\<close> is a failed allocation.
\<close>

section \<open>The loop\<close>

text \<open>The size and the buffer after the test at the label \<open>again\<close>; a \<open>realloc\<close> that shrinks the
  buffer, after a wrap-around of its size, loses contents.\<close>

definition grow ::
  "(u32 \<Rightarrow> bool) \<Rightarrow> string option \<Rightarrow> u32 \<Rightarrow> bool \<Rightarrow> (unit + string \<times> u32) option" where
  "grow alloc buf buflen need_realloc =
     (let b = (case buf of None \<Rightarrow> [] | Some b \<Rightarrow> b) in
      if of_nat (length b) + 1 \<ge> buflen \<or> need_realloc then
        (let buflen = (if buflen > 0 then buflen * 2 else 256) in
         if \<not> alloc buflen then Some (Inl ())
         else if length b < unat buflen then Some (Inr (b, buflen)) else None)
      else Some (Inr (b, buflen)))"

partial_function (option) build_query ::
  "(u32 \<Rightarrow> bool) \<Rightarrow> (nat \<Rightarrow> nat \<Rightarrow> (string option \<times> int) option) \<Rightarrow> string \<Rightarrow> string option \<Rightarrow> u32 \<Rightarrow>
   bool \<Rightarrow> nat \<Rightarrow> (unit + string) option" where
  "build_query alloc emit query buf buflen need_realloc vcnt =
     (case query of
        [] \<Rightarrow> (case buf of None \<Rightarrow> None | Some b \<Rightarrow> if length b < unat buflen then Some (Inr b) else None)
      | c # cs \<Rightarrow>
          (case grow alloc buf buflen need_realloc of
             None \<Rightarrow> None
           | Some (Inl _) \<Rightarrow> Some (Inl ())
           | Some (Inr (b, buflen)) \<Rightarrow>
               (if c \<noteq> CHR ''?'' then
                  (if length b < unat buflen then build_query alloc emit cs (Some (b @ [c])) buflen False vcnt
                   else None)
                else let room = unat buflen - length b in
                  if room \<ge> 2147483648 then None
                  else case emit vcnt room of
                    None \<Rightarrow> None
                  | Some (out, n) \<Rightarrow>
                      (if n < 0 then build_query alloc emit query (Some b) buflen True vcnt
                       else build_query alloc emit cs
                              (Some (b @ (case out of None \<Rightarrow> [] | Some s \<Rightarrow> take (nat n) s))) buflen False
                              (vcnt + 1)))))"

text \<open>The query that the loop should build.\<close>

fun subst_query :: "(nat \<Rightarrow> string) \<Rightarrow> nat \<Rightarrow> string \<Rightarrow> string" where
  "subst_query t k [] = []"
| "subst_query t k (c # cs) =
     (if c = CHR ''?'' then t k @ subst_query t (Suc k) cs else c # subst_query t k cs)"

definition placeholders :: "string \<Rightarrow> nat" where
  "placeholders q = length (filter (\<lambda>c. c = CHR ''?'') q)"

section \<open>Correctness\<close>

text \<open>Sizes that occur while the loop builds a query of at most \<open>N\<close> characters.\<close>

definition sized :: "nat \<Rightarrow> string option \<Rightarrow> u32 \<Rightarrow> bool \<Rightarrow> bool" where
  "sized N buf buflen need \<longleftrightarrow>
     (case buf of
        None \<Rightarrow> buflen = 0 \<and> need
      | Some b \<Rightarrow> length b < unat buflen \<and> unat buflen \<le> 2 * N + 512 \<and> length b \<le> N \<and>
                   (need \<longrightarrow> unat buflen \<le> N + 1))"

definition contents :: "string option \<Rightarrow> string" where
  "contents buf = (case buf of None \<Rightarrow> [] | Some b \<Rightarrow> b)"

lemma grow_sized:
  assumes s: "sized N buf bl need" and N: "N < 2 ^ 29"
  shows "\<exists>bl'. grow (\<lambda>_. True) buf bl need = Some (Inr (contents buf, bl')) \<and>
           length (contents buf) + 1 < unat bl' \<and> unat bl' \<le> 2 * N + 512 \<and> length (contents buf) \<le> N \<and>
           (need \<longrightarrow> 2 * unat bl \<le> unat bl') \<and> unat bl \<le> unat bl'"
proof (cases buf)
  case None
  with s show ?thesis by (simp add: sized_def grow_def contents_def Let_def)
next
  case (Some b)
  from s Some have b: "length b < unat bl" "unat bl \<le> 2 * N + 512" "length b \<le> N"
    "need \<longrightarrow> unat bl \<le> N + 1" by (simp_all add: sized_def)
  have u: "unat (of_nat (length b) + 1 :: u32) = length b + 1"
    using b(3) N by (simp add: unat_word_ariths unat_of_nat take_bit_nat_eq_self)
  show ?thesis
  proof (cases "length b + 1 \<ge> unat bl \<or> need")
    case True
    then have le: "unat bl \<le> N + 1" using b by auto
    have p: "bl > 0" using b(1) by (metis not_less_zero unat_0 word_gt_0)
    have d: "unat (bl * 2) = 2 * unat bl" using le N by (simp add: unat_word_ariths)
    have "grow (\<lambda>_. True) buf bl need = Some (Inr (b, bl * 2))"
      using True p d b(1) u Some by (auto simp: grow_def Let_def word_le_nat_alt)
    with d b le show ?thesis
      by (intro exI [of _ "bl * 2"]) (simp add: contents_def Some)
  next
    case False
    then have "grow (\<lambda>_. True) buf bl need = Some (Inr (b, bl))"
      using u Some by (simp add: grow_def Let_def word_le_nat_alt)
    with False b show ?thesis by (intro exI [of _ bl]) (simp add: contents_def Some)
  qed
qed

context value_printer
begin

lemma build_char:
  assumes "sized N buf bl need" and "N < 2 ^ 29" and "length (contents buf) < N" and "c \<noteq> CHR ''?''"
  shows "\<exists>bl'. build_query (\<lambda>_. True) emit (c # cs) buf bl need k =
                 build_query (\<lambda>_. True) emit cs (Some (contents buf @ [c])) bl' False k \<and>
               sized N (Some (contents buf @ [c])) bl' False"
proof -
  from grow_sized [OF assms(1,2)] obtain bl' where g: "grow (\<lambda>_. True) buf bl need = Some (Inr (contents buf, bl'))"
    "length (contents buf) + 1 < unat bl'" "unat bl' \<le> 2 * N + 512" by blast
  have "build_query (\<lambda>_. True) emit (c # cs) buf bl need k =
        build_query (\<lambda>_. True) emit cs (Some (contents buf @ [c])) bl' False k"
    by (subst build_query.simps) (use g(1,2) assms(4) in simp)
  with g assms(3) show ?thesis by (intro exI [of _ bl']) (simp add: sized_def)
qed

lemma build_placeholder:
  assumes "sized N buf bl need" and "N < 2 ^ 29" and "length (contents buf) + length t \<le> N"
    and "text_of v = Some t" and "emit k = print v"
  shows "\<exists>bl'. build_query (\<lambda>_. True) emit (CHR ''?'' # cs) buf bl need k =
                 build_query (\<lambda>_. True) emit cs (Some (contents buf @ t)) bl' False (Suc k) \<and>
               sized N (Some (contents buf @ t)) bl' False"
  using assms(1,3)
proof (induction "2 * (N + 2 - unat bl) + (if need then 0 else 1)" arbitrary: buf bl need rule: less_induct)
  case less
  from grow_sized [OF less.prems(1) assms(2)] obtain bl' where
    g: "grow (\<lambda>_. True) buf bl need = Some (Inr (contents buf, bl'))"
      "length (contents buf) + 1 < unat bl'" "unat bl' \<le> 2 * N + 512"
      "need \<longrightarrow> 2 * unat bl \<le> unat bl'" "unat bl \<le> unat bl'" by blast
  let ?b = "contents buf" and ?room = "unat bl' - length (contents buf)"
  have room: "\<not> 2147483648 \<le> ?room" using g(3) assms(2) by simp
  show ?case
  proof (cases "length t < ?room")
    case True
    have "build_query (\<lambda>_. True) emit (CHR ''?'' # cs) buf bl need k =
          build_query (\<lambda>_. True) emit cs (Some (?b @ t)) bl' False (Suc k)"
      by (subst build_query.simps) (use g(1) room print_fits [OF assms(4) True] assms(5) in \<open>simp add: Let_def\<close>)
    with True g(3) less.prems(2) show ?thesis by (intro exI [of _ bl']) (simp add: sized_def)
  next
    case False
    then obtain out where "print v ?room = Some (out, - 1)" using print_short [OF assms(4)] by force
    then have eq: "build_query (\<lambda>_. True) emit (CHR ''?'' # cs) buf bl need k =
          build_query (\<lambda>_. True) emit (CHR ''?'' # cs) (Some ?b) bl' True k"
      by (subst build_query.simps) (use g(1) room assms(5) in \<open>simp add: Let_def\<close>)
    have small: "unat bl' \<le> N" using False less.prems(2) g(2) by simp
    have s': "sized N (Some ?b) bl' True" using g(2,3) small less.prems(2) by (simp add: sized_def)
    have "need \<Longrightarrow> unat bl < unat bl'" using g(2,4) by (cases "unat bl = 0") auto
    then have "2 * (N + 2 - unat bl') + (if True then 0 else 1) < 2 * (N + 2 - unat bl) + (if need then 0 else 1)"
      using small g(5) by auto
    from less.hyps [OF this s'] less.prems(2) eq show ?thesis by (simp add: contents_def)
  qed
qed

text \<open>The loop builds exactly the substituted query, whatever the sizes of the replacements.\<close>

lemma build_query_subst:
  assumes "sized N buf bl need" and "N < 2 ^ 29" and "length (contents buf) + length (subst_query t k q) \<le> N"
    and "\<And>i. i < placeholders q \<Longrightarrow> text_of (v (k + i)) = Some (t (k + i)) \<and> emit (k + i) = print (v (k + i))"
    and "buf \<noteq> None \<or> q \<noteq> []"
  shows "build_query (\<lambda>_. True) emit q buf bl need k = Some (Inr (contents buf @ subst_query t k q))"
  using assms(1,3-)
proof (induction q arbitrary: buf bl need k)
  case Nil
  then obtain b where "buf = Some b" by auto
  with Nil.prems(1) show ?case
    by (subst build_query.simps) (simp add: sized_def contents_def)
next
  case (Cons c cs)
  show ?case
  proof (cases "c = CHR ''?''")
    case True
    have p: "placeholders (c # cs) = Suc (placeholders cs)" using True by (simp add: placeholders_def)
    from Cons.prems(3) [of 0] p have v: "text_of (v k) = Some (t k)" "emit k = print (v k)" by simp_all
    have n: "length (contents buf) + length (t k) \<le> N" using Cons.prems(2) True by simp
    from build_placeholder [where emit = emit, OF Cons.prems(1) assms(2) n v] obtain bl' where
      e: "build_query (\<lambda>_. True) emit (c # cs) buf bl need k =
            build_query (\<lambda>_. True) emit cs (Some (contents buf @ t k)) bl' False (Suc k)"
      "sized N (Some (contents buf @ t k)) bl' False" unfolding True by blast
    have "text_of (v (Suc k + i)) = Some (t (Suc k + i)) \<and> emit (Suc k + i) = print (v (Suc k + i))"
      if "i < placeholders cs" for i using Cons.prems(3) [of "Suc i"] that p by simp
    from Cons.IH [OF e(2) _ this] Cons.prems(2) True e(1) show ?thesis by (simp add: contents_def)
  next
    case False
    have p: "placeholders (c # cs) = placeholders cs" using False by (simp add: placeholders_def)
    have n: "length (contents buf) < N" using Cons.prems(2) False by simp
    from build_char [where emit = emit, OF Cons.prems(1) assms(2) n False] obtain bl' where
      e: "build_query (\<lambda>_. True) emit (c # cs) buf bl need k =
            build_query (\<lambda>_. True) emit cs (Some (contents buf @ [c])) bl' False k"
      "sized N (Some (contents buf @ [c])) bl' False" by blast
    from Cons.IH [OF e(2) _ Cons.prems(3)] Cons.prems(2) False p e(1) show ?thesis by (simp add: contents_def)
  qed
qed

lemma build_query_start:
  assumes "q \<noteq> []" and "length (subst_query t k q) < 2 ^ 29"
    and "\<And>i. i < placeholders q \<Longrightarrow> text_of (v (k + i)) = Some (t (k + i)) \<and> emit (k + i) = print (v (k + i))"
  shows "build_query (\<lambda>_. True) emit q None 0 True k = Some (Inr (subst_query t k q))"
  using build_query_subst [where emit = emit and v = v and buf = None and need = True and bl = 0,
      OF _ assms(2) _ assms(3)] assms(1)
  by (simp add: sized_def contents_def)

end

text \<open>An empty query leaves the buffer NULL.\<close>

lemma build_query_empty: "build_query alloc emit [] None 0 True k = None"
  by (subst build_query.simps) simp

section \<open>Bound values\<close>

text \<open>The value printed for placeholder \<open>k\<close>; a statement without that parameter is read out of bounds.\<close>

definition bound_value :: "db_stmt \<Rightarrow> nat \<Rightarrow> nat \<Rightarrow> (string option \<times> int) option" where
  "bound_value stmt k room =
     (case bound_param stmt of
        None \<Rightarrow> None
      | Some ps \<Rightarrow> (if k < length ps then db_print_value (ps ! k) room else None))"

text \<open>Executing an emulated statement builds the query with the texts of the bound values.\<close>

lemma bound_query_built:
  assumes "bound_param stmt = Some ps" and "placeholders q \<le> length ps" and "\<forall>v \<in> set ps. bind_text v \<noteq> None"
    and "q \<noteq> []" and "length (subst_query (\<lambda>k. the (bind_text (ps ! k))) 0 q) < 2 ^ 29"
  shows "build_query (\<lambda>_. True) (bound_value stmt) q None 0 True 0 =
           Some (Inr (subst_query (\<lambda>k. the (bind_text (ps ! k))) 0 q))"
proof -
  let ?t = "\<lambda>k. the (bind_text (ps ! k))"
  have "bind_text (ps ! (0 + i)) = Some (?t (0 + i)) \<and> bound_value stmt (0 + i) = db_print_value (ps ! (0 + i))"
    if "i < placeholders q" for i
  proof -
    have "i < length ps" using that assms(2) by simp
    then have "bind_text (ps ! i) \<noteq> None" using assms(3) nth_mem by blast
    with \<open>i < length ps\<close> assms(1) show ?thesis by (auto simp: bound_value_def fun_eq_iff)
  qed
  from dbp.build_query_start [where emit = "bound_value stmt" and v = "\<lambda>k. ps ! k", OF assms(4,5) this]
  show ?thesis by simp
qed

lemma subst_query_cong:
  "(\<And>i. i < placeholders q \<Longrightarrow> f (k + i) = g (k + i)) \<Longrightarrow> subst_query f k q = subst_query g k q"
proof (induction q arbitrary: k)
  case (Cons c q)
  have "f (Suc k + i) = g (Suc k + i)" if "c = CHR ''?''" "i < placeholders q" for i
    using Cons.prems [of "Suc i"] that by (simp add: placeholders_def)
  moreover have "f k = g k" if "c = CHR ''?''" using Cons.prems [of 0] that by (simp add: placeholders_def)
  moreover have "f (k + i) = g (k + i)" if "c \<noteq> CHR ''?''" "i < placeholders q" for i
    using Cons.prems [of i] that by (simp add: placeholders_def)
  ultimately show ?case using Cons.IH [of k] Cons.IH [of "Suc k"] by simp
qed simp

section \<open>Hosts\<close>

text \<open>The next position in a circular list of \<open>n\<close> items, the head skipped.\<close>

definition next_pos :: "nat \<Rightarrow> nat \<Rightarrow> nat" where
  "next_pos n pos =
     (let step = (\<lambda>p. if p = n then 0 else p + 1); p = step pos in if p = 0 then step p else p)"

lemma next_pos_cycle:
  assumes "0 < n"
  shows "next_pos n (if k = 0 then 0 else Suc ((k - 1) mod n)) = Suc (k mod n)"
proof (cases k)
  case 0
  with assms show ?thesis by (simp add: next_pos_def Let_def)
next
  case (Suc j)
  show ?thesis
  proof (cases "Suc (j mod n) = n")
    case True
    then have "Suc j mod n = 0" by (simp add: mod_Suc)
    with True Suc assms show ?thesis by (simp add: next_pos_def Let_def)
  next
    case False
    then have "Suc j mod n = Suc (j mod n)" by (simp add: mod_Suc)
    with False Suc show ?thesis by (simp add: next_pos_def Let_def)
  qed
qed

section \<open>Operations of a driver\<close>

text \<open>
  A driver's operations in the table of the abstraction layer: the world is \<^const>\<open>None\<close> once an
  operation had undefined behaviour or did not return.
\<close>

definition lift_op :: "'x \<Rightarrow> ('d \<Rightarrow> ('x \<times> 'd) option) \<Rightarrow> 'd option \<Rightarrow> 'x \<times> 'd option" where
  "lift_op dflt f w =
     (case Option.bind w f of None \<Rightarrow> (dflt, None) | Some (x, d) \<Rightarrow> (x, Some d))"

definition lift_op2 :: "'x \<times> 'y \<Rightarrow> ('d \<Rightarrow> ('x \<times> 'y \<times> 'd) option) \<Rightarrow> 'd option \<Rightarrow> 'x \<times> 'y \<times> 'd option" where
  "lift_op2 dflt f w =
     (let ((x, y), w) = lift_op dflt (\<lambda>d. map_option (\<lambda>(x, y, d). ((x, y), d)) (f d)) w in (x, y, w))"

end
