(* ===== verification/MySQL.thy ===== *)
theory MySQL
  imports Placeholders
begin

text \<open>
  The MySQL driver \<open>sysbench/drivers/mysql/drv_mysql.c\<close>, compiled with prepared statements
  (\<open>HAVE_PS\<close>). The client library is a record of functions over its own world \<^typ>\<open>'m\<close>; the
  error numbers and the test of \<open>sb_globals.error\<close> are fields of it. Pointers to structures that the
  driver allocates are addresses into a store. The positions in the circular lists of hosts and
  sockets are numbers: 0 is the head, \<open>i + 1\<close> the \<open>i\<close>-th item. \<^const>\<open>None\<close> as the result of an
  operation is a NULL or dangling pointer that is followed, or a loop that does not end. Calls of
  \<open>log_text\<close> are not part of the model.
\<close>

section \<open>Data\<close>

definition mysql_drv_args :: "sb_arg list" where
  "mysql_drv_args =
    [\<lparr>arg_name = ''mysql-host'', arg_desc = ''MySQL server host'', arg_type = SB_ARG_TYPE_LIST,
      arg_value = Some ''localhost''\<rparr>,
     \<lparr>arg_name = ''mysql-port'', arg_desc = ''MySQL server port'', arg_type = SB_ARG_TYPE_INT,
      arg_value = Some ''3306''\<rparr>,
     \<lparr>arg_name = ''mysql-socket'', arg_desc = ''MySQL socket'', arg_type = SB_ARG_TYPE_LIST, arg_value = None\<rparr>,
     \<lparr>arg_name = ''mysql-user'', arg_desc = ''MySQL user'', arg_type = SB_ARG_TYPE_STRING,
      arg_value = Some ''sbtest''\<rparr>,
     \<lparr>arg_name = ''mysql-password'', arg_desc = ''MySQL password'', arg_type = SB_ARG_TYPE_STRING,
      arg_value = Some []\<rparr>,
     \<lparr>arg_name = ''mysql-db'', arg_desc = ''MySQL database name'', arg_type = SB_ARG_TYPE_STRING,
      arg_value = Some ''sbtest''\<rparr>,
     \<lparr>arg_name = ''mysql-table-engine'',
      arg_desc = ''storage engine to use for the test table {myisam,innodb,bdb,heap,ndbcluster,federated}'',
      arg_type = SB_ARG_TYPE_STRING, arg_value = Some ''innodb''\<rparr>,
     \<lparr>arg_name = ''mysql-engine-trx'',
      arg_desc = ''whether storage engine used is transactional or not {yes,no,auto}'',
      arg_type = SB_ARG_TYPE_STRING, arg_value = Some ''auto''\<rparr>,
     \<lparr>arg_name = ''mysql-ssl'', arg_desc = ''use SSL connections, if available in the client library'',
      arg_type = SB_ARG_TYPE_FLAG, arg_value = Some ''off''\<rparr>,
     \<lparr>arg_name = ''mysql-compression'', arg_desc = ''use compression, if available in the client library'',
      arg_type = SB_ARG_TYPE_FLAG, arg_value = Some ''off''\<rparr>,
     \<lparr>arg_name = ''myisam-max-rows'', arg_desc = ''max-rows parameter for MyISAM tables'',
      arg_type = SB_ARG_TYPE_INT, arg_value = Some ''1000000''\<rparr>,
     \<lparr>arg_name = ''mysql-debug'', arg_desc = ''dump all client library calls'',
      arg_type = SB_ARG_TYPE_FLAG, arg_value = Some ''off''\<rparr>,
     \<lparr>arg_name = ''mysql-ignore-errors'', arg_desc = ''list of errors to ignore, or \"all\"'',
      arg_type = SB_ARG_TYPE_LIST, arg_value = Some ''1213,1020,1205''\<rparr>,
     \<lparr>arg_name = ''mysql-dry-run'',
      arg_desc = ''Dry run, pretent that all MySQL client API calls are successful without executing them'',
      arg_type = SB_ARG_TYPE_FLAG, arg_value = Some ''off''\<rparr>]"

datatype mysql_type =
  MYSQL_TYPE_TINY | MYSQL_TYPE_SHORT | MYSQL_TYPE_LONG | MYSQL_TYPE_LONGLONG | MYSQL_TYPE_FLOAT
| MYSQL_TYPE_DOUBLE | MYSQL_TYPE_DATETIME | MYSQL_TYPE_TIMESTAMP | MYSQL_TYPE_STRING
| MYSQL_TYPE_VAR_STRING

definition db_mysql_bind_map :: "(db_bind_type \<times> mysql_type) list" where
  "db_mysql_bind_map =
    [(DB_TYPE_TINYINT, MYSQL_TYPE_TINY), (DB_TYPE_SMALLINT, MYSQL_TYPE_SHORT), (DB_TYPE_INT, MYSQL_TYPE_LONG),
     (DB_TYPE_BIGINT, MYSQL_TYPE_LONGLONG), (DB_TYPE_FLOAT, MYSQL_TYPE_FLOAT),
     (DB_TYPE_DOUBLE, MYSQL_TYPE_DOUBLE), (DB_TYPE_DATETIME, MYSQL_TYPE_DATETIME),
     (DB_TYPE_TIMESTAMP, MYSQL_TYPE_TIMESTAMP), (DB_TYPE_CHAR, MYSQL_TYPE_STRING),
     (DB_TYPE_VARCHAR, MYSQL_TYPE_VAR_STRING)]"

text \<open>\<^const>\<open>None\<close> stands for the result -1.\<close>

definition get_mysql_bind_type :: "db_bind_type \<Rightarrow> mysql_type option" where
  "get_mysql_bind_type type = map_option snd (find (\<lambda>m. fst m = type) db_mysql_bind_map)"

record mysql_bind =
  buffer_type :: "mysql_type option"
  mb_buffer :: bind_data
  buffer_length :: u64
  mb_length :: "u64 option"
  mb_is_null :: "bool option"

definition to_mysql_bind :: "db_bind \<Rightarrow> mysql_bind" where
  "to_mysql_bind p = \<lparr>buffer_type = get_mysql_bind_type (b_type p), mb_buffer = b_buffer p,
     buffer_length = b_max_len p, mb_length = b_data_len p, mb_is_null = b_is_null p\<rparr>"

record mysql_conn =
  mc_mysql :: nat
  mc_host :: "string option"
  mc_user :: "string option"
  mc_password :: "string option"
  mc_db :: "string option"
  mc_port :: u32
  mc_socket :: "string option"

record 'm mysql_api =
  ER_UNSUPPORTED_PS :: u32
  lost_connection :: "u32 \<Rightarrow> bool"
  global_error :: "'m \<Rightarrow> bool"
  mysql_new :: "'m \<Rightarrow> nat \<times> 'm"
  mysql_ssl_set :: "nat \<Rightarrow> 'm \<Rightarrow> 'm"
  mysql_compress :: "nat \<Rightarrow> 'm \<Rightarrow> 'm"
  mysql_real_connect :: "mysql_conn \<Rightarrow> 'm \<Rightarrow> bool \<times> 'm"
  mysql_errno :: "nat \<Rightarrow> 'm \<Rightarrow> u32"
  mysql_close :: "nat \<Rightarrow> 'm \<Rightarrow> 'm"
  mysql_real_query :: "nat \<Rightarrow> string \<Rightarrow> 'm \<Rightarrow> u32 \<times> 'm"
  mysql_store_result :: "nat \<Rightarrow> 'm \<Rightarrow> nat option \<times> 'm"
  mysql_field_count :: "nat \<Rightarrow> 'm \<Rightarrow> u32"
  mysql_num_rows :: "nat \<Rightarrow> 'm \<Rightarrow> u64"
  mysql_fetch_row :: "nat \<Rightarrow> 'm \<Rightarrow> bool \<times> 'm"
  mysql_free_result :: "nat \<Rightarrow> 'm \<Rightarrow> 'm"
  mysql_stmt_init :: "nat \<Rightarrow> 'm \<Rightarrow> nat option \<times> 'm"
  mysql_stmt_prepare :: "nat \<Rightarrow> string \<Rightarrow> 'm \<Rightarrow> u32 \<times> 'm"
  mysql_stmt_close :: "nat \<Rightarrow> 'm \<Rightarrow> int \<times> 'm"
  mysql_stmt_param_count :: "nat \<Rightarrow> 'm \<Rightarrow> nat"
  mysql_stmt_bind_param :: "nat \<Rightarrow> mysql_bind list \<Rightarrow> 'm \<Rightarrow> bool \<times> 'm"
  mysql_stmt_bind_result :: "nat \<Rightarrow> mysql_bind list \<Rightarrow> 'm \<Rightarrow> bool \<times> 'm"
  mysql_stmt_execute :: "nat \<Rightarrow> 'm \<Rightarrow> u32 \<times> 'm"
  mysql_stmt_store_result :: "nat \<Rightarrow> 'm \<Rightarrow> u32 \<times> 'm"
  mysql_stmt_field_count :: "nat \<Rightarrow> 'm \<Rightarrow> u32"
  mysql_stmt_num_rows :: "nat \<Rightarrow> 'm \<Rightarrow> u64"
  mysql_stmt_fetch :: "nat \<Rightarrow> 'm \<Rightarrow> u32 \<times> 'm"
  mysql_stmt_free_result :: "nat \<Rightarrow> 'm \<Rightarrow> int \<times> 'm"
  mysql_library_end :: "'m \<Rightarrow> 'm"

record 'm mysql_drv =
  my_hosts :: "string list"
  hosts_pos :: nat
  my_sockets :: "string list"
  sockets_pos :: nat
  my_port :: u32
  my_user :: "string option"
  my_password :: "string option"
  my_db :: "string option"
  use_ssl :: bool
  use_compression :: bool
  my_debug :: bool
  my_verbosity :: "8 word"
  ignored_errors :: "string list"
  dry_run :: bool
  my_use_ps :: bool
  my_caps :: drv_caps
  my_conns :: "nat \<Rightarrow> mysql_conn option"
  my_fresh :: nat
  mlib :: 'm

definition mysql_drv_caps :: drv_caps where
  "mysql_drv_caps = \<lparr>multi_rows_insert = True, prepared_statements = False, auto_increment = True,
     needs_commit = False, caps_serial = False, unsigned_int = True\<rparr>"

section \<open>Initialisation and connections\<close>

text \<open>\<^const>\<open>None\<close>: a list option that does not exist; \<open>Inl\<close>: the exit code of \<open>sb_get_value_int\<close>.\<close>

definition mysql_drv_init :: "options \<Rightarrow> db_ps_mode \<Rightarrow> 'm mysql_drv \<Rightarrow> (int + int \<times> 'm mysql_drv) option" where
  "mysql_drv_init opts ps d =
     (case (sb_get_value_list opts ''mysql-host'', sb_get_value_list opts ''mysql-socket'',
            sb_get_value_list opts ''mysql-ignore-errors'') of
        (Some hosts, Some sockets, Some ignored) \<Rightarrow>
          (if hosts = [] then Some (Inr (1, d\<lparr>my_hosts := []\<rparr>))
           else case sb_get_value_int opts ''mysql-port'' of
             Inl c \<Rightarrow> Some (Inl c)
           | Inr port \<Rightarrow>
               (let dbg = sb_get_value_flag opts ''mysql-debug'' in
                Some (Inr (0, d\<lparr>my_hosts := map v_data hosts, hosts_pos := 0, my_sockets := map v_data sockets,
                  sockets_pos := 0, my_port := word_of_int port,
                  my_user := sb_get_value_string opts ''mysql-user'',
                  my_password := sb_get_value_string opts ''mysql-password'',
                  my_db := sb_get_value_string opts ''mysql-db'',
                  use_ssl := sb_get_value_flag opts ''mysql-ssl'',
                  use_compression := sb_get_value_flag opts ''mysql-compression'', my_debug := dbg,
                  my_verbosity := (if dbg then 5 else my_verbosity d), ignored_errors := map v_data ignored,
                  dry_run := sb_get_value_flag opts ''mysql-dry-run'',
                  my_caps := (my_caps d)\<lparr>prepared_statements := True\<rparr>,
                  my_use_ps := (ps \<noteq> DB_PS_MODE_DISABLE)\<rparr>))))
      | _ \<Rightarrow> None)"

definition mysql_drv_describe :: "'m mysql_drv \<Rightarrow> int \<times> drv_caps \<times> 'm mysql_drv" where
  "mysql_drv_describe d = (0, my_caps d, d)"

text \<open>\<open>True\<close>: the connection failed.\<close>

definition mysql_drv_real_connect :: "'m mysql_api \<Rightarrow> mysql_conn \<Rightarrow> 'm mysql_drv \<Rightarrow> bool \<times> 'm mysql_drv" where
  "mysql_drv_real_connect api c d =
     (let d = (if use_ssl d then d\<lparr>mlib := mysql_ssl_set api (mc_mysql c) (mlib d)\<rparr> else d);
          d = (if use_compression d then d\<lparr>mlib := mysql_compress api (mc_mysql c) (mlib d)\<rparr> else d);
          (ok, m) = mysql_real_connect api c (mlib d)
      in (\<not> ok, d\<lparr>mlib := m\<rparr>))"

text \<open>The part of \<open>mysql_drv_connect\<close> under \<open>hosts_mutex\<close>: host and socket of the new connection.\<close>

definition choose_host :: "'m mysql_drv \<Rightarrow> ((string option \<times> string option) \<times> 'm mysql_drv) option" where
  "choose_host d =
     (if my_sockets d = [] then
        (let p = next_pos (length (my_hosts d)) (hosts_pos d); d = d\<lparr>hosts_pos := p\<rparr> in
         if p = 0 then None else Some ((Some (my_hosts d ! (p - 1)), None), d))
      else
        (let p = next_pos (length (my_sockets d)) (sockets_pos d); d = d\<lparr>sockets_pos := p\<rparr> in
         if p = 0 then None else Some ((Some ''localhost'', Some (my_sockets d ! (p - 1))), d)))"

definition mysql_drv_connect ::
  "'m mysql_api \<Rightarrow> bool \<Rightarrow> 'm mysql_drv \<Rightarrow> (int \<times> nat option \<times> 'm mysql_drv) option" where
  "mysql_drv_connect api alloc d =
     (if dry_run d then Some (0, None, d)
      else if \<not> alloc then Some (1, None, d)
      else let (h, m) = mysql_new api (mlib d) in
        case choose_host (d\<lparr>mlib := m\<rparr>) of
          None \<Rightarrow> None
        | Some ((host, socket), d) \<Rightarrow>
            (let c = \<lparr>mc_mysql = h, mc_host = host, mc_user = my_user d, mc_password = my_password d,
                      mc_db = my_db d, mc_port = my_port d, mc_socket = socket\<rparr>;
                 (failed, d) = mysql_drv_real_connect api c d
             in if failed then Some (1, None, d)
                else Some (0, Some (my_fresh d), d\<lparr>my_conns := (my_conns d)(my_fresh d \<mapsto> c),
                                                   my_fresh := my_fresh d + 1\<rparr>)))"

definition mysql_drv_disconnect :: "'m mysql_api \<Rightarrow> nat option \<Rightarrow> 'm mysql_drv \<Rightarrow> (int \<times> 'm mysql_drv) option" where
  "mysql_drv_disconnect api p d =
     (if dry_run d then Some (0, d)
      else case p of
        None \<Rightarrow> Some (0, d)
      | Some a \<Rightarrow>
          (case my_conns d a of
             None \<Rightarrow> None
           | Some c \<Rightarrow> Some (0, d\<lparr>mlib := mysql_close api (mc_mysql c) (mlib d),
                                   my_conns := (my_conns d)(a := None)\<rparr>)))"

text \<open>The connection that \<open>ptr\<close> points to; following NULL or a freed pointer has no result.\<close>

definition conn_of :: "nat option \<Rightarrow> 'm mysql_drv \<Rightarrow> mysql_conn option" where
  "conn_of p d = Option.bind p (my_conns d)"

section \<open>Errors\<close>

partial_function (option) reconnect_loop ::
  "'m mysql_api \<Rightarrow> mysql_conn \<Rightarrow> 'm mysql_drv \<Rightarrow> (db_error \<times> 'm mysql_drv) option" where
  "reconnect_loop api c d =
     (let (failed, d) = mysql_drv_real_connect api c d in
      if failed then
        (if global_error api (mlib d) then Some (SB_DB_ERROR_FAILED, d) else reconnect_loop api c d)
      else Some (SB_DB_ERROR_RECONNECTED, d))"

definition mysql_drv_reconnect ::
  "'m mysql_api \<Rightarrow> mysql_conn \<Rightarrow> 'm mysql_drv \<Rightarrow> (db_error \<times> 'm mysql_drv) option" where
  "mysql_drv_reconnect api c d =
     reconnect_loop api c (d\<lparr>mlib := mysql_close api (mc_mysql c) (mlib d)\<rparr>)"

definition ignores :: "u32 \<Rightarrow> string \<Rightarrow> bool" where
  "ignores error val \<longleftrightarrow> error = word_of_int (atoi val) \<or> val = ''all''"

definition check_error ::
  "'m mysql_api \<Rightarrow> nat option \<Rightarrow> 'm mysql_drv \<Rightarrow> (db_error \<times> 'm mysql_drv) option" where
  "check_error api p d =
     (case conn_of p d of
        None \<Rightarrow> None
      | Some c \<Rightarrow>
          (let error = mysql_errno api (mc_mysql c) (mlib d) in
           case find (ignores error) (ignored_errors d) of
             None \<Rightarrow> Some (SB_DB_ERROR_FAILED, d)
           | Some _ \<Rightarrow>
               (if lost_connection api error then mysql_drv_reconnect api c d
                else Some (SB_DB_ERROR_RESTART_TRANSACTION, d))))"

section \<open>Queries and statements\<close>

definition mysql_drv_query ::
  "'m mysql_api \<Rightarrow> nat option \<Rightarrow> string \<Rightarrow> 'm mysql_drv \<Rightarrow> (db_error \<times> 'm mysql_drv) option" where
  "mysql_drv_query api p query d =
     (if dry_run d then Some (SB_DB_ERROR_NONE, d)
      else case conn_of p d of
        None \<Rightarrow> None
      | Some c \<Rightarrow>
          (let (rc, m) = mysql_real_query api (mc_mysql c) query (mlib d); d = d\<lparr>mlib := m\<rparr> in
           if rc \<noteq> 0 then check_error api p d else Some (SB_DB_ERROR_NONE, d)))"

text \<open>The pointer of the connection is followed before \<open>dry_run\<close> is tested.\<close>

definition mysql_drv_prepare ::
  "'m mysql_api \<Rightarrow> nat option \<Rightarrow> db_stmt \<Rightarrow> string \<Rightarrow> 'm mysql_drv \<Rightarrow> (int \<times> db_stmt \<times> 'm mysql_drv) option" where
  "mysql_drv_prepare api p stmt query d =
     (case conn_of p d of
        None \<Rightarrow> None
      | Some c \<Rightarrow>
          (let emulate = (\<lambda>stmt d. (0, stmt\<lparr>emulated := True, st_query := Some query\<rparr>, d)) in
           if dry_run d then Some (0, stmt, d)
           else if my_use_ps d then
             (case mysql_stmt_init api (mc_mysql c) (mlib d) of
                (None, m) \<Rightarrow> Some (1, stmt, d\<lparr>mlib := m\<rparr>)
              | (Some s, m) \<Rightarrow>
                  (let stmt = stmt\<lparr>st_ptr := Some s\<rparr>; (rc, m) = mysql_stmt_prepare api s query m;
                       d = d\<lparr>mlib := m\<rparr>
                   in if rc \<noteq> 0 then
                        (if mysql_errno api (mc_mysql c) m = ER_UNSUPPORTED_PS api then Some (emulate stmt d)
                         else Some (1, stmt, d\<lparr>mlib := snd (mysql_stmt_close api s m)\<rparr>))
                      else Some (0, stmt\<lparr>st_query := Some query\<rparr>, d)))
           else Some (emulate stmt d)))"

definition mysql_drv_bind_param ::
  "'m mysql_api \<Rightarrow> bool \<Rightarrow> nat option \<Rightarrow> db_stmt \<Rightarrow> db_bind list \<Rightarrow> 'm mysql_drv \<Rightarrow>
   (int \<times> db_stmt \<times> 'm mysql_drv) option" where
  "mysql_drv_bind_param api alloc p stmt params d =
     (case conn_of p d of
        None \<Rightarrow> None
      | Some c \<Rightarrow>
          (if dry_run d then Some (0, stmt, d)
           else if \<not> emulated stmt then
             (case st_ptr stmt of
                None \<Rightarrow> Some (1, stmt, d)
              | Some s \<Rightarrow>
                  (if mysql_stmt_param_count api s (mlib d) \<noteq> length params \<or> \<not> alloc then Some (1, stmt, d)
                   else let (rc, m) = mysql_stmt_bind_param api s (map to_mysql_bind params) (mlib d)
                        in Some (if rc then 1 else 0, stmt, d\<lparr>mlib := m\<rparr>)))
           else if \<not> alloc then Some (1, stmt\<lparr>bound_param := None\<rparr>, d)
           else Some (0, stmt\<lparr>bound_param := Some params\<rparr>, d)))"

definition mysql_drv_bind_result ::
  "'m mysql_api \<Rightarrow> bool \<Rightarrow> nat option \<Rightarrow> db_stmt \<Rightarrow> db_bind list \<Rightarrow> 'm mysql_drv \<Rightarrow> (int \<times> 'm mysql_drv) option" where
  "mysql_drv_bind_result api alloc p stmt params d =
     (case conn_of p d of
        None \<Rightarrow> None
      | Some c \<Rightarrow>
          (case st_ptr stmt of
             None \<Rightarrow> Some (1, d)
           | Some s \<Rightarrow>
               (if \<not> alloc then Some (1, d)
                else let (rc, m) = mysql_stmt_bind_result api s (map to_mysql_bind params) (mlib d)
                     in Some (if rc then 1 else 0, d\<lparr>mlib := m\<rparr>))))"

definition mysql_drv_execute ::
  "'m mysql_api \<Rightarrow> (u32 \<Rightarrow> bool) \<Rightarrow> nat option \<Rightarrow> db_stmt \<Rightarrow> 'm mysql_drv \<Rightarrow> (db_error \<times> 'm mysql_drv) option" where
  "mysql_drv_execute api alloc p stmt d =
     (if dry_run d then Some (SB_DB_ERROR_NONE, d)
      else if \<not> emulated stmt then
        (case st_ptr stmt of
           None \<Rightarrow> Some (SB_DB_ERROR_FAILED, d)
         | Some s \<Rightarrow>
             (let (rc, m) = mysql_stmt_execute api s (mlib d); d = d\<lparr>mlib := m\<rparr> in
              if rc \<noteq> 0 then check_error api p d else Some (SB_DB_ERROR_NONE, d)))
      else case st_query stmt of
        None \<Rightarrow> None
      | Some q \<Rightarrow>
          (case build_query alloc (bound_value stmt) q None 0 True 0 of
             None \<Rightarrow> None
           | Some (Inl _) \<Rightarrow> Some (SB_DB_ERROR_FAILED, d)
           | Some (Inr buf) \<Rightarrow> mysql_drv_query api p buf d))"

section \<open>Result sets\<close>

definition mysql_drv_fetch_row ::
  "'m mysql_api \<Rightarrow> db_result_set \<Rightarrow> 'm mysql_drv \<Rightarrow> (int \<times> 'm mysql_drv) option" where
  "mysql_drv_fetch_row api r d =
     (case rs_ptr r of
        None \<Rightarrow> None
      | Some res \<Rightarrow>
          (let (row, m) = mysql_fetch_row api res (mlib d) in Some (if row then 0 else 1, d\<lparr>mlib := m\<rparr>)))"

definition mysql_drv_num_rows :: "db_result_set \<Rightarrow> 'm mysql_drv \<Rightarrow> u64" where
  "mysql_drv_num_rows r d = (if dry_run d then 0 else nrows r)"

text \<open>The loops that read all rows of a result.\<close>

partial_function (option) fetch_stmt_rows :: "'m mysql_api \<Rightarrow> nat \<Rightarrow> 'm \<Rightarrow> 'm option" where
  "fetch_stmt_rows api s m =
     (let (rc, m) = mysql_stmt_fetch api s m in if rc = 0 then fetch_stmt_rows api s m else Some m)"

partial_function (option) fetch_rows :: "'m mysql_api \<Rightarrow> nat \<Rightarrow> 'm \<Rightarrow> 'm option" where
  "fetch_rows api res m =
     (let (row, m) = mysql_fetch_row api res m in if row then fetch_rows api res m else Some m)"

definition store_stmt_result ::
  "'m mysql_api \<Rightarrow> nat option \<Rightarrow> nat \<Rightarrow> db_result_set \<Rightarrow> 'm mysql_drv \<Rightarrow>
   (db_error \<times> db_result_set \<times> 'm mysql_drv) option" where
  "store_stmt_result api p s r d =
     (let (rc, m) = mysql_stmt_store_result api s (mlib d); d = d\<lparr>mlib := m\<rparr> in
      if rc \<noteq> 0 then
        (if mysql_stmt_field_count api s m = 0 then Some (SB_DB_ERROR_NONE, r, d)
         else case check_error api p d of None \<Rightarrow> None | Some (e, d) \<Rightarrow> Some (e, r, d))
      else case fetch_stmt_rows api s m of
        None \<Rightarrow> None
      | Some m' \<Rightarrow> Some (SB_DB_ERROR_NONE, r\<lparr>nrows := mysql_stmt_num_rows api s m\<rparr>, d\<lparr>mlib := m'\<rparr>))"

definition store_query_result ::
  "'m mysql_api \<Rightarrow> nat option \<Rightarrow> mysql_conn \<Rightarrow> db_result_set \<Rightarrow> 'm mysql_drv \<Rightarrow>
   (db_error \<times> db_result_set \<times> 'm mysql_drv) option" where
  "store_query_result api p c r d =
     (case mysql_store_result api (mc_mysql c) (mlib d) of
        (None, m) \<Rightarrow>
          (let d = d\<lparr>mlib := m\<rparr> in
           if mysql_field_count api (mc_mysql c) m = 0 then Some (SB_DB_ERROR_NONE, r, d)
           else case check_error api p d of None \<Rightarrow> None | Some (e, d) \<Rightarrow> Some (e, r, d))
      | (Some res, m) \<Rightarrow>
          (case fetch_rows api res m of
             None \<Rightarrow> None
           | Some m' \<Rightarrow> Some (SB_DB_ERROR_NONE, r\<lparr>rs_ptr := Some res, nrows := mysql_num_rows api res m\<rparr>,
                              d\<lparr>mlib := m'\<rparr>)))"

text \<open>The result 1 for a statement without handle is the number of \<open>SB_DB_ERROR_RESTART_TRANSACTION\<close>.\<close>

definition mysql_drv_store_results ::
  "'m mysql_api \<Rightarrow> db_result_set \<Rightarrow> 'm mysql_drv \<Rightarrow> (db_error \<times> db_result_set \<times> 'm mysql_drv) option" where
  "mysql_drv_store_results api r d =
     (case rs_connection r of
        None \<Rightarrow> None
      | Some p \<Rightarrow>
          (if dry_run d then Some (SB_DB_ERROR_NONE, r, d)
           else case conn_of p d of
             None \<Rightarrow> None
           | Some c \<Rightarrow>
               (case rs_statement r of
                  Some st \<Rightarrow>
                    (if \<not> emulated st then
                       (case st_ptr st of
                          None \<Rightarrow> Some (SB_DB_ERROR_RESTART_TRANSACTION, r, d)
                        | Some s \<Rightarrow> store_stmt_result api p s r d)
                     else store_query_result api p c r d)
                | None \<Rightarrow> store_query_result api p c r d)))"

definition mysql_drv_free_results ::
  "'m mysql_api \<Rightarrow> db_result_set \<Rightarrow> 'm mysql_drv \<Rightarrow> (int \<times> 'm mysql_drv) option" where
  "mysql_drv_free_results api r d =
     (let query_result = (case rs_ptr r of
            Some res \<Rightarrow> Some (0, d\<lparr>mlib := mysql_free_result api res (mlib d)\<rparr>)
          | None \<Rightarrow> Some (1, d))
      in if dry_run d then Some (0, d)
         else case rs_statement r of
           Some st \<Rightarrow>
             (if \<not> emulated st then
                (case st_ptr st of
                   None \<Rightarrow> None
                 | Some s \<Rightarrow> (let (rc, m) = mysql_stmt_free_result api s (mlib d) in Some (rc, d\<lparr>mlib := m\<rparr>)))
              else query_result)
         | None \<Rightarrow> query_result)"

definition mysql_drv_close ::
  "'m mysql_api \<Rightarrow> db_stmt \<Rightarrow> 'm mysql_drv \<Rightarrow> int \<times> db_stmt \<times> 'm mysql_drv" where
  "mysql_drv_close api stmt d =
     (if dry_run d then (0, stmt, d)
      else let stmt = stmt\<lparr>st_query := None\<rparr> in
        case st_ptr stmt of
          None \<Rightarrow> (1, stmt, d)
        | Some s \<Rightarrow> (let (rc, m) = mysql_stmt_close api s (mlib d) in (rc, stmt, d\<lparr>mlib := m\<rparr>)))"

definition mysql_drv_done :: "'m mysql_api \<Rightarrow> 'm mysql_drv \<Rightarrow> int \<times> 'm mysql_drv" where
  "mysql_drv_done api d = (if dry_run d then (0, d) else (0, d\<lparr>mlib := mysql_library_end api (mlib d)\<rparr>))"

section \<open>The driver\<close>

text \<open>The table of operations for the abstraction layer.\<close>

definition mysql_driver :: "'m mysql_api \<Rightarrow> options \<Rightarrow> db_ps_mode \<Rightarrow> 'm mysql_drv option db_driver" where
  "mysql_driver api opts ps = \<lparr>sname = ''mysql'', lname = ''MySQL driver'', drv_args = Some mysql_drv_args,
     ops = \<lparr>
       op_init = lift_op 1 (\<lambda>d. case mysql_drv_init opts ps d of Some (Inr (rc, d)) \<Rightarrow> Some (rc, d) | _ \<Rightarrow> None),
       op_describe = Some (\<lambda>w. case w of None \<Rightarrow> (1, mysql_drv_caps, None)
                                | Some d \<Rightarrow> (let (rc, caps, d) = mysql_drv_describe d in (rc, caps, Some d))),
       op_connect = lift_op2 (1, None) (mysql_drv_connect api True),
       op_disconnect = (\<lambda>p. lift_op 1 (mysql_drv_disconnect api p)),
       op_prepare = (\<lambda>p st q. lift_op2 (1, st) (mysql_drv_prepare api p st q)),
       op_bind_param = (\<lambda>p st ps. lift_op2 (1, st) (mysql_drv_bind_param api True p st ps)),
       op_bind_result = (\<lambda>p st ps w. let (rc, w) = lift_op 1 (mysql_drv_bind_result api True p st ps) w in (rc, st, w)),
       op_execute = (\<lambda>p st r w. let (e, w) = lift_op SB_DB_ERROR_FAILED
                            (mysql_drv_execute api (\<lambda>_. True) p st) w in (e, r, w)),
       op_fetch_row = (\<lambda>r. lift_op 1 (mysql_drv_fetch_row api r)),
       op_num_rows = (\<lambda>r w. case w of None \<Rightarrow> 0 | Some d \<Rightarrow> mysql_drv_num_rows r d),
       op_free_results = (\<lambda>r w. let (rc, w) = lift_op 1 (mysql_drv_free_results api r) w in (rc, r, w)),
       op_close = (\<lambda>p st. lift_op 1 (\<lambda>d. let (rc, _, d) = mysql_drv_close api st d in Some (rc, d))),
       op_query = (\<lambda>p q r w. let (e, w) = lift_op SB_DB_ERROR_FAILED (mysql_drv_query api p q) w in (e, r, w)),
       op_store_results = (\<lambda>r. lift_op2 (SB_DB_ERROR_FAILED, r) (mysql_drv_store_results api r)),
       op_done = lift_op 1 (\<lambda>d. Some (mysql_drv_done api d))\<rparr>\<rparr>"

section \<open>Facts\<close>

text \<open>The state after \<open>n\<close> attempts to connect.\<close>

definition after_attempts :: "'m mysql_api \<Rightarrow> mysql_conn \<Rightarrow> nat \<Rightarrow> 'm mysql_drv \<Rightarrow> 'm mysql_drv" where
  "after_attempts api c n = (\<lambda>d. snd (mysql_drv_real_connect api c d)) ^^ n"

lemma after_attempts_step:
  "after_attempts api c n (snd (mysql_drv_real_connect api c d)) = after_attempts api c (Suc n) d"
  by (simp only: after_attempts_def funpow_Suc_right comp_def)

lemma reconnect_loop_ends:
  assumes "\<And>i. i < n \<Longrightarrow> fst (mysql_drv_real_connect api c (after_attempts api c i d)) \<and>
             \<not> global_error api (mlib (after_attempts api c (Suc i) d))"
    and "\<not> fst (mysql_drv_real_connect api c (after_attempts api c n d)) \<or>
         global_error api (mlib (after_attempts api c (Suc n) d))"
  shows "reconnect_loop api c d =
           Some (if fst (mysql_drv_real_connect api c (after_attempts api c n d))
                 then SB_DB_ERROR_FAILED else SB_DB_ERROR_RECONNECTED, after_attempts api c (Suc n) d)"
  using assms
proof (induction n arbitrary: d)
  case 0
  then show ?case
    by (subst reconnect_loop.simps)
      (auto simp: after_attempts_def split: prod.splits)
next
  case (Suc n)
  let ?d = "snd (mysql_drv_real_connect api c d)"
  have f: "fst (mysql_drv_real_connect api c d)" "\<not> global_error api (mlib ?d)"
    using Suc.prems(1) [of 0] by (simp_all add: after_attempts_def)
  have "reconnect_loop api c d = reconnect_loop api c ?d"
    by (subst reconnect_loop.simps) (use f in \<open>simp add: case_prod_unfold\<close>)
  also have "\<dots> = Some (if fst (mysql_drv_real_connect api c (after_attempts api c n ?d))
                 then SB_DB_ERROR_FAILED else SB_DB_ERROR_RECONNECTED, after_attempts api c (Suc n) ?d)"
    using Suc.prems(1) [of "Suc i" for i] Suc.prems(2)
    by (intro Suc.IH) (simp_all add: after_attempts_step)
  finally show ?case by (simp only: after_attempts_step)
qed

text \<open>Executing an emulated statement builds its query and sends it.\<close>

lemma emulated_query_sent:
  assumes "\<not> dry_run d" and "emulated stmt" and "st_query stmt = Some q" and "q \<noteq> []"
    and "bound_param stmt = Some ps" and "placeholders q \<le> length ps"
    and "\<forall>v \<in> set ps. bind_text v \<noteq> None"
    and "length (subst_query (\<lambda>k. the (bind_text (ps ! k))) 0 q) < 2 ^ 29"
  shows "mysql_drv_execute api (\<lambda>_. True) p stmt d =
           mysql_drv_query api p (subst_query (\<lambda>k. the (bind_text (ps ! k))) 0 q) d"
  using bound_query_built [OF assms(5-7,4,8)] assms(1-3) by (simp add: mysql_drv_execute_def)

section \<open>Properties\<close>


definition example_my :: "string list mysql_drv" where
  "example_my = \<lparr>my_hosts = [''a'', ''b''], hosts_pos = 0, my_sockets = [], sockets_pos = 0, my_port = 3306,
     my_user = None, my_password = None, my_db = None, use_ssl = False, use_compression = False,
     my_debug = False, my_verbosity = 3, ignored_errors = [''1213'', ''2013''], dry_run = False,
     my_use_ps = False, my_caps = mysql_drv_caps, my_conns = Map.empty, my_fresh = 0, mlib = []\<rparr>"

text \<open>A client library for examples, whose world is the list of queries it received; the query
  \<open>deadlock\<close> fails with error 1213.\<close>

definition example_api :: "string list mysql_api" where
  "example_api = \<lparr>ER_UNSUPPORTED_PS = 1295, lost_connection = (\<lambda>e. e = 2013), global_error = (\<lambda>_. False),
     mysql_new = (\<lambda>m. (7, m)), mysql_ssl_set = (\<lambda>_ m. m), mysql_compress = (\<lambda>_ m. m),
     mysql_real_connect = (\<lambda>_ m. (True, m)), mysql_errno = (\<lambda>_ m. if m \<noteq> [] \<and> last m = ''lost'' then 2013 else 1213),
     mysql_close = (\<lambda>_ m. m), mysql_real_query = (\<lambda>_ q m. (if q = ''deadlock'' \<or> q = ''lost'' then 1 else 0, m @ [q])),
     mysql_store_result = (\<lambda>_ m. (None, m)), mysql_field_count = (\<lambda>_ _. 0), mysql_num_rows = (\<lambda>_ _. 0),
     mysql_fetch_row = (\<lambda>_ m. (False, m)), mysql_free_result = (\<lambda>_ m. m),
     mysql_stmt_init = (\<lambda>_ m. (None, m)), mysql_stmt_prepare = (\<lambda>_ _ m. (0, m)),
     mysql_stmt_close = (\<lambda>_ m. (0, m)), mysql_stmt_param_count = (\<lambda>_ _. 0),
     mysql_stmt_bind_param = (\<lambda>_ _ m. (False, m)), mysql_stmt_bind_result = (\<lambda>_ _ m. (False, m)),
     mysql_stmt_execute = (\<lambda>_ m. (0, m)), mysql_stmt_store_result = (\<lambda>_ m. (0, m)),
     mysql_stmt_field_count = (\<lambda>_ _. 0), mysql_stmt_num_rows = (\<lambda>_ _. 0), mysql_stmt_fetch = (\<lambda>_ m. (1, m)),
     mysql_stmt_free_result = (\<lambda>_ m. (0, m)), mysql_library_end = (\<lambda>m. m)\<rparr>"

definition int_param :: "int \<Rightarrow> db_bind" where
  "int_param n = \<lparr>b_type = DB_TYPE_INT, b_buffer = IntData n, b_data_len = None, b_max_len = 4, b_is_null = None\<rparr>"

definition example_my_conn :: mysql_conn where
  "example_my_conn = \<lparr>mc_mysql = 7, mc_host = Some ''a'', mc_user = None, mc_password = None, mc_db = None,
     mc_port = 3306, mc_socket = None\<rparr>"


text \<open>C27: How the driver classifies an error of the server: an error that \<open>--mysql-ignore-errors\<close> does not
  list is fatal; a listed error restarts the transaction; a listed loss of the connection leads to
  reconnection attempts until one succeeds, which the caller is told, or the run has failed
  otherwise. When one of the two happens eventually, the driver returns.\<close>

theorem check_error_classifies:
  assumes "conn_of p d = Some c" and "error = mysql_errno api (mc_mysql c) (mlib d)"
    and "d0 = d\<lparr>mlib := mysql_close api (mc_mysql c) (mlib d)\<rparr>"
    and "\<And>i. i < n \<Longrightarrow> fst (mysql_drv_real_connect api c (after_attempts api c i d0)) \<and>
             \<not> global_error api (mlib (after_attempts api c (Suc i) d0))"
    and "\<not> fst (mysql_drv_real_connect api c (after_attempts api c n d0)) \<or>
         global_error api (mlib (after_attempts api c (Suc n) d0))"
  shows "check_error api p d =
           (if \<forall>val \<in> set (ignored_errors d). \<not> ignores error val then Some (SB_DB_ERROR_FAILED, d)
            else if \<not> lost_connection api error then Some (SB_DB_ERROR_RESTART_TRANSACTION, d)
            else Some (if fst (mysql_drv_real_connect api c (after_attempts api c n d0))
                       then SB_DB_ERROR_FAILED else SB_DB_ERROR_RECONNECTED, after_attempts api c (Suc n) d0))"
proof -
  have "find (ignores error) (ignored_errors d) = None \<longleftrightarrow> (\<forall>val \<in> set (ignored_errors d). \<not> ignores error val)"
    by (auto simp: find_None_iff)
  with reconnect_loop_ends [OF assms(4,5)] assms(1-3) show ?thesis
    by (auto simp: check_error_def Let_def mysql_drv_reconnect_def split: option.splits)
qed

theorem check_error_classifies_witness:
  "check_error example_api (Some 0) (example_my\<lparr>my_conns := [0 \<mapsto> example_my_conn], mlib := [''lost'']\<rparr>)
     = Some (SB_DB_ERROR_RECONNECTED, example_my\<lparr>my_conns := [0 \<mapsto> example_my_conn], mlib := [''lost'']\<rparr>)"
proof -
  let ?d = "example_my\<lparr>my_conns := [0 \<mapsto> example_my_conn], mlib := [''lost'']\<rparr>"
  have c: "conn_of (Some 0) ?d = Some example_my_conn" by (simp add: conn_of_def)
  have rc: "mysql_drv_real_connect example_api example_my_conn ?d = (False, ?d)"
    by (simp add: mysql_drv_real_connect_def example_api_def example_my_def Let_def)
  have i: "ignores 2013 ''2013''" by code_simp
  show ?thesis
    using check_error_classifies [OF c refl refl, where n = 0 and api = example_api] rc i
    by (simp add: after_attempts_def example_api_def) (simp add: example_my_def)
qed

text \<open>Connections made one after the other.\<close>

fun connect_many :: "'m mysql_api \<Rightarrow> nat \<Rightarrow> 'm mysql_drv \<Rightarrow> (nat option list \<times> 'm mysql_drv) option" where
  "connect_many api 0 d = Some ([], d)"
| "connect_many api (Suc n) d =
     (case connect_many api n d of
        None \<Rightarrow> None
      | Some (ps, d) \<Rightarrow>
          (case mysql_drv_connect api True d of
             None \<Rightarrow> None
           | Some (rc, p, d) \<Rightarrow> (if rc \<noteq> 0 then None else Some (ps @ [p], d))))"

lemma real_connect_ok:
  assumes "\<And>c m. fst (mysql_real_connect api c m)"
  shows "\<exists>m. mysql_drv_real_connect api c d = (False, d\<lparr>mlib := m\<rparr>)"
  using assms by (auto simp: mysql_drv_real_connect_def Let_def split: prod.splits) (metis fst_conv)+

lemma connect_host:
  assumes "\<And>c m. fst (mysql_real_connect api c m)" and "\<not> dry_run d" and "my_sockets d = []" and "my_hosts d \<noteq> []"
    and "hosts_pos d = (if k = 0 then 0 else Suc ((k - 1) mod length (my_hosts d)))"
  shows "\<exists>d' c. mysql_drv_connect api True d = Some (0, Some (my_fresh d), d') \<and>
           my_conns d' = (my_conns d)(my_fresh d \<mapsto> c) \<and> mc_host c = Some (my_hosts d ! (k mod length (my_hosts d))) \<and>
           my_fresh d' = Suc (my_fresh d) \<and> my_hosts d' = my_hosts d \<and> \<not> dry_run d' \<and> my_sockets d' = [] \<and>
           hosts_pos d' = Suc (k mod length (my_hosts d))"
proof -
  obtain h m where h: "mysql_new api (mlib d) = (h, m)" by fastforce
  let ?n = "length (my_hosts d)"
  let ?d = "d\<lparr>mlib := m, hosts_pos := Suc (k mod ?n)\<rparr>"
  have np: "next_pos ?n (hosts_pos d) = Suc (k mod ?n)" using next_pos_cycle [of ?n k] assms(4,5) by simp
  have ch: "choose_host (d\<lparr>mlib := m\<rparr>) = Some ((Some (my_hosts d ! (k mod ?n)), None), ?d)"
    using assms(3) np by (simp add: choose_host_def Let_def)
  let ?c = "\<lparr>mc_mysql = h, mc_host = Some (my_hosts d ! (k mod ?n)), mc_user = my_user ?d,
             mc_password = my_password ?d, mc_db = my_db ?d, mc_port = my_port ?d, mc_socket = None\<rparr>"
  obtain m' where "mysql_drv_real_connect api ?c ?d = (False, ?d\<lparr>mlib := m'\<rparr>)"
    using real_connect_ok [OF assms(1)] by blast
  then have "mysql_drv_connect api True d = Some (0, Some (my_fresh d),
      ?d\<lparr>mlib := m', my_conns := (my_conns d)(my_fresh d \<mapsto> ?c), my_fresh := Suc (my_fresh d)\<rparr>)"
    using assms(2) h ch by (simp add: mysql_drv_connect_def Let_def)
  then show ?thesis using assms(2-4) by (intro exI conjI) (assumption | simp)+
qed

lemma connect_many_hosts:
  assumes "\<And>c m. fst (mysql_real_connect api c m)" and "\<not> dry_run d" and "my_sockets d = []" and "my_hosts d \<noteq> []"
    and "hosts_pos d = 0" and "my_fresh d = 0"
  shows "\<exists>d'. connect_many api n d = Some (map Some [0..<n], d') \<and>
           (\<forall>i < n. \<exists>c. my_conns d' i = Some c \<and> mc_host c = Some (my_hosts d ! (i mod length (my_hosts d)))) \<and>
           my_fresh d' = n \<and> my_hosts d' = my_hosts d \<and> \<not> dry_run d' \<and> my_sockets d' = [] \<and>
           hosts_pos d' = (if n = 0 then 0 else Suc ((n - 1) mod length (my_hosts d)))"
proof (induction n)
  case 0
  show ?case using assms(2-6) by simp
next
  case (Suc n)
  then obtain d1 where d1: "connect_many api n d = Some (map Some [0..<n], d1)"
    "\<forall>i < n. \<exists>c. my_conns d1 i = Some c \<and> mc_host c = Some (my_hosts d ! (i mod length (my_hosts d)))"
    "my_fresh d1 = n" "my_hosts d1 = my_hosts d" "\<not> dry_run d1" "my_sockets d1 = []"
    "hosts_pos d1 = (if n = 0 then 0 else Suc ((n - 1) mod length (my_hosts d1)))" by metis
  have "my_hosts d1 \<noteq> []" using d1(4) assms(4) by simp
  from connect_host [OF assms(1) d1(5,6) this d1(7)] obtain d2 c where
    d2: "mysql_drv_connect api True d1 = Some (0, Some n, d2)" "my_conns d2 = (my_conns d1)(n \<mapsto> c)"
      "mc_host c = Some (my_hosts d ! (n mod length (my_hosts d)))" "my_fresh d2 = Suc n"
      "my_hosts d2 = my_hosts d" "\<not> dry_run d2" "my_sockets d2 = []" "hosts_pos d2 = Suc (n mod length (my_hosts d))"
    using d1(3,4) by auto
  with d1 show ?case by (auto simp: less_Suc_eq)
qed

text \<open>C28: Connections are spread over the hosts: without \<open>--mysql-socket\<close> and outside a dry run, and when the servers
  accept connections, the connections made one after the other from the start go to the hosts of \<open>--mysql-host\<close> in
  turn, starting with the first. (With \<open>--mysql-socket\<close> the driver goes through the sockets instead and the host is
  always \<open>localhost\<close>; a dry run connects to nothing.)\<close>

theorem connections_round_robin:
  assumes "\<And>c m. fst (mysql_real_connect api c m)" and "\<not> dry_run d" and "my_sockets d = []"
    and "my_hosts d \<noteq> []" and "hosts_pos d = 0" and "my_fresh d = 0"
  shows "\<exists>ps d'. connect_many api n d = Some (ps, d') \<and>
           map (\<lambda>p. map_option mc_host (conn_of p d')) ps =
             map (\<lambda>i. Some (Some (my_hosts d ! (i mod length (my_hosts d))))) [0..<n]"
proof -
  from connect_many_hosts [where n = n, OF assms] obtain d' where
    "connect_many api n d = Some (map Some [0..<n], d')"
    "\<forall>i < n. \<exists>c. my_conns d' i = Some c \<and> mc_host c = Some (my_hosts d ! (i mod length (my_hosts d)))" by blast
  then show ?thesis by (force simp: conn_of_def)
qed

theorem connections_round_robin_witness:
  "\<exists>ps d'. connect_many example_api 3 example_my = Some (ps, d') \<and>
     map (\<lambda>p. map_option mc_host (conn_of p d')) ps = [Some (Some ''a''), Some (Some ''b''), Some (Some ''a'')]"
  using connections_round_robin [of example_api example_my 3]
  by (simp add: example_my_def example_api_def upt_rec)

text \<open>A dry run is not possible with statements: \<open>mysql_drv_connect\<close> then leaves the connection
  without data, queries succeed without being sent, but preparing a statement follows the
  missing pointer, in every state of the driver.\<close>

theorem dry_run_prepare_undefined:
  assumes "dry_run d" and "mysql_drv_connect api alloc d = Some (rc, p, d')"
  shows "rc = 0 \<and> mysql_drv_query api p query d' = Some (SB_DB_ERROR_NONE, d') \<and>
         mysql_drv_prepare api p stmt query d' = None \<and> mysql_drv_bind_param api alloc p stmt params d' = None"
  using assms
  by (auto simp: mysql_drv_connect_def mysql_drv_query_def mysql_drv_prepare_def mysql_drv_bind_param_def conn_of_def)

theorem dry_run_prepare_undefined_witness:
  "mysql_drv_connect example_api True (example_my\<lparr>dry_run := True\<rparr>) = Some (0, None, example_my\<lparr>dry_run := True\<rparr>) \<and>
   mysql_drv_prepare example_api None zero_stmt ''SELECT 1'' (example_my\<lparr>dry_run := True\<rparr>) = None"
  using dry_run_prepare_undefined [of "example_my\<lparr>dry_run := True\<rparr>" example_api True 0 None "example_my\<lparr>dry_run := True\<rparr>"
      "''SELECT 1''" zero_stmt]
  by (simp add: mysql_drv_connect_def example_my_def)

end
