(* ===== verification/PgSQL.thy ===== *)
theory PgSQL
  imports Placeholders SB_Random
begin

text \<open>
  The PostgreSQL driver \<open>sysbench/drivers/pgsql/drv_pgsql.c\<close>. The client library \<open>libpq\<close> is a
  record of functions over its own world \<^typ>\<open>'g\<close>; its handles are numbers, the driver's statements
  are addresses into a store. \<^const>\<open>None\<close> as the result of an operation is a NULL or dangling pointer
  that is followed, or a loop that does not end. Calls of \<open>log_text\<close> are not part of the model.
\<close>

declare of_nat_unat [simp del]

section \<open>Data\<close>

definition MAX_PARAM_LENGTH :: nat where "MAX_PARAM_LENGTH = 256"

definition pgsql_drv_args :: "sb_arg list" where
  "pgsql_drv_args =
    [\<lparr>arg_name = ''pgsql-host'', arg_desc = ''PostgreSQL server host'', arg_type = SB_ARG_TYPE_STRING,
      arg_value = Some ''localhost''\<rparr>,
     \<lparr>arg_name = ''pgsql-port'', arg_desc = ''PostgreSQL server port'', arg_type = SB_ARG_TYPE_INT,
      arg_value = Some ''5432''\<rparr>,
     \<lparr>arg_name = ''pgsql-user'', arg_desc = ''PostgreSQL user'', arg_type = SB_ARG_TYPE_STRING,
      arg_value = Some ''sbtest''\<rparr>,
     \<lparr>arg_name = ''pgsql-password'', arg_desc = ''PostgreSQL password'', arg_type = SB_ARG_TYPE_STRING,
      arg_value = Some []\<rparr>,
     \<lparr>arg_name = ''pgsql-db'', arg_desc = ''PostgreSQL database name'', arg_type = SB_ARG_TYPE_STRING,
      arg_value = Some ''sbtest''\<rparr>]"

definition db_pgsql_bind_map :: "(db_bind_type \<times> int) list" where
  "db_pgsql_bind_map =
    [(DB_TYPE_TINYINT, 0), (DB_TYPE_SMALLINT, 21), (DB_TYPE_INT, 23), (DB_TYPE_BIGINT, 20),
     (DB_TYPE_FLOAT, 700), (DB_TYPE_DOUBLE, 701), (DB_TYPE_DATETIME, 0), (DB_TYPE_TIMESTAMP, 1114),
     (DB_TYPE_CHAR, 18), (DB_TYPE_VARCHAR, 1043)]"

definition get_pgsql_bind_type :: "db_bind_type \<Rightarrow> int" where
  "get_pgsql_bind_type type =
     (case find (\<lambda>m. fst m = type) db_pgsql_bind_map of Some m \<Rightarrow> snd m | None \<Rightarrow> - 1)"

definition pgsql_drv_caps :: drv_caps where
  "pgsql_drv_caps = \<lparr>multi_rows_insert = True, prepared_statements = True, auto_increment = False,
     needs_commit = False, caps_serial = True, unsigned_int = False\<rparr>"

text \<open>A buffer for a parameter: as \<open>malloc\<close> returned it, with a text and its NUL, or filled by
  \<open>strncpy\<close> without a NUL.\<close>

datatype pg_buffer = PgUninit | PgText string | PgUnterminated string

record pg_stmt =
  ps_name :: string
  ps_prepared :: bool
  ps_nparams :: nat
  ps_ptypes :: "int list option"
  ps_pvalues :: "pg_buffer list option"

datatype exec_status = PGRES_COMMAND_OK | PGRES_TUPLES_OK | PGRES_OTHER int

record 'g pg_api =
  PQsetdbLogin :: "string option \<Rightarrow> string option \<Rightarrow> string option \<Rightarrow> string option \<Rightarrow> string option \<Rightarrow> 'g \<Rightarrow> nat \<times> 'g"
  PQstatus_ok :: "nat \<Rightarrow> 'g \<Rightarrow> bool"
  PQfinish :: "nat \<Rightarrow> 'g \<Rightarrow> 'g"
  PQserverVersion :: "nat \<Rightarrow> 'g \<Rightarrow> int"
  PQprepare :: "nat \<Rightarrow> string \<Rightarrow> string \<Rightarrow> nat \<Rightarrow> int list option \<Rightarrow> 'g \<Rightarrow> nat \<times> 'g"
  PQexec :: "nat \<Rightarrow> string \<Rightarrow> 'g \<Rightarrow> nat \<times> 'g"
  PQexecPrepared :: "nat \<Rightarrow> string \<Rightarrow> nat \<Rightarrow> pg_buffer list \<Rightarrow> 'g \<Rightarrow> nat \<times> 'g"
  PQresultStatus :: "nat \<Rightarrow> 'g \<Rightarrow> exec_status"
  PQerrorMessage :: "nat \<Rightarrow> 'g \<Rightarrow> string"
  PQntuples :: "nat \<Rightarrow> 'g \<Rightarrow> nat"
  PQclear :: "nat \<Rightarrow> 'g \<Rightarrow> 'g"

record 'g pg_drv =
  pg_host :: "string option"
  pg_port :: "string option"
  pg_user :: "string option"
  pg_password :: "string option"
  pg_db :: "string option"
  pg_use_ps :: bool
  pg_caps :: drv_caps
  pg_stmts :: "nat \<Rightarrow> pg_stmt option"
  pg_fresh :: nat
  pg_rng :: rnd_state
  glib :: 'g

section \<open>Initialisation and connections\<close>

definition pgsql_drv_init :: "options \<Rightarrow> db_ps_mode \<Rightarrow> 'g pg_drv \<Rightarrow> int \<times> 'g pg_drv" where
  "pgsql_drv_init opts ps d =
     (0, d\<lparr>pg_host := sb_get_value_string opts ''pgsql-host'', pg_port := sb_get_value_string opts ''pgsql-port'',
          pg_user := sb_get_value_string opts ''pgsql-user'',
          pg_password := sb_get_value_string opts ''pgsql-password'',
          pg_db := sb_get_value_string opts ''pgsql-db'',
          pg_caps := (pg_caps d)\<lparr>prepared_statements := True\<rparr>, pg_use_ps := (ps \<noteq> DB_PS_MODE_DISABLE)\<rparr>)"

definition pg_login :: "'g pg_api \<Rightarrow> 'g pg_drv \<Rightarrow> nat \<times> 'g pg_drv" where
  "pg_login api d =
     (let (con, g) = PQsetdbLogin api (pg_host d) (pg_port d) (pg_db d) (pg_user d) (pg_password d) (glib d)
      in (con, d\<lparr>glib := g\<rparr>))"

definition pgsql_drv_describe :: "'g pg_api \<Rightarrow> 'g pg_drv \<Rightarrow> int \<times> drv_caps \<times> 'g pg_drv" where
  "pgsql_drv_describe api d =
     (let caps = pg_caps d; (con, d) = pg_login api d in
      if \<not> PQstatus_ok api con (glib d) then (1, caps, d\<lparr>glib := PQfinish api con (glib d)\<rparr>)
      else let caps = (if PQserverVersion api con (glib d) < 80200 then caps\<lparr>multi_rows_insert := False\<rparr> else caps)
           in (0, caps, d\<lparr>glib := PQfinish api con (glib d)\<rparr>))"

definition pgsql_drv_connect :: "'g pg_api \<Rightarrow> 'g pg_drv \<Rightarrow> int \<times> nat option \<times> 'g pg_drv" where
  "pgsql_drv_connect api d =
     (let (con, d) = pg_login api d in
      if \<not> PQstatus_ok api con (glib d) then (1, None, d\<lparr>glib := PQfinish api con (glib d)\<rparr>)
      else (0, Some con, d))"

definition pgsql_drv_disconnect :: "'g pg_api \<Rightarrow> nat option \<Rightarrow> 'g pg_drv \<Rightarrow> int \<times> 'g pg_drv" where
  "pgsql_drv_disconnect api p d =
     (case p of None \<Rightarrow> (0, d) | Some con \<Rightarrow> (0, d\<lparr>glib := PQfinish api con (glib d)\<rparr>))"

section \<open>Statements\<close>

text \<open>\<open>snprintf (buf + j, buflen - j, "$%d", vcnt)\<close> and its test.\<close>

definition param_number :: "nat \<Rightarrow> nat \<Rightarrow> (string option \<times> int) option" where
  "param_number vcnt room = Some (print_result (''$'' @ show_nat vcnt) room)"

text \<open>The two random numbers are drawn in the order of the text.\<close>

definition get_unique_stmt_name :: "rnd_state \<Rightarrow> string \<times> rnd_state" where
  "get_unique_stmt_name r =
     (let (a, r) = sb_rnd r; (b, r) = sb_rnd r
      in (take 31 (''sbstmt'' @ show_nat a @ show_nat b), r))"

definition new_stmt :: "pg_stmt \<Rightarrow> db_stmt \<Rightarrow> 'g pg_drv \<Rightarrow> db_stmt \<times> 'g pg_drv" where
  "new_stmt ps stmt d =
     (stmt\<lparr>st_ptr := Some (pg_fresh d)\<rparr>, d\<lparr>pg_stmts := (pg_stmts d)(pg_fresh d \<mapsto> ps), pg_fresh := pg_fresh d + 1\<rparr>)"

text \<open>\<open>vcnt - 1\<close> after the loop is the number of placeholders it met.\<close>

definition pgsql_drv_prepare ::
  "'g pg_api \<Rightarrow> (u32 \<Rightarrow> bool) \<Rightarrow> bool \<Rightarrow> nat option \<Rightarrow> db_stmt \<Rightarrow> string \<Rightarrow> 'g pg_drv \<Rightarrow>
   (int \<times> db_stmt \<times> 'g pg_drv) option" where
  "pgsql_drv_prepare api alloc alloc' p stmt query d =
     (case p of
        None \<Rightarrow> Some (1, stmt, d)
      | Some con \<Rightarrow>
          (if \<not> pg_use_ps d then Some (0, stmt\<lparr>emulated := True, st_query := Some query\<rparr>, d)
           else case build_query alloc param_number query None 0 True 1 of
             None \<Rightarrow> None
           | Some (Inl _) \<Rightarrow> Some (1, stmt, d)
           | Some (Inr buf) \<Rightarrow>
               (let stmt = stmt\<lparr>st_query := Some buf\<rparr> in
                if \<not> alloc' then Some (1, stmt, d)
                else let (name, r) = get_unique_stmt_name (pg_rng d); d = d\<lparr>pg_rng := r\<rparr>;
                         ps = \<lparr>ps_name = name, ps_prepared = False, ps_nparams = placeholders query,
                               ps_ptypes = None, ps_pvalues = None\<rparr>
                     in if ps_nparams ps = 0 then
                          (let (res, g) = PQprepare api con name buf 0 None (glib d); d = d\<lparr>glib := g\<rparr> in
                           if PQresultStatus api res g \<noteq> PGRES_COMMAND_OK then Some (1, stmt, d)
                           else Some (0, new_stmt (ps\<lparr>ps_prepared := True\<rparr>) stmt d))
                        else Some (0, new_stmt ps stmt d))))"

definition pgsql_drv_bind_param ::
  "'g pg_api \<Rightarrow> bool \<Rightarrow> nat option \<Rightarrow> db_stmt \<Rightarrow> db_bind list \<Rightarrow> 'g pg_drv \<Rightarrow> (int \<times> db_stmt \<times> 'g pg_drv) option" where
  "pgsql_drv_bind_param api alloc p stmt params d =
     (case p of
        None \<Rightarrow> Some (1, stmt, d)
      | Some con \<Rightarrow>
          (if \<not> alloc then Some (1, stmt\<lparr>bound_param := None\<rparr>, d)
           else let stmt = stmt\<lparr>bound_param := Some params\<rparr> in
             if emulated stmt then Some (0, stmt, d)
             else case Option.bind (st_ptr stmt) (pg_stmts d) of
               None \<Rightarrow> None
             | Some ps \<Rightarrow>
                 (let put = (\<lambda>ps d. d\<lparr>pg_stmts := (pg_stmts d)(the (st_ptr stmt) \<mapsto> ps)\<rparr>) in
                  if ps_prepared ps then Some (0, stmt, d)
                  else if ps_nparams ps \<noteq> length params then Some (1, stmt, d)
                  else let types = map (\<lambda>q. get_pgsql_bind_type (b_type q)) params;
                           ps = ps\<lparr>ps_ptypes := Some types\<rparr>
                       in case st_query stmt of
                            None \<Rightarrow> None
                          | Some query \<Rightarrow>
                              (let (res, g) = PQprepare api con (ps_name ps) query (ps_nparams ps) (Some types) (glib d);
                                   d = d\<lparr>glib := g\<rparr>
                               in if PQresultStatus api res g \<noteq> PGRES_COMMAND_OK then Some (1, stmt, put ps d)
                                  else Some (0, stmt, put (ps\<lparr>ps_pvalues := Some (replicate (length params) PgUninit),
                                                              ps_prepared := True\<rparr>) d)))))"

definition pgsql_drv_bind_result :: "'g pg_drv \<Rightarrow> int \<times> 'g pg_drv" where
  "pgsql_drv_bind_result d = (0, d)"

section \<open>Execution\<close>

definition strcasestr :: "string \<Rightarrow> string \<Rightarrow> bool" where
  "strcasestr s t \<longleftrightarrow> list_ex (\<lambda>i. strncasecmp_eq (drop i s) t (length t)) [0..<length s + 1 - length t]"

definition retryable :: "string \<Rightarrow> bool" where
  "retryable errmsg \<longleftrightarrow>
     strcasestr errmsg ''deadlock detected'' \<or> strcasestr errmsg ''Lock wait timeout'' \<or>
     strcasestr errmsg ''deadlock'' \<or> strcasestr errmsg ''duplicate key value violates unique constraint''"

definition pgsql_check_status :: "'g pg_api \<Rightarrow> nat \<Rightarrow> nat \<Rightarrow> 'g \<Rightarrow> db_error \<times> 'g" where
  "pgsql_check_status api con res g =
     (let status = PQresultStatus api res g in
      if status \<noteq> PGRES_TUPLES_OK \<and> status \<noteq> PGRES_COMMAND_OK then
        (if retryable (PQerrorMessage api con g)
         then (SB_DB_ERROR_RESTART_TRANSACTION, snd (PQexec api con ''ROLLBACK'' g))
         else (SB_DB_ERROR_FAILED, g))
      else (SB_DB_ERROR_NONE, g))"

text \<open>\<open>strncpy\<close> and \<open>db_print_value\<close> into a buffer of \<open>MAX_PARAM_LENGTH\<close> bytes; \<open>old\<close> is its contents. The
  test of \<open>is_null\<close> is a test of the pointer.\<close>

definition store_param :: "db_bind \<Rightarrow> pg_buffer \<Rightarrow> pg_buffer option" where
  "store_param q old =
     (if b_is_null q \<noteq> None then Some old
      else if b_type q = DB_TYPE_CHAR \<or> b_type q = DB_TYPE_VARCHAR then
        (case b_buffer q of
           StringData s \<Rightarrow> Some (if length s < MAX_PARAM_LENGTH then PgText s
                                 else PgUnterminated (take MAX_PARAM_LENGTH s))
         | _ \<Rightarrow> None)
      else case db_print_value q MAX_PARAM_LENGTH of
        None \<Rightarrow> None
      | Some (None, _) \<Rightarrow> Some old
      | Some (Some out, _) \<Rightarrow> Some (PgText out))"

fun store_params :: "db_bind list \<Rightarrow> pg_buffer list \<Rightarrow> pg_buffer list option" where
  "store_params (q # qs) (b # bs) =
     (case (store_param q b, store_params qs bs) of (Some x, Some xs) \<Rightarrow> Some (x # xs) | _ \<Rightarrow> None)"
| "store_params _ [] = Some []"
| "store_params [] (b # bs) = None"

definition pgsql_drv_query ::
  "'g pg_api \<Rightarrow> nat option \<Rightarrow> string \<Rightarrow> db_result_set \<Rightarrow> 'g pg_drv \<Rightarrow> (db_error \<times> db_result_set \<times> 'g pg_drv) option" where
  "pgsql_drv_query api p query r d =
     (case p of
        None \<Rightarrow> None
      | Some con \<Rightarrow>
          (let (res, g) = PQexec api con query (glib d); (rc, g) = pgsql_check_status api con res g
           in Some (rc, if rc = SB_DB_ERROR_NONE then r\<lparr>rs_ptr := Some res\<rparr> else r, d\<lparr>glib := g\<rparr>)))"

definition execute_prepared ::
  "'g pg_api \<Rightarrow> nat \<Rightarrow> nat \<Rightarrow> pg_stmt \<Rightarrow> db_stmt \<Rightarrow> db_result_set \<Rightarrow> 'g pg_drv \<Rightarrow>
   (db_error \<times> db_result_set \<times> 'g pg_drv) option" where
  "execute_prepared api con a ps stmt r d =
     (let send = (\<lambda>vals d. let (res, g) = PQexecPrepared api con (ps_name ps) (ps_nparams ps) vals (glib d);
                              (rc, g) = pgsql_check_status api con res g
                          in Some (rc, if rc = SB_DB_ERROR_NONE then r\<lparr>rs_ptr := Some res\<rparr> else r, d\<lparr>glib := g\<rparr>))
      in if ps_nparams ps = 0 then send [] d
         else case (bound_param stmt, ps_pvalues ps) of
           (Some qs, Some bufs) \<Rightarrow>
             (case store_params qs bufs of
                None \<Rightarrow> None
              | Some vals \<Rightarrow> send vals (d\<lparr>pg_stmts := (pg_stmts d)(a \<mapsto> ps\<lparr>ps_pvalues := Some vals\<rparr>)\<rparr>))
         | _ \<Rightarrow> None)"

definition pgsql_drv_execute ::
  "'g pg_api \<Rightarrow> (u32 \<Rightarrow> bool) \<Rightarrow> nat option \<Rightarrow> db_stmt \<Rightarrow> db_result_set \<Rightarrow> 'g pg_drv \<Rightarrow>
   (db_error \<times> db_result_set \<times> 'g pg_drv) option" where
  "pgsql_drv_execute api alloc p stmt r d =
     (if \<not> emulated stmt then
        (case st_ptr stmt of
           None \<Rightarrow> Some (SB_DB_ERROR_FAILED, r, d)
         | Some a \<Rightarrow>
             (case (p, pg_stmts d a) of
                (Some con, Some ps) \<Rightarrow> execute_prepared api con a ps stmt r d
              | _ \<Rightarrow> None))
      else case st_query stmt of
        None \<Rightarrow> None
      | Some q \<Rightarrow>
          (case build_query alloc (bound_value stmt) q None 0 True 0 of
             None \<Rightarrow> None
           | Some (Inl _) \<Rightarrow> Some (SB_DB_ERROR_FAILED, r, d)
           | Some (Inr buf) \<Rightarrow> pgsql_drv_query api p buf r d))"

section \<open>Result sets\<close>

text \<open>The result 1 of \<open>pgsql_drv_store_results\<close> is the number of \<open>SB_DB_ERROR_RESTART_TRANSACTION\<close>. Reading the
  values has no effect.\<close>

definition pgsql_drv_store_results ::
  "'g pg_api \<Rightarrow> db_result_set \<Rightarrow> 'g pg_drv \<Rightarrow> db_error \<times> db_result_set \<times> 'g pg_drv" where
  "pgsql_drv_store_results api r d =
     (case rs_ptr r of
        None \<Rightarrow> (SB_DB_ERROR_RESTART_TRANSACTION, r, d)
      | Some res \<Rightarrow> (SB_DB_ERROR_NONE, r\<lparr>nrows := of_nat (PQntuples api res (glib d))\<rparr>, d))"

definition pgsql_drv_free_results :: "'g pg_api \<Rightarrow> db_result_set \<Rightarrow> 'g pg_drv \<Rightarrow> int \<times> 'g pg_drv" where
  "pgsql_drv_free_results api r d =
     (case rs_ptr r of None \<Rightarrow> (1, d) | Some res \<Rightarrow> (0, d\<lparr>glib := PQclear api res (glib d)\<rparr>))"

definition pgsql_drv_num_rows :: "db_result_set \<Rightarrow> u64" where
  "pgsql_drv_num_rows r = nrows r"

text \<open>Closing frees the parts of the statement, not the statement itself.\<close>

definition pgsql_drv_close :: "db_stmt \<Rightarrow> 'g pg_drv \<Rightarrow> (int \<times> 'g pg_drv) option" where
  "pgsql_drv_close stmt d =
     (case st_ptr stmt of
        None \<Rightarrow> Some (1, d)
      | Some a \<Rightarrow> (case pg_stmts d a of None \<Rightarrow> None | Some _ \<Rightarrow> Some (0, d)))"

section \<open>The driver\<close>

text \<open>\<open>pgsql_drv_fetch_row\<close> is not implemented by the driver and returns 1.\<close>

definition pgsql_driver :: "'g pg_api \<Rightarrow> options \<Rightarrow> db_ps_mode \<Rightarrow> 'g pg_drv option db_driver" where
  "pgsql_driver api opts ps = \<lparr>sname = ''pgsql'', lname = ''PostgreSQL driver'', drv_args = Some pgsql_drv_args,
     ops = \<lparr>
       op_init = lift_op 1 (\<lambda>d. Some (pgsql_drv_init opts ps d)),
       op_describe = Some (\<lambda>w. case w of None \<Rightarrow> (1, pgsql_drv_caps, None)
                                | Some d \<Rightarrow> (let (rc, caps, d) = pgsql_drv_describe api d in (rc, caps, Some d))),
       op_connect = lift_op2 (1, None) (\<lambda>d. Some (pgsql_drv_connect api d)),
       op_disconnect = (\<lambda>p. lift_op 1 (\<lambda>d. Some (pgsql_drv_disconnect api p d))),
       op_prepare = (\<lambda>p st q. lift_op2 (1, st) (pgsql_drv_prepare api (\<lambda>_. True) True p st q)),
       op_bind_param = (\<lambda>p st ps. lift_op2 (1, st) (pgsql_drv_bind_param api True p st ps)),
       op_bind_result = (\<lambda>p st ps w. let (rc, w) = lift_op 1 (\<lambda>d. Some (pgsql_drv_bind_result d)) w in (rc, st, w)),
       op_execute = (\<lambda>p st r. lift_op2 (SB_DB_ERROR_FAILED, r) (pgsql_drv_execute api (\<lambda>_. True) p st r)),
       op_fetch_row = (\<lambda>r w. (1, w)),
       op_num_rows = (\<lambda>r w. pgsql_drv_num_rows r),
       op_free_results = (\<lambda>r w. let (rc, w) = lift_op 1 (\<lambda>d. Some (pgsql_drv_free_results api r d)) w in (rc, r, w)),
       op_close = (\<lambda>p st. lift_op 1 (pgsql_drv_close st)),
       op_query = (\<lambda>p q r. lift_op2 (SB_DB_ERROR_FAILED, r) (pgsql_drv_query api p q r)),
       op_store_results = (\<lambda>r. lift_op2 (SB_DB_ERROR_FAILED, r) (\<lambda>d. Some (pgsql_drv_store_results api r d))),
       op_done = (\<lambda>w. (0, w))\<rparr>\<rparr>"

section \<open>Facts\<close>

text \<open>Numbered parameters obey the same contract as printed values.\<close>

interpretation pgp: value_printer param_number "\<lambda>k. Some (''$'' @ show_nat k)"
  by unfold_locales
    (auto simp: param_number_def print_result_def snprintf_def Let_def)

text \<open>The text that the server should receive for a bound value.\<close>

definition param_text :: "db_bind \<Rightarrow> string option" where
  "param_text q =
     (if b_type q = DB_TYPE_CHAR \<or> b_type q = DB_TYPE_VARCHAR
      then (case b_buffer q of StringData s \<Rightarrow> Some s | _ \<Rightarrow> None) else bind_text q)"

definition sent_value :: "db_bind \<Rightarrow> pg_buffer \<Rightarrow> pg_buffer" where
  "sent_value q old = (if b_is_null q \<noteq> None then old else PgText (the (param_text q)))"

lemma store_param_sent:
  assumes "b_is_null q = None \<Longrightarrow> param_text q = Some t \<and> length t < MAX_PARAM_LENGTH"
  shows "store_param q old = Some (sent_value q old)"
proof (cases "b_is_null q = None")
  case True
  with assms have t: "param_text q = Some t" "length t < MAX_PARAM_LENGTH" by simp_all
  show ?thesis
  proof (cases "b_type q = DB_TYPE_CHAR \<or> b_type q = DB_TYPE_VARCHAR")
    case True
    with t \<open>b_is_null q = None\<close> show ?thesis
      by (auto simp: store_param_def sent_value_def param_text_def split: bind_data.splits)
  next
    case False
    with t(1) have "bind_text q = Some t" by (simp add: param_text_def)
    from dbp.print_fits [OF this t(2)] False True t(1) show ?thesis
      by (simp add: store_param_def sent_value_def)
  qed
qed (simp add: store_param_def sent_value_def)

lemma store_params_sent:
  assumes "\<forall>q \<in> set qs. b_is_null q = None \<longrightarrow> (\<exists>t. param_text q = Some t \<and> length t < MAX_PARAM_LENGTH)"
    and "length qs = length bufs"
  shows "store_params qs bufs = Some (map2 sent_value qs bufs)"
  using assms
proof (induction qs bufs rule: store_params.induct)
  case (1 q qs b bs)
  then have "store_param q b = Some (sent_value q b)" using store_param_sent by (metis list.set_intros(1))
  with 1 show ?case by simp
qed auto

section \<open>Properties\<close>


definition example_pg_api :: "(string \<times> pg_buffer list) list pg_api" where
  "example_pg_api = \<lparr>PQsetdbLogin = (\<lambda>_ _ _ _ _ g. (1, g)), PQstatus_ok = (\<lambda>_ _. True), PQfinish = (\<lambda>_ g. g),
     PQserverVersion = (\<lambda>_ _. 90000), PQprepare = (\<lambda>_ n q _ _ g. (0, g)), PQexec = (\<lambda>_ q g. (0, g @ [(q, [])])),
     PQexecPrepared = (\<lambda>_ n _ vs g. (0, g @ [(n, vs)])), PQresultStatus = (\<lambda>_ _. PGRES_COMMAND_OK),
     PQerrorMessage = (\<lambda>_ _. []), PQntuples = (\<lambda>_ _. 0), PQclear = (\<lambda>_ g. g)\<rparr>"

definition example_pg :: "(string \<times> pg_buffer list) list pg_drv" where
  "example_pg = \<lparr>pg_host = None, pg_port = None, pg_user = None, pg_password = None, pg_db = None,
     pg_use_ps = True, pg_caps = pgsql_drv_caps, pg_stmts = Map.empty, pg_fresh = 0, pg_rng = default_rnd, glib = []\<rparr>"


text \<open>C32: What a prepared statement sends: for bound values whose texts are shorter than a parameter
  buffer, the text of every value that has no NULL indicator; a value that has one is not sent,
  whether or not the indicator says NULL: the buffer keeps what it held, at first uninitialised
  memory.\<close>

theorem pgsql_execute_sends_values:
  assumes "\<not> emulated stmt" and "st_ptr stmt = Some a" and "pg_stmts d a = Some ps" and "ps_nparams ps \<noteq> 0"
    and "bound_param stmt = Some qs" and "ps_pvalues ps = Some bufs" and "length qs = length bufs"
    and "\<forall>q \<in> set qs. b_is_null q = None \<longrightarrow> (\<exists>t. param_text q = Some t \<and> length t < MAX_PARAM_LENGTH)"
  shows "\<exists>rc r' d'. pgsql_drv_execute api alloc (Some con) stmt r d = Some (rc, r', d') \<and>
           (rc, glib d') =
             (let (res, g) = PQexecPrepared api con (ps_name ps) (ps_nparams ps) (map2 sent_value qs bufs) (glib d)
              in pgsql_check_status api con res g)"
  using assms store_params_sent [OF assms(8,7)]
  by (auto simp: pgsql_drv_execute_def execute_prepared_def Let_def split: prod.splits)

definition pg_int :: "bool option \<Rightarrow> int \<Rightarrow> db_bind" where
  "pg_int null n = \<lparr>b_type = DB_TYPE_INT, b_buffer = IntData n, b_data_len = None, b_max_len = 4, b_is_null = null\<rparr>"

theorem pgsql_execute_sends_values_witness:
  "\<exists>rc r' d'. pgsql_drv_execute example_pg_api (\<lambda>_. True) (Some 1)
       (zero_stmt\<lparr>st_ptr := Some 0, bound_param := Some [pg_int None 5, pg_int (Some False) 6]\<rparr>) zero_rs
       (example_pg\<lparr>pg_stmts := [0 \<mapsto> \<lparr>ps_name = ''s'', ps_prepared = True, ps_nparams = 2, ps_ptypes = Some [23, 23],
                                      ps_pvalues = Some [PgUninit, PgUninit]\<rparr>]\<rparr>) = Some (rc, r', d') \<and>
     glib d' = [(''s'', [PgText ''5'', PgUninit])]"
proof -
  let ?ps = "\<lparr>ps_name = ''s'', ps_prepared = True, ps_nparams = 2, ps_ptypes = Some [23, 23],
              ps_pvalues = Some [PgUninit, PgUninit]\<rparr>"
  let ?st = "zero_stmt\<lparr>st_ptr := Some 0, bound_param := Some [pg_int None 5, pg_int (Some False) 6]\<rparr>"
  have t: "param_text (pg_int None 5) = Some ''5''" by code_simp
  show ?thesis
    using pgsql_execute_sends_values [of ?st 0 "example_pg\<lparr>pg_stmts := [0 \<mapsto> ?ps]\<rparr>" ?ps
        "[pg_int None 5, pg_int (Some False) 6]" "[PgUninit, PgUninit]" example_pg_api "\<lambda>_. True" 1 zero_rs] t
    by (auto simp: zero_stmt_def MAX_PARAM_LENGTH_def sent_value_def pg_int_def example_pg_api_def
        example_pg_def pgsql_check_status_def)
qed

end
