(* ===== verification/Drizzle.thy ===== *)
theory Drizzle
  imports Placeholders
begin

text \<open>
  The Drizzle driver \<open>sysbench/drivers/drizzle/drv_drizzle.c\<close>. The client library is a record of functions
  over its own world \<^typ>\<open>'z\<close>; its handles are numbers. Statements are always emulated. A result
  set is read by one of four strategies that the option \<open>--drizzle-buffer\<close> selects. \<^const>\<open>None\<close> as the result
  of an operation is a NULL pointer that is followed or a loop that does not end. Debug messages and
  \<open>column_info\<close>, which only prints one, are not part of the model.
\<close>

section \<open>Data\<close>

definition drizzle_drv_args :: "sb_arg list" where
  "drizzle_drv_args =
    [\<lparr>arg_name = ''drizzle-host'', arg_desc = ''Drizzle server host'', arg_type = SB_ARG_TYPE_LIST,
      arg_value = Some ''localhost''\<rparr>,
     \<lparr>arg_name = ''drizzle-port'', arg_desc = ''Drizzle server port'', arg_type = SB_ARG_TYPE_INT,
      arg_value = Some ''4427''\<rparr>,
     \<lparr>arg_name = ''drizzle-socket'', arg_desc = ''Drizzle socket'', arg_type = SB_ARG_TYPE_STRING, arg_value = None\<rparr>,
     \<lparr>arg_name = ''drizzle-user'', arg_desc = ''Drizzle user'', arg_type = SB_ARG_TYPE_STRING, arg_value = Some []\<rparr>,
     \<lparr>arg_name = ''drizzle-password'', arg_desc = ''Drizzle password'', arg_type = SB_ARG_TYPE_STRING,
      arg_value = Some []\<rparr>,
     \<lparr>arg_name = ''drizzle-db'', arg_desc = ''Drizzle database name'', arg_type = SB_ARG_TYPE_STRING,
      arg_value = Some ''sbtest''\<rparr>,
     \<lparr>arg_name = ''drizzle-buffer'', arg_desc = ''Level of library buffering (none, field, row, all)'',
      arg_type = SB_ARG_TYPE_STRING, arg_value = Some ''none''\<rparr>,
     \<lparr>arg_name = ''drizzle-mysql'', arg_desc = ''Use MySQL Protocol'', arg_type = SB_ARG_TYPE_FLAG,
      arg_value = Some ''off''\<rparr>]"

datatype buffer_level = BUFFER_NONE | BUFFER_FIELD | BUFFER_ROW | BUFFER_ALL

definition drizzle_drv_caps :: drv_caps where
  "drizzle_drv_caps = \<lparr>multi_rows_insert = True, prepared_statements = False, auto_increment = True,
     needs_commit = False, caps_serial = False, unsigned_int = False\<rparr>"

datatype drizzle_return =
  DRIZZLE_RETURN_OK | DRIZZLE_RETURN_ERROR_CODE | DRIZZLE_RETURN_ROW_END | DRIZZLE_RETURN_OTHER int

text \<open>User, password, database and whether the MySQL protocol is used.\<close>

type_synonym dz_login = "string option \<times> string option \<times> string option \<times> bool"

record 'z drizzle_api =
  drizzle_create :: "'z \<Rightarrow> nat \<times> 'z"
  drizzle_con_add_uds :: "nat \<Rightarrow> string \<Rightarrow> dz_login \<Rightarrow> 'z \<Rightarrow> nat option \<times> 'z"
  drizzle_con_add_tcp :: "nat \<Rightarrow> string \<Rightarrow> u32 \<Rightarrow> dz_login \<Rightarrow> 'z \<Rightarrow> nat option \<times> 'z"
  drizzle_con_connect :: "nat \<Rightarrow> 'z \<Rightarrow> drizzle_return \<times> 'z"
  drizzle_con_close :: "nat \<Rightarrow> 'z \<Rightarrow> 'z"
  drizzle_query :: "nat \<Rightarrow> string \<Rightarrow> 'z \<Rightarrow> nat option \<times> drizzle_return \<times> 'z"
  drizzle_result_error_code :: "nat \<Rightarrow> 'z \<Rightarrow> u32"
  drizzle_result_row_count :: "nat \<Rightarrow> 'z \<Rightarrow> u64"
  drizzle_result_column_count :: "nat \<Rightarrow> 'z \<Rightarrow> nat"
  drizzle_result_buffer :: "nat \<Rightarrow> 'z \<Rightarrow> drizzle_return \<times> 'z"
  drizzle_column_next :: "nat \<Rightarrow> 'z \<Rightarrow> nat option \<times> 'z"
  drizzle_column_read :: "nat \<Rightarrow> nat option \<Rightarrow> 'z \<Rightarrow> nat option \<times> drizzle_return \<times> 'z"
  drizzle_row_buffer :: "nat \<Rightarrow> 'z \<Rightarrow> nat option \<times> drizzle_return \<times> 'z"
  drizzle_row_free :: "nat \<Rightarrow> nat \<Rightarrow> 'z \<Rightarrow> 'z"
  drizzle_row_read :: "nat \<Rightarrow> 'z \<Rightarrow> u64 \<times> drizzle_return \<times> 'z"
  drizzle_field_buffer :: "nat \<Rightarrow> 'z \<Rightarrow> nat option \<times> drizzle_return \<times> 'z"
  drizzle_field_read :: "nat \<Rightarrow> u64 \<Rightarrow> 'z \<Rightarrow> u64 \<times> drizzle_return \<times> 'z"
  drizzle_field_free :: "nat option \<Rightarrow> 'z \<Rightarrow> 'z"
  drizzle_result_free :: "nat \<Rightarrow> 'z \<Rightarrow> 'z"

record 'z drizzle_drv =
  dz_hosts :: "string list"
  dz_hosts_pos :: nat
  dz_port :: u32
  dz_socket :: "string option"
  dz_user :: "string option"
  dz_password :: "string option"
  dz_db :: "string option"
  dz_buffer :: buffer_level
  dz_mysql :: bool
  zlib :: 'z

section \<open>Initialisation and connections\<close>

text \<open>An unknown level keeps the level that is set.\<close>

definition buffer_of :: "string \<Rightarrow> buffer_level \<Rightarrow> buffer_level" where
  "buffer_of s old =
     (if strcasecmp_eq s ''none'' then BUFFER_NONE else if strcasecmp_eq s ''field'' then BUFFER_FIELD
      else if strcasecmp_eq s ''row'' then BUFFER_ROW else if strcasecmp_eq s ''all'' then BUFFER_ALL else old)"

text \<open>\<^const>\<open>None\<close>: the list option does not exist or the buffer option has no value, a NULL pointer given to
  \<open>strcasecmp\<close>; \<open>Inl\<close>: the exit code of \<open>sb_get_value_int\<close>.\<close>

definition drizzle_drv_init :: "options \<Rightarrow> 'z drizzle_drv \<Rightarrow> (int + int \<times> 'z drizzle_drv) option" where
  "drizzle_drv_init opts d =
     (case sb_get_value_list opts ''drizzle-host'' of
        None \<Rightarrow> None
      | Some hosts \<Rightarrow>
          (if hosts = [] then Some (Inr (1, d\<lparr>dz_hosts := []\<rparr>))
           else case sb_get_value_int opts ''drizzle-port'' of
             Inl c \<Rightarrow> Some (Inl c)
           | Inr port \<Rightarrow>
               (case sb_get_value_string opts ''drizzle-buffer'' of
                  None \<Rightarrow> None
                | Some s \<Rightarrow>
                    Some (Inr (0, d\<lparr>dz_hosts := map v_data hosts, dz_hosts_pos := 0, dz_port := word_of_int port,
                      dz_socket := sb_get_value_string opts ''drizzle-socket'',
                      dz_user := sb_get_value_string opts ''drizzle-user'',
                      dz_password := sb_get_value_string opts ''drizzle-password'',
                      dz_db := sb_get_value_string opts ''drizzle-db'',
                      dz_buffer := buffer_of s (dz_buffer d),
                      dz_mysql := sb_get_value_flag opts ''drizzle-mysql''\<rparr>)))))"

definition dz_login_of :: "'z drizzle_drv \<Rightarrow> dz_login" where
  "dz_login_of d = (dz_user d, dz_password d, dz_db d, dz_mysql d)"

text \<open>The new connection object: of the socket, or of the next host, chosen under \<open>hosts_mutex\<close>.\<close>

definition dz_add_con :: "'z drizzle_api \<Rightarrow> nat \<Rightarrow> 'z drizzle_drv \<Rightarrow> (nat option \<times> 'z drizzle_drv) option" where
  "dz_add_con api lib d =
     (case dz_socket d of
        Some s \<Rightarrow> (let (con, z) = drizzle_con_add_uds api lib s (dz_login_of d) (zlib d) in Some (con, d\<lparr>zlib := z\<rparr>))
      | None \<Rightarrow>
          (let p = next_pos (length (dz_hosts d)) (dz_hosts_pos d); d = d\<lparr>dz_hosts_pos := p\<rparr> in
           if p = 0 then None
           else let (con, z) = drizzle_con_add_tcp api lib (dz_hosts d ! (p - 1)) (dz_port d) (dz_login_of d) (zlib d)
                in Some (con, d\<lparr>zlib := z\<rparr>)))"

definition drizzle_drv_connect :: "'z drizzle_api \<Rightarrow> 'z drizzle_drv \<Rightarrow> (int \<times> nat option \<times> 'z drizzle_drv) option" where
  "drizzle_drv_connect api d =
     (let (lib, z) = drizzle_create api (zlib d) in
      case dz_add_con api lib (d\<lparr>zlib := z\<rparr>) of
        None \<Rightarrow> None
      | Some (None, d) \<Rightarrow> Some (1, None, d)
      | Some (Some con, d) \<Rightarrow>
          (let (ret, z) = drizzle_con_connect api con (zlib d); d = d\<lparr>zlib := z\<rparr> in
           if ret \<noteq> DRIZZLE_RETURN_OK then Some (1, None, d) else Some (0, Some con, d)))"

definition drizzle_drv_disconnect :: "'z drizzle_api \<Rightarrow> nat option \<Rightarrow> 'z drizzle_drv \<Rightarrow> int \<times> 'z drizzle_drv" where
  "drizzle_drv_disconnect api p d =
     (case p of None \<Rightarrow> (0, d) | Some con \<Rightarrow> (0, d\<lparr>zlib := drizzle_con_close api con (zlib d)\<rparr>))"

section \<open>Statements and queries\<close>

definition drizzle_drv_prepare :: "db_stmt \<Rightarrow> string \<Rightarrow> int \<times> db_stmt" where
  "drizzle_drv_prepare stmt query = (0, stmt\<lparr>emulated := True, st_query := Some query\<rparr>)"

definition drizzle_drv_bind_param :: "bool \<Rightarrow> nat option \<Rightarrow> db_stmt \<Rightarrow> db_bind list \<Rightarrow> int \<times> db_stmt" where
  "drizzle_drv_bind_param alloc p stmt params =
     (if p = None then (1, stmt)
      else if \<not> alloc then (1, stmt\<lparr>bound_param := None\<rparr>)
      else (0, stmt\<lparr>bound_param := Some params\<rparr>))"

definition drizzle_drv_bind_result :: int where
  "drizzle_drv_bind_result = 0"

text \<open>The error codes of the server after which a transaction can be repeated.\<close>

definition dz_retryable :: "u32 \<Rightarrow> bool" where
  "dz_retryable rc \<longleftrightarrow> rc = 1213 \<or> rc = 1205 \<or> rc = 1020"

definition drizzle_drv_query ::
  "'z drizzle_api \<Rightarrow> nat option \<Rightarrow> string \<Rightarrow> db_result_set \<Rightarrow> 'z drizzle_drv \<Rightarrow>
   (db_error \<times> db_result_set \<times> 'z drizzle_drv) option" where
  "drizzle_drv_query api p query r d =
     (case p of
        None \<Rightarrow> None
      | Some con \<Rightarrow>
          (let (result, ret, z) = drizzle_query api con query (zlib d); d = d\<lparr>zlib := z\<rparr> in
           if ret = DRIZZLE_RETURN_ERROR_CODE then
             (case result of
                None \<Rightarrow> None
              | Some res \<Rightarrow>
                  Some (if dz_retryable (drizzle_result_error_code api res z)
                        then SB_DB_ERROR_RESTART_TRANSACTION else SB_DB_ERROR_FAILED, r, d))
           else if ret \<noteq> DRIZZLE_RETURN_OK then Some (SB_DB_ERROR_FAILED, r, d)
           else case result of
             None \<Rightarrow> Some (SB_DB_ERROR_FAILED, r, d)
           | Some res \<Rightarrow>
               Some (SB_DB_ERROR_NONE, r\<lparr>rs_ptr := Some res, nrows := drizzle_result_row_count api res z\<rparr>, d)))"

definition drizzle_drv_execute ::
  "'z drizzle_api \<Rightarrow> (u32 \<Rightarrow> bool) \<Rightarrow> nat option \<Rightarrow> db_stmt \<Rightarrow> db_result_set \<Rightarrow> 'z drizzle_drv \<Rightarrow>
   (db_error \<times> db_result_set \<times> 'z drizzle_drv) option" where
  "drizzle_drv_execute api alloc p stmt r d =
     (case st_query stmt of
        None \<Rightarrow> None
      | Some q \<Rightarrow>
          (case build_query alloc (bound_value stmt) q None 0 True 0 of
             None \<Rightarrow> None
           | Some (Inl _) \<Rightarrow> Some (SB_DB_ERROR_FAILED, r, d)
           | Some (Inr buf) \<Rightarrow> drizzle_drv_query api p buf r d))"

section \<open>Result sets\<close>

text \<open>The loops that read a result; the flag of the last three tells whether no error was reported.\<close>

partial_function (option) skip_columns :: "'z drizzle_api \<Rightarrow> nat \<Rightarrow> 'z \<Rightarrow> 'z option" where
  "skip_columns api res z =
     (case drizzle_column_next api res z of (None, z) \<Rightarrow> Some z | (Some _, z) \<Rightarrow> skip_columns api res z)"

text \<open>The loop over the columns frees the column it has read and then hands the freed structure to the next call of
  \<open>drizzle_column_read\<close>: using it is undefined, so the loop goes through at most one round.\<close>

definition read_columns :: "'z drizzle_api \<Rightarrow> nat \<Rightarrow> 'z \<Rightarrow> (bool \<times> 'z) option" where
  "read_columns api res z =
     (let (column, ret, z) = drizzle_column_read api res None z in
      if ret \<noteq> DRIZZLE_RETURN_OK then Some (False, z)
      else case column of
        None \<Rightarrow> Some (True, z)
      | Some freed \<Rightarrow> None)"

partial_function (option) read_fields ::
  "'z drizzle_api \<Rightarrow> bool \<Rightarrow> nat \<Rightarrow> u64 \<Rightarrow> 'z \<Rightarrow> (bool \<times> u64 \<times> 'z) option" where
  "read_fields api buffered res offset z =
     (let (field, offset, ret, z) =
        (if buffered then (let (field, ret, z) = drizzle_field_buffer api res z in (field, offset, ret, z))
         else let (offset, ret, z) = drizzle_field_read api res offset z in (None, offset, ret, z))
      in if ret = DRIZZLE_RETURN_ROW_END then Some (True, offset, z)
         else if ret \<noteq> DRIZZLE_RETURN_OK then Some (False, offset, z)
         else read_fields api buffered res offset (if buffered then drizzle_field_free api field z else z))"

partial_function (option) read_rows ::
  "'z drizzle_api \<Rightarrow> buffer_level \<Rightarrow> nat \<Rightarrow> u64 \<Rightarrow> 'z \<Rightarrow> (bool \<times> 'z) option" where
  "read_rows api buffer res offset z =
     (if buffer = BUFFER_ROW then
        (let (row, ret, z) = drizzle_row_buffer api res z in
         if ret \<noteq> DRIZZLE_RETURN_OK then Some (False, z)
         else case row of
           None \<Rightarrow> Some (True, z)
         | Some x \<Rightarrow> read_rows api buffer res offset (drizzle_row_free api res x z))
      else if buffer = BUFFER_NONE \<or> buffer = BUFFER_FIELD then
        (let (row_num, ret, z) = drizzle_row_read api res z in
         if ret \<noteq> DRIZZLE_RETURN_OK then Some (False, z)
         else if row_num = 0 then Some (True, z)
         else case read_fields api (buffer = BUFFER_FIELD) res offset z of
           None \<Rightarrow> None
         | Some (ok, offset, z) \<Rightarrow> (if \<not> ok then Some (False, z) else read_rows api buffer res offset z))
      else read_rows api buffer res offset z)"

definition drizzle_drv_store_results ::
  "'z drizzle_api \<Rightarrow> db_result_set \<Rightarrow> 'z drizzle_drv \<Rightarrow> (db_error \<times> db_result_set \<times> 'z drizzle_drv) option" where
  "drizzle_drv_store_results api r d =
     (let result = (\<lambda>x. case x of
            None \<Rightarrow> None
          | Some (ok, z) \<Rightarrow> Some (if ok then SB_DB_ERROR_NONE else SB_DB_ERROR_FAILED, r, d\<lparr>zlib := z\<rparr>))
      in case rs_connection r of
           None \<Rightarrow> None
         | Some None \<Rightarrow> Some (SB_DB_ERROR_FAILED, r, d)
         | Some (Some con) \<Rightarrow>
             (case rs_ptr r of
                None \<Rightarrow> Some (SB_DB_ERROR_FAILED, r, d)
              | Some res \<Rightarrow>
                  (if dz_buffer d = BUFFER_ALL then
                     (let (ret, z) = drizzle_result_buffer api res (zlib d) in
                      if ret \<noteq> DRIZZLE_RETURN_OK then result (Some (False, z))
                      else result (map_option (Pair True) (skip_columns api res z)))
                   else if drizzle_result_column_count api res (zlib d) > 0 then
                     result (case read_columns api res (zlib d) of
                               None \<Rightarrow> None
                             | Some (ok, z) \<Rightarrow>
                                 (if ok then read_rows api (dz_buffer d) res 0 z else Some (False, z)))
                   else result (Some (True, zlib d)))))"

definition drizzle_drv_num_rows :: "db_result_set \<Rightarrow> u64" where
  "drizzle_drv_num_rows r = nrows r"

definition drizzle_drv_free_results :: "'z drizzle_api \<Rightarrow> db_result_set \<Rightarrow> 'z drizzle_drv \<Rightarrow> int \<times> 'z drizzle_drv" where
  "drizzle_drv_free_results api r d =
     (case rs_ptr r of None \<Rightarrow> (1, d) | Some res \<Rightarrow> (0, d\<lparr>zlib := drizzle_result_free api res (zlib d)\<rparr>))"

section \<open>The driver\<close>

text \<open>\<open>drizzle_drv_fetch_row\<close> is not implemented by the driver and returns 1.\<close>

definition drizzle_driver :: "'z drizzle_api \<Rightarrow> options \<Rightarrow> 'z drizzle_drv option db_driver" where
  "drizzle_driver api opts = \<lparr>sname = ''drizzle'', lname = ''Drizzle driver'', drv_args = Some drizzle_drv_args,
     ops = \<lparr>
       op_init = lift_op 1 (\<lambda>d. case drizzle_drv_init opts d of Some (Inr (rc, d)) \<Rightarrow> Some (rc, d) | _ \<Rightarrow> None),
       op_describe = Some (\<lambda>w. (0, drizzle_drv_caps, w)),
       op_connect = lift_op2 (1, None) (drizzle_drv_connect api),
       op_disconnect = (\<lambda>p. lift_op 1 (\<lambda>d. Some (drizzle_drv_disconnect api p d))),
       op_prepare = (\<lambda>p st q w. let (rc, st) = drizzle_drv_prepare st q in (rc, st, w)),
       op_bind_param = (\<lambda>p st ps w. let (rc, st) = drizzle_drv_bind_param True p st ps in (rc, st, w)),
       op_bind_result = (\<lambda>p st ps w. (drizzle_drv_bind_result, st, w)),
       op_execute = (\<lambda>p st r. lift_op2 (SB_DB_ERROR_FAILED, r) (drizzle_drv_execute api (\<lambda>_. True) p st r)),
       op_fetch_row = (\<lambda>r w. (1, w)),
       op_num_rows = (\<lambda>r w. drizzle_drv_num_rows r),
       op_free_results = (\<lambda>r w. let (rc, w) = lift_op 1 (\<lambda>d. Some (drizzle_drv_free_results api r d)) w in (rc, r, w)),
       op_close = (\<lambda>p st w. (0, w)),
       op_query = (\<lambda>p q r. lift_op2 (SB_DB_ERROR_FAILED, r) (drizzle_drv_query api p q r)),
       op_store_results = (\<lambda>r. lift_op2 (SB_DB_ERROR_FAILED, r) (drizzle_drv_store_results api r)),
       op_done = (\<lambda>w. (0, w))\<rparr>\<rparr>"

section \<open>Reading ends\<close>

text \<open>A result that the library delivers in finitely many pieces: some measure of what is left falls with every
  column of a buffered result and with every row and field that is read.\<close>

definition dz_finite :: "'z drizzle_api \<Rightarrow> nat \<Rightarrow> ('z \<Rightarrow> nat) \<Rightarrow> bool" where
  "dz_finite api res left \<longleftrightarrow>
     (\<forall>z c z'. drizzle_column_next api res z = (Some c, z') \<longrightarrow> left z' < left z) \<and>
     (\<forall>z x z'. drizzle_row_buffer api res z = (Some x, DRIZZLE_RETURN_OK, z') \<longrightarrow>
        left (drizzle_row_free api res x z') < left z) \<and>
     (\<forall>z n z'. drizzle_row_read api res z = (n, DRIZZLE_RETURN_OK, z') \<longrightarrow> n \<noteq> 0 \<longrightarrow> left z' < left z) \<and>
     (\<forall>z f z'. drizzle_field_buffer api res z = (f, DRIZZLE_RETURN_OK, z') \<longrightarrow>
        left (drizzle_field_free api f z') < left z) \<and>
     (\<forall>z f z'. drizzle_field_buffer api res z = (f, DRIZZLE_RETURN_ROW_END, z') \<longrightarrow> left z' \<le> left z) \<and>
     (\<forall>z off off' z'. drizzle_field_read api res off z = (off', DRIZZLE_RETURN_OK, z') \<longrightarrow> left z' < left z) \<and>
     (\<forall>z off off' z'. drizzle_field_read api res off z = (off', DRIZZLE_RETURN_ROW_END, z') \<longrightarrow> left z' \<le> left z)"

text \<open>A library that reports no error.\<close>

definition dz_reliable :: "'z drizzle_api \<Rightarrow> nat \<Rightarrow> bool" where
  "dz_reliable api res \<longleftrightarrow>
     (\<forall>z. fst (drizzle_result_buffer api res z) = DRIZZLE_RETURN_OK) \<and>
     (\<forall>z. fst (snd (drizzle_column_read api res None z)) = DRIZZLE_RETURN_OK) \<and>
     (\<forall>z. fst (snd (drizzle_row_buffer api res z)) = DRIZZLE_RETURN_OK) \<and>
     (\<forall>z. fst (snd (drizzle_row_read api res z)) = DRIZZLE_RETURN_OK) \<and>
     (\<forall>z. fst (snd (drizzle_field_buffer api res z)) \<in> {DRIZZLE_RETURN_OK, DRIZZLE_RETURN_ROW_END}) \<and>
     (\<forall>z off. fst (snd (drizzle_field_read api res off z)) \<in> {DRIZZLE_RETURN_OK, DRIZZLE_RETURN_ROW_END})"

lemma skip_columns_ends:
  assumes "dz_finite api res left"
  shows "\<exists>z'. skip_columns api res z = Some z'"
proof (induction "left z" arbitrary: z rule: less_induct)
  case less
  show ?case
  proof (cases "drizzle_column_next api res z")
    case (Pair c z')
    show ?thesis
    proof (cases c)
      case None
      with Pair show ?thesis by (subst skip_columns.simps) simp
    next
      case (Some x)
      with Pair assms have "left z' < left z" by (auto simp: dz_finite_def)
      with less Pair Some show ?thesis by (subst skip_columns.simps) simp
    qed
  qed
qed

text \<open>One step of the loop over the fields.\<close>

definition next_field :: "'z drizzle_api \<Rightarrow> bool \<Rightarrow> nat \<Rightarrow> u64 \<Rightarrow> 'z \<Rightarrow> nat option \<times> u64 \<times> drizzle_return \<times> 'z" where
  "next_field api buffered res offset z =
     (if buffered then (let (field, ret, z) = drizzle_field_buffer api res z in (field, offset, ret, z))
      else let (offset, ret, z) = drizzle_field_read api res offset z in (None, offset, ret, z))"

lemma next_field_left:
  assumes "dz_finite api res left" and "next_field api buffered res offset z = (f, off, ret, z')"
  shows "ret = DRIZZLE_RETURN_OK \<Longrightarrow> left (if buffered then drizzle_field_free api f z' else z') < left z"
    and "ret = DRIZZLE_RETURN_ROW_END \<Longrightarrow> left z' \<le> left z"
  using assms by (auto simp: next_field_def dz_finite_def split: if_splits prod.splits)

lemma next_field_reliable:
  assumes "dz_reliable api res" and "next_field api buffered res offset z = (f, off, ret, z')"
  shows "ret = DRIZZLE_RETURN_OK \<or> ret = DRIZZLE_RETURN_ROW_END"
proof -
  have "fst (snd (drizzle_field_buffer api res z)) \<in> {DRIZZLE_RETURN_OK, DRIZZLE_RETURN_ROW_END}"
    "fst (snd (drizzle_field_read api res offset z)) \<in> {DRIZZLE_RETURN_OK, DRIZZLE_RETURN_ROW_END}"
    using assms(1) unfolding dz_reliable_def by blast+
  with assms(2) show ?thesis by (auto simp: next_field_def split: if_splits prod.splits)
qed

lemma read_fields_ends:
  assumes "dz_finite api res left"
  shows "\<exists>ok off z'. read_fields api buffered res offset z = Some (ok, off, z') \<and> (ok \<longrightarrow> left z' \<le> left z) \<and>
           (dz_reliable api res \<longrightarrow> ok)"
proof (induction "left z" arbitrary: z offset rule: less_induct)
  case less
  obtain f off ret z' where r: "next_field api buffered res offset z = (f, off, ret, z')" by (metis prod_cases4)
  note n = next_field_left [OF assms r] next_field_reliable [OF _ r]
  let ?z = "if buffered then drizzle_field_free api f z' else z'"
  have step: "read_fields api buffered res offset z =
      (if ret = DRIZZLE_RETURN_ROW_END then Some (True, off, z')
       else if ret \<noteq> DRIZZLE_RETURN_OK then Some (False, off, z') else read_fields api buffered res off ?z)"
    using r by (subst read_fields.simps) (simp add: next_field_def)
  show ?case
  proof (cases "ret = DRIZZLE_RETURN_OK")
    case True
    with less [OF n(1), of off] n(1) step show ?thesis by fastforce
  qed (use n step in auto)
qed

lemma read_rows_ends:
  assumes "dz_finite api res left" and "buffer \<noteq> BUFFER_ALL"
  shows "\<exists>ok z'. read_rows api buffer res offset z = Some (ok, z') \<and> (dz_reliable api res \<longrightarrow> ok)"
proof (induction "left z" arbitrary: z offset rule: less_induct)
  case less
  show ?case
  proof (cases "buffer = BUFFER_ROW")
    case True
    obtain x ret z' where r: "drizzle_row_buffer api res z = (x, ret, z')" by (metis prod_cases3)
    have rel: "dz_reliable api res \<longrightarrow> ret = DRIZZLE_RETURN_OK" using r by (auto simp: dz_reliable_def) (metis fst_conv snd_conv)
    show ?thesis
    proof (cases "ret = DRIZZLE_RETURN_OK \<and> x \<noteq> None")
      case True
      then obtain y where y: "x = Some y" "left (drizzle_row_free api res y z') < left z"
        using assms r by (auto simp: dz_finite_def)
      from less [OF y(2), of offset] True y(1) r \<open>buffer = BUFFER_ROW\<close> show ?thesis by (subst read_rows.simps) simp
    qed (use True r rel in \<open>subst read_rows.simps, auto\<close>)
  next
    case False
    with assms(2) have b: "buffer = BUFFER_NONE \<or> buffer = BUFFER_FIELD" by (cases buffer) simp_all
    obtain k ret z' where r: "drizzle_row_read api res z = (k, ret, z')" by (metis prod_cases3)
    have rel: "dz_reliable api res \<longrightarrow> ret = DRIZZLE_RETURN_OK" using r by (auto simp: dz_reliable_def) (metis fst_conv snd_conv)
    obtain ok off z2 where f: "read_fields api (buffer = BUFFER_FIELD) res offset z' = Some (ok, off, z2)"
        "ok \<longrightarrow> left z2 \<le> left z'" "dz_reliable api res \<longrightarrow> ok"
      using read_fields_ends [OF assms(1)] by blast
    have step: "read_rows api buffer res offset z =
        (if ret \<noteq> DRIZZLE_RETURN_OK then Some (False, z') else if k = 0 then Some (True, z')
         else if \<not> ok then Some (False, z2) else read_rows api buffer res off z2)"
      using False b r f(1) by (subst read_rows.simps) simp
    show ?thesis
    proof (cases "ret = DRIZZLE_RETURN_OK \<and> k \<noteq> 0 \<and> ok")
      case True
      then have "left z' < left z" using assms(1) r by (auto simp: dz_finite_def)
      with f(2) True have "left z2 < left z" by simp
      from less [OF this, of off] step True show ?thesis by simp
    qed (use step rel f(3) in auto)
  qed
qed

section \<open>Properties\<close>

text \<open>Reading a result ends: when the library delivers it in finitely many pieces, \<open>drizzle_drv_store_results\<close>
  returns if the whole result is buffered or the library describes no column; it reports success when
  no call of the library fails, and otherwise only success or a fatal error.\<close>

theorem drizzle_store_results_returns:
  assumes "dz_finite api res left" and "rs_connection r = Some (Some con)" and "rs_ptr r = Some res"
    and "dz_buffer d = BUFFER_ALL \<or> fst (drizzle_column_read api res None (zlib d)) = None"
  shows "\<exists>e d'. drizzle_drv_store_results api r d = Some (e, r, d') \<and> e \<in> {SB_DB_ERROR_NONE, SB_DB_ERROR_FAILED} \<and>
           (dz_reliable api res \<longrightarrow> e = SB_DB_ERROR_NONE)"
proof (cases "dz_buffer d = BUFFER_ALL")
  case True
  obtain ret z where r: "drizzle_result_buffer api res (zlib d) = (ret, z)" by fastforce
  have "dz_reliable api res \<longrightarrow> ret = DRIZZLE_RETURN_OK" using r by (auto simp: dz_reliable_def) (metis fst_conv)
  moreover obtain z' where "skip_columns api res z = Some z'" using skip_columns_ends [OF assms(1)] by blast
  ultimately show ?thesis using True r assms(2,3) by (auto simp: drizzle_drv_store_results_def Let_def)
next
  case False
  with assms(4) obtain ret z where r: "drizzle_column_read api res None (zlib d) = (None, ret, z)" by (metis prod_cases3 fst_conv)
  then have c: "dz_reliable api res \<longrightarrow> ret = DRIZZLE_RETURN_OK" by (auto simp: dz_reliable_def) (metis fst_conv snd_conv)
  obtain ok' z' where "read_rows api (dz_buffer d) res 0 z = Some (ok', z')" "dz_reliable api res \<longrightarrow> ok'"
    using read_rows_ends [OF assms(1) False] by blast
  with False r c assms(2,3) show ?thesis by (auto simp: drizzle_drv_store_results_def read_columns_def Let_def)
qed

text \<open>With every other level of buffering, the first column that the library describes leads to the use of a freed
  structure.\<close>

theorem drizzle_column_used_after_free:
  assumes "dz_buffer d \<noteq> BUFFER_ALL" and "drizzle_result_column_count api res (zlib d) > 0"
    and "drizzle_column_read api res None (zlib d) = (Some c, DRIZZLE_RETURN_OK, z)"
    and "rs_connection r = Some (Some con)" and "rs_ptr r = Some res"
  shows "drizzle_drv_store_results api r d = None"
  using assms by (simp add: drizzle_drv_store_results_def read_columns_def)

text \<open>A client library for examples: its world is the list of queries it received and the number of rows
  left in the result; the query \<open>deadlock\<close> fails with error 1213.\<close>

definition example_dz_api :: "(string list \<times> nat) drizzle_api" where
  "example_dz_api = \<lparr>drizzle_create = (\<lambda>z. (1, z)), drizzle_con_add_uds = (\<lambda>_ _ _ z. (Some 2, z)),
     drizzle_con_add_tcp = (\<lambda>_ _ _ _ z. (Some 2, z)), drizzle_con_connect = (\<lambda>_ z. (DRIZZLE_RETURN_OK, z)),
     drizzle_con_close = (\<lambda>_ z. z),
     drizzle_query = (\<lambda>_ q (w, n). (Some 3, if q = ''deadlock'' then DRIZZLE_RETURN_ERROR_CODE else DRIZZLE_RETURN_OK,
                                    (w @ [q], n))),
     drizzle_result_error_code = (\<lambda>_ _. 1213), drizzle_result_row_count = (\<lambda>_ (w, n). of_nat n),
     drizzle_result_column_count = (\<lambda>_ _. 1), drizzle_result_buffer = (\<lambda>_ z. (DRIZZLE_RETURN_OK, z)),
     drizzle_column_next = (\<lambda>_ z. (None, z)), drizzle_column_read = (\<lambda>_ _ z. (None, DRIZZLE_RETURN_OK, z)),
     drizzle_row_buffer = (\<lambda>_ (w, n). (if n = 0 then None else Some n, DRIZZLE_RETURN_OK, (w, n - 1))),
     drizzle_row_free = (\<lambda>_ _ z. z), drizzle_row_read = (\<lambda>_ z. (0, DRIZZLE_RETURN_OK, z)),
     drizzle_field_buffer = (\<lambda>_ z. (None, DRIZZLE_RETURN_ROW_END, z)),
     drizzle_field_read = (\<lambda>_ off z. (off, DRIZZLE_RETURN_ROW_END, z)), drizzle_field_free = (\<lambda>_ z. z),
     drizzle_result_free = (\<lambda>_ z. z)\<rparr>"

definition example_dz :: "(string list \<times> nat) drizzle_drv" where
  "example_dz = \<lparr>dz_hosts = [''a''], dz_hosts_pos = 0, dz_port = 4427, dz_socket = None, dz_user = None,
     dz_password = None, dz_db = None, dz_buffer = BUFFER_ROW, dz_mysql = False, zlib = ([], 2)\<rparr>"

theorem drizzle_store_results_returns_witness:
  "\<exists>d'. drizzle_drv_store_results example_dz_api (zero_rs\<lparr>rs_connection := Some (Some 2), rs_ptr := Some 3\<rparr>) example_dz
     = Some (SB_DB_ERROR_NONE, zero_rs\<lparr>rs_connection := Some (Some 2), rs_ptr := Some 3\<rparr>, d')"
proof -
  have "dz_finite example_dz_api 3 snd" by (auto simp: dz_finite_def example_dz_api_def split: if_splits)
  moreover have "dz_reliable example_dz_api 3" by (simp add: dz_reliable_def example_dz_api_def)
  ultimately show ?thesis
    using drizzle_store_results_returns [of example_dz_api 3 snd "zero_rs\<lparr>rs_connection := Some (Some 2), rs_ptr := Some 3\<rparr>" 2
        example_dz] by (auto simp: example_dz_api_def)
qed

text \<open>C33: Executing a statement of the Drizzle driver sends exactly the query in which the placeholders are replaced by the
  texts of the bound values, once; a deadlock, a lock wait timeout and a changed record ask for a restart of the
  transaction, every other failure is fatal, and the result set gets the result of the library and its number of rows
  exactly when there was no failure. This is for a statement with a query that is not empty, a bound value for every
  placeholder, each of a type the driver prints, and a final text below \<open>2 ^ 29\<close> bytes, when memory can be
  allocated and the library returns a result.\<close>

theorem drizzle_execute_outcome:
  assumes "st_query stmt = Some q" and "q \<noteq> []" and "bound_param stmt = Some ps" and "placeholders q \<le> length ps"
    and "\<forall>v \<in> set ps. bind_text v \<noteq> None"
    and "length (subst_query (\<lambda>k. the (bind_text (ps ! k))) 0 q) < 2 ^ 29"
    and "drizzle_query api con (subst_query (\<lambda>k. the (bind_text (ps ! k))) 0 q) (zlib d) = (Some res, ret, z)"
  shows "drizzle_drv_execute api (\<lambda>_. True) (Some con) stmt r d =
           Some (if ret = DRIZZLE_RETURN_OK then SB_DB_ERROR_NONE
                 else if ret = DRIZZLE_RETURN_ERROR_CODE \<and> drizzle_result_error_code api res z \<in> {1213, 1205, 1020}
                 then SB_DB_ERROR_RESTART_TRANSACTION else SB_DB_ERROR_FAILED,
                 if ret = DRIZZLE_RETURN_OK then r\<lparr>rs_ptr := Some res, nrows := drizzle_result_row_count api res z\<rparr> else r,
                 d\<lparr>zlib := z\<rparr>)"
  using bound_query_built [OF assms(3-5,2,6)] assms(1,7)
  by (auto simp: drizzle_drv_execute_def drizzle_drv_query_def dz_retryable_def Let_def)

theorem drizzle_execute_outcome_witness:
  "drizzle_drv_execute example_dz_api (\<lambda>_. True) (Some 2)
     (zero_stmt\<lparr>emulated := True, st_query := Some ''dead?'', bound_param := Some
        [\<lparr>b_type = DB_TYPE_INT, b_buffer = IntData 7, b_data_len = None, b_max_len = 4, b_is_null = None\<rparr>]\<rparr>) zero_rs example_dz =
   Some (SB_DB_ERROR_NONE, zero_rs\<lparr>rs_ptr := Some 3, nrows := 2\<rparr>, example_dz\<lparr>zlib := ([''dead7''], 2)\<rparr>)"
proof -
  let ?v = "\<lparr>b_type = DB_TYPE_INT, b_buffer = IntData 7, b_data_len = None, b_max_len = 4, b_is_null = None\<rparr>"
  have t: "bind_text ?v = Some ''7''" by code_simp
  show ?thesis
    using drizzle_execute_outcome [of "zero_stmt\<lparr>emulated := True, st_query := Some ''dead?'', bound_param := Some [?v]\<rparr>"
        "''dead?''" "[?v]" example_dz_api 2 example_dz 3 DRIZZLE_RETURN_OK "([''dead7''], 2)" zero_rs]
    by (simp add: t placeholders_def example_dz_api_def) (simp add: example_dz_def)
qed

end
