(* ===== verification/AttachSQL.thy ===== *)
theory AttachSQL
  imports Placeholders
begin

text \<open>
  The driver for libAttachSQL, \<open>sysbench/drivers/attachsql/drv_attachsql.c\<close>. The library is a record of functions
  over its own world \<^typ>\<open>'a\<close>; its handles are numbers. It works asynchronously: a call starts an
  operation and \<open>attachsql_connect_poll\<close> is called until the operation is at its end. The pointer
  \<open>error\<close> is \<^const>\<open>None\<close> or the code of an error; a call that finds none leaves it as it is. \<^const>\<open>None\<close> as
  the result of an operation is a NULL pointer given to the library, a value read with a wrong type
  or a loop that does not end. Calls of \<open>log_text\<close> are not part of the model.
\<close>

section \<open>Data\<close>

definition attachsql_drv_args :: "sb_arg list" where
  "attachsql_drv_args =
    [\<lparr>arg_name = ''attachsql-host'', arg_desc = ''libAttachSQL server host'', arg_type = SB_ARG_TYPE_LIST,
      arg_value = Some ''localhost''\<rparr>,
     \<lparr>arg_name = ''attachsql-port'', arg_desc = ''libAttachSQL server port'', arg_type = SB_ARG_TYPE_INT,
      arg_value = Some ''4427''\<rparr>,
     \<lparr>arg_name = ''attachsql-socket'', arg_desc = ''libAttachSQL socket'', arg_type = SB_ARG_TYPE_STRING,
      arg_value = None\<rparr>,
     \<lparr>arg_name = ''attachsql-user'', arg_desc = ''libAttachSQL user'', arg_type = SB_ARG_TYPE_STRING,
      arg_value = Some []\<rparr>,
     \<lparr>arg_name = ''attachsql-password'', arg_desc = ''libAttachSQL password'', arg_type = SB_ARG_TYPE_STRING,
      arg_value = Some []\<rparr>,
     \<lparr>arg_name = ''attachsql-db'', arg_desc = ''libAttachSQL database name'', arg_type = SB_ARG_TYPE_STRING,
      arg_value = Some ''sbtest''\<rparr>]"

definition attachsql_drv_caps :: drv_caps where
  "attachsql_drv_caps = \<lparr>multi_rows_insert = True, prepared_statements = True, auto_increment = True,
     needs_commit = False, caps_serial = False, unsigned_int = False\<rparr>"

datatype attachsql_return =
  ATTACHSQL_RETURN_NONE | ATTACHSQL_RETURN_IDLE | ATTACHSQL_RETURN_ROW_READY | ATTACHSQL_RETURN_EOF
| ATTACHSQL_RETURN_OTHER int

text \<open>The functions \<open>attachsql_statement_set_...\<close> with their values.\<close>

datatype att_value =
  AttInt int | AttBigint int | AttFloat real | AttDouble real | AttTime u32 u32 u32
| AttDatetime u32 u32 u32 u32 u32 u32 | AttString u64 string | AttNull

datatype att_column =
  ATTACHSQL_COLUMN_TYPE_TINY | ATTACHSQL_COLUMN_TYPE_SHORT | ATTACHSQL_COLUMN_TYPE_LONG
| ATTACHSQL_COLUMN_TYPE_YEAR | ATTACHSQL_COLUMN_TYPE_INT24 | ATTACHSQL_COLUMN_TYPE_LONGLONG
| ATTACHSQL_COLUMN_TYPE_FLOAT | ATTACHSQL_COLUMN_TYPE_DOUBLE | ATTACHSQL_COLUMN_TYPE_OTHER int

text \<open>The functions \<open>attachsql_statement_get_...\<close>.\<close>

datatype att_getter = GetInt | GetBigint | GetFloat | GetDouble | GetChar

record 'a attachsql_api =
  attachsql_library_init :: "'a \<Rightarrow> 'a"
  attachsql_connect_create ::
    "string \<Rightarrow> u32 \<Rightarrow> string option \<Rightarrow> string option \<Rightarrow> string option \<Rightarrow> 'a \<Rightarrow> nat option \<times> 'a"
  attachsql_connect_set_option :: "nat \<Rightarrow> 'a \<Rightarrow> 'a"
  attachsql_connect :: "nat \<Rightarrow> 'a \<Rightarrow> bool \<times> 'a"
  attachsql_connect_poll :: "nat \<Rightarrow> 'a \<Rightarrow> attachsql_return \<times> u32 option \<times> 'a"
  attachsql_connect_destroy :: "nat \<Rightarrow> 'a \<Rightarrow> 'a"
  attachsql_statement_prepare :: "nat \<Rightarrow> string \<Rightarrow> 'a \<Rightarrow> u32 option \<times> 'a"
  attachsql_statement_set :: "nat \<Rightarrow> 16 word \<Rightarrow> att_value \<Rightarrow> 'a \<Rightarrow> 'a"
  attachsql_statement_execute :: "nat \<Rightarrow> 'a \<Rightarrow> u32 option \<times> 'a"
  attachsql_statement_row_get :: "nat \<Rightarrow> 'a \<Rightarrow> 'a"
  attachsql_statement_get_column_type :: "nat \<Rightarrow> nat \<Rightarrow> 'a \<Rightarrow> att_column"
  attachsql_statement_get :: "att_getter \<Rightarrow> nat \<Rightarrow> nat \<Rightarrow> 'a \<Rightarrow> 'a"
  attachsql_statement_close :: "nat \<Rightarrow> 'a \<Rightarrow> 'a"
  attachsql_query :: "nat \<Rightarrow> string \<Rightarrow> 'a \<Rightarrow> u32 option \<times> 'a"
  attachsql_query_close :: "nat \<Rightarrow> 'a \<Rightarrow> 'a"
  attachsql_query_column_count :: "nat \<Rightarrow> 'a \<Rightarrow> 16 word"
  attachsql_query_row_get :: "nat \<Rightarrow> 'a \<Rightarrow> 'a"
  attachsql_query_row_next :: "nat \<Rightarrow> 'a \<Rightarrow> 'a"

record 'a attachsql_drv =
  at_hosts :: "string list"
  at_hosts_pos :: nat
  at_port :: u32
  at_socket :: "string option"
  at_user :: "string option"
  at_password :: "string option"
  at_db :: "string option"
  alib :: 'a

section \<open>Polling\<close>

text \<open>
  The loops \<open>while (aret != ...) aret = attachsql_connect_poll (con, &error)\<close>: \<open>stop\<close> is the condition under which
  the loop is left, \<open>early\<close> the one under which it is left before \<open>error\<close> is tested. \<open>Inl\<close> is an error.
\<close>

partial_function (option) poll_until ::
  "'a attachsql_api \<Rightarrow> (attachsql_return \<Rightarrow> bool) \<Rightarrow> (attachsql_return \<Rightarrow> bool) \<Rightarrow> nat \<Rightarrow> attachsql_return \<Rightarrow>
   u32 option \<Rightarrow> 'a \<Rightarrow> ((u32 + attachsql_return) \<times> 'a) option" where
  "poll_until api early stop con aret error a =
     (if stop aret then Some (Inr aret, a)
      else let (aret, e, a) = attachsql_connect_poll api con a; error = (if e = None then error else e) in
        if early aret then Some (Inr aret, a)
        else case error of
          Some c \<Rightarrow> Some (Inl c, a)
        | None \<Rightarrow> poll_until api early stop con aret error a)"

abbreviation never :: "attachsql_return \<Rightarrow> bool" where "never \<equiv> \<lambda>_. False"
definition at_idle :: "attachsql_return \<Rightarrow> bool" where "at_idle r \<longleftrightarrow> r = ATTACHSQL_RETURN_IDLE"
definition at_eof :: "attachsql_return \<Rightarrow> bool" where "at_eof r \<longleftrightarrow> r = ATTACHSQL_RETURN_EOF"
definition at_row :: "attachsql_return \<Rightarrow> bool" where "at_row r \<longleftrightarrow> r = ATTACHSQL_RETURN_ROW_READY"
definition at_row_or_eof :: "attachsql_return \<Rightarrow> bool" where
  "at_row_or_eof r \<longleftrightarrow> r = ATTACHSQL_RETURN_EOF \<or> r = ATTACHSQL_RETURN_ROW_READY"

section \<open>Initialisation and connections\<close>

definition attachsql_drv_init ::
  "'a attachsql_api \<Rightarrow> options \<Rightarrow> 'a attachsql_drv \<Rightarrow> (int + int \<times> 'a attachsql_drv) option" where
  "attachsql_drv_init api opts d =
     (case sb_get_value_list opts ''attachsql-host'' of
        None \<Rightarrow> None
      | Some hosts \<Rightarrow>
          (if hosts = [] then Some (Inr (1, d\<lparr>at_hosts := []\<rparr>))
           else case sb_get_value_int opts ''attachsql-port'' of
             Inl c \<Rightarrow> Some (Inl c)
           | Inr port \<Rightarrow>
               Some (Inr (0, d\<lparr>at_hosts := map v_data hosts, at_hosts_pos := 0, at_port := word_of_int port,
                 at_socket := sb_get_value_string opts ''attachsql-socket'',
                 at_user := sb_get_value_string opts ''attachsql-user'',
                 at_password := sb_get_value_string opts ''attachsql-password'',
                 at_db := sb_get_value_string opts ''attachsql-db'',
                 alib := attachsql_library_init api (alib d)\<rparr>))))"

text \<open>The connection object: of the socket with port 0, or of the next host, chosen under \<open>hosts_mutex\<close>.\<close>

definition at_create :: "'a attachsql_api \<Rightarrow> 'a attachsql_drv \<Rightarrow> (nat option \<times> 'a attachsql_drv) option" where
  "at_create api d =
     (let create = (\<lambda>host port d. let (con, a) = attachsql_connect_create api host port (at_user d) (at_password d)
                                                    (at_db d) (alib d) in (con, d\<lparr>alib := a\<rparr>))
      in case at_socket d of
           Some s \<Rightarrow> Some (create s 0 d)
         | None \<Rightarrow>
             (let p = next_pos (length (at_hosts d)) (at_hosts_pos d); d = d\<lparr>at_hosts_pos := p\<rparr> in
              if p = 0 then None else Some (create (at_hosts d ! (p - 1)) (at_port d) d)))"

definition attachsql_drv_connect ::
  "'a attachsql_api \<Rightarrow> 'a attachsql_drv \<Rightarrow> (int \<times> nat option \<times> 'a attachsql_drv) option" where
  "attachsql_drv_connect api d =
     (case at_create api d of
        None \<Rightarrow> None
      | Some (None, d) \<Rightarrow> Some (1, None, d)
      | Some (Some con, d) \<Rightarrow>
          (let (ok, a) = attachsql_connect api con (attachsql_connect_set_option api con (alib d)) in
           if \<not> ok then Some (1, None, d\<lparr>alib := attachsql_connect_destroy api con a\<rparr>)
           else case poll_until api never at_idle con ATTACHSQL_RETURN_NONE None a of
             None \<Rightarrow> None
           | Some (Inl _, a) \<Rightarrow> Some (1, None, d\<lparr>alib := attachsql_connect_destroy api con a\<rparr>)
           | Some (Inr _, a) \<Rightarrow> Some (0, Some con, d\<lparr>alib := a\<rparr>)))"

definition attachsql_drv_disconnect ::
  "'a attachsql_api \<Rightarrow> nat option \<Rightarrow> 'a attachsql_drv \<Rightarrow> int \<times> 'a attachsql_drv" where
  "attachsql_drv_disconnect api p d =
     (case p of None \<Rightarrow> (0, d) | Some con \<Rightarrow> (0, d\<lparr>alib := attachsql_connect_destroy api con (alib d)\<rparr>))"

section \<open>Statements\<close>

text \<open>The result 3 is the number of \<open>SB_DB_ERROR_FAILED\<close>.\<close>

definition attachsql_drv_prepare ::
  "'a attachsql_api \<Rightarrow> nat option \<Rightarrow> db_stmt \<Rightarrow> string \<Rightarrow> 'a attachsql_drv \<Rightarrow> (int \<times> db_stmt \<times> 'a attachsql_drv) option" where
  "attachsql_drv_prepare api p stmt query d =
     (case p of
        None \<Rightarrow> None
      | Some con \<Rightarrow>
          (let (error, a) = attachsql_statement_prepare api con query (alib d) in
           case poll_until api never at_eof con ATTACHSQL_RETURN_NONE error a of
             None \<Rightarrow> None
           | Some (Inl _, a) \<Rightarrow> Some (3, stmt, d\<lparr>alib := a\<rparr>)
           | Some (Inr _, a) \<Rightarrow> Some (0, stmt, d\<lparr>alib := a\<rparr>)))"

definition attachsql_drv_bind_param :: "bool \<Rightarrow> db_stmt \<Rightarrow> db_bind list \<Rightarrow> int \<times> db_stmt" where
  "attachsql_drv_bind_param alloc stmt params =
     (if \<not> alloc then (1, stmt\<lparr>bound_param := None\<rparr>) else (0, stmt\<lparr>bound_param := Some params\<rparr>))"

definition attachsql_drv_bind_result :: int where
  "attachsql_drv_bind_result = 0"

text \<open>The values set for one parameter, in order. The case of texts has no \<open>break\<close>; the NULL
  indicator is not used. \<^const>\<open>None\<close>: the buffer does not hold a value of the type.\<close>

definition param_values :: "db_bind_type \<Rightarrow> bind_data \<Rightarrow> u64 \<Rightarrow> att_value list option" where
  "param_values type buf max_len =
     (let datetime = (case buf of
            TimeData t \<Rightarrow> Some [AttDatetime (year t) (month t) (day t) (hour t) (minute t) (second t)] | _ \<Rightarrow> None);
          chars = (case buf of StringData s \<Rightarrow> Some [AttString max_len s, AttNull] | _ \<Rightarrow> None)
      in case type of
           DB_TYPE_TINYINT \<Rightarrow> (case buf of CharData i \<Rightarrow> Some [AttInt i] | _ \<Rightarrow> None)
         | DB_TYPE_SMALLINT \<Rightarrow> (case buf of ShortData i \<Rightarrow> Some [AttInt i] | _ \<Rightarrow> None)
         | DB_TYPE_INT \<Rightarrow> (case buf of IntData i \<Rightarrow> Some [AttInt i] | _ \<Rightarrow> None)
         | DB_TYPE_BIGINT \<Rightarrow> (case buf of LongLongData i \<Rightarrow> Some [AttBigint i] | _ \<Rightarrow> None)
         | DB_TYPE_FLOAT \<Rightarrow> (case buf of FloatData x \<Rightarrow> Some [AttFloat x] | _ \<Rightarrow> None)
         | DB_TYPE_DOUBLE \<Rightarrow> (case buf of DoubleData x \<Rightarrow> Some [AttDouble x] | _ \<Rightarrow> None)
         | DB_TYPE_TIME \<Rightarrow> (case buf of TimeData t \<Rightarrow> Some [AttTime (hour t) (minute t) (second t)] | _ \<Rightarrow> None)
         | DB_TYPE_DATE \<Rightarrow> datetime
         | DB_TYPE_DATETIME \<Rightarrow> datetime
         | DB_TYPE_TIMESTAMP \<Rightarrow> datetime
         | DB_TYPE_CHAR \<Rightarrow> chars
         | DB_TYPE_VARCHAR \<Rightarrow> chars
         | DB_TYPE_NONE \<Rightarrow> Some [AttNull])"

text \<open>The loop over the parameters; its counter has 16 bits and the number of parameters 32.\<close>

partial_function (option) set_params ::
  "'a attachsql_api \<Rightarrow> nat \<Rightarrow> db_bind list \<Rightarrow> 16 word \<Rightarrow> 'a \<Rightarrow> 'a option" where
  "set_params api con ps i a =
     (if unat i < length ps then
        (case param_values (b_type (ps ! unat i)) (b_buffer (ps ! unat i)) (b_max_len (ps ! unat i)) of
           None \<Rightarrow> None
         | Some vs \<Rightarrow> set_params api con ps (i + 1) (fold (attachsql_statement_set api con i) vs a))
      else Some a)"

text \<open>The result 1 for a connection that is NULL is the number of \<open>SB_DB_ERROR_RESTART_TRANSACTION\<close>.\<close>

definition attachsql_drv_execute ::
  "'a attachsql_api \<Rightarrow> nat option \<Rightarrow> db_stmt \<Rightarrow> 'a attachsql_drv \<Rightarrow> (db_error \<times> 'a attachsql_drv) option" where
  "attachsql_drv_execute api p stmt d =
     (case p of
        None \<Rightarrow> Some (SB_DB_ERROR_RESTART_TRANSACTION, d)
      | Some con \<Rightarrow>
          (case set_params api con (case bound_param stmt of None \<Rightarrow> [] | Some ps \<Rightarrow> ps) 0 (alib d) of
             None \<Rightarrow> None
           | Some a \<Rightarrow>
               (let (error, a) = attachsql_statement_execute api con a in
                case poll_until api at_row at_eof con ATTACHSQL_RETURN_NONE error a of
                  None \<Rightarrow> None
                | Some (Inl _, a) \<Rightarrow> Some (SB_DB_ERROR_FAILED, d\<lparr>alib := a\<rparr>)
                | Some (Inr _, a) \<Rightarrow> Some (SB_DB_ERROR_NONE, d\<lparr>alib := a\<rparr>))))"

definition attachsql_drv_close ::
  "'a attachsql_api \<Rightarrow> nat option \<Rightarrow> 'a attachsql_drv \<Rightarrow> (int \<times> 'a attachsql_drv) option" where
  "attachsql_drv_close api p d =
     (case p of None \<Rightarrow> None | Some con \<Rightarrow> Some (0, d\<lparr>alib := attachsql_statement_close api con (alib d)\<rparr>))"

section \<open>Queries and results\<close>

definition at_retryable :: "u32 \<Rightarrow> bool" where
  "at_retryable rc \<longleftrightarrow> rc = 1213 \<or> rc = 1205 \<or> rc = 1020"

definition attachsql_drv_query ::
  "'a attachsql_api \<Rightarrow> nat option \<Rightarrow> string \<Rightarrow> 'a attachsql_drv \<Rightarrow> (db_error \<times> 'a attachsql_drv) option" where
  "attachsql_drv_query api p query d =
     (case p of
        None \<Rightarrow> None
      | Some con \<Rightarrow>
          (let (error, a) = attachsql_query api con query (attachsql_query_close api con (alib d)) in
           case poll_until api never at_row_or_eof con ATTACHSQL_RETURN_NONE error a of
             None \<Rightarrow> None
           | Some (Inl rc, a) \<Rightarrow>
               Some (if at_retryable rc then SB_DB_ERROR_RESTART_TRANSACTION else SB_DB_ERROR_FAILED, d\<lparr>alib := a\<rparr>)
           | Some (Inr _, a) \<Rightarrow> Some (SB_DB_ERROR_NONE, d\<lparr>alib := a\<rparr>)))"

fun getter_for :: "att_column \<Rightarrow> att_getter" where
  "getter_for ATTACHSQL_COLUMN_TYPE_TINY = GetInt"
| "getter_for ATTACHSQL_COLUMN_TYPE_SHORT = GetInt"
| "getter_for ATTACHSQL_COLUMN_TYPE_LONG = GetInt"
| "getter_for ATTACHSQL_COLUMN_TYPE_YEAR = GetInt"
| "getter_for ATTACHSQL_COLUMN_TYPE_INT24 = GetInt"
| "getter_for ATTACHSQL_COLUMN_TYPE_LONGLONG = GetBigint"
| "getter_for ATTACHSQL_COLUMN_TYPE_FLOAT = GetFloat"
| "getter_for ATTACHSQL_COLUMN_TYPE_DOUBLE = GetDouble"
| "getter_for (ATTACHSQL_COLUMN_TYPE_OTHER _) = GetChar"

definition get_column :: "'a attachsql_api \<Rightarrow> nat \<Rightarrow> nat \<Rightarrow> 'a \<Rightarrow> 'a" where
  "get_column api con col a =
     attachsql_statement_get api (getter_for (attachsql_statement_get_column_type api con col a)) con col a"

text \<open>\<open>attachsql_drv_fetch\<close> and \<open>attachsql_drv_fetch_row\<close>; the result 1 is the end of the rows or an error.\<close>

definition attachsql_drv_fetch :: "'a attachsql_api \<Rightarrow> nat \<Rightarrow> 'a \<Rightarrow> (int \<times> 'a) option" where
  "attachsql_drv_fetch api con a =
     (case poll_until api never at_row_or_eof con ATTACHSQL_RETURN_NONE None a of
        None \<Rightarrow> None
      | Some (Inl _, a) \<Rightarrow> Some (1, a)
      | Some (Inr aret, a) \<Rightarrow>
          (if aret = ATTACHSQL_RETURN_EOF then Some (1, a)
           else let a = attachsql_statement_row_get api con a;
                    a = fold (get_column api con) [0..<unat (attachsql_query_column_count api con a)] a
                in Some (0, attachsql_query_row_next api con a)))"

definition attachsql_drv_fetch_row :: "'a attachsql_api \<Rightarrow> nat \<Rightarrow> 'a \<Rightarrow> (int \<times> 'a) option" where
  "attachsql_drv_fetch_row api con a =
     (case poll_until api never at_row_or_eof con ATTACHSQL_RETURN_NONE None a of
        None \<Rightarrow> None
      | Some (Inl _, a) \<Rightarrow> Some (1, a)
      | Some (Inr aret, a) \<Rightarrow>
          (if aret = ATTACHSQL_RETURN_EOF then Some (1, a)
           else Some (0, attachsql_query_row_next api con (attachsql_query_row_get api con a))))"

partial_function (option) fetch_all :: "('a \<Rightarrow> (int \<times> 'a) option) \<Rightarrow> 'a \<Rightarrow> 'a option" where
  "fetch_all fetch a =
     (case fetch a of None \<Rightarrow> None | Some (ret, a) \<Rightarrow> (if ret = 0 then fetch_all fetch a else Some a))"

definition attachsql_drv_store_results ::
  "'a attachsql_api \<Rightarrow> db_result_set \<Rightarrow> 'a attachsql_drv \<Rightarrow> (db_error \<times> db_result_set \<times> 'a attachsql_drv) option" where
  "attachsql_drv_store_results api r d =
     (case rs_connection r of
        Some (Some con) \<Rightarrow>
          (case fetch_all (if rs_statement r \<noteq> None then attachsql_drv_fetch api con
                           else attachsql_drv_fetch_row api con) (alib d) of
             None \<Rightarrow> None
           | Some a \<Rightarrow> Some (SB_DB_ERROR_NONE, r, d\<lparr>alib := a\<rparr>))
      | _ \<Rightarrow> None)"

definition attachsql_drv_num_rows :: "db_result_set \<Rightarrow> u64" where
  "attachsql_drv_num_rows r = nrows r"

definition attachsql_drv_free_results ::
  "'a attachsql_api \<Rightarrow> db_result_set \<Rightarrow> 'a attachsql_drv \<Rightarrow> (int \<times> 'a attachsql_drv) option" where
  "attachsql_drv_free_results api r d =
     (case rs_connection r of
        None \<Rightarrow> None
      | Some None \<Rightarrow> Some (1, d)
      | Some (Some con) \<Rightarrow> Some (0, d\<lparr>alib := attachsql_query_close api con (alib d)\<rparr>))"

section \<open>The driver\<close>

definition attachsql_driver :: "'a attachsql_api \<Rightarrow> options \<Rightarrow> 'a attachsql_drv option db_driver" where
  "attachsql_driver api opts = \<lparr>sname = ''attachsql'', lname = ''libAttachSQL driver'',
     drv_args = Some attachsql_drv_args,
     ops = \<lparr>
       op_init = lift_op 1 (\<lambda>d. case attachsql_drv_init api opts d of Some (Inr (rc, d)) \<Rightarrow> Some (rc, d) | _ \<Rightarrow> None),
       op_describe = Some (\<lambda>w. (0, attachsql_drv_caps, w)),
       op_connect = lift_op2 (1, None) (attachsql_drv_connect api),
       op_disconnect = (\<lambda>p. lift_op 1 (\<lambda>d. Some (attachsql_drv_disconnect api p d))),
       op_prepare = (\<lambda>p st q. lift_op2 (1, st) (attachsql_drv_prepare api p st q)),
       op_bind_param = (\<lambda>p st ps w. let (rc, st) = attachsql_drv_bind_param True st ps in (rc, st, w)),
       op_bind_result = (\<lambda>p st ps w. (attachsql_drv_bind_result, st, w)),
       op_execute = (\<lambda>p st r w. let (e, w) = lift_op SB_DB_ERROR_FAILED (attachsql_drv_execute api p st) w in (e, r, w)),
       op_fetch_row = (\<lambda>r. lift_op 1 (\<lambda>d. case rs_connection r of
            Some (Some con) \<Rightarrow> map_option (\<lambda>(rc, a). (rc, d\<lparr>alib := a\<rparr>)) (attachsql_drv_fetch_row api con (alib d))
          | _ \<Rightarrow> None)),
       op_num_rows = (\<lambda>r w. attachsql_drv_num_rows r),
       op_free_results = (\<lambda>r w. let (rc, w) = lift_op 1 (attachsql_drv_free_results api r) w in (rc, r, w)),
       op_close = (\<lambda>p st. lift_op 1 (attachsql_drv_close api p)),
       op_query = (\<lambda>p q r w. let (e, w) = lift_op SB_DB_ERROR_FAILED (attachsql_drv_query api p q) w in (e, r, w)),
       op_store_results = (\<lambda>r. lift_op2 (SB_DB_ERROR_FAILED, r) (attachsql_drv_store_results api r)),
       op_done = (\<lambda>w. (0, w))\<rparr>\<rparr>"

section \<open>Facts\<close>

text \<open>The world after \<open>n\<close> polls.\<close>

definition after_polls :: "'a attachsql_api \<Rightarrow> nat \<Rightarrow> nat \<Rightarrow> 'a \<Rightarrow> 'a" where
  "after_polls api con n = (\<lambda>a. snd (snd (attachsql_connect_poll api con a))) ^^ n"

lemma after_polls_step:
  "after_polls api con n (snd (snd (attachsql_connect_poll api con a))) = after_polls api con (Suc n) a"
  by (simp only: after_polls_def funpow_Suc_right comp_def)

text \<open>What poll number \<open>n\<close> returns: the state of the operation and an error.\<close>

definition poll_state :: "'a attachsql_api \<Rightarrow> nat \<Rightarrow> nat \<Rightarrow> 'a \<Rightarrow> attachsql_return" where
  "poll_state api con n a = fst (attachsql_connect_poll api con (after_polls api con n a))"

definition poll_error :: "'a attachsql_api \<Rightarrow> nat \<Rightarrow> nat \<Rightarrow> 'a \<Rightarrow> u32 option" where
  "poll_error api con n a = fst (snd (attachsql_connect_poll api con (after_polls api con n a)))"

lemma poll_shift:
  assumes "a' = snd (snd (attachsql_connect_poll api con a))"
  shows "poll_state api con n a' = poll_state api con (Suc n) a" and "poll_error api con n a' = poll_error api con (Suc n) a"
  using assms by (simp_all add: poll_state_def poll_error_def after_polls_step)

lemma poll_until_returns:
  assumes "\<And>i. i < n \<Longrightarrow> poll_error api con i a = None \<and> \<not> stop (poll_state api con i a)"
    and "poll_error api con n a \<noteq> None \<or> stop (poll_state api con n a)" and "\<not> stop aret"
  shows "poll_until api never stop con aret None a =
           Some (case poll_error api con n a of Some c \<Rightarrow> Inl c | None \<Rightarrow> Inr (poll_state api con n a),
                 after_polls api con (Suc n) a)"
  using assms
proof (induction n arbitrary: a aret)
  case 0
  obtain r e a' where p: "attachsql_connect_poll api con a = (r, e, a')" by (metis prod_cases3)
  with 0 have e: "poll_error api con 0 a = e" "poll_state api con 0 a = r" "after_polls api con (Suc 0) a = a'"
    by (simp_all add: poll_error_def poll_state_def after_polls_def)
  show ?case
  proof (cases e)
    case None
    with 0 e have "poll_until api never stop con r None a' = Some (Inr r, a')" by (subst poll_until.simps) simp
    with 0 p e None show ?thesis by (subst poll_until.simps) simp
  qed (use 0 p e in \<open>subst poll_until.simps, simp\<close>)
next
  case (Suc n)
  obtain r e a' where p: "attachsql_connect_poll api con a = (r, e, a')" by (metis prod_cases3)
  then have a': "a' = snd (snd (attachsql_connect_poll api con a))" by simp
  note s = poll_shift [OF a']
  have e: "e = None" "\<not> stop r"
    using Suc.prems(1) [of 0] p by (simp_all add: poll_error_def poll_state_def after_polls_def)
  have "poll_until api never stop con r None a' =
      Some (case poll_error api con (Suc n) a of Some c \<Rightarrow> Inl c | None \<Rightarrow> Inr (poll_state api con (Suc n) a),
            after_polls api con (Suc n) a')"
    using Suc.IH [of a' r] Suc.prems(1) [of "Suc i" for i] Suc.prems(2) e(2) s by (simp split: option.split)
  also have "after_polls api con (Suc n) a' = after_polls api con (Suc (Suc n)) a" using a' by (simp add: after_polls_step)
  finally show ?case using Suc.prems(3) p e by (subst poll_until.simps) simp
qed

text \<open>The values set by the loop over the parameters.\<close>

definition param_last :: "db_bind \<Rightarrow> att_value" where
  "param_last q = last (the (param_values (b_type q) (b_buffer q) (b_max_len q)))"

lemma param_values_nonempty: "param_values t b n = Some vs \<Longrightarrow> vs \<noteq> []"
  by (auto simp: param_values_def Let_def split: db_bind_type.splits bind_data.splits)

lemma param_values_last:
  "param_values t b n = Some vs \<Longrightarrow>
   last vs = (if t \<in> {DB_TYPE_CHAR, DB_TYPE_VARCHAR, DB_TYPE_NONE} then AttNull else hd vs)"
  by (auto simp: param_values_def Let_def split: db_bind_type.splits bind_data.splits)

lemma fold_set_last:
  assumes "\<And>a i v j. param_of (attachsql_statement_set api con i v a) j = (if j = i then v else param_of a j)"
  shows "param_of (fold (attachsql_statement_set api con i) vs a) j = (if j = i \<and> vs \<noteq> [] then last vs else param_of a j)"
  by (induction vs arbitrary: a) (auto simp: assms)

lemma set_params_from:
  assumes law: "\<And>a i v j. param_of (attachsql_statement_set api con i v a) j = (if j = i then v else param_of a j)"
    and "length ps < 65536" and "\<forall>q \<in> set ps. param_values (b_type q) (b_buffer q) (b_max_len q) \<noteq> None"
    and "k + m = length ps"
  shows "\<exists>a'. set_params api con ps (of_nat k) a = Some a' \<and>
           (\<forall>i. param_of a' i = (if k \<le> unat i \<and> unat i < length ps then param_last (ps ! unat i) else param_of a i))"
  using assms(4)
proof (induction m arbitrary: k a)
  case 0
  then have "unat (of_nat k :: 16 word) = k" using assms(2) by (simp add: unat_of_nat)
  with 0 show ?case by (subst set_params.simps) auto
next
  case (Suc m)
  have k: "unat (of_nat k :: 16 word) = k" "k < length ps" using Suc.prems assms(2) by (simp_all add: unat_of_nat)
  obtain vs where v: "param_values (b_type (ps ! k)) (b_buffer (ps ! k)) (b_max_len (ps ! k)) = Some vs"
    using assms(3) k(2) nth_mem by blast
  let ?a = "fold (attachsql_statement_set api con (of_nat k)) vs a"
  have "of_nat k + 1 = (of_nat (Suc k) :: 16 word)" by simp
  then have step: "set_params api con ps (of_nat k) a = set_params api con ps (of_nat (Suc k)) ?a"
    using k v by (subst set_params.simps) (simp add: add.commute)
  from Suc.IH [of "Suc k" ?a] Suc.prems obtain a' where
    a': "set_params api con ps (of_nat (Suc k)) ?a = Some a'"
      "\<forall>i. param_of a' i = (if Suc k \<le> unat i \<and> unat i < length ps then param_last (ps ! unat i) else param_of ?a i)"
    by auto
  have "param_of ?a i = (if unat i = k then param_last (ps ! k) else param_of a i)" for i
  proof -
    have "i = of_nat k \<longleftrightarrow> unat i = k" using k(1) by (metis word_unat_eq_iff)
    with fold_set_last [OF law, where i = "of_nat k" and vs = vs and j = i] param_values_nonempty [OF v]
    show ?thesis by (simp add: param_last_def v)
  qed
  with a' step k(2) show ?case by auto
qed

section \<open>Properties\<close>

text \<open>What a prepared statement sends through libAttachSQL: the loop sets every parameter, up to 65535 of them,
  but a text is always replaced by NULL, because its case runs on into the next one, and a value that
  is not a text is sent although its NULL indicator may be set. With more parameters the loop, whose
  counter has 16 bits, does not end. (\<open>param_of\<close> reads the parameters of the library's statement, in
  which a later setting replaces an earlier one.)\<close>

theorem attachsql_texts_sent_as_null:
  assumes "\<And>a i v j. param_of (attachsql_statement_set api con i v a) j = (if j = i then v else param_of a j)"
    and "\<forall>q \<in> set ps. param_values (b_type q) (b_buffer q) (b_max_len q) \<noteq> None"
  shows "if length ps < 65536
         then \<exists>a'. set_params api con ps 0 a = Some a' \<and>
           (\<forall>i < length ps. param_of a' (of_nat i) =
              (if b_type (ps ! i) \<in> {DB_TYPE_CHAR, DB_TYPE_VARCHAR, DB_TYPE_NONE} then AttNull
               else hd (the (param_values (b_type (ps ! i)) (b_buffer (ps ! i)) (b_max_len (ps ! i))))))
         else set_params api con ps 0 a = None"
proof (cases "length ps < 65536")
  case True
  from set_params_from [where k = 0, OF assms(1) True assms(2), of _ a] obtain a' where
    a': "set_params api con ps 0 a = Some a'"
      "\<forall>i. param_of a' i = (if unat i < length ps then param_last (ps ! unat i) else param_of a i)"
    by auto
  have "param_last q = (if b_type q \<in> {DB_TYPE_CHAR, DB_TYPE_VARCHAR, DB_TYPE_NONE} then AttNull
      else hd (the (param_values (b_type q) (b_buffer q) (b_max_len q))))" if "q \<in> set ps" for q
    using assms(2) that param_values_last [of "b_type q" "b_buffer q" "b_max_len q"] by (auto simp: param_last_def)
  moreover have "unat (of_nat i :: 16 word) = i" if "i < length ps" for i
    using that True by (simp add: unat_of_nat)
  ultimately have "param_of a' (of_nat i) =
      (if b_type (ps ! i) \<in> {DB_TYPE_CHAR, DB_TYPE_VARCHAR, DB_TYPE_NONE} then AttNull
       else hd (the (param_values (b_type (ps ! i)) (b_buffer (ps ! i)) (b_max_len (ps ! i)))))" if "i < length ps" for i
    using a'(2) that by (metis nth_mem)
  with True a'(1) show ?thesis by auto
next
  case False
  have "length ps < 65536" if "set_params api con ps 0 a = Some a'" for a'
  proof (rule set_params.raw_induct [where P = "\<lambda>api con ps i a a'. length ps < 65536", OF _ that])
    fix loop :: "'a attachsql_api \<Rightarrow> nat \<Rightarrow> db_bind list \<Rightarrow> 16 word \<Rightarrow> 'a \<Rightarrow> 'a option"
      and api :: "'a attachsql_api" and con ps i and a a' :: 'a
    assume IH: "\<And>api con ps i a a'. loop api con ps i a = Some a' \<Longrightarrow> length ps < 65536"
      and body: "(if unat i < length ps then
        (case param_values (b_type (ps ! unat i)) (b_buffer (ps ! unat i)) (b_max_len (ps ! unat i)) of
           None \<Rightarrow> None
         | Some vs \<Rightarrow> loop api con ps (i + 1) (fold (attachsql_statement_set api con i) vs a))
        else Some a) = Some a'"
    have "unat i < 65536" using unsigned_less [of i] by simp
    with IH body show "length ps < 65536" by (auto split: if_splits option.splits)
  qed
  with False show ?thesis by (cases "set_params api con ps 0 a") auto
qed

text \<open>A library for examples: its world is the values set for the parameters, the queries received, and how
  many polls an operation still needs; the query \<open>deadlock\<close> fails with error 1213.\<close>

type_synonym att_world = "(16 word \<Rightarrow> att_value) \<times> string list \<times> nat"

definition example_at_api :: "att_world attachsql_api" where
  "example_at_api = \<lparr>attachsql_library_init = (\<lambda>a. a), attachsql_connect_create = (\<lambda>_ _ _ _ _ a. (Some 1, a)),
     attachsql_connect_set_option = (\<lambda>_ a. a), attachsql_connect = (\<lambda>_ a. (True, a)),
     attachsql_connect_poll = (\<lambda>_ (f, w, n). if n = 0 then
        (ATTACHSQL_RETURN_EOF, if w \<noteq> [] \<and> last w = ''deadlock'' then Some 1213 else None, (f, w, 0))
      else (ATTACHSQL_RETURN_NONE, None, (f, w, n - 1))),
     attachsql_connect_destroy = (\<lambda>_ a. a), attachsql_statement_prepare = (\<lambda>_ _ a. (None, a)),
     attachsql_statement_set = (\<lambda>_ i v (f, w). (f(i := v), w)), attachsql_statement_execute = (\<lambda>_ a. (None, a)),
     attachsql_statement_row_get = (\<lambda>_ a. a), attachsql_statement_get_column_type = (\<lambda>_ _ _. ATTACHSQL_COLUMN_TYPE_TINY),
     attachsql_statement_get = (\<lambda>_ _ _ a. a), attachsql_statement_close = (\<lambda>_ a. a),
     attachsql_query = (\<lambda>_ q (f, w, n). (None, (f, w @ [q], 2))), attachsql_query_close = (\<lambda>_ a. a),
     attachsql_query_column_count = (\<lambda>_ _. 0), attachsql_query_row_get = (\<lambda>_ a. a),
     attachsql_query_row_next = (\<lambda>_ a. a)\<rparr>"

theorem attachsql_texts_sent_as_null_witness:
  "\<exists>f. set_params example_at_api 1
     [\<lparr>b_type = DB_TYPE_INT, b_buffer = IntData 7, b_data_len = None, b_max_len = 4, b_is_null = Some True\<rparr>,
      \<lparr>b_type = DB_TYPE_CHAR, b_buffer = StringData ''abc'', b_data_len = Some 3, b_max_len = 3, b_is_null = None\<rparr>]
     0 (\<lambda>_. AttNull, [], 0) = Some f \<and> fst f 0 = AttInt 7 \<and> fst f 1 = AttNull"
proof -
  let ?ps = "[\<lparr>b_type = DB_TYPE_INT, b_buffer = IntData 7, b_data_len = None, b_max_len = 4, b_is_null = Some True\<rparr>,
      \<lparr>b_type = DB_TYPE_CHAR, b_buffer = StringData ''abc'', b_data_len = Some 3, b_max_len = 3, b_is_null = None\<rparr>]"
  have 1: "fst (attachsql_statement_set example_at_api 1 i v a) j = (if j = i then v else fst a j)" for a i v j
    by (cases a) (simp add: example_at_api_def)
  have 2: "\<forall>q \<in> set ?ps. param_values (b_type q) (b_buffer q) (b_max_len q) \<noteq> None" by (simp add: param_values_def)
  from attachsql_texts_sent_as_null [OF 1 2, of "(\<lambda>_. AttNull, [], 0)"] obtain a where
    a: "set_params example_at_api 1 ?ps 0 (\<lambda>_. AttNull, [], 0) = Some a"
      "\<forall>i < length ?ps. fst a (of_nat i) =
        (if b_type (?ps ! i) \<in> {DB_TYPE_CHAR, DB_TYPE_VARCHAR, DB_TYPE_NONE} then AttNull
         else hd (the (param_values (b_type (?ps ! i)) (b_buffer (?ps ! i)) (b_max_len (?ps ! i)))))"
    by auto
  from a(2) [rule_format, of 0] a(2) [rule_format, of 1] have "fst a 0 = AttInt 7" "fst a 1 = AttNull"
    by (simp_all add: param_values_def)
  with a(1) show ?thesis by blast
qed

text \<open>C34: A query of the asynchronous library returns: when polling it gives, after any number of polls without
  result, an error, a row or the end, \<open>attachsql_drv_query\<close> returns after exactly those polls, with
  success, with a restart of the transaction for a deadlock, a lock wait timeout or a changed record, and
  with a fatal error otherwise.\<close>

theorem attachsql_query_returns:
  assumes "attachsql_query api con query (attachsql_query_close api con (alib d)) = (None, a)"
    and "\<And>i. i < n \<Longrightarrow> poll_error api con i a = None \<and> \<not> at_row_or_eof (poll_state api con i a)"
    and "poll_error api con n a \<noteq> None \<or> at_row_or_eof (poll_state api con n a)"
  shows "attachsql_drv_query api (Some con) query d =
           Some (case poll_error api con n a of
                   None \<Rightarrow> SB_DB_ERROR_NONE
                 | Some rc \<Rightarrow> if rc \<in> {1213, 1205, 1020} then SB_DB_ERROR_RESTART_TRANSACTION else SB_DB_ERROR_FAILED,
                 d\<lparr>alib := after_polls api con (Suc n) a\<rparr>)"
proof -
  have "\<not> at_row_or_eof ATTACHSQL_RETURN_NONE" by (simp add: at_row_or_eof_def)
  from poll_until_returns [where stop = at_row_or_eof, OF assms(2,3) this] assms(1)
  show ?thesis by (auto simp: attachsql_drv_query_def at_retryable_def split: option.splits)
qed

theorem attachsql_query_returns_witness:
  "\<exists>d'. attachsql_drv_query example_at_api (Some 1) ''deadlock''
     \<lparr>at_hosts = [], at_hosts_pos = 0, at_port = 0, at_socket = None, at_user = None, at_password = None, at_db = None,
      alib = (\<lambda>_. AttNull, [], 0)\<rparr> = Some (SB_DB_ERROR_RESTART_TRANSACTION, d')"
proof -
  let ?d = "\<lparr>at_hosts = [], at_hosts_pos = 0, at_port = 0, at_socket = None, at_user = None, at_password = None,
      at_db = None, alib = (\<lambda>_. AttNull, [], 0)\<rparr> :: att_world attachsql_drv"
  let ?a = "(\<lambda>_. AttNull, [''deadlock''], 2) :: att_world"
  have q: "attachsql_query example_at_api 1 ''deadlock'' (attachsql_query_close example_at_api 1 (alib ?d)) = (None, ?a)"
    by (simp add: example_at_api_def)
  have p: "poll_error example_at_api 1 i ?a = None \<and> \<not> at_row_or_eof (poll_state example_at_api 1 i ?a)" if "i < 2" for i
    using that by (auto simp: less_2_cases_iff poll_error_def poll_state_def after_polls_def example_at_api_def at_row_or_eof_def)
  have e: "poll_error example_at_api 1 2 ?a = Some 1213"
    by (simp add: poll_error_def after_polls_def example_at_api_def numeral_2_eq_2)
  from attachsql_query_returns [OF q p, of 2] e show ?thesis by auto
qed

end
