(* ===== verification/Oracle.thy ===== *)
theory Oracle
  imports Placeholders
begin

text \<open>
  The Oracle driver \<open>sysbench/drivers/oracle/drv_oracle.c\<close>. The Oracle Call Interface is a record of functions
  over its own world \<^typ>\<open>'o\<close>; its handles are numbers, the structures that the driver allocates are
  addresses into stores. \<^const>\<open>None\<close> as the result of an operation is a NULL or dangling pointer that
  is followed, a value read with a wrong type or a loop that does not end. An allocation fails at its
  first use in an operation or not at all. Calls of \<open>log_text\<close> and \<open>checkerr\<close>, which only logs, are not
  part of the model.
\<close>

section \<open>Data\<close>

definition ORA_DRV_PREFETCH_COUNT :: nat where "ORA_DRV_PREFETCH_COUNT = 1000"

definition ora_drv_args :: "sb_arg list" where
  "ora_drv_args =
    [\<lparr>arg_name = ''oracle-user'', arg_desc = ''Oracle user'', arg_type = SB_ARG_TYPE_STRING,
      arg_value = Some ''sbtest''\<rparr>,
     \<lparr>arg_name = ''oracle-password'', arg_desc = ''Oracle password'', arg_type = SB_ARG_TYPE_STRING,
      arg_value = Some []\<rparr>,
     \<lparr>arg_name = ''oracle-db'', arg_desc = ''Oracle database name'', arg_type = SB_ARG_TYPE_STRING,
      arg_value = Some ''sbtest''\<rparr>]"

record ora_conn =
  svchp :: nat
  srvhp :: nat
  errhp :: nat
  transhp :: nat
  usrhp :: nat

datatype ora_stmt_type = STMT_TYPE_BEGIN | STMT_TYPE_COMMIT | STMT_TYPE_SELECT | STMT_TYPE_UPDATE

text \<open>The indicators of the parameters are 16-bit numbers, -1 for NULL.\<close>

record ora_stmt =
  os_ptr :: "nat option"
  os_type :: ora_stmt_type
  os_params :: "int list option"

datatype sqlt =
  SQLT_INT | SQLT_FLT | SQLT_NUM | SQLT_DATE | SQLT_TIMESTAMP | SQLT_AFC | SQLT_VCS | SQLT_OTHER nat

record ora_column =
  oc_type :: sqlt
  oc_name :: string
  oc_len :: "16 word"

text \<open>A value of a row and its indicator.\<close>

type_synonym ora_data = "string \<times> int"

record ora_result =
  or_ncolumns :: nat
  or_nrows :: u32
  or_columns :: "ora_column list"
  or_rows :: "ora_data list list"

definition db_oracle_bind_map :: "(db_bind_type \<times> sqlt \<times> int) list" where
  "db_oracle_bind_map =
    [(DB_TYPE_TINYINT, SQLT_INT, 1), (DB_TYPE_SMALLINT, SQLT_INT, 2), (DB_TYPE_INT, SQLT_INT, 4),
     (DB_TYPE_BIGINT, SQLT_INT, 8), (DB_TYPE_FLOAT, SQLT_FLT, 4), (DB_TYPE_DOUBLE, SQLT_FLT, 8),
     (DB_TYPE_DATETIME, SQLT_DATE, 8), (DB_TYPE_TIMESTAMP, SQLT_TIMESTAMP, 8), (DB_TYPE_CHAR, SQLT_AFC, 0),
     (DB_TYPE_VARCHAR, SQLT_VCS, 0)]"

definition ora_drv_caps :: drv_caps where
  "ora_drv_caps = \<lparr>multi_rows_insert = False, prepared_statements = True, auto_increment = False,
     needs_commit = True, caps_serial = False, unsigned_int = False\<rparr>"

datatype sword =
  OCI_SUCCESS | OCI_SUCCESS_WITH_INFO | OCI_NEED_DATA | OCI_NO_DATA | OCI_ERROR | OCI_INVALID_HANDLE
| OCI_STILL_EXECUTING | OCI_CONTINUE

datatype oci_htype =
  OCI_HTYPE_ENV | OCI_HTYPE_SVCCTX | OCI_HTYPE_ERROR | OCI_HTYPE_SERVER | OCI_HTYPE_SESSION
| OCI_HTYPE_TRANS | OCI_HTYPE_STMT

datatype oci_attr =
  OCI_ATTR_SERVER nat | OCI_ATTR_USERNAME string | OCI_ATTR_PASSWORD string | OCI_ATTR_TRANS nat
| OCI_ATTR_SESSION nat | OCI_ATTR_PREFETCH_ROWS nat

text \<open>The argument of \<open>OCIHandleFree\<close> is \<^const>\<open>None\<close> for a pointer that is not a handle.\<close>

record 'o oci_api =
  OCIEnvCreate :: "'o \<Rightarrow> sword \<times> nat option \<times> 'o"
  OCIHandleAlloc :: "oci_htype \<Rightarrow> 'o \<Rightarrow> sword \<times> nat \<times> 'o"
  OCIHandleFree :: "nat option \<Rightarrow> oci_htype \<Rightarrow> 'o \<Rightarrow> sword \<times> 'o"
  OCIServerAttach :: "nat \<Rightarrow> nat \<Rightarrow> string \<Rightarrow> 'o \<Rightarrow> sword \<times> 'o"
  OCIServerDetach :: "nat \<Rightarrow> nat \<Rightarrow> 'o \<Rightarrow> sword \<times> 'o"
  OCIAttrSet :: "nat \<Rightarrow> oci_attr \<Rightarrow> nat \<Rightarrow> 'o \<Rightarrow> sword \<times> 'o"
  OCISessionBegin :: "nat \<Rightarrow> nat \<Rightarrow> nat \<Rightarrow> 'o \<Rightarrow> sword \<times> 'o"
  OCISessionEnd :: "nat \<Rightarrow> nat \<Rightarrow> nat \<Rightarrow> 'o \<Rightarrow> sword \<times> 'o"
  OCIStmtPrepare :: "nat \<Rightarrow> nat \<Rightarrow> string \<Rightarrow> 'o \<Rightarrow> sword \<times> 'o"
  OCIStmtExecute :: "nat \<Rightarrow> nat \<Rightarrow> nat \<Rightarrow> nat \<Rightarrow> 'o \<Rightarrow> sword \<times> 'o"
  OCITransStart :: "nat \<Rightarrow> nat \<Rightarrow> 'o \<Rightarrow> sword \<times> 'o"
  OCITransCommit :: "nat \<Rightarrow> nat \<Rightarrow> 'o \<Rightarrow> sword \<times> 'o"
  OCIBindByPos :: "nat \<Rightarrow> nat \<Rightarrow> nat \<Rightarrow> bind_data \<Rightarrow> int \<Rightarrow> sqlt \<Rightarrow> int \<Rightarrow> 'o \<Rightarrow> sword \<times> 'o"
  OCIParamGet :: "nat \<Rightarrow> nat \<Rightarrow> nat \<Rightarrow> 'o \<Rightarrow> sword \<times> nat \<times> 'o"
  attr_data_type :: "nat \<Rightarrow> 'o \<Rightarrow> sword \<times> sqlt"
  attr_name :: "nat \<Rightarrow> 'o \<Rightarrow> sword \<times> string"
  attr_char_used :: "nat \<Rightarrow> 'o \<Rightarrow> sword \<times> bool"
  attr_char_size :: "nat \<Rightarrow> 'o \<Rightarrow> sword \<times> 16 word"
  attr_data_size :: "nat \<Rightarrow> 'o \<Rightarrow> sword \<times> 16 word"
  OCIDescriptorFree :: "nat \<Rightarrow> 'o \<Rightarrow> 'o"
  OCIDefineByPos :: "nat \<Rightarrow> nat \<Rightarrow> nat \<Rightarrow> 16 word \<Rightarrow> sqlt \<Rightarrow> 'o \<Rightarrow> sword \<times> 'o"
  OCIStmtFetch2 :: "nat \<Rightarrow> nat \<Rightarrow> 'o \<Rightarrow> sword \<times> 'o"
  defined_value :: "nat \<Rightarrow> nat \<Rightarrow> 'o \<Rightarrow> ora_data"

record 'o ora_drv =
  ora_user :: "string option"
  ora_password :: "string option"
  ora_db :: "string option"
  ora_env :: "nat option"
  ora_use_ps :: bool
  ora_conns :: "nat \<rightharpoonup> ora_conn"
  ora_stmts :: "nat \<rightharpoonup> ora_stmt"
  ora_results :: "nat \<rightharpoonup> ora_result"
  ora_fresh :: nat
  olib :: 'o

section \<open>Types\<close>

text \<open>Type, length and indicator of a parameter; \<open>Inl\<close> is the result 1, \<^const>\<open>None\<close> a text that is not one. The
  indicator depends on the pointer \<open>is_null\<close>, not on what it points to.\<close>

definition get_oracle_bind_type :: "db_bind \<Rightarrow> (unit + sqlt \<times> int \<times> int) option" where
  "get_oracle_bind_type q =
     (case find (\<lambda>m. fst m = b_type q) db_oracle_bind_map of
        None \<Rightarrow> Some (Inl ())
      | Some (_, ty, len) \<Rightarrow>
          (let ind = (if b_is_null q \<noteq> None then - 1 else 0) in
           if b_type q = DB_TYPE_CHAR \<or> b_type q = DB_TYPE_VARCHAR then
             (case b_buffer q of StringData s \<Rightarrow> Some (Inr (ty, int (length s), ind)) | _ \<Rightarrow> None)
           else Some (Inr (ty, len, ind))))"

definition get_oracle_type_size :: "sqlt \<Rightarrow> int" where
  "get_oracle_type_size ty =
     (if ty = SQLT_NUM then 21
      else fold (\<lambda>(_, t, len) sz. if t = ty \<and> sz < len then len else sz) db_oracle_bind_map 0)"

definition get_stmt_type :: "string \<Rightarrow> ora_stmt_type" where
  "get_stmt_type query =
     (if take 5 query = ''BEGIN'' then STMT_TYPE_BEGIN
      else if take 6 query = ''COMMIT'' then STMT_TYPE_COMMIT
      else if take 6 query = ''SELECT'' then STMT_TYPE_SELECT
      else STMT_TYPE_UPDATE)"

definition get_db_bind_type :: "sqlt \<Rightarrow> db_bind_type" where
  "get_db_bind_type ty =
     (case find (\<lambda>(_, t, _). t = ty) db_oracle_bind_map of None \<Rightarrow> DB_TYPE_NONE | Some (d, _) \<Rightarrow> d)"

section \<open>Initialisation and connections\<close>

definition ora_drv_init :: "'o oci_api \<Rightarrow> options \<Rightarrow> db_ps_mode \<Rightarrow> 'o ora_drv \<Rightarrow> int \<times> 'o ora_drv" where
  "ora_drv_init api opts ps d =
     (let (rc, env, w) = OCIEnvCreate api (olib d);
          d = d\<lparr>ora_user := sb_get_value_string opts ''oracle-user'',
                ora_password := sb_get_value_string opts ''oracle-password'',
                ora_db := sb_get_value_string opts ''oracle-db'', ora_env := env,
                ora_use_ps := (ps \<noteq> DB_PS_MODE_DISABLE), olib := w\<rparr>
      in if rc \<noteq> OCI_SUCCESS \<or> env = None then (1, d) else (0, d))"

text \<open>The calls of \<open>ora_drv_connect\<close>, each with the structure it fills; the first that does not succeed ends
  the sequence. \<^const>\<open>None\<close>: \<open>strlen\<close> of an option without value.\<close>

type_synonym 'o connect_call = "ora_conn \<Rightarrow> 'o \<Rightarrow> (sword \<times> ora_conn \<times> 'o) option"

definition alloc_call :: "'o oci_api \<Rightarrow> oci_htype \<Rightarrow> (nat \<Rightarrow> ora_conn \<Rightarrow> ora_conn) \<Rightarrow> 'o connect_call" where
  "alloc_call api ty put c w = (let (rc, h, w) = OCIHandleAlloc api ty w in Some (rc, put h c, w))"

definition plain_call :: "(ora_conn \<Rightarrow> 'o \<Rightarrow> sword \<times> 'o) \<Rightarrow> 'o connect_call" where
  "plain_call f c w = (let (rc, w) = f c w in Some (rc, c, w))"

definition string_call :: "string option \<Rightarrow> (string \<Rightarrow> ora_conn \<Rightarrow> 'o \<Rightarrow> sword \<times> 'o) \<Rightarrow> 'o connect_call" where
  "string_call s f c w = (case s of None \<Rightarrow> None | Some t \<Rightarrow> plain_call (f t) c w)"

definition connect_calls :: "'o oci_api \<Rightarrow> 'o ora_drv \<Rightarrow> 'o connect_call list" where
  "connect_calls api d =
    [alloc_call api OCI_HTYPE_SVCCTX (\<lambda>h c. c\<lparr>svchp := h\<rparr>),
     alloc_call api OCI_HTYPE_ERROR (\<lambda>h c. c\<lparr>errhp := h\<rparr>),
     alloc_call api OCI_HTYPE_SERVER (\<lambda>h c. c\<lparr>srvhp := h\<rparr>),
     alloc_call api OCI_HTYPE_SESSION (\<lambda>h c. c\<lparr>usrhp := h\<rparr>),
     string_call (ora_db d) (\<lambda>db c. OCIServerAttach api (srvhp c) (errhp c) db),
     plain_call (\<lambda>c. OCIAttrSet api (svchp c) (OCI_ATTR_SERVER (srvhp c)) (errhp c)),
     string_call (ora_user d) (\<lambda>u c. OCIAttrSet api (usrhp c) (OCI_ATTR_USERNAME u) (errhp c)),
     string_call (ora_password d) (\<lambda>p c. OCIAttrSet api (usrhp c) (OCI_ATTR_PASSWORD p) (errhp c)),
     alloc_call api OCI_HTYPE_TRANS (\<lambda>h c. c\<lparr>transhp := h\<rparr>),
     plain_call (\<lambda>c. OCIAttrSet api (svchp c) (OCI_ATTR_TRANS (transhp c)) (errhp c)),
     plain_call (\<lambda>c. OCISessionBegin api (svchp c) (errhp c) (usrhp c)),
     plain_call (\<lambda>c. OCIAttrSet api (svchp c) (OCI_ATTR_SESSION (usrhp c)) (errhp c))]"

fun run_calls :: "'o connect_call list \<Rightarrow> ora_conn \<Rightarrow> 'o \<Rightarrow> (bool \<times> ora_conn \<times> 'o) option" where
  "run_calls [] c w = Some (True, c, w)"
| "run_calls (f # fs) c w =
     (case f c w of
        None \<Rightarrow> None
      | Some (rc, c, w) \<Rightarrow> (if rc \<noteq> OCI_SUCCESS then Some (False, c, w) else run_calls fs c w))"

text \<open>The structure is not initialised at first.\<close>

definition ora_drv_connect ::
  "'o oci_api \<Rightarrow> bool \<Rightarrow> ora_conn \<Rightarrow> 'o ora_drv \<Rightarrow> (int \<times> nat option \<times> 'o ora_drv) option" where
  "ora_drv_connect api alloc junk d =
     (if \<not> alloc then Some (1, None, d)
      else case run_calls (connect_calls api d) junk (olib d) of
        None \<Rightarrow> None
      | Some (ok, c, w) \<Rightarrow>
          (if \<not> ok then Some (1, None, d\<lparr>olib := w\<rparr>)
           else Some (0, Some (ora_fresh d),
                      d\<lparr>ora_conns := (ora_conns d)(ora_fresh d \<mapsto> c), ora_fresh := ora_fresh d + 1, olib := w\<rparr>)))"

text \<open>The calls of \<open>ora_drv_disconnect\<close>; all are made, and the result is 1 when one of them fails.\<close>

definition disconnect_calls :: "'o oci_api \<Rightarrow> ora_conn \<Rightarrow> ('o \<Rightarrow> sword \<times> 'o) list" where
  "disconnect_calls api c =
    [OCISessionEnd api (svchp c) (errhp c) (usrhp c), OCIServerDetach api (srvhp c) (errhp c),
     OCIHandleFree api (Some (usrhp c)) OCI_HTYPE_SESSION, OCIHandleFree api (Some (srvhp c)) OCI_HTYPE_SERVER,
     OCIHandleFree api (Some (svchp c)) OCI_HTYPE_SVCCTX, OCIHandleFree api (Some (errhp c)) OCI_HTYPE_ERROR]"

fun run_all :: "('o \<Rightarrow> sword \<times> 'o) list \<Rightarrow> int \<Rightarrow> 'o \<Rightarrow> int \<times> 'o" where
  "run_all [] res w = (res, w)"
| "run_all (f # fs) res w = (let (rc, w) = f w in run_all fs (if rc \<noteq> OCI_SUCCESS then 1 else res) w)"

definition ora_drv_disconnect :: "'o oci_api \<Rightarrow> nat option \<Rightarrow> 'o ora_drv \<Rightarrow> (int \<times> 'o ora_drv) option" where
  "ora_drv_disconnect api p d =
     (case p of
        None \<Rightarrow> Some (1, d)
      | Some a \<Rightarrow>
          (case ora_conns d a of
             None \<Rightarrow> None
           | Some c \<Rightarrow>
               (let (res, w) = run_all (disconnect_calls api c) 0 (olib d)
                in Some (res, d\<lparr>ora_conns := (ora_conns d)(a := None), olib := w\<rparr>))))"

section \<open>Statements\<close>

text \<open>\<open>snprintf (buf + j, buflen - j, ":%d", vcnt)\<close> and its test.\<close>

definition colon_number :: "nat \<Rightarrow> nat \<Rightarrow> (string option \<times> int) option" where
  "colon_number vcnt room = Some (print_result ('':'' @ show_nat vcnt) room)"

text \<open>The part after the conversion of the query: the statement handle is prepared unless the query starts or
  commits a transaction. On an error the handle is freed.\<close>

definition prepare_handle ::
  "'o oci_api \<Rightarrow> ora_conn \<Rightarrow> nat \<Rightarrow> string \<Rightarrow> 'o \<Rightarrow> bool \<times> ora_stmt_type \<times> 'o" where
  "prepare_handle api c h buf w =
     (let ty = get_stmt_type buf; fail = (\<lambda>w. (False, ty, snd (OCIHandleFree api (Some h) OCI_HTYPE_STMT w))) in
      if ty \<noteq> STMT_TYPE_BEGIN \<and> ty \<noteq> STMT_TYPE_COMMIT then
        (let (rc, w) = OCIStmtPrepare api h (errhp c) buf w in
         if rc \<noteq> OCI_SUCCESS then fail w
         else let (rc, w) = OCIAttrSet api h (OCI_ATTR_PREFETCH_ROWS ORA_DRV_PREFETCH_COUNT) (errhp c) w in
           if rc \<noteq> OCI_SUCCESS then fail w else (True, ty, w))
      else (True, ty, w))"

definition ora_drv_prepare ::
  "'o oci_api \<Rightarrow> (u32 \<Rightarrow> bool) \<Rightarrow> bool \<Rightarrow> nat option \<Rightarrow> db_stmt \<Rightarrow> string \<Rightarrow> 'o ora_drv \<Rightarrow>
   (int \<times> db_stmt \<times> 'o ora_drv) option" where
  "ora_drv_prepare api alloc alloc' p stmt query d =
     (case p of
        None \<Rightarrow> Some (1, stmt, d)
      | Some a \<Rightarrow>
          (if \<not> ora_use_ps d then Some (0, stmt\<lparr>emulated := True, st_query := Some query\<rparr>, d)
           else if \<not> alloc' then Some (1, stmt, d)
           else let (rc, h, w) = OCIHandleAlloc api OCI_HTYPE_STMT (olib d); d = d\<lparr>olib := w\<rparr> in
             if rc \<noteq> OCI_SUCCESS then Some (1, stmt, d)
             else case build_query alloc colon_number query None 0 True 1 of
               None \<Rightarrow> None
             | Some (Inl _) \<Rightarrow> Some (1, stmt, d\<lparr>olib := snd (OCIHandleFree api (Some h) OCI_HTYPE_STMT w)\<rparr>)
             | Some (Inr buf) \<Rightarrow>
                 (case ora_conns d a of
                    None \<Rightarrow> None
                  | Some c \<Rightarrow>
                      (let (ok, ty, w) = prepare_handle api c h buf w in
                       if \<not> ok then Some (1, stmt, d\<lparr>olib := w\<rparr>)
                       else Some (0, stmt\<lparr>st_ptr := Some (ora_fresh d), st_query := Some query\<rparr>,
                              d\<lparr>ora_stmts := (ora_stmts d)(ora_fresh d \<mapsto>
                                  \<lparr>os_ptr = Some h, os_type = ty, os_params = None\<rparr>),
                                ora_fresh := ora_fresh d + 1, olib := w\<rparr>)))))"

text \<open>The loop over the parameters from position \<open>i\<close> on; the indicators bound, or \<open>Inl\<close> after a failure.\<close>

fun bind_params ::
  "'o oci_api \<Rightarrow> nat \<Rightarrow> nat \<Rightarrow> nat \<Rightarrow> db_bind list \<Rightarrow> 'o \<Rightarrow> ((unit + int list) \<times> 'o) option" where
  "bind_params api h err i [] w = Some (Inr [], w)"
| "bind_params api h err i (q # qs) w =
     (case get_oracle_bind_type q of
        None \<Rightarrow> None
      | Some (Inl _) \<Rightarrow> Some (Inl (), w)
      | Some (Inr (ty, len, ind)) \<Rightarrow>
          (let (rc, w) = OCIBindByPos api h err (i + 1) (b_buffer q) len ty ind w in
           if rc \<noteq> OCI_SUCCESS then Some (Inl (), w)
           else case bind_params api h err (i + 1) qs w of
             None \<Rightarrow> None
           | Some (Inl _, w) \<Rightarrow> Some (Inl (), w)
           | Some (Inr inds, w) \<Rightarrow> Some (Inr (ind # inds), w)))"

definition ora_drv_bind_param ::
  "'o oci_api \<Rightarrow> bool \<Rightarrow> nat option \<Rightarrow> db_stmt \<Rightarrow> db_bind list \<Rightarrow> 'o ora_drv \<Rightarrow> (int \<times> db_stmt \<times> 'o ora_drv) option" where
  "ora_drv_bind_param api alloc p stmt params d =
     (case p of
        None \<Rightarrow> Some (1, stmt, d)
      | Some a \<Rightarrow>
          (if emulated stmt then
             (if \<not> alloc then Some (1, stmt\<lparr>bound_param := None\<rparr>, d)
              else Some (0, stmt\<lparr>bound_param := Some params\<rparr>, d))
           else case st_ptr stmt of
             None \<Rightarrow> Some (1, stmt, d)
           | Some s \<Rightarrow>
               (case (ora_conns d a, ora_stmts d s) of
                  (Some c, Some os) \<Rightarrow>
                    (let put = (\<lambda>ps d. d\<lparr>ora_stmts := (ora_stmts d)(s \<mapsto> os\<lparr>os_params := ps\<rparr>)\<rparr>) in
                     case os_ptr os of
                       None \<Rightarrow> Some (1, stmt, d)
                     | Some h \<Rightarrow>
                         (if \<not> alloc then Some (1, stmt, put None d)
                          else case bind_params api h (errhp c) 0 params (olib d) of
                            None \<Rightarrow> None
                          | Some (Inl _, w) \<Rightarrow> Some (1, stmt, put None (d\<lparr>olib := w\<rparr>))
                          | Some (Inr inds, w) \<Rightarrow> Some (0, stmt, put (Some inds) (d\<lparr>olib := w\<rparr>))))
                | _ \<Rightarrow> None)))"

definition ora_drv_bind_result :: int where
  "ora_drv_bind_result = 1"

text \<open>What the driver does for each type of statement; \<open>run\<close> executes it with the number of iterations.\<close>

definition by_type ::
  "'o oci_api \<Rightarrow> ora_conn \<Rightarrow> ora_stmt_type \<Rightarrow> (nat \<Rightarrow> 'o \<Rightarrow> sword \<times> 'o) \<Rightarrow> 'o \<Rightarrow> sword \<times> 'o" where
  "by_type api c ty run w =
     (case ty of
        STMT_TYPE_BEGIN \<Rightarrow> OCITransStart api (svchp c) (errhp c) w
      | STMT_TYPE_COMMIT \<Rightarrow> OCITransCommit api (svchp c) (errhp c) w
      | STMT_TYPE_SELECT \<Rightarrow> run 0 w
      | STMT_TYPE_UPDATE \<Rightarrow> run 1 w)"

definition ora_error :: "sword \<Rightarrow> db_error" where
  "ora_error rc = (if rc = OCI_SUCCESS then SB_DB_ERROR_NONE else SB_DB_ERROR_FAILED)"

text \<open>Allocation, preparation and execution of a statement handle for a query; the handle is freed in any
  case.\<close>

definition run_query :: "'o oci_api \<Rightarrow> ora_conn \<Rightarrow> string \<Rightarrow> nat \<Rightarrow> 'o \<Rightarrow> sword \<times> 'o" where
  "run_query api c query iters w =
     (let (rc, h, w) = OCIHandleAlloc api OCI_HTYPE_STMT w in
      if rc \<noteq> OCI_SUCCESS then (rc, w)
      else let (rc, w) = OCIStmtPrepare api h (errhp c) query w;
               (rc, w) = (if rc = OCI_SUCCESS then OCIStmtExecute api (svchp c) h (errhp c) iters w else (rc, w))
           in (rc, snd (OCIHandleFree api (Some h) OCI_HTYPE_STMT w)))"

definition ora_drv_query ::
  "'o oci_api \<Rightarrow> nat option \<Rightarrow> string \<Rightarrow> 'o ora_drv \<Rightarrow> (db_error \<times> 'o ora_drv) option" where
  "ora_drv_query api p query d =
     (case Option.bind p (ora_conns d) of
        None \<Rightarrow> None
      | Some c \<Rightarrow>
          (let (rc, w) = by_type api c (get_stmt_type query) (run_query api c query) (olib d)
           in Some (ora_error rc, d\<lparr>olib := w\<rparr>)))"

text \<open>The error of an emulated statement is stored in \<open>db_errno\<close> of the connection, where the caller overwrites it
  with the result, which is \<open>SB_DB_ERROR_NONE\<close>.\<close>

definition ora_drv_execute ::
  "'o oci_api \<Rightarrow> (u32 \<Rightarrow> bool) \<Rightarrow> nat option \<Rightarrow> db_stmt \<Rightarrow> 'o ora_drv \<Rightarrow> (db_error \<times> 'o ora_drv) option" where
  "ora_drv_execute api alloc p stmt d =
     (case p of
        None \<Rightarrow> Some (SB_DB_ERROR_FAILED, d)
      | Some a \<Rightarrow>
          (if \<not> emulated stmt then
             (case st_ptr stmt of
                None \<Rightarrow> Some (SB_DB_ERROR_FAILED, d)
              | Some s \<Rightarrow>
                  (case (ora_conns d a, ora_stmts d s) of
                     (Some c, Some os) \<Rightarrow>
                       (case os_ptr os of
                          None \<Rightarrow> None
                        | Some h \<Rightarrow>
                            (let (rc, w) = by_type api c (os_type os)
                                             (OCIStmtExecute api (svchp c) h (errhp c)) (olib d)
                             in Some (ora_error rc, d\<lparr>olib := w\<rparr>)))
                   | _ \<Rightarrow> None))
           else case st_query stmt of
             None \<Rightarrow> None
           | Some q \<Rightarrow>
               (case build_query alloc (bound_value stmt) q None 0 True 0 of
                  None \<Rightarrow> None
                | Some (Inl _) \<Rightarrow> Some (SB_DB_ERROR_FAILED, d)
                | Some (Inr buf) \<Rightarrow>
                    (case ora_drv_query api p buf d of
                       None \<Rightarrow> None
                     | Some (_, d) \<Rightarrow> Some (SB_DB_ERROR_NONE, d)))))"

text \<open>The pointer given to \<open>OCIHandleFree\<close> is the statement of the abstraction layer, not the handle.\<close>

definition ora_drv_close :: "'o oci_api \<Rightarrow> db_stmt \<Rightarrow> 'o ora_drv \<Rightarrow> int \<times> 'o ora_drv" where
  "ora_drv_close api stmt d =
     (if st_ptr stmt = None then (1, d)
      else (0, d\<lparr>olib := snd (OCIHandleFree api None OCI_HTYPE_STMT (olib d))\<rparr>))"

section \<open>Result sets\<close>

text \<open>The description of one column, its definition included; \<^const>\<open>None\<close> when a call fails.\<close>

definition describe_column ::
  "'o oci_api \<Rightarrow> nat \<Rightarrow> nat \<Rightarrow> nat \<Rightarrow> nat \<Rightarrow> 'o \<Rightarrow> ora_column option \<times> 'o" where
  "describe_column api h err parm i w =
     (case (attr_data_type api parm w, attr_name api parm w, attr_char_used api parm w) of
        ((OCI_SUCCESS, ty), (OCI_SUCCESS, name), (OCI_SUCCESS, used)) \<Rightarrow>
          (let (rc, len) = (if used then attr_char_size api parm w else attr_data_size api parm w);
               len = (if len = 0 then word_of_int (get_oracle_type_size ty) else len)
           in if rc \<noteq> OCI_SUCCESS then (None, w)
              else let (rc, w) = OCIDefineByPos api h err i len ty (OCIDescriptorFree api parm w) in
                if rc \<noteq> OCI_SUCCESS then (None, w)
                else (Some \<lparr>oc_type = ty, oc_name = name, oc_len = len\<rparr>, w))
      | _ \<Rightarrow> (None, w))"

partial_function (option) describe_columns ::
  "'o oci_api \<Rightarrow> nat \<Rightarrow> nat \<Rightarrow> ora_column list \<Rightarrow> 'o \<Rightarrow> (bool \<times> ora_column list \<times> 'o) option" where
  "describe_columns api h err cols w =
     (let (rc, parm, w) = OCIParamGet api h err (length cols + 1) w in
      if rc \<noteq> OCI_SUCCESS then Some (True, cols, w)
      else case describe_column api h err parm (length cols + 1) w of
        (None, w) \<Rightarrow> Some (False, cols, w)
      | (Some col, w) \<Rightarrow> describe_columns api h err (cols @ [col]) w)"

definition copy_row :: "'o oci_api \<Rightarrow> nat \<Rightarrow> ora_column list \<Rightarrow> 'o \<Rightarrow> ora_data list" where
  "copy_row api h cols w =
     map (\<lambda>(i, col). let (val, ind) = defined_value api h i w in (take (unat (oc_len col)) val, ind))
       (zip [1..<length cols + 1] cols)"

partial_function (option) store_rows ::
  "'o oci_api \<Rightarrow> nat \<Rightarrow> nat \<Rightarrow> ora_column list \<Rightarrow> ora_data list list \<Rightarrow> 'o \<Rightarrow>
   (bool \<times> ora_data list list \<times> 'o) option" where
  "store_rows api h err cols rows w =
     (let (rc, w) = OCIStmtFetch2 api h err w in
      if rc = OCI_NO_DATA then Some (True, rows, w)
      else if rc \<noteq> OCI_SUCCESS then Some (False, rows, w)
      else store_rows api h err cols (rows @ [copy_row api h cols w]) w)"

text \<open>The result of a query without statement is not stored. The result 1 is the number of
  \<open>SB_DB_ERROR_RESTART_TRANSACTION\<close>.\<close>

definition ora_drv_store_results ::
  "'o oci_api \<Rightarrow> bool \<Rightarrow> db_result_set \<Rightarrow> 'o ora_drv \<Rightarrow> (db_error \<times> db_result_set \<times> 'o ora_drv) option" where
  "ora_drv_store_results api alloc r d =
     (let fail = Some (SB_DB_ERROR_RESTART_TRANSACTION, r, d) in
      case (rs_statement r, rs_connection r) of
        (Some stmt, Some p) \<Rightarrow>
          (case (st_ptr stmt, p) of
             (Some s, Some a) \<Rightarrow>
               (if rs_ptr r \<noteq> None \<or> \<not> alloc then fail
                else case (ora_stmts d s, ora_conns d a) of
                  (Some os, Some c) \<Rightarrow>
                    (case os_ptr os of
                       None \<Rightarrow> None
                     | Some h \<Rightarrow>
                         (let finish = (\<lambda>ok cols n rows w.
                                let x = ora_fresh d in
                                Some (if ok then SB_DB_ERROR_NONE else SB_DB_ERROR_RESTART_TRANSACTION,
                                      r\<lparr>rs_ptr := Some x\<rparr>,
                                      d\<lparr>ora_results := (ora_results d)(x \<mapsto>
                                          \<lparr>or_ncolumns = n, or_nrows = of_nat (length rows), or_columns = cols,
                                           or_rows = rows\<rparr>),
                                        ora_fresh := x + 1, olib := w\<rparr>))
                          in case describe_columns api h (errhp c) [] (olib d) of
                               None \<Rightarrow> None
                             | Some (False, cols, w) \<Rightarrow> finish False cols 0 [] w
                             | Some (True, cols, w) \<Rightarrow>
                                 (case store_rows api h (errhp c) cols [] w of
                                    None \<Rightarrow> None
                                  | Some (ok, rows, w) \<Rightarrow> finish ok cols (length cols) rows w)))
                | _ \<Rightarrow> None)
           | _ \<Rightarrow> fail)
      | _ \<Rightarrow> fail)"

definition ora_drv_num_rows :: "db_result_set \<Rightarrow> 'o ora_drv \<Rightarrow> u64" where
  "ora_drv_num_rows r d =
     (case Option.bind (rs_ptr r) (ora_results d) of None \<Rightarrow> 0 | Some res \<Rightarrow> ucast (or_nrows res))"

text \<open>Rows, columns and the structure are freed; the result set keeps its pointer.\<close>

definition ora_drv_free_results :: "db_result_set \<Rightarrow> 'o ora_drv \<Rightarrow> (int \<times> 'o ora_drv) option" where
  "ora_drv_free_results r d =
     (case rs_ptr r of
        None \<Rightarrow> Some (1, d)
      | Some x \<Rightarrow>
          (if ora_results d x = None then None else Some (0, d\<lparr>ora_results := (ora_results d)(x := None)\<rparr>)))"

definition ora_drv_done :: "'o oci_api \<Rightarrow> 'o ora_drv \<Rightarrow> int \<times> 'o ora_drv" where
  "ora_drv_done api d =
     (case ora_env d of
        None \<Rightarrow> (1, d)
      | Some e \<Rightarrow>
          (let (rc, w) = OCIHandleFree api (Some e) OCI_HTYPE_ENV (olib d)
           in (if rc \<noteq> OCI_SUCCESS then 1 else 0, d\<lparr>olib := w\<rparr>)))"

section \<open>The driver\<close>

definition oracle_driver :: "'o oci_api \<Rightarrow> options \<Rightarrow> db_ps_mode \<Rightarrow> ora_conn \<Rightarrow> 'o ora_drv option db_driver" where
  "oracle_driver api opts ps junk = \<lparr>sname = ''oracle'', lname = ''Oracle driver'', drv_args = Some ora_drv_args,
     ops = \<lparr>
       op_init = lift_op 1 (\<lambda>d. Some (ora_drv_init api opts ps d)),
       op_describe = Some (\<lambda>w. (0, ora_drv_caps, w)),
       op_connect = lift_op2 (1, None) (ora_drv_connect api True junk),
       op_disconnect = (\<lambda>p. lift_op 1 (ora_drv_disconnect api p)),
       op_prepare = (\<lambda>p st q. lift_op2 (1, st) (ora_drv_prepare api (\<lambda>_. True) True p st q)),
       op_bind_param = (\<lambda>p st ps. lift_op2 (1, st) (ora_drv_bind_param api True p st ps)),
       op_bind_result = (\<lambda>p st ps w. (ora_drv_bind_result, st, w)),
       op_execute = (\<lambda>p st r w. let (e, w) = lift_op SB_DB_ERROR_FAILED
                            (ora_drv_execute api (\<lambda>_. True) p st) w in (e, r, w)),
       op_fetch_row = (\<lambda>r w. (1, w)),
       op_num_rows = (\<lambda>r w. case w of None \<Rightarrow> 0 | Some d \<Rightarrow> ora_drv_num_rows r d),
       op_free_results = (\<lambda>r w. let (rc, w) = lift_op 1 (ora_drv_free_results r) w in (rc, r, w)),
       op_close = (\<lambda>p st. lift_op 1 (\<lambda>d. Some (ora_drv_close api st d))),
       op_query = (\<lambda>p q r w. let (e, w) = lift_op SB_DB_ERROR_FAILED (ora_drv_query api p q) w in (e, r, w)),
       op_store_results = (\<lambda>r. lift_op2 (SB_DB_ERROR_FAILED, r) (ora_drv_store_results api True r)),
       op_done = lift_op 1 (\<lambda>d. Some (ora_drv_done api d))\<rparr>\<rparr>"

section \<open>Facts\<close>

text \<open>Named parameters obey the same contract as printed values.\<close>

interpretation orp: value_printer colon_number "\<lambda>k. Some ('':'' @ show_nat k)"
  by unfold_locales
    (auto simp: colon_number_def print_result_def snprintf_def Let_def)

lemma ora_query_named:
  assumes "query \<noteq> []" and "length (subst_query (\<lambda>k. '':'' @ show_nat k) 1 query) < 2 ^ 29"
  shows "build_query (\<lambda>_. True) colon_number query None 0 True 1 =
           Some (Inr (subst_query (\<lambda>k. '':'' @ show_nat k) 1 query))"
  by (rule orp.build_query_start [where v = "\<lambda>k. k", OF assms]) simp

text \<open>The handles that exist: allocation adds a new one, freeing removes one, nothing else changes them.\<close>

definition oci_laws :: "'o oci_api \<Rightarrow> ('o \<Rightarrow> nat set) \<Rightarrow> bool" where
  "oci_laws api live \<longleftrightarrow>
     (\<forall>ty w h w'. OCIHandleAlloc api ty w = (OCI_SUCCESS, h, w') \<longrightarrow> h \<notin> live w \<and> live w' = insert h (live w)) \<and>
     (\<forall>ty w. fst (OCIHandleAlloc api ty w) \<noteq> OCI_SUCCESS \<longrightarrow> live (snd (snd (OCIHandleAlloc api ty w))) = live w) \<and>
     (\<forall>h ty w. live (snd (OCIHandleFree api (Some h) ty w)) = live w - {h}) \<and>
     (\<forall>s e db w. live (snd (OCIServerAttach api s e db w)) = live w) \<and>
     (\<forall>s e w. live (snd (OCIServerDetach api s e w)) = live w) \<and>
     (\<forall>h a e w. live (snd (OCIAttrSet api h a e w)) = live w) \<and>
     (\<forall>s e u w. live (snd (OCISessionBegin api s e u w)) = live w) \<and>
     (\<forall>s e u w. live (snd (OCISessionEnd api s e u w)) = live w)"

lemma alloc_call_ok:
  assumes "oci_laws api live" and "alloc_call api ty put c w = Some (OCI_SUCCESS, c', w')"
  shows "\<exists>h. c' = put h c \<and> h \<notin> live w \<and> live w' = insert h (live w)"
  using assms by (auto simp: alloc_call_def oci_laws_def split: prod.splits)

text \<open>A call that changes neither the structure nor the handles.\<close>

definition keep_call :: "('o \<Rightarrow> nat set) \<Rightarrow> 'o connect_call \<Rightarrow> bool" where
  "keep_call live f \<longleftrightarrow> (\<forall>c w rc c' w'. f c w = Some (rc, c', w') \<longrightarrow> c' = c \<and> live w' = live w)"

lemma keep_plain: "(\<And>c w. live (snd (f c w)) = live w) \<Longrightarrow> keep_call live (plain_call f)"
  by (auto simp: keep_call_def plain_call_def case_prod_unfold Let_def)

lemma keep_string: "(\<And>t c w. live (snd (f t c w)) = live w) \<Longrightarrow> keep_call live (string_call s f)"
  by (auto simp: keep_call_def string_call_def plain_call_def case_prod_unfold Let_def split: option.splits)

lemma run_calls_Cons:
  "run_calls (f # fs) c w = Some (True, c', w') \<longleftrightarrow>
     (\<exists>c1 w1. f c w = Some (OCI_SUCCESS, c1, w1) \<and> run_calls fs c1 w1 = Some (True, c', w'))"
  by (auto split: option.splits prod.splits if_splits)

lemma run_calls_append:
  "run_calls (fs @ gs) c w = Some (True, c', w') \<longleftrightarrow>
     (\<exists>c1 w1. run_calls fs c w = Some (True, c1, w1) \<and> run_calls gs c1 w1 = Some (True, c', w'))"
  by (induction fs arbitrary: c w) (auto split: option.splits prod.splits if_splits)

lemma run_calls_keep:
  "list_all (keep_call live) fs \<Longrightarrow> run_calls fs c w = Some (True, c', w') \<Longrightarrow> c' = c \<and> live w' = live w"
  by (induction fs arbitrary: c w) (fastforce simp: keep_call_def split: option.splits if_splits)+

text \<open>The calls in four groups: four handles, the server and the user, the transaction, the session.\<close>

definition attach_calls :: "'o oci_api \<Rightarrow> 'o ora_drv \<Rightarrow> 'o connect_call list" where
  "attach_calls api d = take 4 (drop 4 (connect_calls api d))"

definition session_calls :: "'o oci_api \<Rightarrow> 'o ora_drv \<Rightarrow> 'o connect_call list" where
  "session_calls api d = drop 9 (connect_calls api d)"

lemma connect_calls_groups:
  "connect_calls api d =
     [alloc_call api OCI_HTYPE_SVCCTX (\<lambda>h c. c\<lparr>svchp := h\<rparr>), alloc_call api OCI_HTYPE_ERROR (\<lambda>h c. c\<lparr>errhp := h\<rparr>),
      alloc_call api OCI_HTYPE_SERVER (\<lambda>h c. c\<lparr>srvhp := h\<rparr>), alloc_call api OCI_HTYPE_SESSION (\<lambda>h c. c\<lparr>usrhp := h\<rparr>)] @
     attach_calls api d @ [alloc_call api OCI_HTYPE_TRANS (\<lambda>h c. c\<lparr>transhp := h\<rparr>)] @ session_calls api d"
  by (simp add: connect_calls_def attach_calls_def session_calls_def)

lemma grouped_calls_keep:
  assumes "oci_laws api live"
  shows "list_all (keep_call live) (attach_calls api d)" and "list_all (keep_call live) (session_calls api d)"
  using assms
  by (simp_all add: attach_calls_def session_calls_def connect_calls_def keep_plain keep_string oci_laws_def)

text \<open>The handles after a successful connection are the five that the structure holds.\<close>

lemma connect_calls_handles:
  assumes laws: "oci_laws api live" and run: "run_calls (connect_calls api d) junk w = Some (True, c, w')"
  shows "live w' = {svchp c, errhp c, srvhp c, usrhp c, transhp c} \<union> live w \<and>
         distinct [svchp c, errhp c, srvhp c, usrhp c, transhp c] \<and> transhp c \<notin> live w \<and>
         {svchp c, errhp c, srvhp c, usrhp c} \<inter> live w = {}"
proof -
  note al = alloc_call_ok [OF laws] and keep = run_calls_keep [OF grouped_calls_keep(1) [OF laws]]
    run_calls_keep [OF grouped_calls_keep(2) [OF laws]]
  from run obtain c1 w1 c2 w2 c3 w3 c4 w4 c5 w5 c6 w6 where
    s: "alloc_call api OCI_HTYPE_SVCCTX (\<lambda>h c. c\<lparr>svchp := h\<rparr>) junk w = Some (OCI_SUCCESS, c1, w1)"
    "alloc_call api OCI_HTYPE_ERROR (\<lambda>h c. c\<lparr>errhp := h\<rparr>) c1 w1 = Some (OCI_SUCCESS, c2, w2)"
    "alloc_call api OCI_HTYPE_SERVER (\<lambda>h c. c\<lparr>srvhp := h\<rparr>) c2 w2 = Some (OCI_SUCCESS, c3, w3)"
    "alloc_call api OCI_HTYPE_SESSION (\<lambda>h c. c\<lparr>usrhp := h\<rparr>) c3 w3 = Some (OCI_SUCCESS, c4, w4)"
    and a: "run_calls (attach_calls api d) c4 w4 = Some (True, c5, w5)"
    and t: "alloc_call api OCI_HTYPE_TRANS (\<lambda>h c. c\<lparr>transhp := h\<rparr>) c5 w5 = Some (OCI_SUCCESS, c6, w6)"
    and e: "run_calls (session_calls api d) c6 w6 = Some (True, c, w')"
    unfolding connect_calls_groups run_calls_append run_calls_Cons by auto
  from al [OF s(1)] al [OF s(2)] al [OF s(3)] al [OF s(4)] keep(1) [OF a] al [OF t] keep(2) [OF e]
  show ?thesis by auto
qed

text \<open>The calls of \<open>ora_drv_disconnect\<close>.\<close>

lemma disconnect_calls_handles:
  assumes "oci_laws api live"
  shows "live (snd (run_all (disconnect_calls api c) res w)) = live w - {usrhp c, srvhp c, svchp c, errhp c}"
proof -
  have k: "live (snd (OCISessionEnd api s e u w)) = live w" "live (snd (OCIServerDetach api s e w)) = live w"
    "live (snd (OCIHandleFree api (Some h) ty w)) = live w - {h}" for s e u h ty w
    using assms by (simp_all add: oci_laws_def)
  show ?thesis by (simp add: disconnect_calls_def case_prod_unfold Let_def k) (simp only: insert_def, blast)
qed

section \<open>Properties\<close>

text \<open>Every connection leaks a handle: \<open>ora_drv_disconnect\<close> ends the session and frees the handles that
  \<open>ora_drv_connect\<close> allocated, whether or not the calls succeed, except the one for the transaction.
  After the connection has been closed exactly that handle is left over.\<close>

theorem oracle_transaction_handle_leaks:
  assumes "oci_laws api live" and "ora_drv_connect api True junk d = Some (0, p, d1)"
  shows "\<exists>c rc d2. Option.bind p (ora_conns d1) = Some c \<and> ora_drv_disconnect api p d1 = Some (rc, d2) \<and>
           transhp c \<notin> live (olib d) \<and> live (olib d2) = insert (transhp c) (live (olib d))"
proof -
  from assms(2) obtain c w where c: "run_calls (connect_calls api d) junk (olib d) = Some (True, c, w)"
      "p = Some (ora_fresh d)" "d1 = d\<lparr>ora_conns := (ora_conns d)(ora_fresh d \<mapsto> c), ora_fresh := ora_fresh d + 1, olib := w\<rparr>"
    by (auto simp: ora_drv_connect_def split: option.splits if_splits)
  note h = connect_calls_handles [OF assms(1) c(1)]
  let ?r = "run_all (disconnect_calls api c) 0 w"
  have "live (snd ?r) = insert (transhp c) (live (olib d))"
    using disconnect_calls_handles [OF assms(1), of c 0 w] h by auto
  with c(2,3) h show ?thesis by (simp add: ora_drv_disconnect_def case_prod_unfold Let_def)
qed

text \<open>A library for examples: its world is the list of handles and the list of texts that were executed; the text
  \<open>fail\<close> fails.\<close>

definition example_oci :: "(nat list \<times> string list) oci_api" where
  "example_oci = \<lparr>OCIEnvCreate = (\<lambda>w. (OCI_SUCCESS, Some 0, w)),
     OCIHandleAlloc = (\<lambda>_ (hs, qs). let h = Suc (sum_list hs) in (OCI_SUCCESS, h, (h # hs, qs))),
     OCIHandleFree = (\<lambda>h _ (hs, qs). (OCI_SUCCESS, (case h of None \<Rightarrow> hs | Some x \<Rightarrow> filter (\<lambda>y. y \<noteq> x) hs, qs))),
     OCIServerAttach = (\<lambda>_ _ _ w. (OCI_SUCCESS, w)), OCIServerDetach = (\<lambda>_ _ w. (OCI_SUCCESS, w)),
     OCIAttrSet = (\<lambda>_ _ _ w. (OCI_SUCCESS, w)), OCISessionBegin = (\<lambda>_ _ _ w. (OCI_SUCCESS, w)),
     OCISessionEnd = (\<lambda>_ _ _ w. (OCI_SUCCESS, w)), OCIStmtPrepare = (\<lambda>_ _ q (hs, qs). (OCI_SUCCESS, (hs, qs @ [q]))),
     OCIStmtExecute = (\<lambda>_ _ _ _ (hs, qs). (if qs \<noteq> [] \<and> last qs = ''fail'' then OCI_ERROR else OCI_SUCCESS, (hs, qs))),
     OCITransStart = (\<lambda>_ _ w. (OCI_SUCCESS, w)), OCITransCommit = (\<lambda>_ _ w. (OCI_SUCCESS, w)),
     OCIBindByPos = (\<lambda>_ _ _ _ _ _ _ w. (OCI_SUCCESS, w)), OCIParamGet = (\<lambda>_ _ _ w. (OCI_NO_DATA, 0, w)),
     attr_data_type = (\<lambda>_ _. (OCI_SUCCESS, SQLT_INT)), attr_name = (\<lambda>_ _. (OCI_SUCCESS, ''c'')),
     attr_char_used = (\<lambda>_ _. (OCI_SUCCESS, False)), attr_char_size = (\<lambda>_ _. (OCI_SUCCESS, 4)),
     attr_data_size = (\<lambda>_ _. (OCI_SUCCESS, 4)), OCIDescriptorFree = (\<lambda>_ w. w),
     OCIDefineByPos = (\<lambda>_ _ _ _ _ w. (OCI_SUCCESS, w)), OCIStmtFetch2 = (\<lambda>_ _ w. (OCI_NO_DATA, w)),
     defined_value = (\<lambda>_ _ _. ([], 0))\<rparr>"

definition example_ora :: "(nat list \<times> string list) ora_drv" where
  "example_ora = \<lparr>ora_user = Some ''u'', ora_password = Some ''p'', ora_db = Some ''d'', ora_env = Some 0,
     ora_use_ps = False, ora_conns = Map.empty, ora_stmts = Map.empty, ora_results = Map.empty, ora_fresh = 0,
     olib = ([], [])\<rparr>"

lemma example_oci_laws: "oci_laws example_oci (set \<circ> fst)"
proof -
  have "x \<le> sum_list hs" if "x \<in> set hs" for x :: nat and hs using that by (simp add: member_le_sum_list)
  then have "Suc (sum_list hs) \<notin> set hs" for hs :: "nat list" by fastforce
  then show ?thesis by (auto simp: oci_laws_def example_oci_def Let_def)
qed

theorem oracle_transaction_handle_leaks_witness:
  "\<exists>d1 rc d2. ora_drv_connect example_oci True \<lparr>svchp = 0, srvhp = 0, errhp = 0, transhp = 0, usrhp = 0\<rparr> example_ora
       = Some (0, Some 0, d1) \<and>
     ora_drv_disconnect example_oci (Some 0) d1 = Some (rc, d2) \<and> card (set (fst (olib d2))) = 1"
proof -
  let ?j = "\<lparr>svchp = 0, srvhp = 0, errhp = 0, transhp = 0, usrhp = 0\<rparr>"
  obtain d1 where c: "ora_drv_connect example_oci True ?j example_ora = Some (0, Some 0, d1)"
    by (simp add: ora_drv_connect_def connect_calls_def alloc_call_def plain_call_def string_call_def example_oci_def
        example_ora_def Let_def)
  from oracle_transaction_handle_leaks [OF example_oci_laws c] c show ?thesis by (auto simp: example_ora_def)
qed

text \<open>What server-side statements bind: every parameter with an indicator is bound as NULL, whether or not
  the indicator says so.\<close>

lemma bind_params_indicators:
  assumes "bind_params api h err i ps w = Some (Inr inds, w')"
  shows "inds = map (\<lambda>q. if b_is_null q \<noteq> None then - 1 else 0) ps"
  using assms
  by (induction ps arbitrary: i w inds)
    (auto simp: get_oracle_bind_type_def Let_def split: option.splits prod.splits sum.splits if_splits bind_data.splits)

text \<open>C35: Errors of emulated statements are lost: when the server rejects the query of a client-side statement,
  the Oracle driver reports success, so \<open>db_execute\<close> returns a result set, the connection shows no error and the
  statement is counted as executed.\<close>

theorem oracle_emulated_errors_lost:
  assumes "driver con = Some (oracle_driver api opts ps junk)" and "world s = Some d" and "c_ptr con = Some a"
    and "emulated stmt" and "st_query stmt = Some q" and "q \<noteq> []" and "bound_param stmt = Some vs"
    and "placeholders q \<le> length vs" and "\<forall>v \<in> set vs. bind_text v \<noteq> None"
    and "length (subst_query (\<lambda>k. the (bind_text (vs ! k))) 0 q) < 2 ^ 29"
    and "ora_drv_query api (Some a) (subst_query (\<lambda>k. the (bind_text (vs ! k))) 0 q) d = Some (SB_DB_ERROR_FAILED, d')"
    and "db_update_thread_stats (thread_id con) (st_type stmt) (stats s) = Some st"
  shows "\<exists>con'. db_execute (Some con) stmt s = Some (True, Some con', \<lparr>world = Some d', stats = st\<rparr>) \<and>
           db_errno con' = SB_DB_ERROR_NONE"
proof -
  have "ora_drv_execute api (\<lambda>_. True) (Some a) stmt d = Some (SB_DB_ERROR_NONE, d')"
    using bound_query_built [OF assms(7-9,6,10)] assms(4,5,11) by (simp add: ora_drv_execute_def)
  then have x: "op_execute (ops (oracle_driver api opts ps junk)) (Some a) stmt r (world s) = (SB_DB_ERROR_NONE, r, Some d')" for r
    using assms(2) by (simp add: oracle_driver_def lift_op_def)
  have "s\<lparr>world := Some d', stats := st\<rparr> = \<lparr>world = Some d', stats = st\<rparr>" by simp
  then show ?thesis
    using assms(12) by (simp add: db_execute_def con_driver_def assms(1,3) x account_result_def Let_def)
qed

theorem oracle_emulated_errors_lost_witness:
  "\<exists>con' s' d'. db_execute (Some ((zero_conn :: (nat list \<times> string list) ora_drv option db_conn)
        \<lparr>driver := Some (oracle_driver example_oci [] DB_PS_MODE_DISABLE
            \<lparr>svchp = 0, srvhp = 0, errhp = 0, transhp = 0, usrhp = 0\<rparr>), c_ptr := Some 0\<rparr>))
       (zero_stmt\<lparr>emulated := True, st_query := Some ''fail'', bound_param := Some []\<rparr>)
       \<lparr>world = Some (example_ora\<lparr>ora_conns := [0 \<mapsto> \<lparr>svchp = 0, srvhp = 0, errhp = 0, transhp = 0, usrhp = 0\<rparr>]\<rparr>),
        stats = stats example_sys\<rparr> = Some (True, Some con', s') \<and>
     world s' = Some d' \<and> snd (olib d') = [''fail''] \<and> db_errno con' = SB_DB_ERROR_NONE"
proof -
  let ?j = "\<lparr>svchp = 0, srvhp = 0, errhp = 0, transhp = 0, usrhp = 0\<rparr>"
  let ?con = "(zero_conn :: (nat list \<times> string list) ora_drv option db_conn)
        \<lparr>driver := Some (oracle_driver example_oci [] DB_PS_MODE_DISABLE ?j), c_ptr := Some 0\<rparr>"
  let ?st = "zero_stmt\<lparr>emulated := True, st_query := Some ''fail'', bound_param := Some []\<rparr>"
  let ?d = "example_ora\<lparr>ora_conns := [0 \<mapsto> ?j]\<rparr>"
  let ?s = "\<lparr>world = Some ?d, stats = stats example_sys\<rparr>"
  have 1: "driver ?con = Some (oracle_driver example_oci [] DB_PS_MODE_DISABLE ?j)" "world ?s = Some ?d" "c_ptr ?con = Some 0"
    "emulated ?st" "st_query ?st = Some ''fail''" "''fail'' \<noteq> []" "bound_param ?st = Some []"
    "placeholders ''fail'' \<le> length ([] :: db_bind list)" "\<forall>v \<in> set []. bind_text v \<noteq> None"
    "length (subst_query (\<lambda>k. the (bind_text ([] ! k))) 0 ''fail'') < 2 ^ 29"
    by (simp_all add: placeholders_def)
  have 2: "ora_drv_query example_oci (Some 0) (subst_query (\<lambda>k. the (bind_text ([] ! k))) 0 ''fail'') ?d
      = Some (SB_DB_ERROR_FAILED, ?d\<lparr>olib := ([], [''fail''])\<rparr>)"
    by (simp add: ora_drv_query_def by_type_def get_stmt_type_def run_query_def example_oci_def example_ora_def ora_error_def)
  obtain st where 3: "db_update_thread_stats (thread_id ?con) (st_type ?st) (stats ?s) = Some st"
    by (auto simp: zero_conn_def zero_stmt_def example_sys_def example_stats_def db_update_thread_stats_def
        upd_thread_stat_def Let_def split: db_query_type.splits)
  from oracle_emulated_errors_lost [OF 1 2 3] show ?thesis by auto
qed

end
