(* ===== verification/Lua_API.thy ===== *)
theory Lua_API
  imports SB_Random
begin

text \<open>
  The part of the bundled Lua interpreter (\<open>sysbench/scripting/lua/src\<close>) that the scripting layer
  relies on: values and their conversions (\<open>lapi.c\<close>), the checks of arguments and the references of
  the registry (\<open>lauxlib.c\<close>), and the length of a table (\<open>ltable.c\<close>). Numbers are ideal reals; the
  conversions between numbers and texts, which are \<open>strtod\<close> and \<open>sprintf\<close>, are a record of
  functions. An error is \<open>LuaMsg\<close> of a message, to which the interpreter adds the position in the
  script, or \<open>LuaVal\<close> of the value given to \<open>lua_error\<close>.
\<close>

section \<open>Values\<close>

datatype lval =
  LNil | LBoolean bool | LLightUserdata | LNumber real | LString string | LTable nat | LFunction nat
| LCFunction string | LUserdata nat | LThread nat

datatype lua_err = LuaMsg string | LuaVal lval

record lua_conv =
  str2d :: "string \<Rightarrow> real option"
  num2str :: "real \<Rightarrow> string"

text \<open>\<open>lua_typename (L, lua_type (L, i))\<close> for a value on the stack.\<close>

fun lua_typename :: "lval \<Rightarrow> string" where
  "lua_typename LNil = ''nil''"
| "lua_typename (LBoolean _) = ''boolean''"
| "lua_typename LLightUserdata = ''userdata''"
| "lua_typename (LNumber _) = ''number''"
| "lua_typename (LString _) = ''string''"
| "lua_typename (LTable _) = ''table''"
| "lua_typename (LFunction _) = ''function''"
| "lua_typename (LCFunction _) = ''function''"
| "lua_typename (LUserdata _) = ''userdata''"
| "lua_typename (LThread _) = ''thread''"

fun lua_istable :: "lval \<Rightarrow> bool" where
  "lua_istable (LTable _) = True"
| "lua_istable _ = False"

fun lua_isfunction :: "lval \<Rightarrow> bool" where
  "lua_isfunction (LFunction _) = True"
| "lua_isfunction (LCFunction _) = True"
| "lua_isfunction _ = False"

text \<open>\<^const>\<open>None\<close>: the value is not a number and has no conversion to one (\<open>lua_isnumber\<close> is false).\<close>

fun lua_tonumber :: "lua_conv \<Rightarrow> lval \<Rightarrow> real option" where
  "lua_tonumber cv (LNumber x) = Some x"
| "lua_tonumber cv (LString s) = str2d cv s"
| "lua_tonumber cv _ = None"

definition lua_isnumber :: "lua_conv \<Rightarrow> lval \<Rightarrow> bool" where
  "lua_isnumber cv v \<longleftrightarrow> lua_tonumber cv v \<noteq> None"

fun lua_tolstring :: "lua_conv \<Rightarrow> lval \<Rightarrow> string option" where
  "lua_tolstring cv (LString s) = Some s"
| "lua_tolstring cv (LNumber x) = Some (num2str cv x)"
| "lua_tolstring cv _ = None"

text \<open>Conversion of a floating-point number to an integer type cuts off the fraction.\<close>

definition trunc :: "real \<Rightarrow> int" where
  "trunc x = (if x < 0 then \<lceil>x\<rceil> else \<lfloor>x\<rfloor>)"

lemma trunc_of_int [simp]: "trunc (of_int i) = i"
  by (simp add: trunc_def)

lemma double_to_int_of_int [simp]:
  "INT_MIN \<le> i \<Longrightarrow> i \<le> INT_MAX \<Longrightarrow> double_to_int (of_int i) = Some i"
  by (simp add: double_to_int_def Let_def)

definition lua_tointeger :: "lua_conv \<Rightarrow> lval \<Rightarrow> int" where
  "lua_tointeger cv v = (case lua_tonumber cv v of None \<Rightarrow> 0 | Some x \<Rightarrow> trunc x)"

text \<open>A value of the stack by a positive index (\<open>index2adr\<close>); \<^const>\<open>None\<close> is no value.\<close>

definition index2adr :: "lval list \<Rightarrow> nat \<Rightarrow> lval option" where
  "index2adr stk i = (if 0 < i \<and> i \<le> length stk then Some (stk ! (i - 1)) else None)"

definition luaL_typerror :: "lval option \<Rightarrow> string \<Rightarrow> lua_err" where
  "luaL_typerror v tname =
     LuaMsg (tname @ '' expected, got '' @ (case v of None \<Rightarrow> ''no value'' | Some v \<Rightarrow> lua_typename v))"

definition luaL_checknumber :: "lua_conv \<Rightarrow> lval option \<Rightarrow> lua_err + real" where
  "luaL_checknumber cv v =
     (case Option.bind v (lua_tonumber cv) of None \<Rightarrow> Inl (luaL_typerror v ''number'') | Some x \<Rightarrow> Inr x)"

definition luaL_checklstring :: "lua_conv \<Rightarrow> lval option \<Rightarrow> lua_err + string" where
  "luaL_checklstring cv v =
     (case Option.bind v (lua_tolstring cv) of None \<Rightarrow> Inl (luaL_typerror v ''string'') | Some s \<Rightarrow> Inr s)"

section \<open>Integer keys of a table\<close>

text \<open>
  A table has an array part for the keys 1 to \<open>sizearray\<close> and a hash part, here the list of its
  entries with integer keys. Which keys are in which part is decided when the table grows
  (\<open>rehash\<close>); it has no influence on the values found, only on the boundary that \<open>luaH_getn\<close> finds.
\<close>

record itable =
  t_array :: "lval list"
  t_hash :: "(int \<times> lval) list"

definition luaH_getnum :: "itable \<Rightarrow> int \<Rightarrow> lval" where
  "luaH_getnum t key =
     (if 1 \<le> key \<and> key \<le> int (length (t_array t)) then t_array t ! nat (key - 1)
      else case map_of (t_hash t) key of None \<Rightarrow> LNil | Some v \<Rightarrow> v)"

definition luaH_setnum :: "itable \<Rightarrow> int \<Rightarrow> lval \<Rightarrow> itable" where
  "luaH_setnum t key v =
     (if 1 \<le> key \<and> key \<le> int (length (t_array t)) then t\<lparr>t_array := (t_array t)[nat (key - 1) := v]\<rparr>
      else t\<lparr>t_hash := (key, v) # filter (\<lambda>e. fst e \<noteq> key) (t_hash t)\<rparr>)"

text \<open>The binary searches of \<open>luaH_getn\<close> and \<open>unbound_search\<close>.\<close>

function bsearch :: "(nat \<Rightarrow> lval) \<Rightarrow> nat \<Rightarrow> nat \<Rightarrow> nat" where
  "bsearch g i j =
     (if j - i > 1 then (let m = (i + j) div 2 in if g m = LNil then bsearch g i m else bsearch g m j)
      else i)"
  by pat_completeness auto
termination by (relation "measure (\<lambda>(g, i, j). j - i)") auto

declare bsearch.simps [simp del]

text \<open>The linear search after an overflow; the fuel is more than the number of keys.\<close>

fun linear_search :: "(nat \<Rightarrow> lval) \<Rightarrow> nat \<Rightarrow> nat \<Rightarrow> nat" where
  "linear_search g 0 i = i - 1"
| "linear_search g (Suc n) i = (if g i \<noteq> LNil then linear_search g n (i + 1) else i - 1)"

function unbound_grow :: "(nat \<Rightarrow> lval) \<Rightarrow> nat \<Rightarrow> nat \<Rightarrow> nat \<Rightarrow> nat" where
  "unbound_grow g fuel i j =
     (if g j \<noteq> LNil \<and> j > 0 then
        (let i = j; j = j * 2 in
         if j > 2147483647 then linear_search g fuel 1 else unbound_grow g fuel i j)
      else bsearch g i j)"
  by pat_completeness auto
termination by (relation "measure (\<lambda>(g, fuel, i, j). 4294967296 - j)") auto

declare unbound_grow.simps [simp del]

definition unbound_search :: "itable \<Rightarrow> nat \<Rightarrow> nat" where
  "unbound_search t j =
     unbound_grow (\<lambda>k. luaH_getnum t (int k)) (length (t_array t) + length (t_hash t) + 1) j (j + 1)"

definition luaH_getn :: "itable \<Rightarrow> nat" where
  "luaH_getn t =
     (let j = length (t_array t) in
      if j > 0 \<and> t_array t ! (j - 1) = LNil then bsearch (\<lambda>m. t_array t ! (m - 1)) 0 j
      else if t_hash t = [] then j
      else unbound_search t j)"

section \<open>References\<close>

definition FREELIST_REF :: int where "FREELIST_REF = 0"
definition LUA_REFNIL :: int where "LUA_REFNIL = - 1"

text \<open>\<open>luaL_ref\<close> and \<open>luaL_unref\<close> over any table with the given reading, writing and length.\<close>

definition luaL_ref ::
  "lua_conv \<Rightarrow> ('t \<Rightarrow> int \<Rightarrow> lval) \<Rightarrow> ('t \<Rightarrow> int \<Rightarrow> lval \<Rightarrow> 't) \<Rightarrow> ('t \<Rightarrow> nat) \<Rightarrow> lval \<Rightarrow> 't \<Rightarrow> int \<times> 't" where
  "luaL_ref cv rawgeti rawseti objlen v t =
     (if v = LNil then (LUA_REFNIL, t)
      else let ref = lua_tointeger cv (rawgeti t FREELIST_REF) in
        if ref \<noteq> 0 then (let t = rawseti t FREELIST_REF (rawgeti t ref) in (ref, rawseti t ref v))
        else let ref = int (objlen t) + 1 in (ref, rawseti t ref v))"

definition luaL_unref ::
  "('t \<Rightarrow> int \<Rightarrow> lval) \<Rightarrow> ('t \<Rightarrow> int \<Rightarrow> lval \<Rightarrow> 't) \<Rightarrow> int \<Rightarrow> 't \<Rightarrow> 't" where
  "luaL_unref rawgeti rawseti ref t =
     (if ref \<ge> 0 then
        (let t = rawseti t ref (rawgeti t FREELIST_REF) in rawseti t FREELIST_REF (LNumber (of_int ref)))
      else t)"

section \<open>The length of a table is a boundary\<close>

lemma bsearch_border:
  assumes "i < j" and "i = 0 \<or> g i \<noteq> LNil" and "g j = LNil"
  shows "(bsearch g i j = 0 \<or> g (bsearch g i j) \<noteq> LNil) \<and> g (bsearch g i j + 1) = LNil \<and>
         bsearch g i j < j"
  using assms
proof (induction g i j rule: bsearch.induct)
  case (1 g i j)
  show ?case
  proof (cases "j - i > 1")
    case True
    let ?m = "(i + j) div 2"
    have m: "i < ?m" "?m < j" using True by auto
    show ?thesis
    proof (cases "g ?m = LNil")
      case t: True
      have "bsearch g i j = bsearch g i ?m" using True t by (subst bsearch.simps) (simp add: Let_def)
      with 1(1) [OF True refl t m(1) 1(4) t] m show ?thesis by auto
    next
      case f: False
      have "bsearch g i j = bsearch g ?m j" using True f by (subst bsearch.simps) (simp add: Let_def)
      with 1(2) [OF True refl f m(2) _ 1(5)] f show ?thesis by auto
    qed
  next
    case False
    with 1(3) have "j = i + 1" by simp
    with 1 show ?thesis by (subst (1 2 3 4) bsearch.simps) simp
  qed
qed

lemma linear_search_border:
  assumes "0 < i" and "\<And>k. 0 < k \<Longrightarrow> k < i \<Longrightarrow> g k \<noteq> LNil" and "\<exists>k\<ge>i. k < i + n \<and> g k = LNil"
  shows "(linear_search g n i = 0 \<or> g (linear_search g n i) \<noteq> LNil) \<and> g (linear_search g n i + 1) = LNil"
  using assms
proof (induction n arbitrary: i)
  case (Suc n)
  show ?case
  proof (cases "g i = LNil")
    case True
    with Suc.prems(1) Suc.prems(2) [of "i - 1"] show ?thesis by (cases "i = 1") auto
  next
    case False
    have "g k \<noteq> LNil" if "0 < k" "k < i + 1" for k
      using that False Suc.prems(2) by (cases "k = i") auto
    moreover have "\<exists>k\<ge>i + 1. k < i + 1 + n \<and> g k = LNil"
    proof -
      obtain k where "k \<ge> i" "k < i + Suc n" "g k = LNil" using Suc.prems(3) by blast
      with False show ?thesis by (intro exI [of _ k]) (cases "k = i"; auto)
    qed
    ultimately show ?thesis using Suc.IH [of "i + 1"] False by simp
  qed
qed auto

lemma unbound_grow_border:
  assumes "i < j" and "i = 0 \<or> g i \<noteq> LNil" and "\<exists>k>0. k \<le> fuel \<and> g k = LNil"
  shows "(unbound_grow g fuel i j = 0 \<or> g (unbound_grow g fuel i j) \<noteq> LNil) \<and>
         g (unbound_grow g fuel i j + 1) = LNil"
  using assms
proof (induction g fuel i j rule: unbound_grow.induct)
  case (1 g fuel i j)
  have lin: "(linear_search g fuel 1 = 0 \<or> g (linear_search g fuel 1) \<noteq> LNil) \<and>
        g (linear_search g fuel 1 + 1) = LNil"
  proof (rule linear_search_border)
    obtain k where "k > 0" "k \<le> fuel" "g k = LNil" using 1(4) by blast
    then show "\<exists>k\<ge>1. k < 1 + fuel \<and> g k = LNil" by (intro exI [of _ k]) auto
  qed auto
  show ?case
  proof (cases "g j \<noteq> LNil \<and> j > 0")
    case True
    show ?thesis
    proof (cases "j * 2 > 2147483647")
      case big: True
      then have "unbound_grow g fuel i j = linear_search g fuel 1"
        using True by (subst unbound_grow.simps) (simp add: Let_def)
      with lin show ?thesis by simp
    next
      case False
      then have "unbound_grow g fuel i j = unbound_grow g fuel j (j * 2)"
        using True by (subst unbound_grow.simps) (simp add: Let_def)
      with 1(1) [OF True refl refl False _ _ 1(4)] True show ?thesis by auto
    qed
  next
    case False
    then have "unbound_grow g fuel i j = bsearch g i j" by (subst unbound_grow.simps) auto
    with False bsearch_border [of i j g, OF 1(2,3)] 1(2) show ?thesis by auto
  qed
qed

text \<open>A table has fewer keys than the fuel, so one of the numbers up to it is not a key.\<close>

lemma some_key_absent:
  "\<exists>k>0. k \<le> length (t_array t) + length (t_hash t) + 1 \<and> luaH_getnum t (int k) = LNil"
proof (rule ccontr)
  let ?n = "length (t_array t) + length (t_hash t) + 1"
  let ?K = "int ` {length (t_array t) + 1..?n}"
  assume "\<not> ?thesis"
  then have all: "luaH_getnum t (int k) \<noteq> LNil" if "0 < k" "k \<le> ?n" for k using that by blast
  have "?K \<subseteq> fst ` set (t_hash t)"
  proof
    fix x assume "x \<in> ?K"
    then obtain k where k: "x = int k" "length (t_array t) + 1 \<le> k" "k \<le> ?n" by auto
    with all [of k] have "map_of (t_hash t) x \<noteq> None"
      by (auto simp: luaH_getnum_def split: option.splits if_splits)
    then show "x \<in> fst ` set (t_hash t)" by (auto simp: map_of_eq_None_iff)
  qed
  then have "card ?K \<le> card (fst ` set (t_hash t))" by (intro card_mono) auto
  also have "\<dots> \<le> length (t_hash t)" by (metis card_length length_map set_map)
  finally show False by (simp add: card_image)
qed

lemma luaH_getn_border:
  "(luaH_getn t = 0 \<or> luaH_getnum t (int (luaH_getn t)) \<noteq> LNil) \<and>
   luaH_getnum t (int (luaH_getn t) + 1) = LNil"
proof -
  let ?j = "length (t_array t)"
  let ?g = "\<lambda>m. t_array t ! (m - 1)" and ?h = "\<lambda>k. luaH_getnum t (int k)"
  have arr: "luaH_getnum t (int m) = ?g m" if "0 < m" "m \<le> ?j" for m
  proof -
    have "nat (int m - 1) = m - 1" using that(1) by simp
    with that show ?thesis by (simp add: luaH_getnum_def)
  qed
  consider (array) "?j > 0" "t_array t ! (?j - 1) = LNil"
    | (full) "\<not> (?j > 0 \<and> t_array t ! (?j - 1) = LNil)" "t_hash t = []"
    | (hash) "\<not> (?j > 0 \<and> t_array t ! (?j - 1) = LNil)" "t_hash t \<noteq> []" by blast
  then show ?thesis
  proof cases
    case array
    have b: "luaH_getn t = bsearch ?g 0 ?j" using array by (simp add: luaH_getn_def Let_def)
    have B: "(bsearch ?g 0 ?j = 0 \<or> ?g (bsearch ?g 0 ?j) \<noteq> LNil) \<and> ?g (bsearch ?g 0 ?j + 1) = LNil \<and>
        bsearch ?g 0 ?j < ?j"
      by (rule bsearch_border) (use array in auto)
    have "luaH_getnum t (int (luaH_getn t + 1)) = LNil" using B b arr [of "luaH_getn t + 1"] by simp
    moreover have "luaH_getn t = 0 \<or> luaH_getnum t (int (luaH_getn t)) \<noteq> LNil"
      using B b arr [of "luaH_getn t"] by (cases "luaH_getn t = 0") auto
    ultimately show ?thesis by (simp add: add.commute)
  next
    case full
    then have "luaH_getn t = ?j" by (auto simp: luaH_getn_def Let_def)
    moreover have "luaH_getnum t (int ?j + 1) = LNil" using full(2) by (simp add: luaH_getnum_def)
    ultimately show ?thesis using full(1) arr [of ?j] by auto
  next
    case hash
    have e: "luaH_getn t = unbound_grow ?h (?j + length (t_hash t) + 1) ?j (?j + 1)"
      using hash by (auto simp: luaH_getn_def unbound_search_def Let_def)
    have "?j = 0 \<or> ?h ?j \<noteq> LNil" using hash(1) arr [of ?j] by auto
    from unbound_grow_border [of ?j "?j + 1" ?h, OF _ this some_key_absent] show ?thesis
      unfolding e by (simp add: add.commute)
  qed
qed

section \<open>References are never handed out twice\<close>

text \<open>The free references as a list: each slot holds the next one, the last nil or 0.\<close>

fun free_list :: "('t \<Rightarrow> int \<Rightarrow> lval) \<Rightarrow> 't \<Rightarrow> lval \<Rightarrow> int list \<Rightarrow> bool" where
  "free_list get t v [] \<longleftrightarrow> v = LNil \<or> v = LNumber 0"
| "free_list get t v (r # rs) \<longleftrightarrow> v = LNumber (of_int r) \<and> r > 0 \<and> free_list get t (get t r) rs"

text \<open>\<open>live\<close> maps the references in use to the values they stand for.\<close>

definition refs_ok :: "('t \<Rightarrow> int \<Rightarrow> lval) \<Rightarrow> 't \<Rightarrow> (int \<rightharpoonup> lval) \<Rightarrow> bool" where
  "refs_ok get t live \<longleftrightarrow>
     (\<exists>free. free_list get t (get t FREELIST_REF) free \<and> distinct free \<and> set free \<inter> dom live = {}) \<and>
     (\<forall>r v. live r = Some v \<longrightarrow> r > 0 \<and> v \<noteq> LNil \<and> get t r = v)"

text \<open>The states of the table that sequences of calls reach; \<open>sb_lua_db_close\<close> also releases the
  reference 0 and negative ones.\<close>

inductive ref_run ::
  "lua_conv \<Rightarrow> ('t \<Rightarrow> int \<Rightarrow> lval) \<Rightarrow> ('t \<Rightarrow> int \<Rightarrow> lval \<Rightarrow> 't) \<Rightarrow> ('t \<Rightarrow> nat) \<Rightarrow> 't \<Rightarrow> 't \<Rightarrow>
   (int \<rightharpoonup> lval) \<Rightarrow> bool"
  for cv :: lua_conv and get :: "'t \<Rightarrow> int \<Rightarrow> lval" and put :: "'t \<Rightarrow> int \<Rightarrow> lval \<Rightarrow> 't"
    and len :: "'t \<Rightarrow> nat" and t0 :: 't
where
  start: "ref_run cv get put len t0 t0 Map.empty"
| nil_ref: "ref_run cv get put len t0 t live \<Longrightarrow>
    ref_run cv get put len t0 (snd (luaL_ref cv get put len LNil t)) live"
| new_ref: "ref_run cv get put len t0 t live \<Longrightarrow> v \<noteq> LNil \<Longrightarrow> luaL_ref cv get put len v t = (r, t') \<Longrightarrow>
    ref_run cv get put len t0 t' (live(r \<mapsto> v))"
| unref: "ref_run cv get put len t0 t live \<Longrightarrow> r \<le> 0 \<or> r \<in> dom live \<Longrightarrow>
    ref_run cv get put len t0 (luaL_unref get put r t) (live(r := None))"

locale int_table =
  fixes get :: "'t \<Rightarrow> int \<Rightarrow> lval" and put :: "'t \<Rightarrow> int \<Rightarrow> lval \<Rightarrow> 't" and len :: "'t \<Rightarrow> nat"
  assumes get_put: "get (put t i v) j = (if j = i then v else get t j)"
    and len_border: "get t (int (len t) + 1) = LNil"
begin

lemma free_list_frame:
  "r \<notin> set rs \<Longrightarrow> free_list get (put t r x) v rs \<longleftrightarrow> free_list get t v rs"
  by (induction rs arbitrary: v) (auto simp: get_put)

lemma free_list_put_0 [simp]:
  "free_list get (put t FREELIST_REF x) v rs \<longleftrightarrow> free_list get t v rs"
  by (induction rs arbitrary: v) (auto simp: get_put FREELIST_REF_def)

lemma free_list_pos: "free_list get t v rs \<Longrightarrow> r \<in> set rs \<Longrightarrow> r > 0"
  by (induction rs arbitrary: v) auto

lemma luaL_ref_fresh:
  assumes ok: "refs_ok get t live" and v: "v \<noteq> LNil" and r: "luaL_ref cv get put len v t = (r, t')"
  shows "r \<notin> dom live \<and> refs_ok get t' (live(r \<mapsto> v))"
proof -
  from ok obtain free where f: "free_list get t (get t FREELIST_REF) free" "distinct free"
    "set free \<inter> dom live = {}" by (auto simp: refs_ok_def)
  have l: "live k = Some x \<Longrightarrow> k > 0 \<and> x \<noteq> LNil \<and> get t k = x" for k x
    using ok by (auto simp: refs_ok_def)
  show ?thesis
  proof (cases free)
    case Nil
    with f(1) have z: "lua_tointeger cv (get t FREELIST_REF) = 0"
      by (auto simp: lua_tointeger_def trunc_def)
    with r v have rt: "r = int (len t) + 1" "t' = put t r v" by (auto simp: luaL_ref_def Let_def)
    have new: "r \<notin> dom live" using l len_border [of t] rt(1) by fastforce
    have "free_list get t' (get t' FREELIST_REF) []"
      using f(1) Nil rt by (simp add: get_put FREELIST_REF_def)
    with new l v rt show ?thesis
      by (auto simp: refs_ok_def get_put intro!: exI [of _ "[] :: int list"])
  next
    case (Cons a rs)
    with f(1) have a: "get t FREELIST_REF = LNumber (of_int a)" "a > 0" "free_list get t (get t a) rs"
      by auto
    from a(1,2) r v have rt: "r = a" "t' = put (put t FREELIST_REF (get t a)) a v"
      by (auto simp: luaL_ref_def Let_def lua_tointeger_def)
    have "a \<notin> set rs" using f(2) Cons by simp
    then have "free_list get t' (get t' FREELIST_REF) rs"
      using a(2,3) rt(2) by (simp add: free_list_frame get_put FREELIST_REF_def)
        (simp add: free_list_put_0 [unfolded FREELIST_REF_def])
    moreover have "a \<notin> dom live" "set rs \<inter> dom live = {}" using f(3) Cons by auto
    ultimately show ?thesis
      using l v rt a(2) f(2) Cons unfolding refs_ok_def
      by (auto simp: get_put FREELIST_REF_def intro!: exI [of _ rs])
  qed
qed

lemma luaL_unref_keeps:
  assumes ok: "refs_ok get t live" and r: "r \<le> 0 \<or> r \<in> dom live"
  shows "refs_ok get (luaL_unref get put r t) (live(r := None))"
proof -
  from ok obtain free where f: "free_list get t (get t FREELIST_REF) free" "distinct free"
    "set free \<inter> dom live = {}" by (auto simp: refs_ok_def)
  have l: "live k = Some x \<Longrightarrow> k > 0 \<and> x \<noteq> LNil \<and> get t k = x" for k x
    using ok by (auto simp: refs_ok_def)
  let ?t = "luaL_unref get put r t"
  consider "r < 0" | "r = 0" | "r > 0" "r \<in> dom live" using r by linarith
  then show ?thesis
  proof cases
    case 1
    then have "live(r := None) = live" using l [of r] by (cases "live r") (auto simp: fun_upd_idem)
    with 1 ok show ?thesis by (simp add: luaL_unref_def)
  next
    case 2
    then have "?t = put (put t 0 (get t 0)) 0 (LNumber 0)" by (simp add: luaL_unref_def FREELIST_REF_def Let_def)
    moreover have "live(r := None) = live" using l [of r] 2 by (cases "live r") (auto simp: fun_upd_idem)
    ultimately show ?thesis
      using l by (fastforce simp: refs_ok_def get_put FREELIST_REF_def intro!: exI [of _ "[] :: int list"])
  next
    case 3
    have t: "?t = put (put t r (get t FREELIST_REF)) FREELIST_REF (LNumber (of_int r))"
      using 3 by (simp add: luaL_unref_def Let_def)
    have "r \<notin> set free" using 3 f(3) by auto
    then have "free_list get ?t (get ?t FREELIST_REF) (r # free)"
      using f(1) 3(1) by (simp add: t get_put free_list_frame FREELIST_REF_def)
        (simp add: free_list_put_0 [unfolded FREELIST_REF_def] free_list_frame)
    moreover have "distinct (r # free)" "set (r # free) \<inter> dom (live(r := None)) = {}"
      using f(2,3) \<open>r \<notin> set free\<close> by auto
    moreover have "k > 0 \<and> x \<noteq> LNil \<and> get ?t k = x" if "(live(r := None)) k = Some x" for k x
    proof -
      from that have "k \<noteq> r" "live k = Some x" by (auto split: if_splits)
      with l [of k x] show ?thesis by (simp add: t get_put FREELIST_REF_def)
    qed
    ultimately show ?thesis unfolding refs_ok_def by blast
  qed
qed

lemma ref_run_ok:
  assumes "ref_run cv get put len t0 t live" and "get t0 FREELIST_REF = LNil"
  shows "refs_ok get t live"
  using assms(1)
proof (induction rule: ref_run.induct)
  case start
  with assms(2) show ?case by (auto simp: refs_ok_def intro!: exI [of _ "[] :: int list"])
next
  case (nil_ref t live)
  then show ?case by (simp add: luaL_ref_def)
next
  case (new_ref t live v r t')
  from luaL_ref_fresh [OF new_ref.IH new_ref.hyps(2,3)] show ?case by blast
next
  case (unref t live r)
  from luaL_unref_keeps [OF unref.IH unref.hyps(2)] show ?case .
qed

lemma live_refs_kept:
  assumes "ref_run cv get put len t0 t live" and "get t0 FREELIST_REF = LNil"
    and "v \<noteq> LNil" and "luaL_ref cv get put len v t = (r, t')"
  shows "r \<notin> dom live \<and> get t' r = v \<and> (\<forall>k u. live k = Some u \<longrightarrow> get t' k = u)"
proof -
  from luaL_ref_fresh [OF ref_run_ok [OF assms(1,2)] assms(3,4)]
  have r: "r \<notin> dom live" and ok: "refs_ok get t' (live(r \<mapsto> v))" by blast+
  from ok have get: "(live(r \<mapsto> v)) k = Some u \<Longrightarrow> get t' k = u" for k u unfolding refs_ok_def by blast
  have "get t' k = u" if "live k = Some u" for k u using that r get [of k u] by (cases "k = r") auto
  with r get [of r v] show ?thesis by simp
qed

end

lemma map_of_filter_key: "map_of (filter (\<lambda>e. fst e \<noteq> k) xs) j = (if j = k then None else map_of xs j)"
  by (induction xs) auto

interpretation reg: int_table luaH_getnum luaH_setnum luaH_getn
proof unfold_locales
  fix t i v j
  show "luaH_getnum (luaH_setnum t i v) j = (if j = i then v else luaH_getnum t j)"
    by (auto simp: luaH_getnum_def luaH_setnum_def map_of_filter_key nth_list_update nat_eq_iff
        split: option.splits)
next
  fix t show "luaH_getnum t (int (luaH_getn t) + 1) = LNil" using luaH_getn_border [of t] by simp
qed

text \<open>C20: The references of the registry are safe: whatever sequence of \<open>luaL_ref\<close> and \<open>luaL_unref\<close> the
  scripting layer makes (it also releases the reference 0 of statements without results, which is the
  head of the free list), a new reference is never one that is still in use, it stands for the value
  it was made for, and every reference in use still stands for its value.\<close>

theorem registry_references_safe:
  assumes "ref_run cv luaH_getnum luaH_setnum luaH_getn t0 t live"
    and "luaH_getnum t0 FREELIST_REF = LNil"
    and "v \<noteq> LNil" and "luaL_ref cv luaH_getnum luaH_setnum luaH_getn v t = (r, t')"
  shows "r \<notin> dom live \<and> luaH_getnum t' r = v \<and> (\<forall>k u. live k = Some u \<longrightarrow> luaH_getnum t' k = u)"
  using assms by (rule reg.live_refs_kept)

text \<open>Two references, the first and the head of the free list released, then a third one.\<close>

definition demo_conv :: lua_conv where
  "demo_conv = \<lparr>str2d = (\<lambda>_. None), num2str = (\<lambda>_. ''0'')\<rparr>"

theorem registry_references_safe_witness:
  "\<exists>r t'. luaL_ref demo_conv luaH_getnum luaH_setnum luaH_getn (LTable 8)
            \<lparr>t_array = [], t_hash = [(1, LTable 7)]\<rparr> = (r, t') \<and>
          r \<noteq> 1 \<and> luaH_getnum t' r = LTable 8 \<and> luaH_getnum t' 1 = LTable 7"
proof -
  let ?t0 = "\<lparr>t_array = [], t_hash = []\<rparr>" and ?t1 = "\<lparr>t_array = [], t_hash = [(1, LTable 7)]\<rparr>"
  have "luaL_ref demo_conv luaH_getnum luaH_setnum luaH_getn (LTable 7) ?t0 = (1, ?t1)"
    by (simp add: luaL_ref_def lua_tointeger_def luaH_getnum_def luaH_getn_def luaH_setnum_def)
  with ref_run.new_ref [OF ref_run.start, of "LTable 7"]
  have "ref_run demo_conv luaH_getnum luaH_setnum luaH_getn ?t0 ?t1 [1 \<mapsto> LTable 7]" by simp
  moreover have "luaH_getnum ?t0 FREELIST_REF = LNil" by (simp add: luaH_getnum_def FREELIST_REF_def)
  moreover obtain r t' where r: "luaL_ref demo_conv luaH_getnum luaH_setnum luaH_getn (LTable 8) ?t1 = (r, t')"
    by fastforce
  ultimately have "r \<notin> dom [1 \<mapsto> LTable 7] \<and> luaH_getnum t' r = LTable 8 \<and>
      (\<forall>k u. [1 \<mapsto> LTable 7] k = Some u \<longrightarrow> luaH_getnum t' k = u)"
    by (intro registry_references_safe [OF _ _ _ r]) simp_all
  with r show ?thesis by (auto intro!: exI [of _ r] exI [of _ t'])
qed

end
