(* ===== verification/Script_Lua.thy ===== *)
theory Script_Lua
  imports Lua_API Sysbench_Run DB_Driver
begin

text \<open>
  The scripting layer \<open>sysbench/scripting/script_lua.c\<close>: the functions that scripts call and the test
  whose operations run the functions of a script. Each interpreter has its globals, tables, full
  userdata and registry; the statements of a script live in its userdata. The arrays of parameters,
  their buffers and the pointers that a driver keeps to them after \<open>db_bind_param\<close> are explicit, because
  the driver reads the buffers when the statement is executed. A function that a script calls gives
  a result, raises an error (\<open>Inl\<close>), or has undefined behaviour (\<^const>\<open>None\<close>). A script is a tree of
  calls (\<open>lua_prog\<close>); metatables, coroutines and loops of a script that never end are not modelled.
\<close>

section \<open>Data\<close>

record sb_lua_bind =
  lb_id :: int
  lb_type :: db_bind_type
  lb_buf :: "nat option"
  lb_buflen :: nat
  lb_is_null :: bool

definition zero_bind :: sb_lua_bind where
  "zero_bind = \<lparr>lb_id = 0, lb_type = DB_TYPE_NONE, lb_buf = None, lb_buflen = 0, lb_is_null = False\<rparr>"

text \<open>A \<open>db_bind_t\<close> with its pointers: a buffer by its address, \<open>data_len\<close> and \<open>is_null\<close> as a position
  in an array of parameters.\<close>

record bind_ptr =
  bp_type :: db_bind_type
  bp_buffer :: "nat option"
  bp_data_len :: "(nat \<times> nat) option"
  bp_is_null :: "(nat \<times> nat) option"

text \<open>A buffer of one \<open>int\<close>, not initialised at first, or of characters.\<close>

datatype cbuf = IntBuf "int option" | CharBuf string

record lua_mem =
  m_arrays :: "nat \<rightharpoonup> sb_lua_bind list"
  m_bufs :: "nat \<rightharpoonup> cbuf"
  m_next :: nat

text \<open>\<open>sb_lua_db_stmt_t\<close>. \<open>ls_ptr\<close> is \<^const>\<open>None\<close> once the statement has been freed, \<open>ls_con\<close> the number
  of its connection and \<open>ls_bound\<close> what the driver keeps of the last successful \<open>db_bind_param\<close>.\<close>

record sb_lua_db_stmt =
  ls_ptr :: "db_stmt option"
  ls_con :: nat
  ls_bound :: "bind_ptr list option"
  ls_params :: "nat option"
  ls_nparams :: nat
  ls_results :: "nat option"
  ls_nresults :: nat
  ls_param_ref :: int
  ls_result_ref :: int
  ls_rs :: "nat option"

text \<open>Full userdata by its metatable; a result set is the number of its connection or NULL.\<close>

datatype udata = UStmt sb_lua_db_stmt | URs "nat option"

record 'w sb_lua_ctxt =
  cx_thread_id :: int
  cx_con :: "(nat \<times> 'w db_conn) option"

text \<open>What all interpreters share: the driver, the control variable of \<open>pthread_once\<close>, the database
  layer, the random numbers and the number of connections made so far.\<close>

record 'w lua_shared =
  sl_driver :: "'w db_driver option"
  sl_once :: bool
  sl_sys :: "'w db_sys"
  sl_rng :: rnd_state
  sl_serial :: nat

record 'w lua_state =
  l_globals :: "string \<Rightarrow> lval"
  l_tables :: "nat \<rightharpoonup> (lval \<times> lval) list"
  l_registry :: itable
  l_udata :: "nat \<rightharpoonup> udata"
  l_next :: nat
  l_mem :: lua_mem
  l_ctxt :: "'w sb_lua_ctxt option"
  l_sh :: "'w lua_shared"

text \<open>What does not change during a run. \<open>le_junk\<close> is the contents of fresh memory, \<open>le_scan\<close>
  the conversion \<open>%f\<close> of \<open>sscanf\<close>; the other fields are the arguments of \<^const>\<open>db_init\<close>.\<close>

record 'w lua_env =
  le_conv :: lua_conv
  le_alloc :: bool
  le_junk :: int
  le_mem :: "db_thread_stat list"
  le_timers :: "sb_timer list"
  le_now :: timespec
  le_opts :: options
  le_scan :: "string \<Rightarrow> real option"
  le_drivers :: "'w db_driver list"

section \<open>Effects\<close>

type_synonym ('w, 'a) lua_m = "'w lua_state \<Rightarrow> ((lua_err + 'a) \<times> 'w lua_state) option"

definition lua_return :: "'a \<Rightarrow> ('w, 'a) lua_m" where
  "lua_return x s = Some (Inr x, s)"

definition lua_throw :: "lua_err \<Rightarrow> ('w, 'a) lua_m" where
  "lua_throw e s = Some (Inl e, s)"

definition lua_undef :: "('w, 'a) lua_m" where
  "lua_undef s = None"

definition lua_bind :: "('w, 'a) lua_m \<Rightarrow> ('a \<Rightarrow> ('w, 'b) lua_m) \<Rightarrow> ('w, 'b) lua_m" where
  "lua_bind m f s =
     (case m s of
        None \<Rightarrow> None
      | Some (Inl e, s') \<Rightarrow> Some (Inl e, s')
      | Some (Inr x, s') \<Rightarrow> f x s')"

definition lua_get :: "('w lua_state \<Rightarrow> 'a) \<Rightarrow> ('w, 'a) lua_m" where
  "lua_get f s = Some (Inr (f s), s)"

definition lua_modify :: "('w lua_state \<Rightarrow> 'w lua_state) \<Rightarrow> ('w, unit) lua_m" where
  "lua_modify f s = Some (Inr (), f s)"

definition lua_check :: "lua_err + 'a \<Rightarrow> ('w, 'a) lua_m" where
  "lua_check r = (case r of Inl e \<Rightarrow> lua_throw e | Inr x \<Rightarrow> lua_return x)"

definition lua_some :: "'a option \<Rightarrow> ('w, 'a) lua_m" where
  "lua_some r = (case r of None \<Rightarrow> lua_undef | Some x \<Rightarrow> lua_return x)"

text \<open>Sequencing without a result, and a test that raises an error.\<close>

abbreviation lua_then :: "('w, 'a) lua_m \<Rightarrow> ('w, 'b) lua_m \<Rightarrow> ('w, 'b) lua_m" where
  "lua_then m n \<equiv> lua_bind m (\<lambda>_. n)"

definition lua_assert :: "bool \<Rightarrow> lua_err \<Rightarrow> ('w, unit) lua_m" where
  "lua_assert b e = (if b then lua_return () else lua_throw e)"

lemmas lua_m_defs = lua_return_def lua_throw_def lua_undef_def lua_bind_def lua_get_def lua_modify_def
  lua_check_def lua_some_def lua_assert_def

lemma lua_bind_return [simp]: "lua_bind (lua_return x) f = f x"
  by (simp add: lua_m_defs fun_eq_iff)

lemma lua_bind_throw [simp]: "lua_bind (lua_throw e) f = lua_throw e"
  by (simp add: lua_m_defs fun_eq_iff)

lemma lua_bind_undef [simp]: "lua_bind lua_undef f = lua_undef"
  by (simp add: lua_m_defs fun_eq_iff)

lemma lua_bind_assoc: "lua_bind (lua_bind m f) g = lua_bind m (\<lambda>x. lua_bind (f x) g)"
  by (auto simp: lua_m_defs fun_eq_iff split: option.splits sum.splits)

section \<open>Context and connections\<close>

definition sb_lua_get_context :: "('w, 'w sb_lua_ctxt) lua_m" where
  "sb_lua_get_context =
     lua_bind (lua_get l_ctxt) (\<lambda>c. case c of
        None \<Rightarrow> lua_throw (LuaMsg (''Attempt to access database driver before it is initialized. '' @
                                    ''Check your script for syntax errors''))
      | Some ctxt \<Rightarrow> lua_return ctxt)"

definition sb_lua_set_context :: "'w sb_lua_ctxt \<Rightarrow> ('w, unit) lua_m" where
  "sb_lua_set_context ctxt = lua_modify (\<lambda>s. s\<lparr>l_ctxt := Some ctxt\<rparr>)"

definition set_con :: "(nat \<times> 'w db_conn) option \<Rightarrow> ('w, unit) lua_m" where
  "set_con c = lua_modify (\<lambda>s. s\<lparr>l_ctxt := map_option (\<lambda>x. x\<lparr>cx_con := c\<rparr>) (l_ctxt s)\<rparr>)"

definition set_sys :: "'w db_sys \<Rightarrow> ('w, unit) lua_m" where
  "set_sys y = lua_modify (\<lambda>s. s\<lparr>l_sh := (l_sh s)\<lparr>sl_sys := y\<rparr>\<rparr>)"

text \<open>The stack of a function after \<^const>\<open>sb_lua_get_context\<close>, which leaves the context on it.\<close>

definition ctxt_stack :: "lval list \<Rightarrow> lval list" where
  "ctxt_stack args = args @ [LLightUserdata]"

definition sb_lua_db_init_once :: "'w lua_env \<Rightarrow> 'w lua_shared \<Rightarrow> 'w lua_shared option" where
  "sb_lua_db_init_once E sh =
     (if sl_driver sh \<noteq> None then Some sh
      else case db_init (le_alloc E) (le_mem E) (le_timers E) (le_now E) (le_opts E)
                  (le_drivers E) None (sl_sys sh) of
        None \<Rightarrow> None
      | Some (Inl _, y) \<Rightarrow> Some (sh\<lparr>sl_sys := y\<rparr>)
      | Some (Inr (drv, _), y) \<Rightarrow> Some (sh\<lparr>sl_driver := Some drv, sl_sys := y\<rparr>))"

definition db_once :: "'w lua_env \<Rightarrow> ('w, unit) lua_m" where
  "db_once E =
     lua_bind (lua_get l_sh) (\<lambda>sh.
       if sl_once sh then lua_return ()
       else lua_bind (lua_some (sb_lua_db_init_once E sh))
              (\<lambda>sh. lua_modify (\<lambda>s. s\<lparr>l_sh := sh\<lparr>sl_once := True\<rparr>\<rparr>)))"

text \<open>The part of \<open>sb_lua_db_connect\<close> after the driver has been chosen.\<close>

definition connect_with :: "'w lua_env \<Rightarrow> int \<Rightarrow> 'w lua_shared \<Rightarrow> 'w db_driver \<Rightarrow> ('w, unit) lua_m" where
  "connect_with E tid sh drv =
     lua_then (lua_modify (\<lambda>s. s\<lparr>l_globals := (l_globals s)(''db_driver'' := LString (sname drv))\<rparr>))
     (let (con, y) = db_connect (le_alloc E) drv (sl_sys sh) in
      lua_then (set_sys y)
      (case con of
         None \<Rightarrow> lua_then (set_con None) (lua_throw (LuaMsg ''Failed to connect to the database''))
       | Some c \<Rightarrow>
           lua_then (lua_modify (\<lambda>s. s\<lparr>l_sh := (l_sh s)\<lparr>sl_serial := sl_serial (l_sh s) + 1\<rparr>\<rparr>))
             (set_con (Some (sl_serial sh, db_set_thread c tid)))))"

definition sb_lua_db_connect :: "'w lua_env \<Rightarrow> ('w, unit) lua_m" where
  "sb_lua_db_connect E =
     lua_bind sb_lua_get_context (\<lambda>ctxt.
     lua_then (db_once E)
     (lua_bind (lua_get l_sh) (\<lambda>sh.
      case sl_driver sh of
        None \<Rightarrow> lua_throw (LuaMsg ''DB initialization failed'')
      | Some drv \<Rightarrow> connect_with E (cx_thread_id ctxt) sh drv)))"

definition sb_lua_db_disconnect :: "('w, unit) lua_m" where
  "sb_lua_db_disconnect =
     lua_bind sb_lua_get_context (\<lambda>ctxt.
     lua_then
       (case cx_con ctxt of
          None \<Rightarrow> lua_return ()
        | Some (_, con) \<Rightarrow> lua_bind (lua_get l_sh) (\<lambda>sh. set_sys (snd (db_disconnect con (sl_sys sh)))))
       (set_con None))"

text \<open>The connection of the context, made when there is none yet, and \<open>CHECK_CONNECTION\<close>.\<close>

definition the_con :: "('w, nat \<times> 'w db_conn) lua_m" where
  "the_con = lua_bind sb_lua_get_context (\<lambda>ctxt. lua_some (cx_con ctxt))"

definition ensure_con :: "'w lua_env \<Rightarrow> ('w, nat \<times> 'w db_conn) lua_m" where
  "ensure_con E =
     lua_bind sb_lua_get_context (\<lambda>ctxt.
     lua_then (if cx_con ctxt = None then sb_lua_db_connect E else lua_return ()) the_con)"

definition CHECK_CONNECTION :: "('w, nat \<times> 'w db_conn) lua_m" where
  "CHECK_CONNECTION =
     lua_bind sb_lua_get_context (\<lambda>ctxt.
       case cx_con ctxt of
         None \<Rightarrow> lua_throw (LuaMsg ''Uninitialized database connection'')
       | Some c \<Rightarrow> lua_return c)"

text \<open>\<open>luaL_checkstring\<close>: the text as C functions see it, up to the first NUL.\<close>

definition check_cstring :: "'w lua_env \<Rightarrow> lval list \<Rightarrow> nat \<Rightarrow> ('w, string) lua_m" where
  "check_cstring E stk i =
     lua_bind (lua_check (luaL_checklstring (le_conv E) (index2adr stk i))) (\<lambda>t. lua_return (c_str t))"

fun errno_num :: "db_error \<Rightarrow> real" where
  "errno_num SB_DB_ERROR_NONE = 0"
| "errno_num SB_DB_ERROR_RESTART_TRANSACTION = 1"
| "errno_num SB_DB_ERROR_RECONNECTED = 2"
| "errno_num SB_DB_ERROR_FAILED = 3"

section \<open>Queries and bulk inserts\<close>

text \<open>\<open>db_query\<close> on the connection of the context; the result tells whether a result set was returned.\<close>

definition con_query :: "string \<Rightarrow> ('w, bool) lua_m" where
  "con_query query =
     lua_bind the_con (\<lambda>(n, con).
     lua_bind (lua_get l_sh) (\<lambda>sh.
     lua_bind (lua_some (db_query con query (sl_sys sh))) (\<lambda>(ok, con, y).
     lua_then (set_sys y) (lua_then (set_con (Some (n, con))) (lua_return ok)))))"

definition throw_errno :: "('w, 'a) lua_m" where
  "throw_errno = lua_bind the_con (\<lambda>(n, con). lua_throw (LuaVal (LNumber (errno_num (db_errno con)))))"

text \<open>\<open>db_store_results\<close> and \<open>db_free_results\<close> of the connection's result set.\<close>

definition con_store :: "('w, unit) lua_m" where
  "con_store =
     lua_bind the_con (\<lambda>(n, con).
     lua_bind (lua_get l_sh) (\<lambda>sh.
     let (_, con, y) = db_store_results con (sl_sys sh) in
     lua_then (set_sys y) (set_con (Some (n, con)))))"

definition con_free :: "('w, unit) lua_m" where
  "con_free =
     lua_bind the_con (\<lambda>(n, con).
     lua_bind (lua_get l_sh) (\<lambda>sh.
     lua_bind (lua_some (db_free_results con (sl_sys sh))) (\<lambda>(_, con, y).
     lua_then (set_sys y) (set_con (Some (n, con))))))"

definition sb_lua_db_query :: "'w lua_env \<Rightarrow> lval list \<Rightarrow> ('w, lval list) lua_m" where
  "sb_lua_db_query E args =
     lua_then (ensure_con E)
     (lua_bind (check_cstring E (ctxt_stack args) 1) (\<lambda>query.
      lua_bind (con_query query) (\<lambda>ok.
      if \<not> ok then throw_errno else lua_then con_store (lua_then con_free (lua_return [])))))"

fun query_attempts :: "nat \<Rightarrow> string \<Rightarrow> ('w, bool) lua_m" where
  "query_attempts 0 query = lua_return False"
| "query_attempts (Suc n) query =
     lua_bind (con_query query) (\<lambda>ok. if ok then lua_return True else query_attempts n query)"

definition sb_lua_db_query_retry :: "'w lua_env \<Rightarrow> lval list \<Rightarrow> ('w, lval list) lua_m" where
  "sb_lua_db_query_retry E args =
     lua_then (ensure_con E)
     (lua_bind (check_cstring E (ctxt_stack args) 1) (\<lambda>query.
      lua_bind (query_attempts 5 query) (\<lambda>ok.
      if \<not> ok then throw_errno else lua_then con_store (lua_then con_free (lua_return [])))))"

definition sb_lua_db_bulk_insert_init :: "'w lua_env \<Rightarrow> lval list \<Rightarrow> ('w, lval list) lua_m" where
  "sb_lua_db_bulk_insert_init E args =
     lua_bind (ensure_con E) (\<lambda>(n, con).
     lua_bind (check_cstring E (ctxt_stack args) 1) (\<lambda>query.
     lua_bind (lua_get l_sh) (\<lambda>sh.
     let (rc, con, y) = db_bulk_insert_init (le_alloc E) con query (sl_sys sh) in
     lua_then (set_sys y) (lua_then (set_con (Some (n, con)))
     (if rc \<noteq> 0 then lua_throw (LuaMsg ''db_bulk_insert_init() failed'') else lua_return [])))))"

definition sb_lua_db_bulk_insert_next :: "'w lua_env \<Rightarrow> lval list \<Rightarrow> ('w, lval list) lua_m" where
  "sb_lua_db_bulk_insert_next E args =
     lua_bind CHECK_CONNECTION (\<lambda>(n, con).
     lua_bind (check_cstring E (ctxt_stack args) 1) (\<lambda>query.
     lua_bind (lua_get l_sh) (\<lambda>sh.
     lua_bind (lua_some (db_bulk_insert_next con query (sl_sys sh))) (\<lambda>(rc, con, y).
     lua_then (set_sys y) (lua_then (set_con (Some (n, con)))
     (if rc \<noteq> 0 then lua_throw (LuaMsg ''db_bulk_insert_next() failed'') else lua_return []))))))"

definition sb_lua_db_bulk_insert_done :: "('w, lval list) lua_m" where
  "sb_lua_db_bulk_insert_done =
     lua_bind CHECK_CONNECTION (\<lambda>(n, con).
     lua_bind (lua_get l_sh) (\<lambda>sh.
     lua_bind (lua_some (db_bulk_insert_done con (sl_sys sh))) (\<lambda>(con, y).
     lua_then (set_sys y) (lua_then (set_con (Some (n, con))) (lua_return [])))))"

section \<open>Statements\<close>

definition new_udata :: "udata \<Rightarrow> ('w, nat) lua_m" where
  "new_udata u =
     lua_bind (lua_get l_next) (\<lambda>i.
     lua_then (lua_modify (\<lambda>s. s\<lparr>l_udata := (l_udata s)(i \<mapsto> u), l_next := i + 1\<rparr>)) (lua_return i))"

definition set_stmt :: "nat \<Rightarrow> sb_lua_db_stmt \<Rightarrow> ('w, unit) lua_m" where
  "set_stmt u st = lua_modify (\<lambda>s. s\<lparr>l_udata := (l_udata s)(u \<mapsto> UStmt st)\<rparr>)"

definition zero_lua_stmt :: sb_lua_db_stmt where
  "zero_lua_stmt = \<lparr>ls_ptr = None, ls_con = 0, ls_bound = None, ls_params = None, ls_nparams = 0,
     ls_results = None, ls_nresults = 0, ls_param_ref = 0, ls_result_ref = 0, ls_rs = None\<rparr>"

definition sb_lua_db_prepare :: "'w lua_env \<Rightarrow> lval list \<Rightarrow> ('w, lval list) lua_m" where
  "sb_lua_db_prepare E args =
     lua_bind (ensure_con E) (\<lambda>(n, con).
     lua_bind (check_cstring E (ctxt_stack args) 1) (\<lambda>query.
     lua_bind (new_udata (UStmt zero_lua_stmt)) (\<lambda>u.
     lua_bind (lua_get l_sh) (\<lambda>sh.
     lua_bind (lua_some (db_prepare (le_alloc E) con query (sl_sys sh))) (\<lambda>(st, y).
     lua_then (set_sys y)
     (case st of
        None \<Rightarrow> lua_throw (LuaMsg ''db_prepare() failed'')
      | Some p \<Rightarrow>
          lua_then (set_stmt u (zero_lua_stmt\<lparr>ls_ptr := Some p, ls_con := n, ls_param_ref := LUA_REFNIL\<rparr>))
            (lua_return [LUserdata u])))))))"

text \<open>\<open>luaL_checkudata\<close> for the two metatables.\<close>

definition check_stmt :: "lval option \<Rightarrow> ('w, nat \<times> sb_lua_db_stmt) lua_m" where
  "check_stmt v =
     lua_bind (lua_get l_udata) (\<lambda>ud.
       case v of
         Some (LUserdata u) \<Rightarrow>
           (case ud u of
              Some (UStmt st) \<Rightarrow> lua_return (u, st)
            | _ \<Rightarrow> lua_throw (luaL_typerror v ''sysbench.stmt''))
       | _ \<Rightarrow> lua_throw (luaL_typerror v ''sysbench.stmt''))"

definition check_rs :: "lval option \<Rightarrow> ('w, nat \<times> nat option) lua_m" where
  "check_rs v =
     lua_bind (lua_get l_udata) (\<lambda>ud.
       case v of
         Some (LUserdata u) \<Rightarrow>
           (case ud u of
              Some (URs r) \<Rightarrow> lua_return (u, r)
            | _ \<Rightarrow> lua_throw (luaL_typerror v ''sysbench.rs''))
       | _ \<Rightarrow> lua_throw (luaL_typerror v ''sysbench.rs''))"

definition check_table :: "lval option \<Rightarrow> ('w, (lval \<times> lval) list) lua_m" where
  "check_table v =
     lua_bind (lua_get l_tables) (\<lambda>tabs.
       case v of
         Some (LTable t) \<Rightarrow> lua_some (tabs t)
       | _ \<Rightarrow> lua_throw (LuaMsg ''table was expected''))"

text \<open>\<open>sb_lua_table_size\<close>: the number of steps of \<open>lua_next\<close>.\<close>

definition sb_lua_table_size :: "(lval \<times> lval) list \<Rightarrow> nat" where
  "sb_lua_table_size entries = length entries"

subsection \<open>Memory\<close>

definition mem_alloc :: "cbuf \<Rightarrow> lua_mem \<Rightarrow> nat \<times> lua_mem" where
  "mem_alloc b m = (m_next m, m\<lparr>m_bufs := (m_bufs m)(m_next m \<mapsto> b), m_next := m_next m + 1\<rparr>)"

definition array_alloc :: "sb_lua_bind list \<Rightarrow> lua_mem \<Rightarrow> nat \<times> lua_mem" where
  "array_alloc a m = (m_next m, m\<lparr>m_arrays := (m_arrays m)(m_next m \<mapsto> a), m_next := m_next m + 1\<rparr>)"

definition param_at :: "lua_mem \<Rightarrow> nat option \<Rightarrow> nat \<Rightarrow> sb_lua_bind option" where
  "param_at m pa i =
     (case Option.bind pa (m_arrays m) of
        None \<Rightarrow> None
      | Some ps \<Rightarrow> (if i < length ps then Some (ps ! i) else None))"

definition put_param :: "lua_mem \<Rightarrow> nat option \<Rightarrow> nat \<Rightarrow> sb_lua_bind \<Rightarrow> lua_mem" where
  "put_param m pa i p =
     (case pa of
        None \<Rightarrow> m
      | Some a \<Rightarrow> m\<lparr>m_arrays := (m_arrays m)(a := map_option (\<lambda>ps. ps[i := p]) (m_arrays m a))\<rparr>)"

definition set_mem :: "lua_mem \<Rightarrow> ('w, unit) lua_m" where
  "set_mem m = lua_modify (\<lambda>s. s\<lparr>l_mem := m\<rparr>)"

text \<open>What a driver finds through the pointers. When the values are bound, the contents of the buffers
  do not matter; when an emulated statement is executed, \<open>db_print_value\<close> reads the buffer of every
  value that is not NULL, texts up to their NUL.\<close>

definition deref_param :: "lua_mem \<Rightarrow> (nat \<times> nat) option \<Rightarrow> sb_lua_bind option" where
  "deref_param m p = (case p of None \<Rightarrow> None | Some (a, i) \<Rightarrow> param_at m (Some a) i)"

definition deref_null :: "lua_mem \<Rightarrow> bind_ptr \<Rightarrow> bool option" where
  "deref_null m b = map_option lb_is_null (deref_param m (bp_is_null b))"

fun buf_data :: "int \<Rightarrow> cbuf option \<Rightarrow> bind_data" where
  "buf_data junk (Some (IntBuf (Some i))) = IntData i"
| "buf_data junk (Some (CharBuf t)) = StringData t"
| "buf_data junk _ = IntData junk"

definition bound_view :: "int \<Rightarrow> lua_mem \<Rightarrow> bind_ptr \<Rightarrow> db_bind" where
  "bound_view junk m b =
     \<lparr>b_type = bp_type b, b_buffer = buf_data junk (Option.bind (bp_buffer b) (m_bufs m)),
      b_data_len = map_option (\<lambda>p. of_nat (lb_buflen p)) (deref_param m (bp_data_len b)), b_max_len = 0,
      b_is_null = deref_null m b\<rparr>"

definition readable :: "lua_mem \<Rightarrow> bind_ptr \<Rightarrow> bool" where
  "readable m b \<longleftrightarrow>
     deref_null m b = Some True \<or>
     (case Option.bind (bp_buffer b) (m_bufs m) of
        None \<Rightarrow> False
      | Some (IntBuf _) \<Rightarrow> True
      | Some (CharBuf t) \<Rightarrow> CHR 0x00 \<in> set t)"

definition exec_view :: "int \<Rightarrow> lua_mem \<Rightarrow> bind_ptr \<Rightarrow> db_bind" where
  "exec_view junk m b =
     (let v = bound_view junk m b
      in v\<lparr>b_buffer := (case b_buffer v of StringData t \<Rightarrow> StringData (c_str t) | d \<Rightarrow> d)\<rparr>)"

subsection \<open>Binding of parameters and results\<close>

text \<open>One step of the loop of \<open>sb_lua_db_bind_param\<close> (\<open>res = False\<close>) and \<open>sb_lua_db_bind_result\<close>: the
  parameter, the entry of \<open>binds\<close> and whether the values must be bound again.\<close>

definition bind_entry ::
  "'w lua_env \<Rightarrow> bool \<Rightarrow> nat \<Rightarrow> nat \<Rightarrow> lval \<times> lval \<Rightarrow> ('w, bind_ptr \<times> bool) lua_m" where
  "bind_entry E res pa i = (\<lambda>(key, v).
     let check_key = lua_bind (lua_check (luaL_checknumber (le_conv E) (Some key)))
                       (\<lambda>x. lua_some (double_to_int x));
         store = (\<lambda>p. lua_bind (lua_get l_mem) (\<lambda>m. set_mem (put_param m (Some pa) i p)));
         b = \<lparr>bp_type = DB_TYPE_NONE, bp_buffer = None, bp_data_len = None, bp_is_null = Some (pa, i)\<rparr>
     in case v of
          LNumber _ \<Rightarrow>
            lua_bind (lua_get l_mem) (\<lambda>m.
            let (a, m) = mem_alloc (IntBuf None) m; type = (if res then DB_TYPE_BIGINT else DB_TYPE_INT) in
            lua_then (set_mem (put_param m (Some pa) i (zero_bind\<lparr>lb_buf := Some a\<rparr>)))
            (lua_bind check_key (\<lambda>id.
             lua_then (store (zero_bind\<lparr>lb_buf := Some a, lb_id := id, lb_type := type\<rparr>))
             (lua_return (b\<lparr>bp_type := type, bp_buffer := Some a\<rparr>, False)))))
        | LString _ \<Rightarrow>
            lua_bind check_key (\<lambda>id.
            lua_then (store (zero_bind\<lparr>lb_id := id, lb_type := DB_TYPE_CHAR\<rparr>))
            (lua_return (b\<lparr>bp_type := DB_TYPE_CHAR\<rparr>, True)))
        | _ \<Rightarrow> lua_throw (LuaVal (LString (''Unsupported variable type: '' @ lua_typename v))))"

fun bind_entries ::
  "'w lua_env \<Rightarrow> bool \<Rightarrow> nat \<Rightarrow> nat \<Rightarrow> (lval \<times> lval) list \<Rightarrow> ('w, bind_ptr list \<times> bool) lua_m" where
  "bind_entries E res pa i [] = lua_return ([], False)"
| "bind_entries E res pa i (e # es) =
     lua_bind (bind_entry E res pa i e) (\<lambda>(b, r).
     lua_bind (bind_entries E res pa (i + 1) es) (\<lambda>(bs, rs). lua_return (b # bs, r \<or> rs)))"

text \<open>The connection of a statement; \<^const>\<open>None\<close> when it is not the current one, because the old
  connection has been freed, or when the statement has been closed.\<close>

definition stmt_con :: "sb_lua_db_stmt \<Rightarrow> nat \<times> 'w db_conn \<Rightarrow> (db_stmt \<times> 'w db_conn) option" where
  "stmt_con st c =
     (case ls_ptr st of None \<Rightarrow> None | Some p \<Rightarrow> (if ls_con st = fst c then Some (p, snd c) else None))"

text \<open>\<open>db_bind_param\<close>; the driver keeps the pointers when it succeeds.\<close>

definition stmt_bind_param ::
  "'w lua_env \<Rightarrow> nat \<Rightarrow> sb_lua_db_stmt \<Rightarrow> bind_ptr list \<Rightarrow> ('w, int \<times> sb_lua_db_stmt) lua_m" where
  "stmt_bind_param E u st binds =
     lua_bind the_con (\<lambda>c.
     lua_bind (lua_some (stmt_con st c)) (\<lambda>(p, con).
     lua_bind (lua_get l_sh) (\<lambda>sh.
     lua_bind (lua_get l_mem) (\<lambda>m.
     let (rc, p, y) = db_bind_param (Some con) p (map (bound_view (le_junk E) m) binds) (sl_sys sh);
         st = st\<lparr>ls_ptr := Some p, ls_bound := (if rc = 0 then Some binds else ls_bound st)\<rparr>
     in lua_then (set_sys y) (lua_then (set_stmt u st) (lua_return (rc, st)))))))"

definition new_ref :: "'w lua_env \<Rightarrow> lval \<Rightarrow> ('w, int) lua_m" where
  "new_ref E v =
     lua_bind (lua_get l_registry) (\<lambda>t.
     let (r, t) = luaL_ref (le_conv E) luaH_getnum luaH_setnum luaH_getn v t in
     lua_then (lua_modify (\<lambda>s. s\<lparr>l_registry := t\<rparr>)) (lua_return r))"

text \<open>After the loop the last key is on top of the stack; a failure of \<open>db_bind_param\<close> raises it.\<close>

definition sb_lua_db_bind_param :: "'w lua_env \<Rightarrow> lval list \<Rightarrow> ('w, lval list) lua_m" where
  "sb_lua_db_bind_param E args =
     lua_then CHECK_CONNECTION
     (lua_bind (check_stmt (index2adr (ctxt_stack args) 1)) (\<lambda>(u, st).
      lua_bind (check_table (index2adr (ctxt_stack args) 2)) (\<lambda>entries.
      let n = sb_lua_table_size entries in
      lua_then (lua_assert (n \<noteq> 0) (LuaMsg ''table is empty''))
      (if \<not> le_alloc E then
         lua_then (set_stmt u (st\<lparr>ls_params := None\<rparr>)) (lua_throw (LuaMsg ''memory allocation failure''))
       else
         lua_bind (lua_get l_mem) (\<lambda>m.
         let (pa, m) = array_alloc (replicate n zero_bind) m; st = st\<lparr>ls_params := Some pa\<rparr> in
         lua_then (set_mem m) (lua_then (set_stmt u st)
         (lua_bind (bind_entries E False pa 0 entries) (\<lambda>(binds, needs_rebind).
          lua_bind (if needs_rebind then lua_return (0, st) else stmt_bind_param E u st binds) (\<lambda>(rc, st).
          lua_then (lua_assert (rc = 0) (LuaVal (fst (last entries))))
          (lua_bind (new_ref E (the (index2adr (ctxt_stack args) 2))) (\<lambda>r.
           lua_then (set_stmt u (st\<lparr>ls_nparams := n, ls_param_ref := r\<rparr>)) (lua_return []))))))))))))"

text \<open>\<open>db_bind_result\<close>; the values of results are never read by the scripting layer.\<close>

definition stmt_bind_result ::
  "'w lua_env \<Rightarrow> nat \<Rightarrow> sb_lua_db_stmt \<Rightarrow> bind_ptr list \<Rightarrow> ('w, int \<times> sb_lua_db_stmt) lua_m" where
  "stmt_bind_result E u st binds =
     lua_bind the_con (\<lambda>c.
     lua_bind (lua_some (stmt_con st c)) (\<lambda>(p, con).
     lua_bind (lua_get l_sh) (\<lambda>sh.
     lua_bind (lua_get l_mem) (\<lambda>m.
     let (rc, p, y) = db_bind_result (Some con) p (map (bound_view (le_junk E) m) binds) (sl_sys sh);
         st = st\<lparr>ls_ptr := Some p\<rparr>
     in lua_then (set_sys y) (lua_then (set_stmt u st) (lua_return (rc, st)))))))"

definition sb_lua_db_bind_result :: "'w lua_env \<Rightarrow> lval list \<Rightarrow> ('w, lval list) lua_m" where
  "sb_lua_db_bind_result E args =
     lua_then CHECK_CONNECTION
     (lua_bind (check_stmt (index2adr (ctxt_stack args) 1)) (\<lambda>(u, st).
      lua_bind (check_table (index2adr (ctxt_stack args) 2)) (\<lambda>entries.
      let n = sb_lua_table_size entries in
      lua_then (lua_assert (n \<noteq> 0) (LuaMsg ''table is empty''))
      (if \<not> le_alloc E then
         lua_then (set_stmt u (st\<lparr>ls_results := None\<rparr>)) (lua_throw (LuaMsg ''memory allocation failure''))
       else
         lua_bind (lua_get l_mem) (\<lambda>m.
         let (pa, m) = array_alloc (replicate n zero_bind) m; st = st\<lparr>ls_results := Some pa\<rparr> in
         lua_then (set_mem m) (lua_then (set_stmt u st)
         (lua_bind (bind_entries E True pa 0 entries) (\<lambda>(binds, needs_rebind).
          lua_bind (if needs_rebind then lua_return (0, st) else stmt_bind_result E u st binds) (\<lambda>(rc, st).
          lua_then (lua_assert (rc = 0) (LuaVal (fst (last entries))))
          (lua_bind (new_ref E (the (index2adr (ctxt_stack args) 2))) (\<lambda>r.
           lua_then (set_stmt u (st\<lparr>ls_nresults := n, ls_result_ref := r\<rparr>)) (lua_return []))))))))))))"

subsection \<open>Execution\<close>

text \<open>\<open>lua_gettable\<close> of a table without metatable.\<close>

definition table_lookup :: "(lval \<times> lval) list \<Rightarrow> lval \<Rightarrow> lval" where
  "table_lookup entries k = (case map_of entries k of None \<Rightarrow> LNil | Some v \<Rightarrow> v)"

text \<open>\<open>strncpy\<close> of a text to the start of a buffer, \<open>n\<close> characters; a NUL in the text is followed by
  NULs only.\<close>

definition strncpy_to :: "string \<Rightarrow> string \<Rightarrow> nat \<Rightarrow> string" where
  "strncpy_to buf t n =
     (let u = take n (c_str t) in u @ replicate (n - length u) (CHR 0x00) @ drop n buf)"

text \<open>The new value of one parameter; the result tells whether its buffer was reallocated. Growing is
  needed for texts longer than the last one. A NULL buffer is written only with length 0.\<close>

definition fetch_param ::
  "'w lua_env \<Rightarrow> nat option \<Rightarrow> nat \<Rightarrow> lval \<Rightarrow> ('w, bool) lua_m" where
  "fetch_param E pa i v =
     lua_bind (lua_get l_mem) (\<lambda>m.
     lua_bind (lua_some (param_at m pa i)) (\<lambda>p.
     if v = LNil then lua_then (set_mem (put_param m pa i (p\<lparr>lb_is_null := True\<rparr>))) (lua_return False)
     else
       (let p = p\<lparr>lb_is_null := False\<rparr>; m = put_param m pa i p in
        lua_then (set_mem m)
        (case lb_type p of
           DB_TYPE_INT \<Rightarrow>
             lua_bind (lua_check (luaL_checknumber (le_conv E) (Some v))) (\<lambda>x.
             lua_bind (lua_some (double_to_int x)) (\<lambda>k.
             lua_bind (lua_some (lb_buf p)) (\<lambda>a.
             lua_then (set_mem (m\<lparr>m_bufs := (m_bufs m)(a \<mapsto> IntBuf (Some k))\<rparr>)) (lua_return False))))
         | DB_TYPE_CHAR \<Rightarrow>
             lua_bind (lua_check (luaL_checklstring (le_conv E) (Some v))) (\<lambda>t.
             let n = length t in
             if n > lb_buflen p then
               (if \<not> le_alloc E then lua_undef
                else let m = (case lb_buf p of None \<Rightarrow> m | Some a \<Rightarrow> m\<lparr>m_bufs := (m_bufs m)(a := None)\<rparr>);
                         (a, m) = mem_alloc (CharBuf (strncpy_to [] t n)) m
                     in lua_then (set_mem (put_param m pa i (p\<lparr>lb_buf := Some a, lb_buflen := n\<rparr>)))
                          (lua_return True))
             else
               (let m = (case lb_buf p of
                           None \<Rightarrow> m
                         | Some a \<Rightarrow> m\<lparr>m_bufs := (m_bufs m)(a := map_option (\<lambda>b. case b of
                               CharBuf c \<Rightarrow> CharBuf (strncpy_to c t n) | IntBuf _ \<Rightarrow> b) (m_bufs m a))\<rparr>)
                in lua_then (set_mem (put_param m pa i (p\<lparr>lb_buflen := n\<rparr>))) (lua_return False)))
         | _ \<Rightarrow> lua_throw (LuaMsg (''Unsupported variable type: '' @ lua_typename v))))))"

text \<open>The loop over the parameters; \<open>tab\<close> is the value of the reference to the table.\<close>

fun fetch_params ::
  "'w lua_env \<Rightarrow> nat option \<Rightarrow> lval \<Rightarrow> nat \<Rightarrow> nat \<Rightarrow> ('w, bool) lua_m" where
  "fetch_params E pa tab i 0 = lua_return False"
| "fetch_params E pa tab i (Suc n) =
     lua_bind (lua_get l_mem) (\<lambda>m.
     lua_bind (lua_some (param_at m pa i)) (\<lambda>p.
     lua_bind (case tab of
                 LTable t \<Rightarrow> lua_bind (lua_get l_tables) (\<lambda>tabs. lua_some (tabs t))
               | _ \<Rightarrow> lua_throw (LuaMsg ''attempt to index a nil value'')) (\<lambda>entries.
     lua_bind (fetch_param E pa i (table_lookup entries (LNumber (of_int (lb_id p))))) (\<lambda>r.
     lua_bind (fetch_params E pa tab (i + 1) n) (\<lambda>rs. lua_return (r \<or> rs))))))"

text \<open>The array that is bound again: a parameter that is NULL has no buffer, a text that is not NULL
  no NULL indicator. \<open>Inl\<close>: a type that is not supported.\<close>

fun rebind_ptrs :: "nat \<Rightarrow> nat \<Rightarrow> sb_lua_bind list \<Rightarrow> unit + bind_ptr list" where
  "rebind_ptrs pa i [] = Inr []"
| "rebind_ptrs pa i (p # ps) =
     (let b = \<lparr>bp_type = lb_type p, bp_buffer = None, bp_data_len = None, bp_is_null = Some (pa, i)\<rparr>;
          go = (\<lambda>b. case rebind_ptrs pa (i + 1) ps of Inl e \<Rightarrow> Inl e | Inr bs \<Rightarrow> Inr (b # bs))
      in if lb_is_null p then go b
         else case lb_type p of
           DB_TYPE_INT \<Rightarrow> go (b\<lparr>bp_buffer := lb_buf p\<rparr>)
         | DB_TYPE_CHAR \<Rightarrow> go (b\<lparr>bp_buffer := lb_buf p, bp_data_len := Some (pa, i), bp_is_null := None\<rparr>)
         | _ \<Rightarrow> Inl ())"

definition rebind_params :: "'w lua_env \<Rightarrow> nat \<Rightarrow> sb_lua_db_stmt \<Rightarrow> ('w, sb_lua_db_stmt) lua_m" where
  "rebind_params E u st =
     (if \<not> le_alloc E then lua_throw (LuaMsg ''Memory allocation failure'')
      else
        lua_bind (lua_get l_mem) (\<lambda>m.
        lua_bind (lua_some (ls_params st)) (\<lambda>pa.
        lua_bind (lua_some (m_arrays m pa)) (\<lambda>ps.
        case rebind_ptrs pa 0 (take (ls_nparams st) ps) of
          Inl _ \<Rightarrow> lua_throw (LuaMsg ''Unsupported variable type'')
        | Inr binds \<Rightarrow>
            lua_bind (stmt_bind_param E u st binds) (\<lambda>(rc, st).
            lua_then (lua_assert (rc = 0) (LuaMsg ''db_bind_param() failed'')) (lua_return st))))))"

text \<open>The statement that the driver executes: the values bound to an emulated one are read now. A value
  that cannot be read counts even when the query has no placeholder for it.\<close>

definition current_stmt :: "'w lua_env \<Rightarrow> lua_mem \<Rightarrow> sb_lua_db_stmt \<Rightarrow> db_stmt \<Rightarrow> db_stmt option" where
  "current_stmt E m st p =
     (case (bound_param p, ls_bound st) of
        (Some _, Some bs) \<Rightarrow>
          (if list_all (readable m) bs then Some (p\<lparr>bound_param := Some (map (exec_view (le_junk E) m) bs)\<rparr>)
           else None)
      | _ \<Rightarrow> Some p)"

definition execute_result :: "nat \<Rightarrow> sb_lua_db_stmt \<Rightarrow> nat \<Rightarrow> bool \<Rightarrow> ('w, lval list) lua_m" where
  "execute_result u st n ok =
     (if \<not> ok then lua_then (set_stmt u (st\<lparr>ls_rs := None\<rparr>)) throw_errno
      else lua_bind (new_udata (URs (Some n))) (\<lambda>r.
           lua_then (set_stmt u (st\<lparr>ls_rs := Some r\<rparr>)) (lua_return [LUserdata r])))"

definition stmt_execute :: "'w lua_env \<Rightarrow> nat \<Rightarrow> sb_lua_db_stmt \<Rightarrow> ('w, lval list) lua_m" where
  "stmt_execute E u st =
     lua_bind the_con (\<lambda>c.
     lua_bind (lua_some (stmt_con st c)) (\<lambda>(p, con).
     lua_bind (lua_get l_sh) (\<lambda>sh.
     lua_bind (lua_get l_mem) (\<lambda>m.
     lua_bind (lua_some (current_stmt E m st p)) (\<lambda>p.
     lua_bind (lua_some (db_execute (Some con) p (sl_sys sh))) (\<lambda>(ok, con', y).
     lua_then (set_sys y) (lua_then (set_con (map_option (Pair (fst c)) con')) (execute_result u st (fst c) ok))))))))"

definition sb_lua_db_execute :: "'w lua_env \<Rightarrow> lval list \<Rightarrow> ('w, lval list) lua_m" where
  "sb_lua_db_execute E args =
     lua_then CHECK_CONNECTION
     (lua_bind (check_stmt (index2adr (ctxt_stack args) 1)) (\<lambda>(u, st).
      lua_bind (lua_get l_registry) (\<lambda>reg.
      let tab = luaH_getnum reg (ls_param_ref st) in
      lua_then (lua_assert (tab = LNil \<or> lua_istable tab) (LuaMsg ''table expected''))
      (lua_bind (fetch_params E (ls_params st) tab 0 (ls_nparams st)) (\<lambda>needs_rebind.
       lua_bind (if needs_rebind then rebind_params E u st else lua_return st) (stmt_execute E u))))))"

subsection \<open>End of statements and result sets\<close>

text \<open>The loop that frees the buffers; \<^const>\<open>None\<close>: the array is NULL or too short.\<close>

fun free_params :: "lua_mem \<Rightarrow> nat option \<Rightarrow> nat \<Rightarrow> nat \<Rightarrow> lua_mem option" where
  "free_params m pa i 0 = Some m"
| "free_params m pa i (Suc n) =
     (case param_at m pa i of
        None \<Rightarrow> None
      | Some p \<Rightarrow>
          free_params (case lb_buf p of None \<Rightarrow> m | Some a \<Rightarrow> m\<lparr>m_bufs := (m_bufs m)(a := None)\<rparr>) pa (i + 1) n)"

definition free_array :: "lua_mem \<Rightarrow> nat option \<Rightarrow> lua_mem" where
  "free_array m pa = (case pa of None \<Rightarrow> m | Some a \<Rightarrow> m\<lparr>m_arrays := (m_arrays m)(a := None)\<rparr>)"

definition unref :: "int \<Rightarrow> ('w, unit) lua_m" where
  "unref r = lua_modify (\<lambda>s. s\<lparr>l_registry := luaL_unref luaH_getnum luaH_setnum r (l_registry s)\<rparr>)"

definition sb_lua_db_close :: "lval list \<Rightarrow> ('w, lval list) lua_m" where
  "sb_lua_db_close args =
     lua_bind CHECK_CONNECTION (\<lambda>c.
     lua_bind (check_stmt (index2adr (ctxt_stack args) 1)) (\<lambda>(u, st).
     lua_bind (lua_get l_mem) (\<lambda>m.
     lua_bind (lua_some (free_params m (ls_params st) 0 (ls_nparams st))) (\<lambda>m.
     lua_then (set_mem (free_array m (ls_params st)))
     (lua_then (unref (ls_param_ref st)) (lua_then (unref (ls_result_ref st))
     (lua_bind (lua_some (stmt_con st c)) (\<lambda>(p, con).
      lua_bind (lua_get l_sh) (\<lambda>sh.
      lua_then (set_sys (snd (db_close (Some con) (Some p) (sl_sys sh))))
      (lua_then (set_stmt u (st\<lparr>ls_params := None, ls_ptr := None\<rparr>)) (lua_return [])))))))))))"

text \<open>A result set is part of its connection; NULL or the result set of a freed connection is
  followed without a test.\<close>

definition sb_lua_db_store_results :: "lval list \<Rightarrow> ('w, lval list) lua_m" where
  "sb_lua_db_store_results args =
     lua_bind CHECK_CONNECTION (\<lambda>c.
     lua_bind (check_rs (index2adr (ctxt_stack args) 1)) (\<lambda>(u, r).
     if r \<noteq> Some (fst c) then lua_undef else lua_then con_store (lua_return [])))"

definition sb_lua_db_free_results :: "lval list \<Rightarrow> ('w, lval list) lua_m" where
  "sb_lua_db_free_results args =
     lua_bind CHECK_CONNECTION (\<lambda>c.
     lua_bind (check_rs (index2adr (ctxt_stack args) 1)) (\<lambda>(u, r).
     if r \<noteq> Some (fst c) then lua_undef
     else lua_then con_free
       (lua_then (lua_modify (\<lambda>s. s\<lparr>l_udata := (l_udata s)(u \<mapsto> URs None)\<rparr>)) (lua_return []))))"

section \<open>Random numbers\<close>

definition lua_rand ::
  "'w lua_env \<Rightarrow> (int \<Rightarrow> int \<Rightarrow> rnd_state \<Rightarrow> (int \<times> rnd_state) option) \<Rightarrow> lval list \<Rightarrow> ('w, lval list) lua_m" where
  "lua_rand E gen args =
     (let arg = (\<lambda>i. lua_bind (lua_check (luaL_checknumber (le_conv E) (index2adr args i)))
                       (\<lambda>x. lua_some (double_to_int x)))
      in lua_bind (arg 1) (\<lambda>a.
         lua_bind (arg 2) (\<lambda>b.
         lua_bind (lua_get l_sh) (\<lambda>sh.
         lua_bind (lua_some (gen a b (sl_rng sh))) (\<lambda>(r, g).
         lua_then (lua_modify (\<lambda>s. s\<lparr>l_sh := (l_sh s)\<lparr>sl_rng := g\<rparr>\<rparr>)) (lua_return [LNumber (of_int r)]))))))"

definition sb_lua_rand :: "'w lua_env \<Rightarrow> lval list \<Rightarrow> ('w, lval list) lua_m" where
  "sb_lua_rand E = lua_rand E sb_rand"
definition sb_lua_rand_uniform :: "'w lua_env \<Rightarrow> lval list \<Rightarrow> ('w, lval list) lua_m" where
  "sb_lua_rand_uniform E = lua_rand E sb_rand_uniform"
definition sb_lua_rand_gaussian :: "'w lua_env \<Rightarrow> lval list \<Rightarrow> ('w, lval list) lua_m" where
  "sb_lua_rand_gaussian E = lua_rand E sb_rand_gaussian"
definition sb_lua_rand_special :: "'w lua_env \<Rightarrow> lval list \<Rightarrow> ('w, lval list) lua_m" where
  "sb_lua_rand_special E = lua_rand E sb_rand_special"
definition sb_lua_rand_uniq :: "'w lua_env \<Rightarrow> lval list \<Rightarrow> ('w, lval list) lua_m" where
  "sb_lua_rand_uniq E = lua_rand E sb_rand_uniq"

definition sb_lua_rnd :: "('w, lval list) lua_m" where
  "sb_lua_rnd =
     lua_bind (lua_get l_sh) (\<lambda>sh.
     let (r, g) = sb_rnd (sl_rng sh) in
     lua_then (lua_modify (\<lambda>s. s\<lparr>l_sh := (l_sh s)\<lparr>sl_rng := g\<rparr>\<rparr>)) (lua_return [LNumber (of_nat r)]))"

text \<open>The format is the last argument; without arguments index -1 is the function itself.\<close>

definition sb_lua_rand_str :: "'w lua_env \<Rightarrow> lval list \<Rightarrow> ('w, lval list) lua_m" where
  "sb_lua_rand_str E args =
     lua_bind (lua_check (luaL_checklstring (le_conv E) (Some (last (LCFunction ''sb_rand_str'' # args))))) (\<lambda>t.
     let fmt = c_str t in
     lua_bind (lua_get l_sh) (\<lambda>sh.
     lua_bind (lua_some (sb_rand_str fmt fmt (sl_rng sh))) (\<lambda>(out, g).
     lua_then (lua_modify (\<lambda>s. s\<lparr>l_sh := (l_sh s)\<lparr>sl_rng := g\<rparr>\<rparr>)) (lua_return [LString out]))))"

section \<open>Scripts\<close>

text \<open>The exported functions by their names in a script.\<close>

definition c_function :: "'w lua_env \<Rightarrow> string \<Rightarrow> (lval list \<Rightarrow> ('w, lval list) lua_m) option" where
  "c_function E name =
     map_of
       [(''sb_rand'', sb_lua_rand E), (''sb_rand_uniq'', sb_lua_rand_uniq E), (''sb_rnd'', \<lambda>_. sb_lua_rnd),
        (''sb_rand_str'', sb_lua_rand_str E), (''sb_rand_uniform'', sb_lua_rand_uniform E),
        (''sb_rand_gaussian'', sb_lua_rand_gaussian E), (''sb_rand_special'', sb_lua_rand_special E),
        (''db_connect'', \<lambda>_. lua_then (sb_lua_db_connect E) (lua_return [])),
        (''db_disconnect'', \<lambda>_. lua_then sb_lua_db_disconnect (lua_return [])),
        (''db_query'', sb_lua_db_query E), (''db_query_retry'', sb_lua_db_query_retry E),
        (''db_bulk_insert_init'', sb_lua_db_bulk_insert_init E),
        (''db_bulk_insert_next'', sb_lua_db_bulk_insert_next E),
        (''db_bulk_insert_done'', \<lambda>_. sb_lua_db_bulk_insert_done), (''db_prepare'', sb_lua_db_prepare E),
        (''db_bind_param'', sb_lua_db_bind_param E), (''db_bind_result'', sb_lua_db_bind_result E),
        (''db_execute'', sb_lua_db_execute E), (''db_close'', sb_lua_db_close),
        (''db_store_results'', sb_lua_db_store_results), (''db_free_results'', sb_lua_db_free_results)] name"

definition exported_names :: "string list" where
  "exported_names =
     [''sb_rand'', ''sb_rand_uniq'', ''sb_rnd'', ''sb_rand_str'', ''sb_rand_uniform'', ''sb_rand_gaussian'',
      ''sb_rand_special'', ''db_connect'', ''db_disconnect'', ''db_query'', ''db_query_retry'',
      ''db_bulk_insert_init'', ''db_bulk_insert_next'', ''db_bulk_insert_done'', ''db_prepare'',
      ''db_bind_param'', ''db_bind_result'', ''db_execute'', ''db_close'', ''db_store_results'',
      ''db_free_results'']"

text \<open>What a script does until it returns: calls of exported functions, whose results or errors (caught
  by \<open>pcall\<close> or not) it goes on with, and operations on tables and globals.\<close>

datatype lua_prog =
  Return "lval list"
| Raise lua_err
| Call string "lval list" "lua_err + lval list \<Rightarrow> lua_prog"
| NewTable "(lval \<times> lval) list" "nat \<Rightarrow> lua_prog"
| SetTable nat lval lval lua_prog
| GetGlobal string "lval \<Rightarrow> lua_prog"
| SetGlobal string lval lua_prog

text \<open>Assignment to a table: a new key comes after the others, nil removes a key.\<close>

fun table_set :: "(lval \<times> lval) list \<Rightarrow> lval \<Rightarrow> lval \<Rightarrow> (lval \<times> lval) list" where
  "table_set [] k v = (if v = LNil then [] else [(k, v)])"
| "table_set (e # es) k v =
     (if fst e = k then (if v = LNil then es else (k, v) # es) else e # table_set es k v)"

text \<open>\<open>lua_pcall\<close> seen from C: an error is a result.\<close>

definition lua_catch :: "('w, 'a) lua_m \<Rightarrow> ('w, lua_err + 'a) lua_m" where
  "lua_catch m s = (case m s of None \<Rightarrow> None | Some (r, s') \<Rightarrow> Some (Inr r, s'))"

definition call_c :: "'w lua_env \<Rightarrow> string \<Rightarrow> lval list \<Rightarrow> ('w, lval list) lua_m" where
  "call_c E name args =
     (case c_function E name of
        None \<Rightarrow> lua_throw (LuaMsg ''attempt to call a nil value'')
      | Some f \<Rightarrow> f args)"

primrec exec_prog :: "'w lua_env \<Rightarrow> lua_prog \<Rightarrow> ('w, lval list) lua_m" where
  "exec_prog E (Return vs) = lua_return vs"
| "exec_prog E (Raise e) = lua_throw e"
| "exec_prog E (Call name args k) = lua_bind (lua_catch (call_c E name args)) (\<lambda>r. exec_prog E (k r))"
| "exec_prog E (NewTable entries k) =
     lua_bind (lua_get l_next) (\<lambda>t.
     lua_then (lua_modify (\<lambda>s. s\<lparr>l_tables := (l_tables s)(t \<mapsto> entries), l_next := t + 1\<rparr>)) (exec_prog E (k t)))"
| "exec_prog E (SetTable t key v p) =
     lua_then (lua_modify (\<lambda>s. s\<lparr>l_tables :=
       (l_tables s)(t := map_option (\<lambda>es. table_set es key v) (l_tables s t))\<rparr>)) (exec_prog E p)"
| "exec_prog E (GetGlobal name k) = lua_bind (lua_get l_globals) (\<lambda>g. exec_prog E (k (g name)))"
| "exec_prog E (SetGlobal name v p) =
     lua_then (lua_modify (\<lambda>s. s\<lparr>l_globals := (l_globals s)(name := v)\<rparr>)) (exec_prog E p)"

text \<open>A script: what loading its file does (\<^const>\<open>None\<close>: it cannot be read or compiled) and its functions.\<close>

record lua_script =
  sc_main :: "lua_prog option"
  sc_fun :: "nat \<Rightarrow> lval list \<Rightarrow> lua_prog"

text \<open>\<open>lua_getglobal\<close> of a function, \<open>lua_pcall\<close> with the given arguments.\<close>

definition call_global :: "'w lua_env \<Rightarrow> lua_script \<Rightarrow> string \<Rightarrow> lval list \<Rightarrow> ('w, lval list) lua_m" where
  "call_global E sc name args =
     lua_bind (lua_get l_globals) (\<lambda>g.
       case g name of
         LFunction k \<Rightarrow> exec_prog E (sc_fun sc k args)
       | LCFunction f \<Rightarrow> call_c E f args
       | v \<Rightarrow> lua_throw (LuaMsg (''attempt to call a '' @ lua_typename v @ '' value'')))"

section \<open>New interpreters\<close>

text \<open>The value pushed for an option; \<open>Some []\<close>: nothing is pushed. \<open>Inl\<close>: the exit of \<open>sb_opt_to_int\<close>;
  \<^const>\<open>None\<close>: an uninitialised number.\<close>

definition option_push :: "'w lua_env \<Rightarrow> option_t \<Rightarrow> (int + lval list) option" where
  "option_push E opt =
     (case o_type opt of
        SB_ARG_TYPE_FLAG \<Rightarrow> Some (Inr [LBoolean (sb_opt_to_flag opt)])
      | SB_ARG_TYPE_INT \<Rightarrow> Some (map_sum id (\<lambda>i. [LNumber (of_int i)]) (sb_opt_to_int opt))
      | SB_ARG_TYPE_FLOAT \<Rightarrow> map_option (\<lambda>x. Inr [LNumber x]) (sb_opt_to_float (le_scan E) opt)
      | SB_ARG_TYPE_SIZE \<Rightarrow> Some (Inr [LNumber (of_nat (unat (sb_opt_to_size opt)))])
      | SB_ARG_TYPE_STRING \<Rightarrow>
          Some (Inr [LString (case sb_opt_to_string opt of None \<Rightarrow> [] | Some t \<Rightarrow> t)])
      | SB_ARG_TYPE_LIST \<Rightarrow> Some (Inr [LNil])
      | SB_ARG_TYPE_FILE \<Rightarrow> Some (Inr [])
      | SB_ARG_TYPE_NULL \<Rightarrow> Some (Inr []))"

text \<open>The loop over the options with the stack of the new interpreter (top first); \<open>lua_setglobal\<close> takes
  the top of the stack, and with an empty stack reads below it.\<close>

fun export_options ::
  "'w lua_env \<Rightarrow> options \<Rightarrow> lval list \<Rightarrow> (string \<Rightarrow> lval) \<Rightarrow> (int + lval list \<times> (string \<Rightarrow> lval)) option" where
  "export_options E [] stk g = Some (Inr (stk, g))"
| "export_options E (opt # opts) stk g =
     (case option_push E opt of
        None \<Rightarrow> None
      | Some (Inl c) \<Rightarrow> Some (Inl c)
      | Some (Inr vs) \<Rightarrow>
          (case vs @ stk of
             [] \<Rightarrow> None
           | v # stk' \<Rightarrow> export_options E opts stk' (g(o_name opt := v))))"

text \<open>The table of the library \<open>math\<close>, which \<open>luaopen_math\<close> leaves on the stack.\<close>

definition MATH_TABLE :: nat where "MATH_TABLE = 0"

definition export_constants :: "(string \<Rightarrow> lval) \<Rightarrow> string \<Rightarrow> lval" where
  "export_constants g =
     (fold (\<lambda>n g. g(n := LCFunction n)) exported_names g)
       (''DB_ERROR_NONE'' := LNumber 0, ''DB_ERROR_RESTART_TRANSACTION'' := LNumber 1,
        ''DB_ERROR_FAILED'' := LNumber 3)"

text \<open>\<open>sb_lua_new_state\<close> with the globals \<open>g0\<close> of the standard libraries; \<open>alloc\<close> tells whether the
  context is allocated. \<open>Inl\<close>: the process exits;
  an error of the script raised by \<open>lua_error\<close> outside \<open>lua_pcall\<close> does.\<close>

definition sb_lua_new_state ::
  "'w lua_env \<Rightarrow> lua_script \<Rightarrow> (string \<Rightarrow> lval) \<Rightarrow> bool \<Rightarrow> int \<Rightarrow> 'w lua_shared \<Rightarrow>
   (int + 'w lua_state option \<times> 'w lua_shared) option" where
  "sb_lua_new_state E sc g0 alloc tid sh =
     (if \<not> le_alloc E then None
      else case export_options E (le_opts E) [LTable MATH_TABLE] g0 of
        None \<Rightarrow> None
      | Some (Inl c) \<Rightarrow> Some (Inl c)
      | Some (Inr (_, g)) \<Rightarrow>
          (case sc_main sc of
             None \<Rightarrow> Some (Inl EXIT_FAILURE)
           | Some main \<Rightarrow>
               (let s = \<lparr>l_globals = export_constants g, l_tables = [MATH_TABLE \<mapsto> []],
                         l_registry = \<lparr>t_array = [], t_hash = []\<rparr>, l_udata = Map.empty, l_next = 1,
                         l_mem = \<lparr>m_arrays = Map.empty, m_bufs = Map.empty, m_next = 0\<rparr>,
                         l_ctxt = None, l_sh = sh\<rparr>
                in case exec_prog E main s of
                     None \<Rightarrow> None
                   | Some (Inl _, _) \<Rightarrow> Some (Inl EXIT_FAILURE)
                   | Some (Inr _, s) \<Rightarrow>
                       Some (Inr (if alloc then Some (s\<lparr>l_ctxt := Some \<lparr>cx_thread_id = tid, cx_con = None\<rparr>\<rparr>)
                                  else None, l_sh s)))))"

section \<open>The test of a script\<close>

record 'w lua_test =
  lt_gstate :: "'w lua_state"
  lt_states :: "'w lua_state list"
  lt_sh :: "'w lua_shared"
  lt_nevents :: u32
  lt_max_requests :: u32
  lt_error :: bool
  lt_lgr :: logger
  lt_clock :: "nat \<Rightarrow> timespec"
  lt_ticks :: nat

text \<open>Which commands and operations \<open>script_load_lua\<close> sets, from the globals of the main interpreter.\<close>

record lua_hooks =
  hk_prepare :: bool
  hk_cleanup :: bool
  hk_help :: bool
  hk_thread_init :: bool
  hk_thread_done :: bool

definition script_hooks :: "(string \<Rightarrow> lval) \<Rightarrow> lua_hooks" where
  "script_hooks g = \<lparr>hk_prepare = (g ''prepare'' \<noteq> LNil), hk_cleanup = (g ''cleanup'' \<noteq> LNil),
     hk_help = lua_isfunction (g ''help''), hk_thread_init = (g ''thread_init'' \<noteq> LNil),
     hk_thread_done = (g ''thread_done'' \<noteq> LNil)\<rparr>"

text \<open>The interpreters of the threads from \<open>i\<close> on; \<open>Inr None\<close>: one of them could not be made.\<close>

fun new_states ::
  "'w lua_env \<Rightarrow> lua_script \<Rightarrow> (string \<Rightarrow> lval) \<Rightarrow> (nat \<Rightarrow> bool) \<Rightarrow> nat \<Rightarrow> nat \<Rightarrow> 'w lua_shared \<Rightarrow>
   (int + 'w lua_state list option \<times> 'w lua_shared) option" where
  "new_states E sc g0 alloc i 0 sh = Some (Inr (Some [], sh))"
| "new_states E sc g0 alloc i (Suc n) sh =
     (case sb_lua_new_state E sc g0 (alloc i) (int i) sh of
        None \<Rightarrow> None
      | Some (Inl c) \<Rightarrow> Some (Inl c)
      | Some (Inr (None, sh)) \<Rightarrow> Some (Inr (None, sh))
      | Some (Inr (Some s, sh)) \<Rightarrow>
          (case new_states E sc g0 alloc (i + 1) n sh of
             None \<Rightarrow> None
           | Some (Inl c) \<Rightarrow> Some (Inl c)
           | Some (Inr (None, sh)) \<Rightarrow> Some (Inr (None, sh))
           | Some (Inr (Some ss, sh)) \<Rightarrow> Some (Inr (Some (s # ss), sh))))"

text \<open>\<open>script_load_lua\<close>: \<open>Inr None\<close> is the result 1. \<open>galloc\<close> and \<open>salloc\<close> tell whether the context of the
  main interpreter and the array of interpreters are allocated.\<close>

definition script_load_lua ::
  "'w lua_env \<Rightarrow> lua_script \<Rightarrow> (string \<Rightarrow> lval) \<Rightarrow> bool \<Rightarrow> bool \<Rightarrow> (nat \<Rightarrow> bool) \<Rightarrow> nat \<Rightarrow> 'w lua_shared \<Rightarrow>
   (int + (lua_hooks \<times> 'w lua_state \<times> 'w lua_state list) option \<times> 'w lua_shared) option" where
  "script_load_lua E sc g0 galloc salloc alloc n sh =
     (case sb_lua_new_state E sc g0 galloc (- 1) sh of
        None \<Rightarrow> None
      | Some (Inl c) \<Rightarrow> Some (Inl c)
      | Some (Inr (None, sh)) \<Rightarrow> Some (Inr (None, sh))
      | Some (Inr (Some g, sh)) \<Rightarrow>
          (if \<not> salloc then Some (Inr (None, sh))
           else case new_states E sc g0 alloc 0 n sh of
             None \<Rightarrow> None
           | Some (Inl c) \<Rightarrow> Some (Inl c)
           | Some (Inr (None, sh)) \<Rightarrow> Some (Inr (None, sh))
           | Some (Inr (Some ss, sh)) \<Rightarrow> Some (Inr (Some (script_hooks (l_globals g), g, ss), sh))))"

definition sb_lua_get_request :: "'w lua_test \<Rightarrow> unit sb_request \<times> 'w lua_test" where
  "sb_lua_get_request t =
     (if lt_max_requests t \<noteq> 0 \<and> lt_nevents t \<ge> lt_max_requests t
      then (\<lparr>req_type = SB_REQ_TYPE_NULL, req_data = None\<rparr>, t)
      else (\<lparr>req_type = SB_REQ_TYPE_SCRIPT, req_data = None\<rparr>, t\<lparr>lt_nevents := lt_nevents t + 1\<rparr>))"

text \<open>A computation in the interpreter of a thread, or in the main one; the process exits with
  \<open>Inl\<close> when an error is raised outside \<open>lua_pcall\<close>.\<close>

definition in_state :: "nat \<Rightarrow> ('w, 'a) lua_m \<Rightarrow> 'w lua_test \<Rightarrow> ((lua_err + 'a) \<times> 'w lua_test) option" where
  "in_state i m t =
     (if i < length (lt_states t) then
        (case m ((lt_states t ! i)\<lparr>l_sh := lt_sh t\<rparr>) of
           None \<Rightarrow> None
         | Some (r, s) \<Rightarrow> Some (r, t\<lparr>lt_states := (lt_states t)[i := s], lt_sh := l_sh s\<rparr>))
      else None)"

definition in_gstate :: "('w, 'a) lua_m \<Rightarrow> 'w lua_test \<Rightarrow> ((lua_err + 'a) \<times> 'w lua_test) option" where
  "in_gstate m t =
     (case m ((lt_gstate t)\<lparr>l_sh := lt_sh t\<rparr>) of
        None \<Rightarrow> None
      | Some (r, s) \<Rightarrow> Some (r, t\<lparr>lt_gstate := s, lt_sh := l_sh s\<rparr>))"

definition log_event ::
  "(timespec \<Rightarrow> int \<Rightarrow> logger \<Rightarrow> logger option) \<Rightarrow> nat \<Rightarrow> 'w lua_test \<Rightarrow> 'w lua_test option" where
  "log_event f tid t =
     map_option (\<lambda>L. t\<lparr>lt_lgr := L, lt_ticks := lt_ticks t + 1\<rparr>) (f (lt_clock t (lt_ticks t)) (int tid) (lt_lgr t))"

definition is_restart :: "lua_conv \<Rightarrow> lua_err \<Rightarrow> bool" where
  "is_restart cv e = (case e of LuaMsg _ \<Rightarrow> False | LuaVal v \<Rightarrow> lua_tonumber cv v = Some 1)"

text \<open>\<open>log_text\<close>, and \<open>CALL_ERROR\<close> with the error on top of the stack.\<close>

definition script_log :: "log_msg_priority \<Rightarrow> string \<Rightarrow> 'w lua_test \<Rightarrow> 'w lua_test option" where
  "script_log prio txt t = map_option (\<lambda>L. t\<lparr>lt_lgr := L\<rparr>) (log_text prio txt (lt_lgr t))"

definition CALL_ERROR :: "lua_conv \<Rightarrow> string \<Rightarrow> lua_err \<Rightarrow> 'w lua_test \<Rightarrow> 'w lua_test option" where
  "CALL_ERROR cv name e =
     script_log LOG_FATAL (''failed to execute function `'' @ name @ [CHR 0x27] @ '': '' @
       (case (case e of LuaMsg m \<Rightarrow> Some m | LuaVal v \<Rightarrow> lua_tolstring cv v) of
          None \<Rightarrow> ''(null)'' | Some err \<Rightarrow> err))"

text \<open>The loop that runs the function \<open>event\<close>; it may restart forever. The result tells whether the
  event succeeded.\<close>

partial_function (option) event_loop ::
  "'w lua_env \<Rightarrow> lua_script \<Rightarrow> nat \<Rightarrow> 'w lua_test \<Rightarrow> (bool \<times> 'w lua_test) option" where
  "event_loop E sc tid t =
     (case in_state tid (call_global E sc ''event'' [LNumber (of_nat tid)]) t of
        None \<Rightarrow> None
      | Some (Inr _, t) \<Rightarrow> Some (True, t)
      | Some (Inl e, t) \<Rightarrow>
          (if is_restart (le_conv E) e
           then (case script_log LOG_DEBUG ''Ignored error encountered, restarting transaction'' t of
                   None \<Rightarrow> None | Some t \<Rightarrow> event_loop E sc tid t)
           else map_option (Pair False) (CALL_ERROR (le_conv E) ''event'' e t)))"

text \<open>\<open>sb_percentile_update (&local_percentile, sb_timer_value (&timers[thread_id]))\<close>\<close>

definition update_percentile :: "nat \<Rightarrow> 'w lua_test \<Rightarrow> 'w lua_test option" where
  "update_percentile tid t =
     (if tid < length (log_timers (lt_lgr t)) then
        (case sb_timer_value (lt_clock t (lt_ticks t)) (log_timers (lt_lgr t) ! tid) of
           None \<Rightarrow> None
         | Some (v, _, _) \<Rightarrow>
             (let y = sl_sys (lt_sh t) in
              case sb_percentile_update (local_percentile (stats y)) (of_nat (unat v)) of
                None \<Rightarrow> None
              | Some p \<Rightarrow> Some (t\<lparr>lt_ticks := lt_ticks t + 1,
                    lt_sh := (lt_sh t)\<lparr>sl_sys := y\<lparr>stats := (stats y)\<lparr>local_percentile := p\<rparr>\<rparr>\<rparr>\<rparr>)))
      else None)"

definition sb_lua_op_execute_request ::
  "'w lua_env \<Rightarrow> lua_script \<Rightarrow> nat \<Rightarrow> 'w lua_test \<Rightarrow> (int \<times> 'w lua_test) option" where
  "sb_lua_op_execute_request E sc tid t =
     (case log_event LOG_EVENT_START tid t of
        None \<Rightarrow> None
      | Some t \<Rightarrow>
          (case event_loop E sc tid t of
             None \<Rightarrow> None
           | Some (False, t) \<Rightarrow> Some (1, t\<lparr>lt_error := True\<rparr>)
           | Some (True, t) \<Rightarrow>
               (case log_event LOG_EVENT_STOP tid t of
                  None \<Rightarrow> None
                | Some t \<Rightarrow>
                    (if sl_driver (lt_sh t) \<noteq> None
                     then map_option (Pair 0) (update_percentile tid t) else Some (0, t)))))"

text \<open>An error of \<open>sb_lua_db_connect\<close> is raised outside \<open>lua_pcall\<close>.\<close>

definition sb_lua_op_thread_init ::
  "'w lua_env \<Rightarrow> lua_script \<Rightarrow> nat \<Rightarrow> 'w lua_test \<Rightarrow> (int + int \<times> 'w lua_test) option" where
  "sb_lua_op_thread_init E sc tid t =
     (case in_state tid (ensure_con E) t of
        None \<Rightarrow> None
      | Some (Inl _, _) \<Rightarrow> Some (Inl EXIT_FAILURE)
      | Some (Inr _, t) \<Rightarrow>
          (case in_state tid (call_global E sc ''thread_init'' [LNumber (of_nat tid)]) t of
             None \<Rightarrow> None
           | Some (Inl e, t) \<Rightarrow> map_option (\<lambda>t. Inr (1, t)) (CALL_ERROR (le_conv E) ''thread_init'' e t)
           | Some (Inr _, t) \<Rightarrow> Some (Inr (0, t))))"

definition sb_lua_op_thread_done ::
  "'w lua_env \<Rightarrow> lua_script \<Rightarrow> nat \<Rightarrow> 'w lua_test \<Rightarrow> (int \<times> 'w lua_test) option" where
  "sb_lua_op_thread_done E sc tid t =
     (case in_state tid (call_global E sc ''thread_done'' [LNumber (of_nat tid)]) t of
        None \<Rightarrow> None
      | Some (Inl e, t) \<Rightarrow> map_option (Pair 1) (CALL_ERROR (le_conv E) ''thread_done'' e t)
      | Some (Inr _, t) \<Rightarrow> Some (0, t))"

text \<open>The commands \<open>prepare\<close>, \<open>cleanup\<close> and \<open>help\<close> (\<open>sb_lua_cmd_prepare\<close>, \<open>sb_lua_cmd_cleanup\<close>,
  \<open>sb_lua_cmd_help\<close>) differ in the name of the function only. Their message about a failure is the one of
  \<open>CALL_ERROR\<close> (the C library prints a NULL pointer as \<open>(null)\<close>).\<close>

definition sb_lua_cmd ::
  "'w lua_env \<Rightarrow> lua_script \<Rightarrow> string \<Rightarrow> 'w lua_test \<Rightarrow> (int \<times> 'w lua_test) option" where
  "sb_lua_cmd E sc name t =
     (case in_gstate (call_global E sc name []) t of
        None \<Rightarrow> None
      | Some (Inl e, t) \<Rightarrow> map_option (Pair 1) (CALL_ERROR (le_conv E) name e t)
      | Some (Inr _, t) \<Rightarrow> Some (0, t))"

text \<open>The arguments of \<^const>\<open>db_print_stats\<close> come first.\<close>

definition sb_lua_op_print_stats ::
  "sb_timer \<Rightarrow> timespec \<Rightarrow> timespec \<Rightarrow> sb_stat \<Rightarrow> 'w lua_test \<Rightarrow> 'w lua_test option" where
  "sb_lua_op_print_stats fresh now now' type t =
     (if sl_driver (lt_sh t) = None then Some t
      else let y = sl_sys (lt_sh t) in
        case db_print_stats fresh now now' type (stats y) of
          None \<Rightarrow> None
        | Some (_, st, _) \<Rightarrow> Some (t\<lparr>lt_sh := (lt_sh t)\<lparr>sl_sys := y\<lparr>stats := st\<rparr>\<rparr>\<rparr>))"

text \<open>\<open>sb_lua_done\<close>: the interpreters of the threads are closed.\<close>

definition sb_lua_done :: "'w lua_test \<Rightarrow> int \<times> 'w lua_test" where
  "sb_lua_done t = (0, t\<lparr>lt_states := []\<rparr>)"

end
