(* ===== verification/Script_Inv.thy ===== *)
theory Script_Inv
  imports Script_Lua
begin

text \<open>
  What no script can break: the context of an interpreter, its connection and the shared state of
  the scripting layer stay consistent whatever functions a script calls, in whatever order and with
  whatever arguments. The proofs compute weakest preconditions of the effects of \<open>Script_Lua\<close>.
\<close>

section \<open>Weakest preconditions\<close>

text \<open>\<open>Q\<close> holds of a result and \<open>R\<close> of the state when an error is raised.\<close>

definition lua_wp ::
  "('w, 'a) lua_m \<Rightarrow> ('a \<Rightarrow> 'w lua_state \<Rightarrow> bool) \<Rightarrow> ('w lua_state \<Rightarrow> bool) \<Rightarrow> 'w lua_state \<Rightarrow> bool" where
  "lua_wp m Q R s =
     (case m s of None \<Rightarrow> True | Some (Inl e, s') \<Rightarrow> R s' | Some (Inr x, s') \<Rightarrow> Q x s')"

named_theorems wp_simps \<open>weakest preconditions of the effects\<close>

lemma lua_wp_bind [wp_simps]: "lua_wp (lua_bind m f) Q R s \<longleftrightarrow> lua_wp m (\<lambda>x. lua_wp (f x) Q R) R s"
  by (auto simp: lua_wp_def lua_bind_def split: option.splits sum.splits)

lemma lua_wp_return [wp_simps]: "lua_wp (lua_return x) Q R s \<longleftrightarrow> Q x s"
  by (simp add: lua_wp_def lua_return_def)

lemma lua_wp_throw [wp_simps]: "lua_wp (lua_throw e) Q R s \<longleftrightarrow> R s"
  by (simp add: lua_wp_def lua_throw_def)

lemma lua_wp_undef [wp_simps]: "lua_wp lua_undef Q R s"
  by (simp add: lua_wp_def lua_undef_def)

lemma lua_wp_get [wp_simps]: "lua_wp (lua_get f) Q R s \<longleftrightarrow> Q (f s) s"
  by (simp add: lua_wp_def lua_get_def)

lemma lua_wp_modify [wp_simps]: "lua_wp (lua_modify f) Q R s \<longleftrightarrow> Q () (f s)"
  by (simp add: lua_wp_def lua_modify_def)

lemma lua_wp_check [wp_simps]:
  "lua_wp (lua_check r) Q R s \<longleftrightarrow> (case r of Inl e \<Rightarrow> R s | Inr x \<Rightarrow> Q x s)"
  by (simp add: lua_check_def wp_simps split: sum.split)

lemma lua_wp_some [wp_simps]:
  "lua_wp (lua_some r) Q R s \<longleftrightarrow> (case r of None \<Rightarrow> True | Some x \<Rightarrow> Q x s)"
  by (simp add: lua_some_def wp_simps split: option.split)

lemma lua_wp_assert [wp_simps]:
  "lua_wp (lua_assert b e) Q R s \<longleftrightarrow> (if b then Q () s else R s)"
  by (simp add: lua_assert_def wp_simps)

lemma lua_wp_catch [wp_simps]:
  "lua_wp (lua_catch m) Q R s \<longleftrightarrow>
     (case m s of None \<Rightarrow> True | Some (r, s') \<Rightarrow> Q r s')"
  by (auto simp: lua_wp_def lua_catch_def split: option.splits)

lemma lua_wp_if [wp_simps]:
  "lua_wp (if b then m else n) Q R s \<longleftrightarrow> (if b then lua_wp m Q R s else lua_wp n Q R s)"
  by simp

lemma lua_wp_mono:
  assumes "lua_wp m Q R s" and "\<And>x s'. Q x s' \<Longrightarrow> Q' x s'" and "\<And>s'. R s' \<Longrightarrow> R' s'"
  shows "lua_wp m Q' R' s"
  using assms by (auto simp: lua_wp_def split: option.splits sum.splits)

text \<open>A computation that keeps an invariant, also when it raises an error.\<close>

definition keeps :: "('w lua_state \<Rightarrow> bool) \<Rightarrow> ('w, 'a) lua_m \<Rightarrow> bool" where
  "keeps I m \<longleftrightarrow> (\<forall>s. I s \<longrightarrow> lua_wp m (\<lambda>_. I) I s)"

lemma keepsI: "(\<And>s. I s \<Longrightarrow> lua_wp m (\<lambda>_. I) I s) \<Longrightarrow> keeps I m"
  by (simp add: keeps_def)

lemma keeps_bind: "keeps I m \<Longrightarrow> (\<And>x. keeps I (f x)) \<Longrightarrow> keeps I (lua_bind m f)"
  unfolding keeps_def wp_simps by (blast intro: lua_wp_mono)

lemma keeps_simple [intro!, simp]:
  "keeps I (lua_return x)" "keeps I (lua_throw e)" "keeps I lua_undef" "keeps I (lua_get f)"
  "keeps I (lua_check r)" "keeps I (lua_some q)" "keeps I (lua_assert b e)"
  by (auto simp: keeps_def wp_simps split: sum.splits option.splits)

lemma keeps_if: "keeps I m \<Longrightarrow> keeps I n \<Longrightarrow> keeps I (if b then m else n)"
  by simp

lemma keeps_catch: "keeps I m \<Longrightarrow> keeps I (lua_catch m)"
  by (auto simp: keeps_def lua_catch_def lua_wp_def split: option.splits sum.splits)

lemma keeps_modify: "(\<And>s. I s \<Longrightarrow> I (f s)) \<Longrightarrow> keeps I (lua_modify f)"
  by (simp add: keeps_def wp_simps)

lemma keepsD: "keeps I m \<Longrightarrow> I s \<Longrightarrow> m s = Some (r, s') \<Longrightarrow> I s'"
  by (cases r) (auto simp: keeps_def lua_wp_def split: option.splits sum.splits)

section \<open>The database layer and the connection\<close>

text \<open>What the operations of the layer keep of a connection and of the counters.\<close>

definition same_con :: "'w db_conn \<Rightarrow> 'w db_sys \<Rightarrow> 'w db_conn \<Rightarrow> 'w db_sys \<Rightarrow> bool" where
  "same_con con s con' s' \<longleftrightarrow>
     driver con' = driver con \<and> thread_id con' = thread_id con \<and>
     length (thread_stats (stats s')) = length (thread_stats (stats s))"

lemma same_con_refl [simp]: "same_con con s con s"
  by (simp add: same_con_def)

lemma same_con_trans: "same_con a s b t \<Longrightarrow> same_con b t c u \<Longrightarrow> same_con a s c u"
  by (simp add: same_con_def)

lemma upd_thread_stat_length:
  "upd_thread_stat i f st = Some st' \<Longrightarrow> length (thread_stats st') = length (thread_stats st)"
  by (auto simp: upd_thread_stat_def split: if_splits)

lemma account_result_same:
  "account_result err type con s = Some (ok, con', s') \<Longrightarrow> same_con con s con' s'"
  by (auto simp: account_result_def Let_def db_update_thread_stats_def same_con_def
      dest: upd_thread_stat_length split: db_error.splits option.splits if_splits)

lemma db_query_same: "db_query con q s = Some (ok, con', s') \<Longrightarrow> same_con con s con' s'"
  by (auto simp: db_query_def same_con_def dest!: account_result_same split: option.splits prod.splits)

lemma db_execute_same:
  "db_execute (Some con) p s = Some (ok, con', s') \<Longrightarrow> \<exists>c. con' = Some c \<and> same_con con s c s'"
  by (auto simp: db_execute_def con_driver_def same_con_def dest!: account_result_same
      split: option.splits prod.splits)

lemma db_store_results_same: "db_store_results con s = (e, con', s') \<Longrightarrow> same_con con s con' s'"
  by (auto simp: db_store_results_def same_con_def split: option.splits prod.splits if_splits)

lemma db_free_results_same: "db_free_results con s = Some (rc, con', s') \<Longrightarrow> same_con con s con' s'"
  by (auto simp: db_free_results_def same_con_def split: option.splits prod.splits if_splits)

lemma bulk_attempts_same: "bulk_attempts n con buf s = Some (ok, con', s') \<Longrightarrow> same_con con s con' s'"
proof (induction n arbitrary: con s)
  case (Suc n)
  from Suc.prems show ?case
    by (auto split: option.splits prod.splits bool.splits dest!: db_query_same Suc.IH intro: same_con_trans)
qed simp

lemma same_con_upd [simp]:
  "same_con con s (c\<lparr>bulk_ptr := x\<rparr>) t \<longleftrightarrow> same_con con s c t"
  "same_con con s (c\<lparr>bulk_cnt := y\<rparr>) t \<longleftrightarrow> same_con con s c t"
  "same_con con s (c\<lparr>bulk_commit_cnt := z\<rparr>) t \<longleftrightarrow> same_con con s c t"
  "same_con con s (c\<lparr>bulk_buffer := b\<rparr>) t \<longleftrightarrow> same_con con s c t"
  "same_con (con\<lparr>bulk_commit_cnt := z\<rparr>) s c t \<longleftrightarrow> same_con con s c t"
  by (simp_all add: same_con_def)

lemma db_bulk_do_insert_same:
  "db_bulk_do_insert con is_last s = Some (rc, con', s') \<Longrightarrow> same_con con s con' s'"
  by (fastforce simp: db_bulk_do_insert_def Let_def dest: bulk_attempts_same db_query_same
      intro: same_con_trans split: option.splits prod.splits bool.splits if_splits)

lemma bulk_append_same: "bulk_append con q = Some con' \<Longrightarrow> same_con con s con' s"
  by (auto simp: bulk_append_def Let_def same_con_def split: option.splits)

lemma db_bulk_insert_next_same:
  "db_bulk_insert_next con q s = Some (rc, con', s') \<Longrightarrow> same_con con s con' s'"
proof -
  assume nx: "db_bulk_insert_next con q s = Some (rc, con', s')"
  have add: "same_con c t con' s'" if "bulk_append c q = Some con'" "t = s'" for c t
    using bulk_append_same [OF that(1), of t] that(2) by simp
  from nx consider "con' = con" "s' = s" | "bulk_append con q = Some con'" "s = s'"
    | r where "db_bulk_do_insert con False s = Some (r, con', s')"
    | c t r where "db_bulk_do_insert con False s = Some (r, c, t)" "bulk_append c q = Some con'" "t = s'"
    by (auto simp: db_bulk_insert_next_def Let_def split: option.splits if_splits)
  then show ?thesis by cases (auto intro: add same_con_trans dest: db_bulk_do_insert_same)
qed

lemma db_bulk_insert_done_same:
  "db_bulk_insert_done con s = Some (con', s') \<Longrightarrow> same_con con s con' s'"
  by (auto simp: db_bulk_insert_done_def dest: db_bulk_do_insert_same split: option.splits prod.splits)

lemma db_bulk_insert_init_same:
  "db_bulk_insert_init alloc con q s = (rc, con', s') \<Longrightarrow> same_con con s con' s'"
  by (auto simp: db_bulk_insert_init_def db_describe_def same_con_def Let_def
      split: option.splits prod.splits if_splits)

lemma db_prepare_stats:
  "db_prepare alloc con q s = Some (st, s') \<Longrightarrow> stats s' = stats s"
  by (auto simp: db_prepare_def Let_def split: option.splits prod.splits if_splits)

lemma db_bind_stats:
  "db_bind_param con p bs s = (rc, p', s') \<Longrightarrow> stats s' = stats s"
  "db_bind_result con p bs s = (rc, p', s') \<Longrightarrow> stats s' = stats s"
  by (auto simp: db_bind_param_def db_bind_result_def split: option.splits prod.splits)

lemma db_close_stats: "stats (snd (db_close con p s)) = stats s"
  by (simp add: db_close_def split: option.splits prod.splits)

lemma db_connect_con:
  "db_connect alloc drv s = (Some c, s') \<Longrightarrow> driver c = Some drv"
  "db_connect alloc drv s = (c', s') \<Longrightarrow> stats s' = stats s"
  by (auto simp: db_connect_def Let_def split: prod.splits if_splits)

lemma db_disconnect_stats: "stats (snd (db_disconnect con s)) = stats s"
  by (simp add: db_disconnect_def split: option.splits prod.splits)

lemma db_reset_stats_length:
  "db_reset_stats now st = Some (st', l) \<Longrightarrow> length (thread_stats st') = length (thread_stats st)"
  by (auto simp: db_reset_stats_def Let_def split: option.splits prod.splits if_splits)

lemma db_init_length:
  "db_init alloc mem timers now opts drivers name s = Some (Inr (drv, g), s') \<Longrightarrow>
   length (thread_stats (stats s')) = length mem"
  by (auto simp: db_init_def Let_def dest!: db_reset_stats_length
      split: option.splits prod.splits if_splits sum.splits)

section \<open>The invariant of an interpreter\<close>

text \<open>The shared state only grows: a driver, once chosen, stays, and connections are numbered upwards.\<close>

definition sh_le :: "'w lua_shared \<Rightarrow> 'w lua_shared \<Rightarrow> bool" where
  "sh_le a b \<longleftrightarrow> (sl_driver a \<noteq> None \<longrightarrow> sl_driver b = sl_driver a) \<and> sl_serial a \<le> sl_serial b"

definition sh_ok :: "'w lua_env \<Rightarrow> 'w lua_shared \<Rightarrow> bool" where
  "sh_ok E sh \<longleftrightarrow>
     (sl_driver sh \<noteq> None \<longrightarrow> sl_once sh \<and> length (thread_stats (stats (sl_sys sh))) = length (le_mem E))"

text \<open>The connection of an interpreter is one of the chosen driver and counts for its thread.\<close>

definition con_ok :: "int \<Rightarrow> 'w lua_shared \<Rightarrow> (nat \<times> 'w db_conn) option \<Rightarrow> bool" where
  "con_ok tid sh c \<longleftrightarrow>
     (\<forall>n con. c = Some (n, con) \<longrightarrow>
        sl_driver sh \<noteq> None \<and> driver con = sl_driver sh \<and> thread_id con = tid \<and> n < sl_serial sh)"

definition lua_ok :: "'w lua_env \<Rightarrow> int \<Rightarrow> 'w lua_shared \<Rightarrow> 'w lua_state \<Rightarrow> bool" where
  "lua_ok E tid sh0 s \<longleftrightarrow>
     sh_ok E (l_sh s) \<and> sh_le sh0 (l_sh s) \<and>
     (\<exists>c. l_ctxt s = Some \<lparr>cx_thread_id = tid, cx_con = c\<rparr> \<and> con_ok tid (l_sh s) c)"

lemma lua_okE:
  assumes "lua_ok E tid sh0 s"
  obtains c where "l_ctxt s = Some \<lparr>cx_thread_id = tid, cx_con = c\<rparr>" "con_ok tid (l_sh s) c"
    "sh_ok E (l_sh s)" "sh_le sh0 (l_sh s)"
  using assms by (auto simp: lua_ok_def)

text \<open>Changes that the invariant does not see.\<close>

lemma lua_ok_frame:
  "lua_ok E tid sh0 (s\<lparr>l_globals := g\<rparr>) \<longleftrightarrow> lua_ok E tid sh0 s"
  "lua_ok E tid sh0 (s\<lparr>l_tables := t\<rparr>) \<longleftrightarrow> lua_ok E tid sh0 s"
  "lua_ok E tid sh0 (s\<lparr>l_registry := r\<rparr>) \<longleftrightarrow> lua_ok E tid sh0 s"
  "lua_ok E tid sh0 (s\<lparr>l_next := n\<rparr>) \<longleftrightarrow> lua_ok E tid sh0 s"
  "lua_ok E tid sh0 (s\<lparr>l_mem := m\<rparr>) \<longleftrightarrow> lua_ok E tid sh0 s"
  "lua_ok E tid sh0 (s\<lparr>l_udata := ud\<rparr>) \<longleftrightarrow> lua_ok E tid sh0 s"
  "lua_ok E tid sh0 (s\<lparr>l_sh := (l_sh s)\<lparr>sl_rng := q\<rparr>\<rparr>) \<longleftrightarrow> lua_ok E tid sh0 s"
  by (simp_all add: lua_ok_def sh_ok_def sh_le_def con_ok_def)

lemma lua_ok_sys:
  "lua_ok E tid sh0 s \<Longrightarrow> length (thread_stats (stats y)) = length (thread_stats (stats (sl_sys (l_sh s)))) \<Longrightarrow>
   lua_ok E tid sh0 (s\<lparr>l_sh := (l_sh s)\<lparr>sl_sys := y\<rparr>\<rparr>)"
  by (simp add: lua_ok_def sh_ok_def sh_le_def con_ok_def)

lemma lua_ok_con:
  "lua_ok E tid sh0 s \<Longrightarrow> con_ok tid (l_sh s) c \<Longrightarrow>
   lua_ok E tid sh0 (s\<lparr>l_ctxt := map_option (\<lambda>x. x\<lparr>cx_con := c\<rparr>) (l_ctxt s)\<rparr>)"
  by (auto simp: lua_ok_def)

lemma con_ok_None [simp]: "con_ok tid sh None"
  by (simp add: con_ok_def)

lemma con_ok_same:
  "con_ok tid sh (Some (n, con)) \<Longrightarrow> same_con con s con' s' \<Longrightarrow> con_ok tid sh (Some (n, con'))"
  by (simp add: con_ok_def same_con_def)

text \<open>The step that every operation on the connection makes: the new counters and connection.\<close>

lemma lua_ok_step:
  assumes ok: "lua_ok E tid sh0 s" and con: "l_ctxt s = Some \<lparr>cx_thread_id = tid, cx_con = Some (n, con)\<rparr>"
    and same: "same_con con (sl_sys (l_sh s)) con' y"
  shows "lua_ok E tid sh0 (s\<lparr>l_sh := (l_sh s)\<lparr>sl_sys := y\<rparr>,
           l_ctxt := Some \<lparr>cx_thread_id = tid, cx_con = Some (n, con')\<rparr>\<rparr>)"
  using ok con same
  by (auto simp: lua_ok_def sh_ok_def sh_le_def con_ok_def same_con_def)

lemmas step_defs = the_con_def sb_lua_get_context_def set_sys_def set_con_def throw_errno_def CHECK_CONNECTION_def

lemma keeps_con_query: "keeps (lua_ok E tid sh0) (con_query q)"
proof (rule keepsI)
  fix s assume ok: "lua_ok E tid sh0 s"
  then obtain c where c: "l_ctxt s = Some \<lparr>cx_thread_id = tid, cx_con = c\<rparr>" by (rule lua_okE)
  show "lua_wp (con_query q) (\<lambda>_. lua_ok E tid sh0) (lua_ok E tid sh0) s"
    using ok c lua_ok_step [OF ok]
    by (auto simp: con_query_def step_defs wp_simps split: option.splits prod.splits
        dest!: db_query_same)
qed

lemma keeps_con_store: "keeps (lua_ok E tid sh0) con_store"
proof (rule keepsI)
  fix s assume ok: "lua_ok E tid sh0 s"
  then obtain c where c: "l_ctxt s = Some \<lparr>cx_thread_id = tid, cx_con = c\<rparr>" by (rule lua_okE)
  show "lua_wp con_store (\<lambda>_. lua_ok E tid sh0) (lua_ok E tid sh0) s"
    using ok c lua_ok_step [OF ok]
    by (auto simp: con_store_def step_defs wp_simps split: option.splits prod.splits
        dest!: db_store_results_same)
qed

lemma keeps_con_free: "keeps (lua_ok E tid sh0) con_free"
proof (rule keepsI)
  fix s assume ok: "lua_ok E tid sh0 s"
  then obtain c where c: "l_ctxt s = Some \<lparr>cx_thread_id = tid, cx_con = c\<rparr>" by (rule lua_okE)
  show "lua_wp con_free (\<lambda>_. lua_ok E tid sh0) (lua_ok E tid sh0) s"
    using ok c lua_ok_step [OF ok]
    by (auto simp: con_free_def step_defs wp_simps split: option.splits prod.splits
        dest!: db_free_results_same)
qed

lemma keeps_the_con [simp]: "keeps I the_con" "keeps I sb_lua_get_context" "keeps I throw_errno"
    "keeps I CHECK_CONNECTION"
  by (auto simp: step_defs intro!: keeps_bind split: option.splits)

lemma keeps_set_con_None: "keeps (lua_ok E tid sh0) (set_con None)"
  by (auto simp: set_con_def intro!: keeps_modify lua_ok_con)

lemma keeps_db_once: "keeps (lua_ok E tid sh0) (db_once E)"
proof (rule keepsI)
  fix s assume ok: "lua_ok E tid sh0 s"
  show "lua_wp (db_once E) (\<lambda>_. lua_ok E tid sh0) (lua_ok E tid sh0) s"
    using ok
    by (auto simp: db_once_def wp_simps sb_lua_db_init_once_def lua_ok_def sh_ok_def sh_le_def
        con_ok_def dest: db_init_length split: option.splits sum.splits prod.splits)
qed

section \<open>The functions of scripts keep the invariant\<close>

definition cur_con :: "int \<Rightarrow> nat \<times> 'w db_conn \<Rightarrow> 'w lua_state \<Rightarrow> bool" where
  "cur_con tid c s \<longleftrightarrow> l_ctxt s = Some \<lparr>cx_thread_id = tid, cx_con = Some c\<rparr>"

lemma keeps_db_connect: "keeps (lua_ok E tid sh0) (sb_lua_db_connect E)"
proof -
  have rest: "keeps (lua_ok E tid sh0) (lua_bind (lua_get l_sh) (\<lambda>sh.
      case sl_driver sh of
        None \<Rightarrow> lua_throw (LuaMsg ''DB initialization failed'')
      | Some drv \<Rightarrow> connect_with E tid sh drv))"
    by (rule keepsI)
      (auto simp: connect_with_def wp_simps set_sys_def set_con_def lua_ok_def sh_ok_def sh_le_def con_ok_def
        db_set_thread_def less_Suc_eq dest: db_connect_con split: option.splits prod.splits)
  have ctxt: "lua_wp sb_lua_get_context (\<lambda>c s'. lua_ok E tid sh0 s' \<and> cx_thread_id c = tid) (lua_ok E tid sh0) s"
    if "lua_ok E tid sh0 s" for s
    using that by (auto simp: sb_lua_get_context_def wp_simps lua_ok_def split: option.splits)
  show ?thesis
  proof (rule keepsI)
    fix s assume ok: "lua_ok E tid sh0 s"
    show "lua_wp (sb_lua_db_connect E) (\<lambda>_. lua_ok E tid sh0) (lua_ok E tid sh0) s"
      unfolding sb_lua_db_connect_def lua_wp_bind [of sb_lua_get_context]
      by (rule lua_wp_mono [OF ctxt [OF ok]])
        (use keeps_bind [OF keeps_db_once rest] in \<open>auto simp: keeps_def\<close>)
  qed
qed

lemma keeps_disconnect: "keeps (lua_ok E tid sh0) sb_lua_db_disconnect"
  unfolding sb_lua_db_disconnect_def
  by (intro keeps_bind)
    (auto simp: set_sys_def db_disconnect_stats intro!: keeps_set_con_None keepsI
      lua_ok_sys split: option.splits simp: wp_simps)

lemma the_con_wp:
  "lua_ok E tid sh0 s \<Longrightarrow>
   lua_wp the_con (\<lambda>c s'. lua_ok E tid sh0 s' \<and> cur_con tid c s') (lua_ok E tid sh0) s"
  by (auto simp: the_con_def sb_lua_get_context_def wp_simps lua_ok_def cur_con_def split: option.splits)

lemma CHECK_CONNECTION_wp:
  "lua_ok E tid sh0 s \<Longrightarrow>
   lua_wp CHECK_CONNECTION (\<lambda>c s'. lua_ok E tid sh0 s' \<and> cur_con tid c s') (lua_ok E tid sh0) s"
  by (auto simp: CHECK_CONNECTION_def sb_lua_get_context_def wp_simps lua_ok_def cur_con_def split: option.splits)

lemma ensure_con_wp:
  assumes "lua_ok E tid sh0 s"
  shows "lua_wp (ensure_con E) (\<lambda>c s'. lua_ok E tid sh0 s' \<and> cur_con tid c s') (lua_ok E tid sh0) s"
proof -
  have c: "lua_wp (lua_then (sb_lua_db_connect E) the_con)
      (\<lambda>c s'. lua_ok E tid sh0 s' \<and> cur_con tid c s') (lua_ok E tid sh0) s'" if "lua_ok E tid sh0 s'" for s'
    unfolding lua_wp_bind
    by (rule lua_wp_mono [OF keeps_db_connect [unfolded keeps_def, rule_format, OF that]])
      (simp_all add: the_con_wp)
  obtain d where d: "l_ctxt s = Some d" using assms by (auto elim: lua_okE)
  show ?thesis
    unfolding ensure_con_def using d assms c [OF assms] the_con_wp [OF assms]
    by (simp add: sb_lua_get_context_def wp_simps)
qed

lemma keeps_ensure_con: "keeps (lua_ok E tid sh0) (ensure_con E)"
  by (rule keepsI, rule lua_wp_mono [OF ensure_con_wp]) auto

text \<open>A computation that continues with the current connection.\<close>

lemma keeps_with_con:
  assumes "\<And>s. lua_ok E tid sh0 s \<Longrightarrow>
      lua_wp m (\<lambda>c s'. lua_ok E tid sh0 s' \<and> cur_con tid c s') (lua_ok E tid sh0) s"
    and "\<And>c s. lua_ok E tid sh0 s \<Longrightarrow> cur_con tid c s \<Longrightarrow> lua_wp (f c) (\<lambda>_. lua_ok E tid sh0) (lua_ok E tid sh0) s"
  shows "keeps (lua_ok E tid sh0) (lua_bind m f)"
  by (rule keepsI, unfold lua_wp_bind, rule lua_wp_mono [OF assms(1)]) (auto intro: assms(2))

lemma keeps_check_cstring [simp]: "keeps I (check_cstring E stk i)"
  by (simp add: check_cstring_def keeps_bind)

lemma keeps_query: "keeps (lua_ok E tid sh0) (sb_lua_db_query E args)"
  unfolding sb_lua_db_query_def
  by (intro keeps_bind keeps_if keeps_ensure_con keeps_con_query keeps_con_store keeps_con_free) simp_all

lemma keeps_attempts: "keeps (lua_ok E tid sh0) (query_attempts n q)"
proof (induction n)
  case (Suc n)
  then show ?case by (auto intro!: keeps_bind keeps_con_query keeps_if)
qed simp

lemma keeps_query_retry: "keeps (lua_ok E tid sh0) (sb_lua_db_query_retry E args)"
  unfolding sb_lua_db_query_retry_def
  by (intro keeps_bind keeps_if keeps_ensure_con keeps_attempts keeps_con_store keeps_con_free) simp_all

lemma keeps_bulk_init: "keeps (lua_ok E tid sh0) (sb_lua_db_bulk_insert_init E args)"
  unfolding sb_lua_db_bulk_insert_init_def
proof (rule keeps_with_con [OF ensure_con_wp], assumption)
  fix c s assume ok: "lua_ok E tid sh0 s" and c: "cur_con tid c s"
  obtain n con where [simp]: "c = (n, con)" by (cases c)
  show "lua_wp (case c of (n, con) \<Rightarrow> lua_bind (check_cstring E (ctxt_stack args) 1) (\<lambda>query.
      lua_bind (lua_get l_sh) (\<lambda>sh.
      let (rc, con, y) = db_bulk_insert_init (le_alloc E) con query (sl_sys sh) in
      lua_then (set_sys y) (lua_then (set_con (Some (n, con)))
      (if rc \<noteq> 0 then lua_throw (LuaMsg ''db_bulk_insert_init() failed'') else lua_return [])))))
      (\<lambda>_. lua_ok E tid sh0) (lua_ok E tid sh0) s"
    using ok c lua_ok_step [OF ok]
    by (auto simp: wp_simps check_cstring_def set_sys_def set_con_def cur_con_def
        dest!: db_bulk_insert_init_same split: sum.splits prod.splits)
qed

lemma keeps_bulk_next: "keeps (lua_ok E tid sh0) (sb_lua_db_bulk_insert_next E args)"
  unfolding sb_lua_db_bulk_insert_next_def
proof (rule keeps_with_con [OF CHECK_CONNECTION_wp], assumption)
  fix c s assume ok: "lua_ok E tid sh0 s" and c: "cur_con tid c s"
  show "lua_wp (case c of (n, con) \<Rightarrow> lua_bind (check_cstring E (ctxt_stack args) 1) (\<lambda>query.
      lua_bind (lua_get l_sh) (\<lambda>sh.
      lua_bind (lua_some (db_bulk_insert_next con query (sl_sys sh))) (\<lambda>(rc, con, y).
      lua_then (set_sys y) (lua_then (set_con (Some (n, con)))
      (if rc \<noteq> 0 then lua_throw (LuaMsg ''db_bulk_insert_next() failed'') else lua_return []))))))
      (\<lambda>_. lua_ok E tid sh0) (lua_ok E tid sh0) s"
    using ok c lua_ok_step [OF ok]
    by (auto simp: wp_simps check_cstring_def set_sys_def set_con_def cur_con_def
        dest!: db_bulk_insert_next_same split: sum.splits prod.splits option.splits)
qed

lemma keeps_bulk_done: "keeps (lua_ok E tid sh0) sb_lua_db_bulk_insert_done"
  unfolding sb_lua_db_bulk_insert_done_def
proof (rule keeps_with_con [OF CHECK_CONNECTION_wp], assumption)
  fix c s assume ok: "lua_ok E tid sh0 s" and c: "cur_con tid c s"
  show "lua_wp (case c of (n, con) \<Rightarrow> lua_bind (lua_get l_sh) (\<lambda>sh.
      lua_bind (lua_some (db_bulk_insert_done con (sl_sys sh))) (\<lambda>(con, y).
      lua_then (set_sys y) (lua_then (set_con (Some (n, con))) (lua_return [])))))
      (\<lambda>_. lua_ok E tid sh0) (lua_ok E tid sh0) s"
    using ok c lua_ok_step [OF ok]
    by (auto simp: wp_simps set_sys_def set_con_def cur_con_def
        dest!: db_bulk_insert_done_same split: prod.splits option.splits)
qed

lemma keeps_frame:
  "keeps (lua_ok E tid sh0) (new_udata v)" "keeps (lua_ok E tid sh0) (set_stmt u st)"
  "keeps (lua_ok E tid sh0) (set_mem m)" "keeps (lua_ok E tid sh0) (new_ref E' x)"
  "keeps (lua_ok E tid sh0) (unref r)"
  by (auto simp: new_udata_def set_stmt_def set_mem_def new_ref_def unref_def lua_ok_frame Let_def
      intro!: keeps_bind keeps_modify split: prod.splits)

lemma keeps_check [simp]: "keeps I (check_stmt v)" "keeps I (check_rs v)" "keeps I (check_table v)"
  by (auto simp: check_stmt_def check_rs_def check_table_def intro!: keeps_bind
      split: option.splits lval.splits udata.splits)

lemma keeps_prepare: "keeps (lua_ok E tid sh0) (sb_lua_db_prepare E args)"
proof -
  have p: "keeps (lua_ok E tid sh0) (lua_bind (lua_get l_sh) (\<lambda>sh.
     lua_bind (lua_some (db_prepare (le_alloc E) con q (sl_sys sh))) (\<lambda>(st, y).
     lua_then (set_sys y) (k st))))" if "\<And>st. keeps (lua_ok E tid sh0) (k st)" for con q and k :: "_ \<Rightarrow> (_, lval list) lua_m"
  proof (rule keepsI)
    fix s assume ok: "lua_ok E tid sh0 s"
    show "lua_wp (lua_bind (lua_get l_sh) (\<lambda>sh.
       lua_bind (lua_some (db_prepare (le_alloc E) con q (sl_sys sh))) (\<lambda>(st, y).
       lua_then (set_sys y) (k st)))) (\<lambda>_. lua_ok E tid sh0) (lua_ok E tid sh0) s"
      using that [unfolded keeps_def] lua_ok_sys [OF ok]
      by (auto simp: wp_simps set_sys_def dest!: db_prepare_stats split: option.splits)
  qed
  show ?thesis
    unfolding sb_lua_db_prepare_def
    by (intro keeps_bind keeps_ensure_con)
      (auto intro!: keeps_bind keeps_frame p split: option.splits prod.splits)
qed

lemma keeps_bind_entry: "keeps (lua_ok E tid sh0) (bind_entry E' res pa i e)"
  unfolding bind_entry_def Let_def
  by (cases e) (auto intro!: keeps_bind keeps_frame split: lval.splits prod.splits)

lemma keeps_bind_entries: "keeps (lua_ok E tid sh0) (bind_entries E' res pa i es)"
  by (induction es arbitrary: i) (auto intro!: keeps_bind keeps_bind_entry split: prod.splits)

lemma keeps_stmt_bind:
  "keeps (lua_ok E tid sh0) (stmt_bind_param E' u st bs)" "keeps (lua_ok E tid sh0) (stmt_bind_result E' u st bs)"
  unfolding stmt_bind_param_def stmt_bind_result_def
  by (auto simp: keeps_def wp_simps the_con_def sb_lua_get_context_def set_sys_def set_stmt_def lua_ok_frame Let_def
      intro!: lua_ok_sys dest!: db_bind_stats split: option.splits prod.splits)

lemma keeps_bind_param: "keeps (lua_ok E tid sh0) (sb_lua_db_bind_param E args)"
  unfolding sb_lua_db_bind_param_def Let_def
  by (auto intro!: keeps_bind keeps_frame keeps_bind_entries keeps_stmt_bind split: prod.splits)

lemma keeps_bind_result: "keeps (lua_ok E tid sh0) (sb_lua_db_bind_result E args)"
  unfolding sb_lua_db_bind_result_def Let_def
  by (auto intro!: keeps_bind keeps_frame keeps_bind_entries keeps_stmt_bind split: prod.splits)

lemma keeps_fetch_param: "keeps (lua_ok E tid sh0) (fetch_param E' pa i v)"
  unfolding fetch_param_def Let_def
  by (auto intro!: keeps_bind keeps_frame split: db_bind_type.splits prod.splits option.splits)

lemma keeps_fetch_params: "keeps (lua_ok E tid sh0) (fetch_params E' pa tab i n)"
  by (induction n arbitrary: i) (auto intro!: keeps_bind keeps_fetch_param split: lval.splits)

lemma keeps_rebind: "keeps (lua_ok E tid sh0) (rebind_params E' u st)"
  unfolding rebind_params_def
  by (auto intro!: keeps_bind keeps_stmt_bind split: sum.splits prod.splits)

lemma keeps_execute_result: "keeps (lua_ok E tid sh0) (execute_result u st n b)"
  unfolding execute_result_def by (intro keeps_bind keeps_if keeps_frame) simp_all

lemma keeps_stmt_execute: "keeps (lua_ok E tid sh0) (stmt_execute E' u st)"
  unfolding stmt_execute_def
proof (rule keeps_with_con [OF the_con_wp], assumption)
  fix c s assume ok: "lua_ok E tid sh0 s" and c: "cur_con tid c s"
  have cont: "lua_wp (execute_result u st n b) (\<lambda>_. lua_ok E tid sh0) (lua_ok E tid sh0) s'"
    if "lua_ok E tid sh0 s'" for n b s'
    using that keeps_execute_result unfolding keeps_def by blast
  show "lua_wp (lua_bind (lua_some (stmt_con st c)) (\<lambda>(p, con).
     lua_bind (lua_get l_sh) (\<lambda>sh.
     lua_bind (lua_get l_mem) (\<lambda>m.
     lua_bind (lua_some (current_stmt E' m st p)) (\<lambda>p.
     lua_bind (lua_some (db_execute (Some con) p (sl_sys sh))) (\<lambda>(ok, con', y).
     lua_then (set_sys y) (lua_then (set_con (map_option (Pair (fst c)) con')) (execute_result u st (fst c) ok))))))))
     (\<lambda>_. lua_ok E tid sh0) (lua_ok E tid sh0) s"
    using ok c lua_ok_step [OF ok, of "fst c" "snd c"]
    by (auto simp: lua_wp_bind lua_wp_some lua_wp_get lua_wp_modify set_sys_def set_con_def cur_con_def stmt_con_def
        dest!: db_execute_same intro!: cont split: prod.splits option.splits if_splits)
qed

lemma keeps_execute: "keeps (lua_ok E tid sh0) (sb_lua_db_execute E args)"
  unfolding sb_lua_db_execute_def Let_def
  by (auto intro!: keeps_bind keeps_fetch_params keeps_rebind keeps_stmt_execute split: prod.splits)

lemma keeps_close: "keeps (lua_ok E tid sh0) (sb_lua_db_close args)"
proof -
  have d: "keeps (lua_ok E tid sh0) (lua_bind (lua_get l_sh) (\<lambda>sh.
      set_sys (snd (db_close (Some con) (Some p) (sl_sys sh)))))" for con p
    by (rule keepsI) (simp add: wp_simps set_sys_def lua_ok_sys db_close_stats)
  have c: "keeps (lua_ok E tid sh0) (lua_bind (lua_get l_sh) (\<lambda>sh.
      lua_then (set_sys (snd (db_close (Some con) (Some p) (sl_sys sh)))) m))"
    if "keeps (lua_ok E tid sh0) m" for con p and m :: "(_, lval list) lua_m"
    unfolding lua_bind_assoc [symmetric] by (rule keeps_bind [OF d that])
  show ?thesis
    unfolding sb_lua_db_close_def
    by (auto intro!: keeps_bind keeps_frame c split: prod.splits)
qed

lemma keeps_results:
  "keeps (lua_ok E tid sh0) (sb_lua_db_store_results args)" "keeps (lua_ok E tid sh0) (sb_lua_db_free_results args)"
  unfolding sb_lua_db_store_results_def sb_lua_db_free_results_def
  by (auto intro!: keeps_bind keeps_con_store keeps_con_free keeps_modify simp: lua_ok_frame split: prod.splits)

lemma keeps_rand: "keeps (lua_ok E tid sh0) (lua_rand E gen args)"
  unfolding lua_rand_def Let_def
  by (auto intro!: keeps_bind keeps_modify simp: lua_ok_frame split: prod.splits)

lemma keeps_rnd: "keeps (lua_ok E tid sh0) sb_lua_rnd" "keeps (lua_ok E tid sh0) (sb_lua_rand_str E args)"
  unfolding sb_lua_rnd_def sb_lua_rand_str_def Let_def
  by (auto intro!: keeps_bind keeps_modify simp: lua_ok_frame split: prod.splits)

lemmas keeps_functions = keeps_db_connect keeps_disconnect keeps_query keeps_query_retry keeps_bulk_init
  keeps_bulk_next keeps_bulk_done keeps_prepare keeps_bind_param keeps_bind_result keeps_execute keeps_close
  keeps_results keeps_rand keeps_rnd

lemma keeps_call_c: "keeps (lua_ok E tid sh0) (call_c E name args)"
proof (cases "c_function E name")
  case (Some f)
  then have "keeps (lua_ok E tid sh0) (f args)"
    unfolding c_function_def sb_lua_rand_def sb_lua_rand_uniq_def sb_lua_rand_uniform_def
      sb_lua_rand_gaussian_def sb_lua_rand_special_def
    by (auto split: if_splits intro!: keeps_functions keeps_bind)
  with Some show ?thesis by (simp add: call_c_def)
qed (simp add: call_c_def)

lemma keeps_exec_prog: "keeps (lua_ok E tid sh0) (exec_prog E p)"
proof (induction p)
  case (Call name args k)
  then show ?case by (auto intro!: keeps_bind keeps_catch keeps_call_c)
next
  case (NewTable es k)
  then show ?case by (auto intro!: keeps_bind keeps_modify simp: lua_ok_frame)
next
  case (SetTable t k v p)
  then show ?case by (auto intro!: keeps_bind keeps_modify simp: lua_ok_frame)
next
  case (GetGlobal n k)
  then show ?case by (auto intro!: keeps_bind)
next
  case (SetGlobal n v p)
  then show ?case by (auto intro!: keeps_bind keeps_modify simp: lua_ok_frame)
qed simp_all

lemma keeps_call_global: "keeps (lua_ok E tid sh0) (call_global E sc name args)"
  unfolding call_global_def
  by (auto intro!: keeps_bind keeps_exec_prog keeps_call_c split: lval.splits)

section \<open>The invariant of the test\<close>

definition test_ok :: "'w lua_env \<Rightarrow> 'w lua_shared \<Rightarrow> 'w lua_test \<Rightarrow> bool" where
  "test_ok E sh0 t \<longleftrightarrow>
     sh_ok E (lt_sh t) \<and> sh_le sh0 (lt_sh t) \<and>
     (\<forall>i < length (lt_states t). lua_ok E (int i) (lt_sh t) ((lt_states t ! i)\<lparr>l_sh := lt_sh t\<rparr>)) \<and>
     lua_ok E (- 1) (lt_sh t) ((lt_gstate t)\<lparr>l_sh := lt_sh t\<rparr>)"

lemma sh_le_refl [simp]: "sh_le a a"
  by (simp add: sh_le_def)

lemma sh_le_trans: "sh_le a b \<Longrightarrow> sh_le b c \<Longrightarrow> sh_le a c"
  by (auto simp: sh_le_def)

lemma con_ok_mono: "con_ok tid a c \<Longrightarrow> sh_le a b \<Longrightarrow> con_ok tid b c"
  by (fastforce simp: con_ok_def sh_le_def)

text \<open>The other interpreters see the state that one of them leaves.\<close>

lemma lua_ok_mono:
  assumes "lua_ok E tid a (s\<lparr>l_sh := a\<rparr>)" and "sh_le a b" and "sh_ok E b"
  shows "lua_ok E tid b (s\<lparr>l_sh := b\<rparr>)"
  using assms con_ok_mono [OF _ assms(2), of tid] by (auto simp: lua_ok_def)

lemma in_state_ok:
  assumes ok: "test_ok E sh0 t" and m: "\<And>tid sh. keeps (lua_ok E tid sh) m"
    and r: "in_state i m t = Some (r, t')"
  shows "test_ok E sh0 t'"
proof -
  from r obtain s where i: "i < length (lt_states t)"
    and s: "m ((lt_states t ! i)\<lparr>l_sh := lt_sh t\<rparr>) = Some (r, s)"
      "t' = t\<lparr>lt_states := (lt_states t)[i := s], lt_sh := l_sh s\<rparr>"
    by (auto simp: in_state_def split: if_splits option.splits)
  have "lua_ok E (int i) (lt_sh t) ((lt_states t ! i)\<lparr>l_sh := lt_sh t\<rparr>)" using ok i by (simp add: test_ok_def)
  from keepsD [OF m this s(1)] have k: "lua_ok E (int i) (lt_sh t) s" .
  then have le: "sh_le (lt_sh t) (l_sh s)" and sok: "sh_ok E (l_sh s)" by (simp_all add: lua_ok_def)
  have le0: "sh_le sh0 (l_sh s)" using ok le by (auto simp: test_ok_def intro: sh_le_trans)
  have "lua_ok E (int i) (l_sh s) (s\<lparr>l_sh := l_sh s\<rparr>)" using k by (simp add: lua_ok_def)
  moreover have "lua_ok E (int j) (l_sh s) ((lt_states t ! j)\<lparr>l_sh := l_sh s\<rparr>)" if "j < length (lt_states t)" for j
    using ok that by (intro lua_ok_mono [OF _ le sok]) (simp add: test_ok_def)
  moreover have gst: "lua_ok E (- 1) (l_sh s) ((lt_gstate t)\<lparr>l_sh := l_sh s\<rparr>)"
    using ok by (intro lua_ok_mono [OF _ le sok]) (simp add: test_ok_def)
  ultimately have "lua_ok E (int j) (l_sh s) (((lt_states t)[i := s] ! j)\<lparr>l_sh := l_sh s\<rparr>)"
    if "j < length (lt_states t)" for j using that i by (cases "j = i") simp_all
  with gst show ?thesis using s(2) le0 sok by (auto simp: test_ok_def)
qed

lemma in_gstate_ok:
  assumes ok: "test_ok E sh0 t" and m: "\<And>tid sh. keeps (lua_ok E tid sh) m"
    and r: "in_gstate m t = Some (r, t')"
  shows "test_ok E sh0 t'"
proof -
  from r obtain s where s: "m ((lt_gstate t)\<lparr>l_sh := lt_sh t\<rparr>) = Some (r, s)"
      "t' = t\<lparr>lt_gstate := s, lt_sh := l_sh s\<rparr>"
    by (auto simp: in_gstate_def split: option.splits)
  have "lua_ok E (- 1) (lt_sh t) ((lt_gstate t)\<lparr>l_sh := lt_sh t\<rparr>)" using ok by (simp add: test_ok_def)
  from keepsD [OF m this s(1)] have k: "lua_ok E (- 1) (lt_sh t) s" .
  then have le: "sh_le (lt_sh t) (l_sh s)" and sok: "sh_ok E (l_sh s)" by (simp_all add: lua_ok_def)
  have le0: "sh_le sh0 (l_sh s)" using ok le by (auto simp: test_ok_def intro: sh_le_trans)
  have "lua_ok E (- 1) (l_sh s) (s\<lparr>l_sh := l_sh s\<rparr>)" using k by (simp add: lua_ok_def)
  moreover have "lua_ok E (int j) (l_sh s) ((lt_states t ! j)\<lparr>l_sh := l_sh s\<rparr>)" if "j < length (lt_states t)" for j
    using ok that by (intro lua_ok_mono [OF _ le sok]) (simp add: test_ok_def)
  ultimately show ?thesis using s(2) le0 sok by (auto simp: test_ok_def)
qed

section \<open>Runs of the operations of the test\<close>

text \<open>The operations as the program calls them, in any order and for any threads; the result of
  \<open>lua_step\<close> is the state when the operation returns.\<close>

inductive lua_step :: "'w lua_env \<Rightarrow> lua_script \<Rightarrow> 'w lua_test \<Rightarrow> 'w lua_test \<Rightarrow> bool"
  for E :: "'w lua_env" and sc :: lua_script
where
  get_request: "sb_lua_get_request t = (q, t') \<Longrightarrow> lua_step E sc t t'"
| execute: "sb_lua_op_execute_request E sc i t = Some (rc, t') \<Longrightarrow> lua_step E sc t t'"
| thread_init: "sb_lua_op_thread_init E sc i t = Some (Inr (rc, t')) \<Longrightarrow> lua_step E sc t t'"
| thread_done: "sb_lua_op_thread_done E sc i t = Some (rc, t') \<Longrightarrow> lua_step E sc t t'"
| command: "sb_lua_cmd E sc name t = Some (rc, t') \<Longrightarrow> lua_step E sc t t'"
| report: "sb_lua_op_print_stats fresh now now' type t = Some t' \<Longrightarrow> lua_step E sc t t'"

lemma script_log_ok: "script_log p x t = Some t' \<Longrightarrow> test_ok E sh0 t' \<longleftrightarrow> test_ok E sh0 t"
  by (auto simp: script_log_def test_ok_def)

lemma CALL_ERROR_ok: "CALL_ERROR cv f e t = Some t' \<Longrightarrow> test_ok E sh0 t' \<longleftrightarrow> test_ok E sh0 t"
  by (simp add: CALL_ERROR_def script_log_ok)

lemma event_loop_ok:
  fixes sh0 :: "'w lua_shared"
  assumes "event_loop E sc i t = Some r" and "test_ok E sh0 t"
  shows "test_ok E sh0 (snd r)"
proof (rule mp [OF _ assms(2)], rule event_loop.raw_induct
    [where P = "\<lambda>E sc i t r. test_ok E sh0 t \<longrightarrow> test_ok E sh0 (snd r)", OF _ assms(1)])
  fix loop :: "'w lua_env \<Rightarrow> lua_script \<Rightarrow> nat \<Rightarrow> 'w lua_test \<Rightarrow> (bool \<times> 'w lua_test) option"
    and E :: "'w lua_env" and sc i t r
  assume IH: "\<And>E sc i t r. loop E sc i t = Some r \<Longrightarrow> test_ok E sh0 t \<longrightarrow> test_ok E sh0 (snd r)"
    and body: "(case in_state i (call_global E sc ''event'' [LNumber (of_nat i)]) t of
        None \<Rightarrow> None
      | Some (Inr _, t) \<Rightarrow> Some (True, t)
      | Some (Inl e, t) \<Rightarrow>
          (if is_restart (le_conv E) e
           then (case script_log LOG_DEBUG ''Ignored error encountered, restarting transaction'' t of
                   None \<Rightarrow> None | Some t \<Rightarrow> loop E sc i t)
           else map_option (Pair False) (CALL_ERROR (le_conv E) ''event'' e t))) = Some r"
  show "test_ok E sh0 t \<longrightarrow> test_ok E sh0 (snd r)"
  proof
    assume ok: "test_ok E sh0 t"
    from body obtain x t1 where x: "in_state i (call_global E sc ''event'' [LNumber (of_nat i)]) t = Some (x, t1)"
      by (auto split: option.splits)
    from in_state_ok [OF ok keeps_call_global x] have t1: "test_ok E sh0 t1" by simp
    from body x consider v where "r = (True, t1)" "x = Inr v"
      | t2 p m where "script_log p m t1 = Some t2" "loop E sc i t2 = Some r"
      | e t2 where "CALL_ERROR (le_conv E) ''event'' e t1 = Some t2" "r = (False, t2)"
      by (auto split: sum.splits if_splits option.splits)
    then show "test_ok E sh0 (snd r)"
    proof cases
      case (2 t2)
      with IH [of E sc i t2 r] t1 script_log_ok [of _ _ t1 t2 E sh0] show ?thesis by simp
    next
      case (3 e t2)
      with t1 CALL_ERROR_ok [OF 3(1), of E sh0] show ?thesis by simp
    qed (use t1 in simp)
  qed
qed

lemma log_event_ok: "log_event f i t = Some t' \<Longrightarrow> test_ok E sh0 t' \<longleftrightarrow> test_ok E sh0 t"
  by (auto simp: log_event_def test_ok_def)

text \<open>A change of the database layer that keeps the number of counters.\<close>

lemma test_ok_sys:
  assumes "test_ok E sh0 t" and "length (thread_stats (stats y)) = length (thread_stats (stats (sl_sys (lt_sh t))))"
  shows "test_ok E sh0 (t\<lparr>lt_sh := (lt_sh t)\<lparr>sl_sys := y\<rparr>\<rparr>)"
  using assms by (auto simp: test_ok_def lua_ok_def sh_ok_def sh_le_def con_ok_def)

lemma update_percentile_ok:
  assumes "update_percentile i t = Some t'" and "test_ok E sh0 t"
  shows "test_ok E sh0 t'"
proof -
  from assms(1) obtain p n where "t' = t\<lparr>lt_ticks := n, lt_sh := (lt_sh t)\<lparr>sl_sys := (sl_sys (lt_sh t))
      \<lparr>stats := (stats (sl_sys (lt_sh t)))\<lparr>local_percentile := p\<rparr>\<rparr>\<rparr>\<rparr>"
    by (auto simp: update_percentile_def Let_def split: if_splits option.splits)
  with assms(2) show ?thesis
    using test_ok_sys [of E sh0 "t\<lparr>lt_ticks := n\<rparr>"] by (simp add: test_ok_def)
qed

lemma execute_request_ok:
  assumes "sb_lua_op_execute_request E sc i t = Some (rc, t')" and "test_ok E sh0 t"
  shows "test_ok E sh0 t'"
proof -
  from assms(1) obtain t1 b t2 where t1: "log_event LOG_EVENT_START i t = Some t1"
    and t2: "event_loop E sc i t1 = Some (b, t2)"
    by (auto simp: sb_lua_op_execute_request_def split: option.splits)
  have ok2: "test_ok E sh0 t2"
    using event_loop_ok [OF t2] log_event_ok [OF t1] assms(2) by simp
  show ?thesis
  proof (cases b)
    case True
    with assms(1) t1 t2 obtain t3 where t3: "log_event LOG_EVENT_STOP i t2 = Some t3"
      "t' = t3 \<or> update_percentile i t3 = Some t'"
      by (auto simp: sb_lua_op_execute_request_def split: option.splits if_splits)
    from log_event_ok [OF t3(1)] ok2 have "test_ok E sh0 t3" by simp
    with t3(2) show ?thesis by (auto intro: update_percentile_ok)
  next
    case False
    with assms(1) t1 t2 have "t' = t2\<lparr>lt_error := True\<rparr>"
      by (auto simp: sb_lua_op_execute_request_def)
    with ok2 show ?thesis by (simp add: test_ok_def)
  qed
qed

lemma db_print_stats_length:
  "db_print_stats fresh now now' type st = Some (r, st', l) \<Longrightarrow>
   length (thread_stats st') = length (thread_stats st)"
  by (auto simp: db_print_stats_def print_interval_def Let_def dest!: db_reset_stats_length
      split: sb_stat.splits option.splits)

lemma lua_step_ok:
  assumes "lua_step E sc t t'" and "test_ok E sh0 t"
  shows "test_ok E sh0 t'"
  using assms(1)
proof cases
  case (get_request q)
  with assms(2) show ?thesis by (auto simp: sb_lua_get_request_def test_ok_def split: if_splits)
next
  case (execute i rc)
  with assms(2) show ?thesis by (rule execute_request_ok [rotated])
next
  case (thread_init i rc)
  then obtain x t1 y t2 where x: "in_state i (ensure_con E) t = Some (Inr x, t1)"
    and y: "in_state i (call_global E sc ''thread_init'' [LNumber (of_nat i)]) t1 = Some (y, t2)"
    and r: "t' = t2 \<or> (\<exists>f e. CALL_ERROR (le_conv E) f e t2 = Some t')"
    by (auto simp: sb_lua_op_thread_init_def split: option.splits sum.splits) blast
  have "test_ok E sh0 t2"
    by (rule in_state_ok [OF in_state_ok [OF assms(2) keeps_ensure_con x] keeps_call_global y])
  with r show ?thesis by (auto simp: CALL_ERROR_ok)
next
  case (thread_done i rc)
  then obtain y t2 where y: "in_state i (call_global E sc ''thread_done'' [LNumber (of_nat i)]) t = Some (y, t2)"
    and r: "t' = t2 \<or> (\<exists>f e. CALL_ERROR (le_conv E) f e t2 = Some t')"
    by (auto simp: sb_lua_op_thread_done_def split: option.splits sum.splits) blast
  from in_state_ok [OF assms(2) keeps_call_global y] r show ?thesis by (auto simp: CALL_ERROR_ok)
next
  case (command name rc)
  then obtain y t2 where y: "in_gstate (call_global E sc name []) t = Some (y, t2)"
    and r: "t' = t2 \<or> (\<exists>f e. CALL_ERROR (le_conv E) f e t2 = Some t')"
    by (auto simp: sb_lua_cmd_def split: option.splits sum.splits) blast
  from in_gstate_ok [OF assms(2) keeps_call_global y] r show ?thesis by (auto simp: CALL_ERROR_ok)
next
  case (report fresh now now' type)
  then show ?thesis using assms(2)
    by (auto simp: sb_lua_op_print_stats_def Let_def split: if_splits option.splits
        intro!: test_ok_sys dest!: db_print_stats_length)
qed

text \<open>The state after \<open>script_load_lua\<close>.\<close>

definition test_start :: "'w lua_env \<Rightarrow> 'w lua_test \<Rightarrow> bool" where
  "test_start E t \<longleftrightarrow>
     sl_driver (lt_sh t) = None \<and>
     (\<forall>i < length (lt_states t). l_ctxt (lt_states t ! i) = Some \<lparr>cx_thread_id = int i, cx_con = None\<rparr>) \<and>
     l_ctxt (lt_gstate t) = Some \<lparr>cx_thread_id = - 1, cx_con = None\<rparr>"

lemma test_start_ok: "test_start E t \<Longrightarrow> test_ok E (lt_sh t) t"
  by (auto simp: test_start_def test_ok_def lua_ok_def sh_ok_def)

lemma lua_steps_ok: "(lua_step E sc)\<^sup>*\<^sup>* t t' \<Longrightarrow> test_ok E sh0 t \<Longrightarrow> test_ok E sh0 t'"
  by (induction rule: rtranclp_induct) (auto intro: lua_step_ok)

text \<open>C12: No script can mix up connections: whatever the functions of a script call, in whatever order
  the operations of the test run in the threads, a connection of an interpreter is always one of the
  chosen driver, it counts for the thread of its interpreter and, with a counter for each thread, in
  bounds; and the driver, once chosen, never changes.\<close>

theorem script_connections_consistent:
  assumes "test_start E t0" and "(lua_step E sc)\<^sup>*\<^sup>* t0 t"
    and "i < length (lt_states t)" and "l_ctxt (lt_states t ! i) = Some ctxt" and "cx_con ctxt = Some (n, con)"
    and "length (lt_states t) \<le> length (le_mem E)"
  shows "sl_driver (lt_sh t) \<noteq> None \<and> driver con = sl_driver (lt_sh t) \<and> cx_thread_id ctxt = int i \<and>
         thread_id con = int i \<and> thread_ok con (sl_sys (lt_sh t)) \<and>
         (\<forall>t'. (lua_step E sc)\<^sup>*\<^sup>* t t' \<longrightarrow> sl_driver (lt_sh t') = sl_driver (lt_sh t))"
proof -
  have ok: "test_ok E (lt_sh t0) t" by (rule lua_steps_ok [OF assms(2) test_start_ok [OF assms(1)]])
  then have ok': "test_ok E (lt_sh t) t" by (simp add: test_ok_def)
  have keep: "sh_le (lt_sh t) (lt_sh t')" if "(lua_step E sc)\<^sup>*\<^sup>* t t'" for t'
    using lua_steps_ok [OF that ok'] by (simp add: test_ok_def)
  from ok' have "lua_ok E (int i) (lt_sh t) ((lt_states t ! i)\<lparr>l_sh := lt_sh t\<rparr>)" "sh_ok E (lt_sh t)"
    using assms(3) by (simp_all add: test_ok_def)
  then have c: "cx_thread_id ctxt = int i" "con_ok (int i) (lt_sh t) (Some (n, con))"
    using assms(4,5) by (auto simp: lua_ok_def)
  then have d: "sl_driver (lt_sh t) \<noteq> None" "driver con = sl_driver (lt_sh t)" "thread_id con = int i"
    by (auto simp: con_ok_def)
  moreover have "thread_ok con (sl_sys (lt_sh t))"
    using d(1,3) \<open>sh_ok E (lt_sh t)\<close> assms(3,6) by (simp add: thread_ok_def sh_ok_def)
  moreover have "sl_driver (lt_sh t') = sl_driver (lt_sh t)" if "(lua_step E sc)\<^sup>*\<^sup>* t t'" for t'
    using keep [OF that] d(1) unfolding sh_le_def by blast
  ultimately show ?thesis using c(1) by blast
qed

text \<open>A script whose \<open>thread_done\<close> connects, run by the only thread.\<close>

definition demo_env :: "string list lua_env" where
  "demo_env = \<lparr>le_conv = demo_conv, le_alloc = True, le_junk = 0, le_mem = [zero_stat], le_timers = [],
     le_now = \<lparr>tv_sec = 0, tv_nsec = 0\<rparr>,
     le_opts = [\<lparr>o_name = ''db_ps_mode'', o_type = SB_ARG_TYPE_STRING, o_values = [mk_value ''auto''],
                 o_ignore = False\<rparr>],
     le_scan = (\<lambda>_. None), le_drivers = [example_driver]\<rparr>"

definition demo_shared :: "string list lua_shared" where
  "demo_shared = \<lparr>sl_driver = None, sl_once = False, sl_sys = example_sys,
     sl_rng = \<lparr>lrand = (\<lambda>_. 0), lpos = 0, drand = (\<lambda>_. 0), dpos = 0, rand_type = DIST_TYPE_UNIFORM,
               rand_iter = 1, rand_pct = 1, rand_res = 1, pareto_power = 1, rnd_seed = 0\<rparr>,
     sl_serial = 0\<rparr>"

definition demo_state :: "int \<Rightarrow> string list lua_state" where
  "demo_state tid = \<lparr>l_globals = (\<lambda>_. LNil)(''event'' := LFunction 0, ''thread_done'' := LFunction 1),
     l_tables = Map.empty, l_registry = \<lparr>t_array = [], t_hash = []\<rparr>, l_udata = Map.empty, l_next = 0,
     l_mem = \<lparr>m_arrays = Map.empty, m_bufs = Map.empty, m_next = 0\<rparr>,
     l_ctxt = Some \<lparr>cx_thread_id = tid, cx_con = None\<rparr>, l_sh = demo_shared\<rparr>"

lemma demo_init:
  "\<exists>y. sb_lua_db_init_once demo_env demo_shared = Some (demo_shared\<lparr>sl_driver := Some example_driver, sl_sys := y\<rparr>)"
proof -
  have "sb_get_value_string (le_opts demo_env) ''db-ps-mode'' = Some ''auto''"
    "sb_get_value_string (le_opts demo_env) ''db-driver'' = None"
    "sb_get_value_flag (le_opts demo_env) ''db-debug'' = False"
    unfolding demo_env_def by code_simp+
  then have "db_parse_arguments (le_opts demo_env) =
      Some (Inr \<lparr>ps_mode = DB_PS_MODE_AUTO, g_driver = None, g_debug = False\<rparr>)"
    by (simp add: db_parse_arguments_def)
  then show ?thesis
    by (auto simp: sb_lua_db_init_once_def db_init_def demo_env_def demo_shared_def select_driver_def Let_def
        example_driver_def db_reset_stats_def example_sys_def example_stats_def sb_percentile_init_def
        sb_timer_running_def)
qed

definition demo_script :: lua_script where
  "demo_script = \<lparr>sc_main = None, sc_fun = (\<lambda>k args. if k = 1
     then Call ''db_connect'' [] (\<lambda>_. Return []) else Return [])\<rparr>"

definition demo_logger :: logger where
  "demo_logger = \<lparr>handlers = (\<lambda>_. []), initialized = True, verbosity = 3, text_cnt = 0, text_buf = [],
     oper_rank = 95, oper_percentile = local_percentile (stats example_sys), log_timers = [], stdout = []\<rparr>"

definition demo_test :: "string list lua_test" where
  "demo_test = \<lparr>lt_gstate = demo_state (- 1), lt_states = [demo_state 0], lt_sh = demo_shared, lt_nevents = 0,
     lt_max_requests = 10, lt_error = False, lt_lgr = demo_logger,
     lt_clock = (\<lambda>n. \<lparr>tv_sec = int n, tv_nsec = 0\<rparr>), lt_ticks = 0\<rparr>"

lemma demo_connect:
  "\<exists>s con. sb_lua_db_connect demo_env (demo_state 0) = Some (Inr (), s) \<and>
     l_ctxt s = Some \<lparr>cx_thread_id = 0, cx_con = Some (0, con)\<rparr>"
proof -
  obtain y where y: "sb_lua_db_init_once demo_env demo_shared
      = Some (demo_shared\<lparr>sl_driver := Some example_driver, sl_sys := y\<rparr>)" using demo_init by blast
  let ?sh = "demo_shared\<lparr>sl_driver := Some example_driver, sl_sys := y, sl_once := True\<rparr>"
  have o: "db_once demo_env (demo_state 0) = Some (Inr (), (demo_state 0)\<lparr>l_sh := ?sh\<rparr>)"
    using y by (simp add: db_once_def lua_m_defs demo_state_def demo_shared_def)
  obtain c y' where c: "db_connect (le_alloc demo_env) example_driver y = (Some c, y')"
    by (simp add: db_connect_def demo_env_def example_driver_def)
  have g: "sb_lua_get_context (demo_state 0) = Some (Inr \<lparr>cx_thread_id = 0, cx_con = None\<rparr>, demo_state 0)"
    by (simp add: sb_lua_get_context_def lua_m_defs demo_state_def)
  show ?thesis
    using o c g
    by (simp add: sb_lua_db_connect_def lua_bind_def lua_get_def connect_with_def lua_modify_def set_sys_def
        set_con_def demo_state_def demo_shared_def)
qed

lemma demo_connects:
  "\<exists>t con. sb_lua_op_thread_done demo_env demo_script 0 demo_test = Some (0, t) \<and> length (lt_states t) = 1 \<and>
     l_ctxt (lt_states t ! 0) = Some \<lparr>cx_thread_id = 0, cx_con = Some (0, con)\<rparr>"
proof -
  obtain s con where s: "sb_lua_db_connect demo_env (demo_state 0) = Some (Inr (), s)"
     "l_ctxt s = Some \<lparr>cx_thread_id = 0, cx_con = Some (0, con)\<rparr>" using demo_connect by blast
  have c: "c_function demo_env ''db_connect'' = Some (\<lambda>_. lua_then (sb_lua_db_connect demo_env) (lua_return []))"
    by (simp add: c_function_def)
  have "l_globals (demo_state 0) ''thread_done'' = LFunction 1" by (simp add: demo_state_def)
  then have g: "call_global demo_env demo_script ''thread_done'' args (demo_state 0) = Some (Inr [], s)" for args
    using s(1) by (simp add: call_global_def lua_bind_def lua_get_def demo_script_def lua_catch_def call_c_def c
        lua_return_def)
  have sh: "(demo_state 0)\<lparr>l_sh := lt_sh demo_test\<rparr> = demo_state 0" by (simp add: demo_state_def demo_test_def)
  have "lt_states demo_test = [demo_state 0]" by (simp add: demo_test_def)
  then have "in_state 0 (call_global demo_env demo_script ''thread_done'' args) demo_test
      = Some (Inr [], demo_test\<lparr>lt_states := [s], lt_sh := l_sh s\<rparr>)" for args
    using g sh by (simp add: in_state_def)
  with s(2) show ?thesis by (simp add: sb_lua_op_thread_done_def)
qed

theorem script_connections_consistent_witness:
  "\<exists>t con. (lua_step demo_env demo_script)\<^sup>*\<^sup>* demo_test t \<and>
     l_ctxt (lt_states t ! 0) = Some \<lparr>cx_thread_id = 0, cx_con = Some (0, con)\<rparr> \<and>
     driver con = sl_driver (lt_sh t) \<and> thread_id con = 0"
proof -
  obtain t con where t: "sb_lua_op_thread_done demo_env demo_script 0 demo_test = Some (0, t)"
      "length (lt_states t) = 1"
      "l_ctxt (lt_states t ! 0) = Some \<lparr>cx_thread_id = 0, cx_con = Some (0, con)\<rparr>"
    using demo_connects by blast
  have r: "(lua_step demo_env demo_script)\<^sup>*\<^sup>* demo_test t" using t(1) by (blast intro: lua_step.thread_done)
  have s: "test_start demo_env demo_test"
    by (simp add: test_start_def demo_test_def demo_state_def demo_shared_def)
  have l: "length (lt_states t) \<le> length (le_mem demo_env)" "0 < length (lt_states t)"
    using t(2) by (simp_all add: demo_env_def)
  have c: "cx_con \<lparr>cx_thread_id = 0, cx_con = Some (0, con)\<rparr> = Some (0, con)" by simp
  from script_connections_consistent [OF s r l(2) t(3) c l(1)]
  have "driver con = sl_driver (lt_sh t)" "thread_id con = int 0" by blast+
  with r t(3) show ?thesis by auto
qed

end
