(* ===== verification/Script_Props.thy ===== *)
theory Script_Props
  imports Script_Inv
begin

text \<open>
  What the functions of the scripting layer do: events are repeated while they ask for a restart, a
  failed query raises the error number of the database layer, and the values of a table reach the
  statement they are bound to, integers and NULL always, texts not.
\<close>

section \<open>Queries\<close>

text \<open>The connection of an interpreter, ready for queries.\<close>

definition connected :: "nat \<Rightarrow> 'w db_conn \<Rightarrow> 'w db_driver \<Rightarrow> 'w lua_state \<Rightarrow> bool" where
  "connected n con drv s \<longleftrightarrow>
     (\<exists>ctxt. l_ctxt s = Some ctxt \<and> cx_con ctxt = Some (n, con)) \<and> driver con = Some drv \<and>
     0 \<le> thread_id con \<and> nat (thread_id con) < length (thread_stats (stats (sl_sys (l_sh s))))"

lemma connected_con [simp]:
  "connected n con drv s \<Longrightarrow> the_con s = Some (Inr (n, con), s)"
  "connected n con drv s \<Longrightarrow> CHECK_CONNECTION s = Some (Inr (n, con), s)"
  "connected n con drv s \<Longrightarrow> ensure_con E s = Some (Inr (n, con), s)"
  by (auto simp: connected_def the_con_def CHECK_CONNECTION_def ensure_con_def sb_lua_get_context_def lua_m_defs)

lemma account_result_errno:
  assumes "0 \<le> thread_id con" and "nat (thread_id con) < length (thread_stats (stats s))"
  shows "\<exists>con' s'. account_result err type con s = Some (err = SB_DB_ERROR_NONE, con', s') \<and>
           db_errno con' = (if err = SB_DB_ERROR_RECONNECTED then SB_DB_ERROR_RESTART_TRANSACTION else err) \<and>
           world s' = world s"
  using assms
  by (cases err) (auto simp: account_result_def Let_def db_update_thread_stats_def upd_thread_stat_def)

text \<open>The ignored errors and new connections counted for a thread.\<close>

definition ignored_count :: "nat \<Rightarrow> 'w db_sys \<Rightarrow> u64" where
  "ignored_count k y = db_errors (thread_stats (stats y) ! k) + reconnects (thread_stats (stats y) ! k)"

definition restarts :: "db_error \<Rightarrow> bool" where
  "restarts err \<longleftrightarrow> err = SB_DB_ERROR_RESTART_TRANSACTION \<or> err = SB_DB_ERROR_RECONNECTED"

text \<open>A change of the database layer that keeps what later queries need.\<close>

definition same_layer :: "'w db_sys \<Rightarrow> 'w db_sys \<Rightarrow> bool" where
  "same_layer x y \<longleftrightarrow> length (thread_stats (stats y)) = length (thread_stats (stats x)) \<and>
     local_percentile (stats y) = local_percentile (stats x)"

lemma account_facts:
  assumes "0 \<le> thread_id con" and "nat (thread_id con) < length (thread_stats (stats s))"
  shows "\<exists>y. account_result err type con s = Some (err = SB_DB_ERROR_NONE,
             con\<lparr>db_errno := (if err = SB_DB_ERROR_RECONNECTED then SB_DB_ERROR_RESTART_TRANSACTION else err)\<rparr>, y) \<and>
           world y = world s \<and> same_layer s y \<and>
           ignored_count (nat (thread_id con)) y
             = ignored_count (nat (thread_id con)) s + (if restarts err then 1 else 0)"
  using assms
  by (cases err; cases type)
    (simp_all add: account_result_def Let_def db_update_thread_stats_def upd_thread_stat_def same_layer_def
      ignored_count_def restarts_def count_query_def)

lemma query_state:
  assumes "connected n con drv s" and "cstring q"
    and "op_query (ops drv) (c_ptr con) q (zero_rs\<lparr>rs_connection := Some (c_ptr con)\<rparr>) (world (sl_sys (l_sh s)))
           = (err, r, w)"
  shows "\<exists>con' y ctxt. con_query q s = Some (Inr (err = SB_DB_ERROR_NONE),
             s\<lparr>l_sh := (l_sh s)\<lparr>sl_sys := y\<rparr>, l_ctxt := Some (ctxt\<lparr>cx_con := Some (n, con')\<rparr>)\<rparr>) \<and>
           con' = con\<lparr>rs := r, db_errno := (if err = SB_DB_ERROR_RECONNECTED then SB_DB_ERROR_RESTART_TRANSACTION else err)\<rparr> \<and>
           world y = w \<and> same_layer (sl_sys (l_sh s)) y \<and>
           ignored_count (nat (thread_id con)) y
             = ignored_count (nat (thread_id con)) (sl_sys (l_sh s)) + (if restarts err then 1 else 0)"
proof -
  let ?y = "(sl_sys (l_sh s))\<lparr>world := w\<rparr>"
  have t: "0 \<le> thread_id (con\<lparr>rs := r\<rparr>)" "nat (thread_id (con\<lparr>rs := r\<rparr>)) < length (thread_stats (stats ?y))"
    using assms(1) by (simp_all add: connected_def)
  from account_facts [OF t, of err "db_get_query_type q"] obtain y where
    a: "account_result err (db_get_query_type q) (con\<lparr>rs := r\<rparr>) ?y = Some (err = SB_DB_ERROR_NONE, con\<lparr>rs := r,
          db_errno := (if err = SB_DB_ERROR_RECONNECTED then SB_DB_ERROR_RESTART_TRANSACTION else err)\<rparr>, y)"
    "world y = w" "same_layer ?y y"
    "ignored_count (nat (thread_id con)) y = ignored_count (nat (thread_id con)) ?y + (if restarts err then 1 else 0)"
    by auto
  have "db_query con q (sl_sys (l_sh s)) = Some (err = SB_DB_ERROR_NONE, con\<lparr>rs := r,
          db_errno := (if err = SB_DB_ERROR_RECONNECTED then SB_DB_ERROR_RESTART_TRANSACTION else err)\<rparr>, y)"
    using assms(1,3) a(1) by (simp add: db_query_def connected_def)
  moreover obtain ctxt where "l_ctxt s = Some ctxt" using assms(1) by (auto simp: connected_def)
  ultimately have "con_query q s = Some (Inr (err = SB_DB_ERROR_NONE),
      s\<lparr>l_sh := (l_sh s)\<lparr>sl_sys := y\<rparr>, l_ctxt := Some (ctxt\<lparr>cx_con := Some (n, con\<lparr>rs := r,
          db_errno := (if err = SB_DB_ERROR_RECONNECTED then SB_DB_ERROR_RESTART_TRANSACTION else err)\<rparr>)\<rparr>)\<rparr>)"
    using assms(1) by (simp add: con_query_def lua_bind_def lua_get_def lua_some_def lua_return_def set_sys_def
        set_con_def lua_modify_def)
  moreover have "same_layer (sl_sys (l_sh s)) y"
    "ignored_count (nat (thread_id con)) y
       = ignored_count (nat (thread_id con)) (sl_sys (l_sh s)) + (if restarts err then 1 else 0)"
    using a(3,4) by (simp_all add: same_layer_def ignored_count_def)
  ultimately show ?thesis using a(2) by blast
qed

lemma query_failure:
  assumes c: "connected n con drv s" "cstring q"
      "op_query (ops drv) (c_ptr con) q (zero_rs\<lparr>rs_connection := Some (c_ptr con)\<rparr>) (world (sl_sys (l_sh s)))
         = (err, r, w)" and "err \<noteq> SB_DB_ERROR_NONE"
  shows "\<exists>x con' s'. sb_lua_db_query E (LString q # args) s = Some (Inl (LuaVal (LNumber x)), s') \<and>
           (is_restart (le_conv E) (LuaVal (LNumber x)) \<longleftrightarrow> restarts err) \<and>
           connected n con' drv s' \<and> c_ptr con' = c_ptr con \<and> thread_id con' = thread_id con \<and>
           l_globals s' = l_globals s \<and> sl_driver (l_sh s') = sl_driver (l_sh s) \<and>
           world (sl_sys (l_sh s')) = w \<and> same_layer (sl_sys (l_sh s)) (sl_sys (l_sh s')) \<and>
           ignored_count (nat (thread_id con)) (sl_sys (l_sh s'))
             = ignored_count (nat (thread_id con)) (sl_sys (l_sh s)) + (if restarts err then 1 else 0)"
proof -
  from query_state [OF c] obtain con' y ctxt where
    q: "con_query q s = Some (Inr (err = SB_DB_ERROR_NONE),
          s\<lparr>l_sh := (l_sh s)\<lparr>sl_sys := y\<rparr>, l_ctxt := Some (ctxt\<lparr>cx_con := Some (n, con')\<rparr>)\<rparr>)"
      "con' = con\<lparr>rs := r, db_errno := (if err = SB_DB_ERROR_RECONNECTED then SB_DB_ERROR_RESTART_TRANSACTION else err)\<rparr>"
      "world y = w" "same_layer (sl_sys (l_sh s)) y"
      "ignored_count (nat (thread_id con)) y
         = ignored_count (nat (thread_id con)) (sl_sys (l_sh s)) + (if restarts err then 1 else 0)" by blast
  let ?s = "s\<lparr>l_sh := (l_sh s)\<lparr>sl_sys := y\<rparr>, l_ctxt := Some (ctxt\<lparr>cx_con := Some (n, con')\<rparr>)\<rparr>"
  have k: "check_cstring E (ctxt_stack (LString q # args)) 1 = lua_return q"
    using c(2) by (simp add: check_cstring_def ctxt_stack_def index2adr_def luaL_checklstring_def lua_check_def)
  have "throw_errno ?s = Some (Inl (LuaVal (LNumber (errno_num (db_errno con')))), ?s)"
    by (simp add: throw_errno_def the_con_def sb_lua_get_context_def lua_m_defs)
  then have "sb_lua_db_query E (LString q # args) s = Some (Inl (LuaVal (LNumber (errno_num (db_errno con')))), ?s)"
    using c(1) k q(1) assms(4) by (simp add: sb_lua_db_query_def lua_bind_def lua_return_def)
  moreover have "is_restart (le_conv E) (LuaVal (LNumber (errno_num (db_errno con')))) \<longleftrightarrow> restarts err"
    using assms(4) q(2) by (cases err) (simp_all add: is_restart_def restarts_def)
  moreover have "connected n con' drv ?s"
    using c(1) q(2,4) by (auto simp: connected_def same_layer_def)
  ultimately show ?thesis using q(2-5) by (intro exI [of _ "errno_num (db_errno con')"] exI [of _ con'] exI [of _ ?s]) simp
qed

text \<open>C21: How a failed query reaches a script: \<open>db_query\<close> raises a number, and the layer that runs the
  events takes it as a request to restart exactly when the driver reported an error to ignore or a new
  connection; every other failure ends the thread. The query has been sent once.\<close>

theorem lua_query_failure:
  assumes "connected n con drv s" and "cstring q"
    and "op_query (ops drv) (c_ptr con) q (zero_rs\<lparr>rs_connection := Some (c_ptr con)\<rparr>) (world (sl_sys (l_sh s)))
           = (err, r, w)"
    and "err \<noteq> SB_DB_ERROR_NONE"
  shows "\<exists>x s'. sb_lua_db_query E (LString q # args) s = Some (Inl (LuaVal (LNumber x)), s') \<and>
           world (sl_sys (l_sh s')) = w \<and>
           (is_restart (le_conv E) (LuaVal (LNumber x)) \<longleftrightarrow>
              err = SB_DB_ERROR_RESTART_TRANSACTION \<or> err = SB_DB_ERROR_RECONNECTED)"
  using query_failure [OF assms, of E args] by (auto simp: restarts_def)

text \<open>A driver that reports a deadlock for every query.\<close>

definition deadlock_driver :: "string list db_driver" where
  "deadlock_driver = example_driver\<lparr>ops := (ops example_driver)
     \<lparr>op_query := (\<lambda>_ q r w. (SB_DB_ERROR_RESTART_TRANSACTION, r, w @ [q]))\<rparr>\<rparr>"

theorem lua_query_failure_witness:
  "\<exists>x s'. sb_lua_db_query demo_env [LString ''COMMIT'']
            ((demo_state 0)\<lparr>l_ctxt := Some \<lparr>cx_thread_id = 0,
               cx_con = Some (0, example_conn\<lparr>driver := Some deadlock_driver\<rparr>)\<rparr>\<rparr>)
          = Some (Inl (LuaVal (LNumber x)), s') \<and>
        world (sl_sys (l_sh s')) = [''COMMIT''] \<and> is_restart demo_conv (LuaVal (LNumber x))"
proof -
  let ?con = "example_conn\<lparr>driver := Some deadlock_driver\<rparr>"
  let ?s = "(demo_state 0)\<lparr>l_ctxt := Some \<lparr>cx_thread_id = 0, cx_con = Some (0, ?con)\<rparr>\<rparr>"
  have c: "connected 0 ?con deadlock_driver ?s"
    by (simp add: connected_def demo_state_def demo_shared_def example_conn_def zero_conn_def example_sys_def
        example_stats_def Let_def)
  have q: "op_query (ops deadlock_driver) (c_ptr ?con) ''COMMIT'' (zero_rs\<lparr>rs_connection := Some (c_ptr ?con)\<rparr>)
      (world (sl_sys (l_sh ?s)))
    = (SB_DB_ERROR_RESTART_TRANSACTION, zero_rs\<lparr>rs_connection := Some (c_ptr ?con)\<rparr>, [''COMMIT''])"
    by (simp add: deadlock_driver_def demo_state_def demo_shared_def)
  have s: "cstring ''COMMIT''" "SB_DB_ERROR_RESTART_TRANSACTION \<noteq> SB_DB_ERROR_NONE" by (simp_all add: cstring_def)
  have e: "le_conv demo_env = demo_conv" by (simp add: demo_env_def)
  from lua_query_failure [OF c s(1) q s(2), of demo_env "[]"] show ?thesis by (simp add: e)
qed

section \<open>Events\<close>

text \<open>An event that sends one query: \<open>function event (id) db_query (q) end\<close>.\<close>

definition query_event :: "string \<Rightarrow> lua_prog" where
  "query_event q = Call ''db_query'' [LString q] (\<lambda>r. case r of Inl e \<Rightarrow> Raise e | Inr _ \<Rightarrow> Return [])"

text \<open>The driver answers the query \<open>m\<close> times, from the world \<open>w\<close> on, with an error to ignore or a new
  connection.\<close>

inductive ignored_answers :: "'w db_driver \<Rightarrow> nat option \<Rightarrow> string \<Rightarrow> nat \<Rightarrow> 'w \<Rightarrow> 'w \<Rightarrow> bool" for drv cp q where
  none: "ignored_answers drv cp q 0 w w"
| more: "op_query (ops drv) cp q (zero_rs\<lparr>rs_connection := Some cp\<rparr>) w = (err, r, w1) \<Longrightarrow> restarts err \<Longrightarrow>
    ignored_answers drv cp q m w1 w' \<Longrightarrow> ignored_answers drv cp q (Suc m) w w'"

text \<open>A query that succeeds, with the results stored and freed.\<close>

definition query_done :: "'w db_driver \<Rightarrow> nat option \<Rightarrow> string \<Rightarrow> 'w \<Rightarrow> 'w \<Rightarrow> bool" where
  "query_done drv cp q w w' \<longleftrightarrow>
     (\<exists>r w1 e r1 w2 rc r2.
        op_query (ops drv) cp q (zero_rs\<lparr>rs_connection := Some cp\<rparr>) w = (SB_DB_ERROR_NONE, r, w1) \<and>
        rs_connection r \<noteq> None \<and> op_store_results (ops drv) r w1 = (e, r1, w2) \<and>
        rs_connection r1 \<noteq> None \<and> op_free_results (ops drv) r1 w2 = (rc, r2, w') \<and> db_free_row (rs_row r2) \<noteq> None)"

definition query_fails :: "'w db_driver \<Rightarrow> nat option \<Rightarrow> string \<Rightarrow> 'w \<Rightarrow> 'w \<Rightarrow> bool" where
  "query_fails drv cp q w w' \<longleftrightarrow>
     (\<exists>r. op_query (ops drv) cp q (zero_rs\<lparr>rs_connection := Some cp\<rparr>) w = (SB_DB_ERROR_FAILED, r, w'))"

lemma query_success:
  assumes c: "connected n con drv s" "cstring q" and d: "query_done drv (c_ptr con) q (world (sl_sys (l_sh s))) w'"
  shows "\<exists>s'. sb_lua_db_query E (LString q # args) s = Some (Inr [], s') \<and>
           sl_driver (l_sh s') = sl_driver (l_sh s) \<and> world (sl_sys (l_sh s')) = w' \<and>
           same_layer (sl_sys (l_sh s)) (sl_sys (l_sh s')) \<and>
           ignored_count (nat (thread_id con)) (sl_sys (l_sh s'))
             = ignored_count (nat (thread_id con)) (sl_sys (l_sh s))"
proof -
  from d obtain r w1 e r1 w2 rc r2 row k1 k2 where
    d: "op_query (ops drv) (c_ptr con) q (zero_rs\<lparr>rs_connection := Some (c_ptr con)\<rparr>) (world (sl_sys (l_sh s)))
          = (SB_DB_ERROR_NONE, r, w1)"
      "rs_connection r = Some k1" "op_store_results (ops drv) r w1 = (e, r1, w2)" "rs_connection r1 = Some k2"
      "op_free_results (ops drv) r1 w2 = (rc, r2, w')" "db_free_row (rs_row r2) = Some row"
    by (auto simp: query_done_def)
  from query_state [OF c d(1)] obtain con' y ctxt where
    q: "con_query q s = Some (Inr True,
          s\<lparr>l_sh := (l_sh s)\<lparr>sl_sys := y\<rparr>, l_ctxt := Some (ctxt\<lparr>cx_con := Some (n, con')\<rparr>)\<rparr>)"
      "con' = con\<lparr>rs := r, db_errno := SB_DB_ERROR_NONE\<rparr>" "world y = w1" "same_layer (sl_sys (l_sh s)) y"
      "ignored_count (nat (thread_id con)) y = ignored_count (nat (thread_id con)) (sl_sys (l_sh s))"
    by (auto simp: restarts_def)
  have drv: "driver con = Some drv" using c(1) by (simp add: connected_def)
  have k: "check_cstring E (ctxt_stack (LString q # args)) 1 = lua_return q"
    using c(2) by (simp add: check_cstring_def ctxt_stack_def index2adr_def luaL_checklstring_def lua_check_def)
  let ?s1 = "s\<lparr>l_sh := (l_sh s)\<lparr>sl_sys := y\<lparr>world := w2\<rparr>\<rparr>, l_ctxt := Some (ctxt\<lparr>cx_con := Some (n, con'\<lparr>rs := r1\<rparr>)\<rparr>)\<rparr>"
  let ?s2 = "s\<lparr>l_sh := (l_sh s)\<lparr>sl_sys := y\<lparr>world := w'\<rparr>\<rparr>,
               l_ctxt := Some (ctxt\<lparr>cx_con := Some (n, con'\<lparr>rs := r2\<lparr>rs_row := row\<rparr>\<rparr>)\<rparr>)\<rparr>"
  have st: "con_store (s\<lparr>l_sh := (l_sh s)\<lparr>sl_sys := y\<rparr>, l_ctxt := Some (ctxt\<lparr>cx_con := Some (n, con')\<rparr>)\<rparr>)
      = Some (Inr (), ?s1)"
    using q(2,3) d(2,3) drv
    by (simp add: con_store_def the_con_def sb_lua_get_context_def lua_m_defs set_sys_def set_con_def db_store_results_def)
  have fr: "con_free ?s1 = Some (Inr (), ?s2)"
    using q(2) d(4-6) drv
    by (simp add: con_free_def the_con_def sb_lua_get_context_def lua_m_defs set_sys_def set_con_def db_free_results_def)
  have "sb_lua_db_query E (LString q # args) s = Some (Inr [], ?s2)"
    using c(1) k q(1) st fr by (simp add: sb_lua_db_query_def lua_bind_def lua_return_def)
  then show ?thesis using q(4,5) by (auto simp: same_layer_def ignored_count_def)
qed

text \<open>A thread whose function \<open>event\<close> sends the query \<open>q\<close> on its connection, and a logger that works.\<close>

definition event_ready ::
  "lua_script \<Rightarrow> string \<Rightarrow> nat \<Rightarrow> nat \<Rightarrow> 'w db_conn \<Rightarrow> 'w db_driver \<Rightarrow> 'w lua_test \<Rightarrow> bool" where
  "event_ready sc q i n con drv t \<longleftrightarrow>
     i < length (lt_states t) \<and> connected n con drv ((lt_states t ! i)\<lparr>l_sh := lt_sh t\<rparr>) \<and>
     (\<exists>k. l_globals (lt_states t ! i) ''event'' = LFunction k \<and> (\<forall>args. sc_fun sc k args = query_event q)) \<and>
     cstring q \<and> log_ready (lt_lgr t)"

text \<open>What the runs of such an event keep.\<close>

definition event_frame :: "'w lua_test \<Rightarrow> 'w lua_test \<Rightarrow> bool" where
  "event_frame t t' \<longleftrightarrow>
     lt_error t' = lt_error t \<and> lt_clock t' = lt_clock t \<and> lt_ticks t' = lt_ticks t \<and>
     log_timers (lt_lgr t') = log_timers (lt_lgr t) \<and> oper_percentile (lt_lgr t') = oper_percentile (lt_lgr t) \<and>
     log_ready (lt_lgr t') \<and> sl_driver (lt_sh t') = sl_driver (lt_sh t) \<and>
     same_layer (sl_sys (lt_sh t)) (sl_sys (lt_sh t'))"

lemma event_frame_trans: "event_frame t u \<Longrightarrow> event_frame u v \<Longrightarrow> event_frame t v"
  by (simp add: event_frame_def same_layer_def)

lemma event_frame_holds: "event_frame t t' \<Longrightarrow> oper_holds a (lt_lgr t) \<Longrightarrow> oper_holds a (lt_lgr t')"
  by (simp add: event_frame_def oper_holds_def)

lemma event_call:
  assumes "event_ready sc q i n con drv t"
  shows "in_state i (call_global E sc ''event'' [LNumber (of_nat i)]) t =
     (case sb_lua_db_query E [LString q] ((lt_states t ! i)\<lparr>l_sh := lt_sh t\<rparr>) of
        None \<Rightarrow> None
      | Some (r, s) \<Rightarrow> Some (map_sum (\<lambda>e. e) (\<lambda>_. []) r, t\<lparr>lt_states := (lt_states t)[i := s], lt_sh := l_sh s\<rparr>))"
proof -
  let ?s = "(lt_states t ! i)\<lparr>l_sh := lt_sh t\<rparr>"
  have i: "i < length (lt_states t)" using assms by (simp add: event_ready_def)
  obtain k where k: "l_globals ?s ''event'' = LFunction k" "\<And>args. sc_fun sc k args = query_event q"
    using assms by (auto simp: event_ready_def)
  have e: "call_global E sc ''event'' [LNumber (of_nat i)] ?s = exec_prog E (query_event q) ?s"
    using k by (simp add: call_global_def lua_m_defs)
  show ?thesis
  proof (cases "sb_lua_db_query E [LString q] ?s")
    case None
    then show ?thesis
      using i e by (simp add: in_state_def query_event_def lua_m_defs lua_catch_def call_c_def c_function_def)
  next
    case (Some p)
    obtain x s where "p = (x, s)" by fastforce
    then show ?thesis
      using Some i e
      by (cases x) (simp_all add: in_state_def query_event_def lua_m_defs lua_catch_def call_c_def c_function_def)
  qed
qed

lemma script_log_ready:
  assumes "log_ready (lt_lgr t)"
  shows "\<exists>L. script_log p x t = Some (t\<lparr>lt_lgr := L\<rparr>) \<and> log_ready L \<and> log_timers L = log_timers (lt_lgr t) \<and>
           oper_percentile L = oper_percentile (lt_lgr t)"
  using log_all_frame [OF assms, of "[(p, x)]"] by (auto simp: script_log_def split: option.splits)

lemma event_restarts:
  assumes rd: "event_ready sc q i n con drv t"
    and op: "op_query (ops drv) (c_ptr con) q (zero_rs\<lparr>rs_connection := Some (c_ptr con)\<rparr>) (world (sl_sys (lt_sh t)))
               = (err, r, w)" and err: "restarts err"
  shows "\<exists>e t1 t' con'. in_state i (call_global E sc ''event'' [LNumber (of_nat i)]) t = Some (Inl e, t1) \<and>
           is_restart (le_conv E) e \<and>
           script_log LOG_DEBUG ''Ignored error encountered, restarting transaction'' t1 = Some t' \<and>
           event_ready sc q i n con' drv t' \<and> c_ptr con' = c_ptr con \<and> thread_id con' = thread_id con \<and>
           event_frame t t' \<and> world (sl_sys (lt_sh t')) = w \<and>
           ignored_count (nat (thread_id con)) (sl_sys (lt_sh t'))
             = ignored_count (nat (thread_id con)) (sl_sys (lt_sh t)) + 1"
proof -
  let ?s = "(lt_states t ! i)\<lparr>l_sh := lt_sh t\<rparr>"
  have c: "connected n con drv ?s" "cstring q" using rd by (simp_all add: event_ready_def)
  have ne: "err \<noteq> SB_DB_ERROR_NONE" using err by (auto simp: restarts_def)
  from query_failure [OF c _ ne, of r w E "[]"] op obtain x con' s' where
    s': "sb_lua_db_query E [LString q] ?s = Some (Inl (LuaVal (LNumber x)), s')"
      "is_restart (le_conv E) (LuaVal (LNumber x))" "connected n con' drv s'" "c_ptr con' = c_ptr con"
      "thread_id con' = thread_id con" "l_globals s' = l_globals (lt_states t ! i)"
      "sl_driver (l_sh s') = sl_driver (lt_sh t)" "world (sl_sys (l_sh s')) = w"
      "same_layer (sl_sys (lt_sh t)) (sl_sys (l_sh s'))"
      "ignored_count (nat (thread_id con)) (sl_sys (l_sh s'))
         = ignored_count (nat (thread_id con)) (sl_sys (lt_sh t)) + 1"
    using err by auto
  let ?t1 = "t\<lparr>lt_states := (lt_states t)[i := s'], lt_sh := l_sh s'\<rparr>"
  have "log_ready (lt_lgr ?t1)" using rd by (simp add: event_ready_def)
  from script_log_ready [OF this, of LOG_DEBUG "''Ignored error encountered, restarting transaction''"] obtain L where
    L: "script_log LOG_DEBUG ''Ignored error encountered, restarting transaction'' ?t1 = Some (?t1\<lparr>lt_lgr := L\<rparr>)"
      "log_ready L" "log_timers L = log_timers (lt_lgr t)" "oper_percentile L = oper_percentile (lt_lgr t)" by auto
  have "s'\<lparr>l_sh := l_sh s'\<rparr> = s'" by simp
  then have "event_ready sc q i n con' drv (?t1\<lparr>lt_lgr := L\<rparr>)"
    using rd s'(3,6) L(2) by (simp add: event_ready_def)
  moreover have "event_frame t (?t1\<lparr>lt_lgr := L\<rparr>)" using L s'(7,9) by (simp add: event_frame_def)
  moreover have "in_state i (call_global E sc ''event'' [LNumber (of_nat i)]) t = Some (Inl (LuaVal (LNumber x)), ?t1)"
    using event_call [OF rd, of E] s'(1) by simp
  ultimately show ?thesis using s' L(1)
    by (intro exI [of _ "LuaVal (LNumber x)"] exI [of _ ?t1] exI [of _ "?t1\<lparr>lt_lgr := L\<rparr>"] exI [of _ con']) simp
qed

lemma event_loop_ignored:
  assumes "ignored_answers drv cp q m w w1" and "event_ready sc q i n con drv t"
    and "world (sl_sys (lt_sh t)) = w" and "c_ptr con = cp"
  shows "\<exists>t' con'. event_loop E sc i t = event_loop E sc i t' \<and> event_ready sc q i n con' drv t' \<and>
           c_ptr con' = cp \<and> thread_id con' = thread_id con \<and> event_frame t t' \<and> world (sl_sys (lt_sh t')) = w1 \<and>
           ignored_count (nat (thread_id con)) (sl_sys (lt_sh t'))
             = ignored_count (nat (thread_id con)) (sl_sys (lt_sh t)) + of_nat m"
  using assms
proof (induction arbitrary: t con)
  case (none w)
  then show ?case by (intro exI [of _ t] exI [of _ con]) (simp add: event_ready_def event_frame_def same_layer_def)
next
  case (more w err r w1 m w')
  obtain e t1 t2 con2 where
    s: "in_state i (call_global E sc ''event'' [LNumber (of_nat i)]) t = Some (Inl e, t1)" "is_restart (le_conv E) e"
      "script_log LOG_DEBUG ''Ignored error encountered, restarting transaction'' t1 = Some t2"
      "event_ready sc q i n con2 drv t2" "c_ptr con2 = c_ptr con" "thread_id con2 = thread_id con"
      "event_frame t t2" "world (sl_sys (lt_sh t2)) = w1"
      "ignored_count (nat (thread_id con)) (sl_sys (lt_sh t2)) = ignored_count (nat (thread_id con)) (sl_sys (lt_sh t)) + 1"
    using event_restarts [OF more.prems(1) _ more.hyps(2), of r w1 E] more.hyps(1) more.prems(2,3) by auto
  have l: "event_loop E sc i t = event_loop E sc i t2"
    using s(1-3) by (subst event_loop.simps) simp
  from more.IH [OF s(4,8)] s(5) more.prems(3) obtain t' con' where
    t': "event_loop E sc i t2 = event_loop E sc i t'" "event_ready sc q i n con' drv t'" "c_ptr con' = cp"
      "thread_id con' = thread_id con2" "event_frame t2 t'" "world (sl_sys (lt_sh t')) = w'"
      "ignored_count (nat (thread_id con2)) (sl_sys (lt_sh t'))
         = ignored_count (nat (thread_id con2)) (sl_sys (lt_sh t2)) + of_nat m" by auto
  show ?case
    using l t' s(6,9) event_frame_trans [OF s(7) t'(5)] by (intro exI [of _ t'] exI [of _ con']) simp
qed

lemma event_success:
  assumes rd: "event_ready sc q i n con drv t" and d: "query_done drv (c_ptr con) q (world (sl_sys (lt_sh t))) w'"
  shows "\<exists>t'. event_loop E sc i t = Some (True, t') \<and> event_frame t t' \<and> world (sl_sys (lt_sh t')) = w' \<and>
           ignored_count (nat (thread_id con)) (sl_sys (lt_sh t')) = ignored_count (nat (thread_id con)) (sl_sys (lt_sh t))"
proof -
  let ?s = "(lt_states t ! i)\<lparr>l_sh := lt_sh t\<rparr>"
  have c: "connected n con drv ?s" "cstring q" using rd by (simp_all add: event_ready_def)
  from query_success [OF c, of w' E "[]"] d obtain s' where
    s': "sb_lua_db_query E [LString q] ?s = Some (Inr [], s')" "sl_driver (l_sh s') = sl_driver (lt_sh t)"
      "world (sl_sys (l_sh s')) = w'" "same_layer (sl_sys (lt_sh t)) (sl_sys (l_sh s'))"
      "ignored_count (nat (thread_id con)) (sl_sys (l_sh s')) = ignored_count (nat (thread_id con)) (sl_sys (lt_sh t))"
    by auto
  let ?t = "t\<lparr>lt_states := (lt_states t)[i := s'], lt_sh := l_sh s'\<rparr>"
  have "event_loop E sc i t = Some (True, ?t)"
    using event_call [OF rd, of E] s'(1) by (subst event_loop.simps) simp
  moreover have "event_frame t ?t" using rd s'(2,4) by (simp add: event_frame_def event_ready_def)
  ultimately show ?thesis using s'(3,5) by auto
qed

lemma event_failure:
  assumes rd: "event_ready sc q i n con drv t" and d: "query_fails drv (c_ptr con) q (world (sl_sys (lt_sh t))) w'"
  shows "\<exists>t'. event_loop E sc i t = Some (False, t') \<and> event_frame t t' \<and> world (sl_sys (lt_sh t')) = w' \<and>
           ignored_count (nat (thread_id con)) (sl_sys (lt_sh t')) = ignored_count (nat (thread_id con)) (sl_sys (lt_sh t))"
proof -
  let ?s = "(lt_states t ! i)\<lparr>l_sh := lt_sh t\<rparr>"
  have c: "connected n con drv ?s" "cstring q" using rd by (simp_all add: event_ready_def)
  obtain r where op: "op_query (ops drv) (c_ptr con) q (zero_rs\<lparr>rs_connection := Some (c_ptr con)\<rparr>) (world (sl_sys (lt_sh t)))
      = (SB_DB_ERROR_FAILED, r, w')" using d by (auto simp: query_fails_def)
  from query_failure [OF c, of SB_DB_ERROR_FAILED r w' E "[]"] op obtain x con' s' where
    s': "sb_lua_db_query E [LString q] ?s = Some (Inl (LuaVal (LNumber x)), s')"
      "\<not> is_restart (le_conv E) (LuaVal (LNumber x))" "sl_driver (l_sh s') = sl_driver (lt_sh t)"
      "world (sl_sys (l_sh s')) = w'" "same_layer (sl_sys (lt_sh t)) (sl_sys (l_sh s'))"
      "ignored_count (nat (thread_id con)) (sl_sys (l_sh s')) = ignored_count (nat (thread_id con)) (sl_sys (lt_sh t))"
    by (auto simp: restarts_def)
  let ?t = "t\<lparr>lt_states := (lt_states t)[i := s'], lt_sh := l_sh s'\<rparr>"
  have "log_ready (lt_lgr ?t)" using rd by (simp add: event_ready_def)
  then obtain L where L: "CALL_ERROR (le_conv E) ''event'' (LuaVal (LNumber x)) ?t = Some (?t\<lparr>lt_lgr := L\<rparr>)"
      "log_ready L" "log_timers L = log_timers (lt_lgr t)" "oper_percentile L = oper_percentile (lt_lgr t)"
    unfolding CALL_ERROR_def using script_log_ready [of ?t LOG_FATAL] by fastforce
  have "event_loop E sc i t = Some (False, ?t\<lparr>lt_lgr := L\<rparr>)"
    using event_call [OF rd, of E] s'(1,2) L(1) by (subst event_loop.simps) simp
  moreover have "event_frame t (?t\<lparr>lt_lgr := L\<rparr>)" using L(2-4) s'(3,5) by (simp add: event_frame_def)
  ultimately show ?thesis using s'(4,6) by auto
qed

lemma ignored_forever_step:
  assumes "\<And>m. \<exists>w'. ignored_answers drv cp q m w w'"
  shows "\<exists>err r w1. op_query (ops drv) cp q (zero_rs\<lparr>rs_connection := Some cp\<rparr>) w = (err, r, w1) \<and> restarts err \<and>
           (\<forall>m. \<exists>w'. ignored_answers drv cp q m w1 w')"
proof -
  obtain err r w1 where op: "op_query (ops drv) cp q (zero_rs\<lparr>rs_connection := Some cp\<rparr>) w = (err, r, w1)"
    by (metis prod_cases3)
  have "restarts err \<and> (\<exists>w'. ignored_answers drv cp q m w1 w')" for m
  proof -
    obtain w' where "ignored_answers drv cp q (Suc m) w w'" using assms by blast
    then show ?thesis by cases (use op in auto)
  qed
  with op show ?thesis by blast
qed

lemma event_never_ends:
  assumes "event_ready sc q i n con drv t" and "\<And>m. \<exists>w'. ignored_answers drv (c_ptr con) q m (world (sl_sys (lt_sh t))) w'"
  shows "event_loop E sc i t = None"
proof (rule ccontr)
  let ?P = "\<lambda>con t. event_ready sc q i n con drv t \<and> (\<forall>m. \<exists>w'. ignored_answers drv (c_ptr con) q m (world (sl_sys (lt_sh t))) w')"
  assume "event_loop E sc i t \<noteq> None"
  then obtain r where r: "event_loop E sc i t = Some r" by auto
  have "E = E \<longrightarrow> sc = sc \<longrightarrow> i = i \<longrightarrow> (\<nexists>con. ?P con t)"
  proof (rule event_loop.raw_induct [where P = "\<lambda>E' sc' i' t _. E' = E \<longrightarrow> sc' = sc \<longrightarrow> i' = i \<longrightarrow> (\<nexists>con. ?P con t)", OF _ r],
      intro impI notI, elim exE)
    fix loop E' sc' i' t r con
    assume IH: "\<And>E' sc' i' t r. loop E' sc' i' t = Some r \<Longrightarrow> E' = E \<longrightarrow> sc' = sc \<longrightarrow> i' = i \<longrightarrow> (\<nexists>con. ?P con t)"
      and body: "(case in_state i' (call_global E' sc' ''event'' [LNumber (of_nat i')]) t of
          None \<Rightarrow> None
        | Some (Inr _, t) \<Rightarrow> Some (True, t)
        | Some (Inl e, t) \<Rightarrow>
            (if is_restart (le_conv E') e
             then (case script_log LOG_DEBUG ''Ignored error encountered, restarting transaction'' t of
                     None \<Rightarrow> None | Some t \<Rightarrow> loop E' sc' i' t)
             else map_option (Pair False) (CALL_ERROR (le_conv E') ''event'' e t))) = Some r"
      and eq: "E' = E" "sc' = sc" "i' = i" and p: "?P con t"
    obtain err x w1 where op: "op_query (ops drv) (c_ptr con) q (zero_rs\<lparr>rs_connection := Some (c_ptr con)\<rparr>) (world (sl_sys (lt_sh t)))
        = (err, x, w1)" "restarts err" "\<forall>m. \<exists>w'. ignored_answers drv (c_ptr con) q m w1 w'"
      using ignored_forever_step [of drv "c_ptr con" q "world (sl_sys (lt_sh t))"] p by blast
    obtain e t1 t2 con2 where
      s: "in_state i (call_global E sc ''event'' [LNumber (of_nat i)]) t = Some (Inl e, t1)" "is_restart (le_conv E) e"
        "script_log LOG_DEBUG ''Ignored error encountered, restarting transaction'' t1 = Some t2"
        "event_ready sc q i n con2 drv t2" "c_ptr con2 = c_ptr con" "world (sl_sys (lt_sh t2)) = w1"
      using event_restarts [OF _ op(1,2)] p by blast
    have "loop E sc i t2 = Some r" using body s(1-3) eq by simp
    then have "\<nexists>con. ?P con t2" using IH by blast
    moreover have "?P con2 t2" using s(4-6) op(3) by simp
    ultimately show False by blast
  qed
  with assms show False by blast
qed

text \<open>The messages around an event, and the measurement after it.\<close>

lemma start_logged:
  assumes rd: "event_ready sc q i n con drv t" and lg: "oper_holds a (lt_lgr t)" "i < length (log_timers (lt_lgr t))"
  shows "\<exists>t1. log_event LOG_EVENT_START i t = Some t1 \<and> event_ready sc q i n con drv t1 \<and>
           oper_holds (spec_begin i (lt_clock t (lt_ticks t)) a) (lt_lgr t1) \<and> i < length (log_timers (lt_lgr t1)) \<and>
           lt_sh t1 = lt_sh t \<and> lt_error t1 = lt_error t"
proof -
  obtain L where L: "LOG_EVENT_START (lt_clock t (lt_ticks t)) (int i) (lt_lgr t) = Some L"
    "oper_holds (spec_begin i (lt_clock t (lt_ticks t)) a) L" "length (log_timers L) = length (log_timers (lt_lgr t))"
    using oper_start [OF lg, of "lt_clock t (lt_ticks t)"] by blast
  then have "log_ready L" by (simp add: oper_holds_def)
  with L lg(2) rd show ?thesis by (simp add: log_event_def event_ready_def)
qed

lemma stop_measured:
  assumes lg: "oper_holds a (lt_lgr t)" "i < length (log_timers (lt_lgr t))"
    and h: "hist_of (local_percentile (stats (sl_sys (lt_sh t)))) xs"
  shows "\<exists>t1 t2. log_event LOG_EVENT_STOP i t = Some t1 \<and> sl_driver (lt_sh t1) = sl_driver (lt_sh t) \<and>
           (if sl_driver (lt_sh t1) \<noteq> None then map_option (Pair 0) (update_percentile i t1) else Some (0, t1))
             = Some (0 :: int, t2) \<and>
           lt_error t2 = lt_error t \<and> world (sl_sys (lt_sh t2)) = world (sl_sys (lt_sh t)) \<and>
           thread_stats (stats (sl_sys (lt_sh t2))) = thread_stats (stats (sl_sys (lt_sh t)))"
proof -
  let ?now = "lt_clock t (lt_ticks t)"
  obtain L where L: "LOG_EVENT_STOP ?now (int i) (lt_lgr t) = Some L" "length (log_timers L) = length (log_timers (lt_lgr t))"
    "oper_holds ((spec_end i ?now a)\<lparr>sp_rec := sp_rec a @ [spec_duration i ?now a]\<rparr>) L"
    using oper_stop [OF lg, of ?now] by blast
  let ?t1 = "t\<lparr>lt_lgr := L, lt_ticks := lt_ticks t + 1\<rparr>"
  have t1: "log_event LOG_EVENT_STOP i t = Some ?t1" using L(1) by (simp add: log_event_def)
  have i: "i < length (log_timers L)" using L(2) lg(2) by simp
  then have "sb_timer_initialized (log_timers L ! i)" using L(3) by (simp add: oper_holds_def oper_timers_def)
  then obtain v t' m where v: "sb_timer_value (lt_clock ?t1 (lt_ticks ?t1)) (log_timers L ! i) = Some (v, t', m)"
    by (cases "timer_state (log_timers L ! i)") (auto simp: sb_timer_value_def sb_timer_initialized_def Let_def)
  obtain p where p: "sb_percentile_update (local_percentile (stats (sl_sys (lt_sh t)))) (of_nat (unat v)) = Some p"
    using update_step [OF h] by blast
  let ?t2 = "?t1\<lparr>lt_ticks := lt_ticks ?t1 + 1, lt_sh := (lt_sh t)\<lparr>sl_sys :=
      (sl_sys (lt_sh t))\<lparr>stats := (stats (sl_sys (lt_sh t)))\<lparr>local_percentile := p\<rparr>\<rparr>\<rparr>\<rparr>"
  have u: "update_percentile i ?t1 = Some ?t2"
    using i v p by (simp add: update_percentile_def Let_def)
  show ?thesis
  proof (cases "sl_driver (lt_sh t)")
    case None
    with t1 show ?thesis by simp
  next
    case (Some d)
    with t1 u show ?thesis by - (rule exI [of _ ?t1], rule exI [of _ ?t2], simp)
  qed
qed

text \<open>C13: What an event that sends one query does with the answers of the driver. Errors to ignore (error
  number 1) and new connections restart the event: when the driver gives \<open>m\<close> such answers and then
  executes the query, the query has been sent \<open>m + 1\<close> times, \<open>m\<close> errors or reconnects have been counted for the
  thread and the operation returns 0; when after \<open>m\<close> such answers the query fails, the operation returns 1 and sets
  the global error; when the driver never gives another answer, the operation does not return. The logger
  works and the histogram of the response times is one that \<open>db_init\<close> has set up.\<close>

theorem event_restart_semantics:
  assumes rd: "event_ready sc q i n con drv t"
    and lg: "oper_holds a (lt_lgr t)" "i < length (log_timers (lt_lgr t))"
    and h: "hist_of (local_percentile (stats (sl_sys (lt_sh t)))) xs"
  defines "k \<equiv> nat (thread_id con)" and "w \<equiv> world (sl_sys (lt_sh t))"
  shows "(ignored_answers drv (c_ptr con) q m w w1 \<longrightarrow> query_done drv (c_ptr con) q w1 w2 \<longrightarrow>
            (\<exists>t'. sb_lua_op_execute_request E sc i t = Some (0, t') \<and> lt_error t' = lt_error t \<and>
                  world (sl_sys (lt_sh t')) = w2 \<and>
                  ignored_count k (sl_sys (lt_sh t')) = ignored_count k (sl_sys (lt_sh t)) + of_nat m)) \<and>
         (ignored_answers drv (c_ptr con) q m w w1 \<longrightarrow> query_fails drv (c_ptr con) q w1 w2 \<longrightarrow>
            (\<exists>t'. sb_lua_op_execute_request E sc i t = Some (1, t') \<and> lt_error t' \<and>
                  world (sl_sys (lt_sh t')) = w2 \<and>
                  ignored_count k (sl_sys (lt_sh t')) = ignored_count k (sl_sys (lt_sh t)) + of_nat m)) \<and>
         ((\<forall>m. \<exists>w'. ignored_answers drv (c_ptr con) q m w w') \<longrightarrow> sb_lua_op_execute_request E sc i t = None)"
proof -
  obtain t1 where t1: "log_event LOG_EVENT_START i t = Some t1" "event_ready sc q i n con drv t1"
    "oper_holds (spec_begin i (lt_clock t (lt_ticks t)) a) (lt_lgr t1)" "i < length (log_timers (lt_lgr t1))"
    "lt_sh t1 = lt_sh t" "lt_error t1 = lt_error t"
    using start_logged [OF rd lg] by blast
  have w: "world (sl_sys (lt_sh t1)) = w" by (simp add: t1(5) w_def)
  show ?thesis
  proof (intro conjI impI)
    assume ig: "ignored_answers drv (c_ptr con) q m w w1" and d: "query_done drv (c_ptr con) q w1 w2"
    obtain t2 con2 where t2: "event_loop E sc i t1 = event_loop E sc i t2" "event_ready sc q i n con2 drv t2"
      "c_ptr con2 = c_ptr con" "thread_id con2 = thread_id con" "event_frame t1 t2" "world (sl_sys (lt_sh t2)) = w1"
      "ignored_count k (sl_sys (lt_sh t2)) = ignored_count k (sl_sys (lt_sh t)) + of_nat m"
      using event_loop_ignored [OF ig t1(2) w, of E] t1(5) unfolding k_def by auto
    obtain t3 where t3: "event_loop E sc i t2 = Some (True, t3)" "event_frame t2 t3" "world (sl_sys (lt_sh t3)) = w2"
      "ignored_count k (sl_sys (lt_sh t3)) = ignored_count k (sl_sys (lt_sh t2))"
      using event_success [OF t2(2), of w2 E] d t2(3,4,6) unfolding k_def by auto
    have fr: "event_frame t1 t3" by (rule event_frame_trans [OF t2(5) t3(2)])
    then have h3: "hist_of (local_percentile (stats (sl_sys (lt_sh t3)))) xs" "i < length (log_timers (lt_lgr t3))"
      using h t1(4,5) by (simp_all add: event_frame_def same_layer_def)
    from stop_measured [OF event_frame_holds [OF fr t1(3)] h3(2,1)] obtain t4 t5 where
      t4: "log_event LOG_EVENT_STOP i t3 = Some t4"
        "(if sl_driver (lt_sh t4) \<noteq> None then map_option (Pair 0) (update_percentile i t4) else Some (0, t4)) = Some (0 :: int, t5)"
        "lt_error t5 = lt_error t3" "world (sl_sys (lt_sh t5)) = world (sl_sys (lt_sh t3))"
        "thread_stats (stats (sl_sys (lt_sh t5))) = thread_stats (stats (sl_sys (lt_sh t3)))" by blast
    have "sb_lua_op_execute_request E sc i t = Some (0, t5)"
      using t1(1) t2(1) t3(1) t4(1,2) by (simp add: sb_lua_op_execute_request_def)
    moreover have "ignored_count k (sl_sys (lt_sh t5)) = ignored_count k (sl_sys (lt_sh t)) + of_nat m"
      using t4(5) t3(4) t2(7) by (simp add: ignored_count_def)
    ultimately show "\<exists>t'. sb_lua_op_execute_request E sc i t = Some (0, t') \<and> lt_error t' = lt_error t \<and>
        world (sl_sys (lt_sh t')) = w2 \<and>
        ignored_count k (sl_sys (lt_sh t')) = ignored_count k (sl_sys (lt_sh t)) + of_nat m"
      using t4(3,4) t3(3) fr t1(6) by (auto simp: event_frame_def)
  next
    assume ig: "ignored_answers drv (c_ptr con) q m w w1" and d: "query_fails drv (c_ptr con) q w1 w2"
    obtain t2 con2 where t2: "event_loop E sc i t1 = event_loop E sc i t2" "event_ready sc q i n con2 drv t2"
      "c_ptr con2 = c_ptr con" "thread_id con2 = thread_id con" "world (sl_sys (lt_sh t2)) = w1"
      "ignored_count k (sl_sys (lt_sh t2)) = ignored_count k (sl_sys (lt_sh t)) + of_nat m"
      using event_loop_ignored [OF ig t1(2) w, of E] t1(5) unfolding k_def by auto
    obtain t3 where t3: "event_loop E sc i t2 = Some (False, t3)" "world (sl_sys (lt_sh t3)) = w2"
      "ignored_count k (sl_sys (lt_sh t3)) = ignored_count k (sl_sys (lt_sh t2))"
      using event_failure [OF t2(2), of w2 E] d t2(3-5) unfolding k_def by auto
    have "sb_lua_op_execute_request E sc i t = Some (1, t3\<lparr>lt_error := True\<rparr>)"
      using t1(1) t2(1) t3(1) by (simp add: sb_lua_op_execute_request_def)
    then show "\<exists>t'. sb_lua_op_execute_request E sc i t = Some (1, t') \<and> lt_error t' \<and>
        world (sl_sys (lt_sh t')) = w2 \<and>
        ignored_count k (sl_sys (lt_sh t')) = ignored_count k (sl_sys (lt_sh t)) + of_nat m"
      using t3(2,3) t2(6) by auto
  next
    assume "\<forall>m. \<exists>w'. ignored_answers drv (c_ptr con) q m w w'"
    then have "event_loop E sc i t1 = None" using event_never_ends [OF t1(2)] unfolding w by blast
    with t1(1) show "sb_lua_op_execute_request E sc i t = None" by (simp add: sb_lua_op_execute_request_def)
  qed
qed

text \<open>A driver that reports a deadlock for the first query, and a script with one query.\<close>

definition flaky_driver :: "string list db_driver" where
  "flaky_driver = example_driver\<lparr>ops := (ops example_driver)
     \<lparr>op_query := (\<lambda>_ q r w. (if w = [] then SB_DB_ERROR_RESTART_TRANSACTION else SB_DB_ERROR_NONE, r, w @ [q]))\<rparr>\<rparr>"

definition demo_script :: lua_script where
  "demo_script = \<lparr>sc_main = None, sc_fun = (\<lambda>_ _. query_event ''COMMIT'')\<rparr>"

definition flaky_test :: "sb_percentile \<Rightarrow> string list lua_test" where
  "flaky_test p = demo_test\<lparr>lt_lgr := example_logger p,
     lt_sh := demo_shared\<lparr>sl_driver := Some flaky_driver, sl_sys := \<lparr>world = [], stats = example_stats p\<rparr>\<rparr>,
     lt_states := [(demo_state 0)\<lparr>l_ctxt := Some \<lparr>cx_thread_id = 0,
       cx_con = Some (0, example_conn\<lparr>driver := Some flaky_driver\<rparr>)\<rparr>\<rparr>]\<rparr>"

theorem event_restart_semantics_witness:
  "\<exists>p t'. sb_lua_op_execute_request demo_env demo_script 0 (flaky_test p) = Some (0, t') \<and>
       world (sl_sys (lt_sh t')) = [''COMMIT'', ''COMMIT''] \<and> ignored_count 0 (sl_sys (lt_sh t')) = 1"
proof -
  obtain p where h: "hist_of p []" using example_percentile by blast
  let ?t = "flaky_test p" let ?con = "example_conn\<lparr>driver := Some flaky_driver\<rparr>"
  have rd: "event_ready demo_script ''COMMIT'' 0 0 ?con flaky_driver ?t"
    by (simp add: event_ready_def flaky_test_def connected_def demo_state_def demo_script_def example_conn_def
        zero_conn_def example_stats_def Let_def cstring_def log_ready_def example_logger_def)
  have lg: "oper_holds oper_none (lt_lgr ?t)" "0 < length (log_timers (lt_lgr ?t))"
    using example_logger_holds [OF h] by (simp_all add: flaky_test_def) (simp add: example_logger_def)
  have hist: "hist_of (local_percentile (stats (sl_sys (lt_sh ?t)))) []"
    using h by (simp add: flaky_test_def example_stats_def Let_def)
  have w: "world (sl_sys (lt_sh ?t)) = []" "nat (thread_id ?con) = 0" "ignored_count 0 (sl_sys (lt_sh ?t)) = 0"
    by (simp_all add: flaky_test_def example_conn_def zero_conn_def ignored_count_def example_stats_def Let_def)
  have "op_query (ops flaky_driver) (c_ptr ?con) ''COMMIT'' (zero_rs\<lparr>rs_connection := Some (c_ptr ?con)\<rparr>) []
      = (SB_DB_ERROR_RESTART_TRANSACTION, zero_rs\<lparr>rs_connection := Some (c_ptr ?con)\<rparr>, [''COMMIT''])"
    by (simp add: flaky_driver_def)
  then have ig: "ignored_answers flaky_driver (c_ptr ?con) ''COMMIT'' (Suc 0) [] [''COMMIT'']"
    by (rule ignored_answers.more) (simp_all add: restarts_def ignored_answers.none)
  have d: "query_done flaky_driver (c_ptr ?con) ''COMMIT'' [''COMMIT''] [''COMMIT'', ''COMMIT'']"
    by (simp add: query_done_def flaky_driver_def example_driver_def zero_rs_def)
  from event_restart_semantics [OF rd lg hist, of "Suc 0" "[''COMMIT'']" "[''COMMIT'', ''COMMIT'']" demo_env] ig d
  show ?thesis unfolding w by (intro exI [of _ p]) auto
qed

section \<open>Integer parameters\<close>

text \<open>The value of a table entry for an integer parameter: nil or a number that is an \<open>int\<close>.\<close>

definition lua_int :: "int option \<Rightarrow> lval" where
  "lua_int x = (case x of None \<Rightarrow> LNil | Some k \<Rightarrow> LNumber (of_int k))"

definition int_range :: "int option \<Rightarrow> bool" where
  "int_range x \<longleftrightarrow> (case x of None \<Rightarrow> True | Some k \<Rightarrow> INT_MIN \<le> k \<and> k \<le> INT_MAX)"

text \<open>The text that stands for the value in a query.\<close>

definition int_text :: "int option \<Rightarrow> string" where
  "int_text x = (case x of None \<Rightarrow> ''NULL'' | Some k \<Rightarrow> show_int k)"

text \<open>An array of integer parameters with a buffer each.\<close>

definition int_params :: "lua_mem \<Rightarrow> nat \<Rightarrow> sb_lua_bind list \<Rightarrow> bool" where
  "int_params m pa ps \<longleftrightarrow>
     m_arrays m pa = Some ps \<and> distinct (map lb_buf ps) \<and>
     (\<forall>p \<in> set ps. lb_type p = DB_TYPE_INT \<and> lb_buf p \<noteq> None)"

definition store_int :: "nat \<Rightarrow> nat \<Rightarrow> sb_lua_bind \<Rightarrow> int option \<Rightarrow> lua_mem \<Rightarrow> lua_mem" where
  "store_int pa i p x m =
     (let m = put_param m (Some pa) i (p\<lparr>lb_is_null := (x = None)\<rparr>)
      in case x of None \<Rightarrow> m | Some k \<Rightarrow> m\<lparr>m_bufs := (m_bufs m)(the (lb_buf p) \<mapsto> IntBuf (Some k))\<rparr>)"

lemma fetch_int:
  assumes "param_at (l_mem s) (Some pa) i = Some p" and "lb_type p = DB_TYPE_INT" and "lb_buf p \<noteq> None"
    and "int_range x"
  shows "fetch_param E (Some pa) i (lua_int x) s = Some (Inr False, s\<lparr>l_mem := store_int pa i p x (l_mem s)\<rparr>)"
  using assms
  by (cases x)
    (auto simp: fetch_param_def lua_int_def store_int_def int_range_def lua_m_defs set_mem_def Let_def
      luaL_checknumber_def)

lemma store_int_arrays:
  "m_arrays m pa = Some ps \<Longrightarrow>
   m_arrays (store_int pa i p x m) = (m_arrays m)(pa \<mapsto> ps[i := p\<lparr>lb_is_null := (x = None)\<rparr>])"
  by (cases x) (simp_all add: store_int_def put_param_def Let_def)

lemma store_int_bufs:
  "m_bufs (store_int pa i p x m) =
     (case x of None \<Rightarrow> m_bufs m | Some k \<Rightarrow> (m_bufs m)(the (lb_buf p) \<mapsto> IntBuf (Some k)))"
  by (simp add: store_int_def put_param_def Let_def split: option.split)

text \<open>The memory after the loop, from parameter \<open>i\<close> on.\<close>

definition fetched :: "lua_mem \<Rightarrow> lua_mem \<Rightarrow> nat \<Rightarrow> sb_lua_bind list \<Rightarrow> int option list \<Rightarrow> nat \<Rightarrow> bool" where
  "fetched m m' pa ps xs i \<longleftrightarrow>
     m_arrays m' pa = Some (map (\<lambda>j. if i \<le> j then (ps ! j)\<lparr>lb_is_null := (xs ! j = None)\<rparr> else ps ! j)
                             [0..<length ps]) \<and>
     (\<forall>j k. i \<le> j \<longrightarrow> j < length ps \<longrightarrow> xs ! j = Some k \<longrightarrow>
        m_bufs m' (the (lb_buf (ps ! j))) = Some (IntBuf (Some k))) \<and>
     (\<forall>a. (\<forall>j. i \<le> j \<longrightarrow> j < length ps \<longrightarrow> lb_buf (ps ! j) \<noteq> Some a) \<longrightarrow> m_bufs m' a = m_bufs m a)"

lemma fetch_int_params:
  assumes "int_params (l_mem s) pa ps" and "i + n = length ps" and "l_tables s t = Some entries"
    and "\<And>j. i \<le> j \<Longrightarrow> j < length ps \<Longrightarrow>
           table_lookup entries (LNumber (of_int (lb_id (ps ! j)))) = lua_int (xs ! j) \<and> int_range (xs ! j)"
  shows "\<exists>m'. fetch_params E (Some pa) (LTable t) i n s = Some (Inr False, s\<lparr>l_mem := m'\<rparr>) \<and>
              fetched (l_mem s) m' pa ps xs i"
  using assms
proof (induction n arbitrary: i s ps)
  case 0
  have "map (\<lambda>j. if i \<le> j then (ps ! j)\<lparr>lb_is_null := (xs ! j = None)\<rparr> else ps ! j) [0..<length ps] = ps"
    using 0(2) by (intro nth_equalityI) simp_all
  with 0 show ?case
    by (intro exI [of _ "l_mem s"]) (simp add: lua_return_def fetched_def int_params_def)
next
  case (Suc n)
  let ?p = "ps ! i" and ?x = "xs ! i"
  let ?m = "store_int pa i ?p ?x (l_mem s)" and ?ps = "ps[i := (ps ! i)\<lparr>lb_is_null := (xs ! i = None)\<rparr>]"
  have i: "i < length ps" using Suc.prems(2) by simp
  have arr: "m_arrays (l_mem s) pa = Some ps" and dist: "distinct (map lb_buf ps)"
    and ty: "\<And>j. j < length ps \<Longrightarrow> lb_type (ps ! j) = DB_TYPE_INT \<and> lb_buf (ps ! j) \<noteq> None"
    using Suc.prems(1) by (auto simp: int_params_def)
  have p: "param_at (l_mem s) (Some pa) i = Some ?p" using arr i by (simp add: param_at_def)
  from Suc.prems(4) [of i] i have v: "table_lookup entries (LNumber (of_int (lb_id ?p))) = lua_int ?x" "int_range ?x"
    by simp_all
  have step: "fetch_param E (Some pa) i (lua_int ?x) s = Some (Inr False, s\<lparr>l_mem := ?m\<rparr>)"
    using p ty [OF i] v(2) by (intro fetch_int) auto
  have psj: "?ps ! j = (if j = i then ?p\<lparr>lb_is_null := (?x = None)\<rparr> else ps ! j)" if "j < length ps" for j
    using that by (simp add: nth_list_update)
  have "int_params ?m pa ?ps"
  proof -
    have "map lb_buf ?ps = map lb_buf ps" using i by (simp add: map_update list_update_same_conv)
    with store_int_arrays [OF arr, of i ?p ?x] ty i dist show ?thesis
      by (auto simp: int_params_def in_set_conv_nth psj)
  qed
  then have "int_params (l_mem (s\<lparr>l_mem := ?m\<rparr>)) pa ?ps" by simp
  moreover have "Suc i + n = length ?ps" using Suc.prems(2) by simp
  moreover have "table_lookup entries (LNumber (of_int (lb_id (?ps ! j)))) = lua_int (xs ! j) \<and> int_range (xs ! j)"
    if "Suc i \<le> j" "j < length ?ps" for j
    using Suc.prems(4) [of j] that psj [of j] by simp
  ultimately obtain m' where m': "fetch_params E (Some pa) (LTable t) (Suc i) n (s\<lparr>l_mem := ?m\<rparr>)
      = Some (Inr False, s\<lparr>l_mem := m'\<rparr>)" "fetched ?m m' pa ?ps xs (Suc i)"
    using Suc.IH [of "s\<lparr>l_mem := ?m\<rparr>" ?ps "Suc i"] Suc.prems(3) by auto
  have run: "fetch_params E (Some pa) (LTable t) i (Suc n) s = Some (Inr False, s\<lparr>l_mem := m'\<rparr>)"
    using p v(1) Suc.prems(3) step m'(1) by (simp add: lua_m_defs)
  have other: "lb_buf (ps ! j) \<noteq> lb_buf (ps ! i)" if "j < length ps" "j \<noteq> i" for j
    using that i dist by (simp add: distinct_conv_nth)
  have "fetched (l_mem s) m' pa ps xs i"
    unfolding fetched_def
  proof (intro conjI allI impI)
    have "map (\<lambda>j. if Suc i \<le> j then (?ps ! j)\<lparr>lb_is_null := (xs ! j = None)\<rparr> else ?ps ! j) [0..<length ?ps] =
          map (\<lambda>j. if i \<le> j then (ps ! j)\<lparr>lb_is_null := (xs ! j = None)\<rparr> else ps ! j) [0..<length ps]"
      by (auto simp: psj) (metis le_antisym not_less_eq_eq)+
    with m'(2) show "m_arrays m' pa =
        Some (map (\<lambda>j. if i \<le> j then (ps ! j)\<lparr>lb_is_null := (xs ! j = None)\<rparr> else ps ! j) [0..<length ps])"
      by (simp add: fetched_def)
  next
    fix j k assume j: "i \<le> j" "j < length ps" "xs ! j = Some k"
    show "m_bufs m' (the (lb_buf (ps ! j))) = Some (IntBuf (Some k))"
    proof (cases "j = i")
      case False
      with j m'(2) psj [of j] show ?thesis by (auto simp: fetched_def)
    next
      case True
      have "\<forall>j'. Suc i \<le> j' \<longrightarrow> j' < length ?ps \<longrightarrow> lb_buf (?ps ! j') \<noteq> Some (the (lb_buf ?p))"
        using other ty [OF i] psj by auto
      with m'(2) have "m_bufs m' (the (lb_buf ?p)) = m_bufs ?m (the (lb_buf ?p))" unfolding fetched_def by blast
      with True j(3) show ?thesis by (simp add: store_int_bufs)
    qed
  next
    fix a assume a: "\<forall>j. i \<le> j \<longrightarrow> j < length ps \<longrightarrow> lb_buf (ps ! j) \<noteq> Some a"
    then have "\<forall>j. Suc i \<le> j \<longrightarrow> j < length ?ps \<longrightarrow> lb_buf (?ps ! j) \<noteq> Some a" using psj by auto
    with m'(2) have "m_bufs m' a = m_bufs ?m a" by (auto simp: fetched_def)
    moreover have "the (lb_buf ?p) \<noteq> a" using a i ty [OF i] by auto
    ultimately show "m_bufs m' a = m_bufs (l_mem s) a" by (auto simp: store_int_bufs split: option.splits)
  qed
  with run show ?case by blast
qed

text \<open>A statement of the script whose integer parameters are bound, as \<open>db_prepare\<close> and
  \<open>db_bind_param\<close> leave it for a driver that emulates statements.\<close>

definition int_bound :: "nat \<Rightarrow> nat \<Rightarrow> sb_lua_bind list \<Rightarrow> bind_ptr list" where
  "int_bound pa i ps =
     map (\<lambda>j. \<lparr>bp_type = DB_TYPE_INT, bp_buffer = lb_buf (ps ! j), bp_data_len = None,
               bp_is_null = Some (pa, i + j)\<rparr>) [0..<length ps]"

definition int_stmt ::
  "nat \<Rightarrow> nat \<Rightarrow> db_stmt \<Rightarrow> sb_lua_bind list \<Rightarrow> nat \<Rightarrow> 'w lua_state \<Rightarrow> bool" where
  "int_stmt u n p ps t s \<longleftrightarrow>
     (\<exists>st pa. l_udata s u = Some (UStmt st) \<and> ls_ptr st = Some p \<and> ls_con st = n \<and>
        bound_param p \<noteq> None \<and> ls_params st = Some pa \<and> ls_nparams st = length ps \<and>
        int_params (l_mem s) pa ps \<and>
        ls_bound st = Some (int_bound pa 0 ps) \<and> luaH_getnum (l_registry s) (ls_param_ref st) = LTable t)"

lemma exec_view_int:
  assumes "int_params m pa ps" and "fetched m m' pa ps xs 0" and "j < length ps"
  shows "readable m' (int_bound pa 0 ps ! j) \<and>
         bind_text (exec_view junk m' (int_bound pa 0 ps ! j)) = Some (int_text (xs ! j))"
proof -
  let ?b = "int_bound pa 0 ps ! j"
  obtain a where a: "lb_buf (ps ! j) = Some a" using assms(1,3) nth_mem [of j ps] by (fastforce simp: int_params_def)
  have b: "?b = \<lparr>bp_type = DB_TYPE_INT, bp_buffer = Some a, bp_data_len = None, bp_is_null = Some (pa, j)\<rparr>"
    using assms(3) a by (simp add: int_bound_def)
  have "deref_null m' ?b = Some (xs ! j = None)"
    using assms(2,3) unfolding b by (simp add: deref_null_def deref_param_def param_at_def fetched_def)
  moreover have "m_bufs m' a = Some (IntBuf (Some k))" if "xs ! j = Some k" for k
    using that assms(2,3) a unfolding fetched_def by (metis le0 option.sel)
  ultimately show ?thesis
    unfolding b
    by (cases "xs ! j")
      (auto simp: readable_def exec_view_def bound_view_def bind_text_def value_text_def int_text_def Let_def
        split: bind_data.splits)
qed

text \<open>Executing such a statement hands the driver the present values of the table.\<close>

lemma lua_execute_int:
  assumes c: "connected n con drv s" and st: "int_stmt u n p ps t s" and tab: "l_tables s t = Some entries"
    and xs: "\<And>j. j < length ps \<Longrightarrow>
           table_lookup entries (LNumber (of_int (lb_id (ps ! j)))) = lua_int (xs ! j) \<and> int_range (xs ! j)"
  shows "\<exists>vs st m'. length vs = length ps \<and> (\<forall>j < length ps. bind_text (vs ! j) = Some (int_text (xs ! j))) \<and>
           sb_lua_db_execute E [LUserdata u] s =
             (case db_execute (Some con) (p\<lparr>bound_param := Some vs\<rparr>) (sl_sys (l_sh s)) of
                None \<Rightarrow> None
              | Some (ok, con', y) \<Rightarrow>
                  execute_result u st n ok
                    (s\<lparr>l_mem := m', l_sh := (l_sh s)\<lparr>sl_sys := y\<rparr>,
                       l_ctxt := map_option (\<lambda>x. x\<lparr>cx_con := map_option (Pair n) con'\<rparr>) (l_ctxt s)\<rparr>))"
proof -
  from st obtain st pa where st: "l_udata s u = Some (UStmt st)" "ls_ptr st = Some p" "ls_con st = n"
      "bound_param p \<noteq> None" "ls_params st = Some pa" "ls_nparams st = length ps"
      "int_params (l_mem s) pa ps" "ls_bound st = Some (int_bound pa 0 ps)"
      "luaH_getnum (l_registry s) (ls_param_ref st) = LTable t"
    unfolding int_stmt_def by blast
  from fetch_int_params [OF st(7), where i = 0 and n = "length ps" and xs = xs and E = E, OF _ tab] xs
  obtain m' where m': "fetch_params E (Some pa) (LTable t) 0 (length ps) s = Some (Inr False, s\<lparr>l_mem := m'\<rparr>)"
    "fetched (l_mem s) m' pa ps xs 0" by auto
  let ?bs = "int_bound pa 0 ps" and ?s = "s\<lparr>l_mem := m'\<rparr>"
  let ?vs = "map (exec_view (le_junk E) m') ?bs"
  have len: "length ?bs = length ps" by (simp add: int_bound_def)
  have view: "readable m' (?bs ! j) \<and> bind_text (exec_view (le_junk E) m' (?bs ! j)) = Some (int_text (xs ! j))"
    if "j < length ps" for j using exec_view_int [OF st(7) m'(2) that] .
  have "list_all (readable m') ?bs" using view len by (simp add: list_all_length)
  then have cur: "current_stmt E m' st p = Some (p\<lparr>bound_param := Some ?vs\<rparr>)"
    using st(4,8) by (auto simp: current_stmt_def)
  have con: "connected n con drv ?s" using c by (simp add: connected_def)
  have chk: "check_stmt (index2adr (ctxt_stack [LUserdata u]) 1) s = Some (Inr (u, st), s)"
    using st(1) by (simp add: check_stmt_def ctxt_stack_def index2adr_def lua_m_defs)
  have exe: "stmt_execute E u st ?s =
      (case db_execute (Some con) (p\<lparr>bound_param := Some ?vs\<rparr>) (sl_sys (l_sh s)) of
         None \<Rightarrow> None
       | Some (ok, con', y) \<Rightarrow>
           execute_result u st n ok
             (s\<lparr>l_mem := m', l_sh := (l_sh s)\<lparr>sl_sys := y\<rparr>,
                l_ctxt := map_option (\<lambda>x. x\<lparr>cx_con := map_option (Pair n) con'\<rparr>) (l_ctxt s)\<rparr>))"
    using con st(2,3) cur
    by (simp add: stmt_execute_def lua_bind_def lua_get_def lua_some_def lua_return_def lua_undef_def stmt_con_def
        set_sys_def set_con_def lua_modify_def split: option.split prod.split)
  have "sb_lua_db_execute E [LUserdata u] s = stmt_execute E u st ?s"
    using c chk st(5,6,9) m'(1)
    by (simp add: sb_lua_db_execute_def lua_bind_def lua_get_def lua_assert_def lua_return_def)
  with exe view len show ?thesis
    by (intro exI [of _ ?vs] exI [of _ st] exI [of _ m']) simp
qed

text \<open>The array that \<open>db_bind_param\<close> makes for keys \<open>ks\<close>, with buffers from address \<open>a\<close> on.\<close>

fun int_array :: "nat \<Rightarrow> int list \<Rightarrow> sb_lua_bind list" where
  "int_array a [] = []"
| "int_array a (k # ks) = zero_bind\<lparr>lb_buf := Some a, lb_id := k, lb_type := DB_TYPE_INT\<rparr> # int_array (a + 1) ks"

lemma int_array_length [simp]: "length (int_array a ks) = length ks"
  by (induction ks arbitrary: a) auto

lemma int_array_nth:
  "j < length ks \<Longrightarrow> int_array a ks ! j = zero_bind\<lparr>lb_buf := Some (a + j), lb_id := ks ! j, lb_type := DB_TYPE_INT\<rparr>"
  by (induction ks arbitrary: a j) (auto simp: nth_Cons split: nat.splits)

lemma int_bound_Cons:
  "int_bound pa i (p # ps) =
     \<lparr>bp_type = DB_TYPE_INT, bp_buffer = lb_buf p, bp_data_len = None, bp_is_null = Some (pa, i)\<rparr> # int_bound pa (i + 1) ps"
  by (rule nth_equalityI) (auto simp: int_bound_def nth_Cons nth_append simp del: upt_Suc split: nat.splits)

text \<open>A table of numbers with integer keys, as \<open>lua_next\<close> lists it.\<close>

definition num_table :: "int list \<Rightarrow> (lval \<times> lval) list \<Rightarrow> bool" where
  "num_table ks entries \<longleftrightarrow>
     list_all2 (\<lambda>k (key, v). key = LNumber (of_int k) \<and> (\<exists>x. v = LNumber x) \<and> INT_MIN \<le> k \<and> k \<le> INT_MAX) ks entries"

lemma bind_int_entries:
  assumes "num_table ks es" and "m_arrays (l_mem s) pa = Some arr" and "length arr = i + length es"
  shows "\<exists>m'. bind_entries E False pa i es s =
                Some (Inr (int_bound pa i (int_array (m_next (l_mem s)) ks), False), s\<lparr>l_mem := m'\<rparr>) \<and>
              m_arrays m' pa = Some (take i arr @ int_array (m_next (l_mem s)) ks)"
  using assms
proof (induction es arbitrary: ks i s arr)
  case Nil
  then show ?case
    by (intro exI [of _ "l_mem s"]) (simp add: num_table_def lua_return_def int_bound_def)
next
  case (Cons e es)
  from Cons.prems(1) obtain k ks' x where k: "ks = k # ks'" "e = (LNumber (of_int k), LNumber x)"
    "INT_MIN \<le> k" "k \<le> INT_MAX" "num_table ks' es"
    by (cases e) (auto simp: num_table_def list_all2_Cons2)
  let ?a = "m_next (l_mem s)"
  let ?p = "zero_bind\<lparr>lb_buf := Some ?a, lb_id := k, lb_type := DB_TYPE_INT\<rparr>"
  let ?b = "\<lparr>bp_type = DB_TYPE_INT, bp_buffer = Some ?a, bp_data_len = None, bp_is_null = Some (pa, i)\<rparr>"
  have i: "i < length arr" using Cons.prems(3) by simp
  obtain m1 where m1: "bind_entry E False pa i e s = Some (Inr (?b, False), s\<lparr>l_mem := m1\<rparr>)"
    "m_arrays m1 pa = Some (arr[i := ?p])" "m_next m1 = ?a + 1"
    using Cons.prems(2) k
    by (auto simp: bind_entry_def lua_m_defs set_mem_def mem_alloc_def put_param_def luaL_checknumber_def Let_def)
  have "m_arrays (l_mem (s\<lparr>l_mem := m1\<rparr>)) pa = Some (arr[i := ?p])" "length (arr[i := ?p]) = i + 1 + length es"
    using m1(2) Cons.prems(3) by simp_all
  from Cons.IH [OF k(5) this] obtain m' where m': "bind_entries E False pa (i + 1) es (s\<lparr>l_mem := m1\<rparr>) =
        Some (Inr (int_bound pa (i + 1) (int_array (?a + 1) ks'), False), s\<lparr>l_mem := m'\<rparr>)"
      "m_arrays m' pa = Some (take (i + 1) (arr[i := ?p]) @ int_array (?a + 1) ks')"
    using m1(3) by auto
  have "take (i + 1) (arr[i := ?p]) = take i arr @ [?p]" using i by (simp add: take_Suc_conv_app_nth)
  moreover have "bind_entries E False pa i (e # es) s =
      Some (Inr (int_bound pa i (int_array ?a ks), False), s\<lparr>l_mem := m'\<rparr>)"
    using m1(1) m'(1) k(1) by (simp add: lua_bind_def lua_return_def int_bound_Cons)
  ultimately show ?case using m'(2) k(1) by (intro exI [of _ m']) simp
qed

lemma int_params_array: "m_arrays m pa = Some (int_array a ks) \<Longrightarrow> int_params m pa (int_array a ks)"
  by (auto simp: int_params_def distinct_conv_nth int_array_nth in_set_conv_nth)

text \<open>Binding a table of numbers to a statement of an emulating driver.\<close>

lemma lua_bind_int:
  assumes c: "connected n con drv s" and alloc: "le_alloc E"
    and st: "l_udata s u = Some (UStmt st)" "ls_ptr st = Some p" "ls_con st = n"
    and tab: "l_tables s t = Some entries" "num_table ks entries" "entries \<noteq> []"
    and drv: "\<And>bs. db_bind_param (Some con) p bs (sl_sys (l_sh s)) = (0, p\<lparr>bound_param := Some bs\<rparr>, y)"
    and y: "thread_stats (stats y) = thread_stats (stats (sl_sys (l_sh s)))"
  shows "\<exists>s' bs a. sb_lua_db_bind_param E [LUserdata u, LTable t] s = Some (Inr [], s') \<and>
           connected n con drv s' \<and> l_tables s' = l_tables s \<and> sl_sys (l_sh s') = y \<and>
           int_stmt u n (p\<lparr>bound_param := Some bs\<rparr>) (int_array a ks) t s'"
proof -
  let ?k = "length entries" and ?m = "l_mem s"
  let ?pa = "m_next ?m" and ?st = "st\<lparr>ls_params := Some (m_next ?m)\<rparr>"
  let ?m1 = "?m\<lparr>m_arrays := (m_arrays ?m)(?pa \<mapsto> replicate ?k zero_bind), m_next := ?pa + 1\<rparr>"
  let ?s1 = "s\<lparr>l_mem := ?m1, l_udata := (l_udata s)(u \<mapsto> UStmt ?st)\<rparr>"
  have len: "length ks = ?k" using tab(2) by (auto simp: num_table_def list_all2_lengthD)
  obtain m2 where m2: "bind_entries E False ?pa 0 entries ?s1 =
        Some (Inr (int_bound ?pa 0 (int_array (?pa + 1) ks), False), ?s1\<lparr>l_mem := m2\<rparr>)"
      "m_arrays m2 ?pa = Some (int_array (?pa + 1) ks)"
    using bind_int_entries [OF tab(2), of ?s1 ?pa "replicate ?k zero_bind" 0 E] by auto
  let ?bs = "int_bound ?pa 0 (int_array (?pa + 1) ks)"
  let ?vs = "map (bound_view (le_junk E) m2) ?bs"
  let ?st2 = "?st\<lparr>ls_ptr := Some (p\<lparr>bound_param := Some ?vs\<rparr>), ls_bound := Some ?bs\<rparr>"
  let ?s2 = "?s1\<lparr>l_mem := m2\<rparr>"
  let ?s3 = "?s2\<lparr>l_sh := (l_sh s)\<lparr>sl_sys := y\<rparr>, l_udata := (l_udata s)(u \<mapsto> UStmt ?st2)\<rparr>"
  have con2: "connected n con drv ?s2" using c by (simp add: connected_def)
  have b: "stmt_bind_param E u ?st ?bs ?s2 = Some (Inr (0, ?st2), ?s3)"
    using con2 st(2,3) drv
    by (simp add: stmt_bind_param_def lua_bind_def lua_get_def lua_some_def lua_return_def stmt_con_def set_sys_def
        set_stmt_def lua_modify_def Let_def connected_def)
  obtain r reg where r: "luaL_ref (le_conv E) luaH_getnum luaH_setnum luaH_getn (LTable t) (l_registry s) = (r, reg)"
    by fastforce
  let ?s4 = "?s3\<lparr>l_registry := reg, l_udata := (l_udata s)(u \<mapsto> UStmt (?st2\<lparr>ls_nparams := ?k, ls_param_ref := r\<rparr>))\<rparr>"
  have get: "luaH_getnum reg r = LTable t"
    using r by (auto simp: luaL_ref_def Let_def reg.get_put split: if_splits)
  have "sb_lua_db_bind_param E [LUserdata u, LTable t] s = Some (Inr [], ?s4)"
    using c st(1) tab(1,3) alloc m2(1) b r
    by (simp add: sb_lua_db_bind_param_def lua_bind_def lua_get_def lua_some_def lua_return_def check_stmt_def
        check_table_def ctxt_stack_def index2adr_def sb_lua_table_size_def lua_assert_def array_alloc_def Let_def
        set_mem_def set_stmt_def lua_modify_def new_ref_def)
  moreover have "connected n con drv ?s4" using c y by (simp add: connected_def)
  moreover have "int_stmt u n (p\<lparr>bound_param := Some ?vs\<rparr>) (int_array (?pa + 1) ks) t ?s4"
    using st(3) len get m2(2) int_params_array [OF m2(2)] by (simp add: int_stmt_def)
  ultimately show ?thesis by (intro exI [of _ ?s4] exI [of _ ?vs] exI [of _ "?pa + 1"]) simp
qed

text \<open>What a script sees of the execution of a statement.\<close>

lemma execute_result_outcome:
  assumes "l_ctxt s = Some ctxt" and "cx_con ctxt = Some (n, con)"
    and "db_errno con = (if err = SB_DB_ERROR_RECONNECTED then SB_DB_ERROR_RESTART_TRANSACTION else err)"
  shows "\<exists>r s'. execute_result u st n (err = SB_DB_ERROR_NONE) s = Some (r, s') \<and> l_sh s' = l_sh s \<and>
           (if err = SB_DB_ERROR_NONE then \<exists>k. r = Inr [LUserdata k]
            else \<exists>x. r = Inl (LuaVal (LNumber x)) \<and>
                   (is_restart cv (LuaVal (LNumber x)) \<longleftrightarrow>
                      err = SB_DB_ERROR_RESTART_TRANSACTION \<or> err = SB_DB_ERROR_RECONNECTED))"
  using assms
  by (cases err)
    (auto simp: execute_result_def new_udata_def set_stmt_def throw_errno_def the_con_def sb_lua_get_context_def
      lua_m_defs is_restart_def)

section \<open>Text parameters\<close>

text \<open>A text parameter of an emulated statement is read past the end of its buffer: \<open>db_execute\<close> copies
  the characters of the text without a NUL into a buffer of exactly their number, binds it and
  executes the statement, and the driver prints the buffer with \<open>%s\<close>, without its length. This happens at the
  first execution of a statement to which a script has bound a non-empty text, whatever its length.\<close>

theorem text_parameter_overread:
  assumes c: "connected n con drv s" and alloc: "le_alloc E"
    and st: "l_udata s u = Some (UStmt st)" "ls_ptr st = Some p" "ls_con st = n"
    and tab: "l_tables s t = Some [(LNumber (of_int k), LString x)]" "INT_MIN \<le> k" "k \<le> INT_MAX"
    and x: "x \<noteq> []" "cstring x"
    and drv: "\<And>bs. db_bind_param (Some con) p bs (sl_sys (l_sh s)) = (0, p\<lparr>bound_param := Some bs\<rparr>, sl_sys (l_sh s))"
  shows "\<exists>s1. sb_lua_db_bind_param E [LUserdata u, LTable t] s = Some (Inr [], s1) \<and>
           sb_lua_db_execute E [LUserdata u] s1 = None"
proof -
  let ?pa = "m_next (l_mem s)"
  let ?p0 = "zero_bind\<lparr>lb_id := k, lb_type := DB_TYPE_CHAR\<rparr>"
  obtain r reg where r: "luaL_ref (le_conv E) luaH_getnum luaH_setnum luaH_getn (LTable t) (l_registry s) = (r, reg)"
    by fastforce
  then have get: "luaH_getnum reg r = LTable t" by (auto simp: luaL_ref_def Let_def reg.get_put split: if_splits)
  let ?st = "st\<lparr>ls_params := Some ?pa, ls_nparams := 1, ls_param_ref := r\<rparr>"
  have "\<exists>s1. sb_lua_db_bind_param E [LUserdata u, LTable t] s = Some (Inr [], s1) \<and>
      connected n con drv s1 \<and> l_udata s1 u = Some (UStmt ?st) \<and> l_tables s1 = l_tables s \<and>
      l_registry s1 = reg \<and> l_sh s1 = l_sh s \<and> m_arrays (l_mem s1) ?pa = Some [?p0]"
    using c st(1) tab alloc r
    by (auto simp: sb_lua_db_bind_param_def lua_m_defs check_stmt_def check_table_def ctxt_stack_def index2adr_def
        sb_lua_table_size_def array_alloc_def Let_def set_mem_def set_stmt_def new_ref_def bind_entry_def put_param_def
        luaL_checknumber_def connected_def)
  then obtain s1 where s1: "sb_lua_db_bind_param E [LUserdata u, LTable t] s = Some (Inr [], s1)"
      "connected n con drv s1" "l_udata s1 u = Some (UStmt ?st)" "l_tables s1 = l_tables s"
      "l_registry s1 = reg" "l_sh s1 = l_sh s" "m_arrays (l_mem s1) ?pa = Some [?p0]" by blast
  let ?a = "m_next (l_mem s1)"
  have cs: "c_str x = x" "CHR 0x00 \<notin> set x" using x(2) by (simp_all add: cstring_def c_str_id)
  have f: "\<exists>m. fetch_params E (Some ?pa) (LTable t) 0 1 s1 = Some (Inr True, s1\<lparr>l_mem := m\<rparr>) \<and>
      m_arrays m ?pa = Some [?p0\<lparr>lb_buf := Some ?a, lb_buflen := length x\<rparr>] \<and> m_bufs m ?a = Some (CharBuf x)"
    using s1(4,7) tab(1) x(1) alloc cs
    by (auto simp: lua_m_defs fetch_param_def table_lookup_def param_at_def put_param_def set_mem_def Let_def
        luaL_checklstring_def mem_alloc_def strncpy_to_def zero_bind_def)
  then obtain m where m: "fetch_params E (Some ?pa) (LTable t) 0 1 s1 = Some (Inr True, s1\<lparr>l_mem := m\<rparr>)"
      "m_arrays m ?pa = Some [?p0\<lparr>lb_buf := Some ?a, lb_buflen := length x\<rparr>]" "m_bufs m ?a = Some (CharBuf x)"
    by blast
  let ?b = "\<lparr>bp_type = DB_TYPE_CHAR, bp_buffer = Some ?a, bp_data_len = Some (?pa, 0), bp_is_null = None\<rparr>"
  let ?v = "bound_view (le_junk E) m ?b"
  let ?st2 = "?st\<lparr>ls_ptr := Some (p\<lparr>bound_param := Some [?v]\<rparr>), ls_bound := Some [?b]\<rparr>"
  have c2: "connected n con drv (s1\<lparr>l_mem := m\<rparr>)" using s1(2) by (simp add: connected_def)
  have "\<exists>s2. rebind_params E u ?st (s1\<lparr>l_mem := m\<rparr>) = Some (Inr ?st2, s2) \<and> connected n con drv s2 \<and> l_mem s2 = m"
    using c2 m(2) st(2,3) drv alloc s1(6)
    by (simp add: rebind_params_def stmt_bind_param_def lua_m_defs stmt_con_def Let_def set_sys_def set_stmt_def
        zero_bind_def) (simp add: connected_def)
  then obtain s2 where s2: "rebind_params E u ?st (s1\<lparr>l_mem := m\<rparr>) = Some (Inr ?st2, s2)"
      "connected n con drv s2" "l_mem s2 = m" by blast
  have "\<not> readable m ?b" using m(3) cs(2) by (simp add: readable_def deref_null_def deref_param_def)
  then have "stmt_execute E u ?st2 s2 = None"
    using s2(2,3) st(3) by (simp add: stmt_execute_def lua_m_defs stmt_con_def current_stmt_def)
  then have "sb_lua_db_execute E [LUserdata u] s1 = None"
    using s1(2,3,5) get m(1) s2(1)
    by (simp add: sb_lua_db_execute_def lua_bind_def lua_get_def lua_return_def lua_assert_def Let_def check_stmt_def
        lua_some_def ctxt_stack_def index2adr_def)
  with s1(1) show ?thesis by blast
qed

text \<open>A driver that keeps the bound values, as the emulation of statements does.\<close>

definition emulating_driver :: "string list db_driver" where
  "emulating_driver = example_driver\<lparr>ops := (ops example_driver)
     \<lparr>op_bind_param := (\<lambda>_ st bs w. (0, st\<lparr>bound_param := Some bs\<rparr>, w))\<rparr>\<rparr>"

theorem text_parameter_overread_witness:
  "\<exists>s1. sb_lua_db_bind_param demo_env [LUserdata 3, LTable 7]
          ((demo_state 0)\<lparr>l_tables := [7 \<mapsto> [(LNumber 1, LString ''abc'')]],
             l_udata := [3 \<mapsto> UStmt (zero_lua_stmt\<lparr>ls_ptr := Some zero_stmt, ls_con := 0\<rparr>)],
             l_ctxt := Some \<lparr>cx_thread_id = 0, cx_con = Some (0, example_conn\<lparr>driver := Some emulating_driver\<rparr>)\<rparr>\<rparr>)
          = Some (Inr [], s1) \<and>
        sb_lua_db_execute demo_env [LUserdata 3] s1 = None"
proof (rule text_parameter_overread [where k = 1 and x = "''abc''" and p = zero_stmt and n = 0 and
      st = "zero_lua_stmt\<lparr>ls_ptr := Some zero_stmt, ls_con := 0\<rparr>"])
  let ?con = "example_conn\<lparr>driver := Some emulating_driver\<rparr>"
  let ?s = "(demo_state 0)\<lparr>l_tables := [7 \<mapsto> [(LNumber 1, LString ''abc'')]],
             l_udata := [3 \<mapsto> UStmt (zero_lua_stmt\<lparr>ls_ptr := Some zero_stmt, ls_con := 0\<rparr>)],
             l_ctxt := Some \<lparr>cx_thread_id = 0, cx_con = Some (0, ?con)\<rparr>\<rparr>"
  show "connected 0 ?con emulating_driver ?s"
    by (simp add: connected_def demo_state_def demo_shared_def example_conn_def zero_conn_def example_sys_def
        example_stats_def Let_def)
  show "db_bind_param (Some ?con) zero_stmt bs (sl_sys (l_sh ?s))
      = (0, zero_stmt\<lparr>bound_param := Some bs\<rparr>, sl_sys (l_sh ?s))" for bs
    by (simp add: db_bind_param_def con_driver_def emulating_driver_def)
qed (simp_all add: demo_env_def cstring_def)

end
