(* ===== verification/Spec2Isabelle.thy ===== *)
theory Spec2Isabelle
  imports File_Data MySQL PgSQL Drizzle AttachSQL Oracle Script_Props
begin

text \<open>
  A verification development for sysbench, the multi-threaded benchmark tool in \<open>src/sysbench\<close>.

  \<^bold>\<open>The program.\<close> \<open>main\<close> (\<open>sysbench.c\<close>) registers the options of the logger, the tests and the database
  drivers, parses the command line into the option store (\<open>sb_options.c\<close>), initialises the settings
  and the logger, finds the test and runs a command of it. \<open>run_test\<close> starts the worker threads and
  the reporting threads behind a barrier (\<open>sb_barrier.c\<close>); in the tx-rate mode an event generator
  feeds the workers through a queue of intrusive list items (\<open>sb_list.h\<close>). Workers execute the
  requests of the test. The logger (\<open>sb_logger.c\<close>) measures each of them with the thread's timer
  (\<open>sb_timer.c\<close>) and a histogram (\<open>sb_percentile.c\<close>). Database tests use the abstraction layer
  \<open>db_driver.c\<close>, which keeps its own statistics and calls one of the drivers. They are Lua scripts: the
  scripting layer (\<open>scripting/script_lua.c\<close>) gives each thread an interpreter of the bundled Lua
  (\<open>scripting/lua\<close>), runs the function \<open>event\<close> of the script as a request and exports the database layer and
  the random numbers to it. The built-in tests under \<open>tests\<close> (CPU, threads, mutex, memory, files) hand out and execute
  requests of their own.

  \<^bold>\<open>Theories and what they show.\<close>
  \<^item> \<open>Prelude\<close>: machine integers, C string functions, number printing, search in lists.
  \<^item> \<open>SB_List\<close> (\<open>sb_list.h\<close>): the list macros over an explicit store of links. They refine the
    sequence operations, and the iteration loops end.
  \<^item> \<open>Options\<close> (\<open>sb_options.c\<close>, \<open>sb_options.h\<close>): the option store as a list of records. Setting an option is a
    map update up to the exchange of dashes and underscores; typed access, sizes, configuration files.
  \<^item> \<open>Timer\<close> (\<open>sb_timer.c\<close>): timers with 64-bit counters; the clock is an argument. Locale \<open>collector\<close>:
    statistics that can be merged; the timers and the thread counters of \<open>DB_Stats\<close> interpret it.
  \<^item> \<open>Percentile\<close> (\<open>sb_percentile.c\<close>): the logarithmic histogram. Locale \<open>quantizer\<close>: buckets with
    a bounded relative error, from which the correctness of the percentile follows.
  \<^item> \<open>Barrier\<close> (\<open>sb_barrier.c\<close>): the barrier as an interleaving step relation in which a waiting thread
    goes on only after a broadcast or a spurious wake-up. Locales \<open>invariant_system\<close> and \<open>progress_system\<close>: nobody leaves
    early; every round ends after a bounded number of steps of the threads, without relying on spurious wake-ups.
  \<^item> \<open>SB_Random\<close> (\<open>sysbench.c\<close>): the random distributions. Locale \<open>range_generator\<close>.
  \<^item> \<open>DB_Stats\<close>, \<open>DB_Driver\<close> (\<open>db_driver.c\<close>, \<open>db_driver.h\<close>): statistics and reports; the abstraction layer with
    multi-row inserts. Locale \<open>value_printer\<close>: printing into a bounded buffer, all or nothing.
  \<^item> \<open>Placeholders\<close>: the loop with the doubling buffer that the drivers use to replace the placeholders of a
    query; proved once in \<open>value_printer\<close>, used for bound values and for numbered parameters.
  \<^item> \<open>MySQL\<close> (\<open>drivers/mysql/drv_mysql.c\<close>), \<open>PgSQL\<close> (\<open>drivers/pgsql/drv_pgsql.c\<close>): the drivers over a parameter
    for the client library: emulated statements, error classes, reconnection, host rotation.
  \<^item> \<open>Drizzle\<close>, \<open>AttachSQL\<close>, \<open>Oracle\<close> (\<open>drivers/drizzle\<close>, \<open>drivers/attachsql\<close>, \<open>drivers/oracle\<close>): the other drivers, in the
    same way. Polling and reading of buffered results end; what statements send, which handles and errors are lost.
  \<^item> \<open>Event_Queue\<close> (\<open>sysbench.c\<close>): generator and workers around the queue of the tx-rate mode, as a step
    relation over the links of \<open>SB_List\<close>; it interprets \<open>invariant_system\<close>.
  \<^item> \<open>Sysbench_Init\<close> (\<open>sysbench.c\<close>): command line, settings, checkpoints. Locale \<open>sorter\<close> for \<open>qsort\<close>.
  \<^item> \<open>Logger\<close> (\<open>sb_logger.c\<close>): handler chains, suppression of repeated lines, measured operations, the global report. What
    threads do without the lock of the timers is a step of its own: recording a duration and adding it to the
    histogram, and the parts of a report.
  \<^item> \<open>Sysbench_Run\<close> (\<open>sysbench.c\<close>): worker loop, the start of the threads through the barrier as an instance of
    \<open>progress_system\<close>, report threads, \<open>run_test\<close>, \<open>main\<close>.
  \<^item> \<open>Lua_API\<close> (\<open>lapi.c\<close>, \<open>lauxlib.c\<close>, \<open>ltable.c\<close> of the bundled Lua): values, argument checks, the length of tables,
    registry references. Locale \<open>int_table\<close>: tables with integer keys, over which references are safe.
  \<^item> \<open>Script_Lua\<close> (\<open>scripting/script_lua.c\<close>): all functions of the scripting layer as operations on an interpreter
    with explicit parameter buffers; \<open>Script_Inv\<close>: a calculus for them and the invariant of connections
    over all scripts and all orders of the operations; \<open>Script_Props\<close>: how often an event is sent again, errors of queries,
    integer and text parameters of statements.
  \<^item> \<open>Test_Env\<close>: what the built-in tests use of the rest of the program, and runs of the worker loop over a test.
    \<open>Bench_Tests\<close> (\<open>tests/cpu\<close>, \<open>tests/threads\<close>, \<open>tests/mutex\<close>, \<open>tests/memory\<close>): these tests with their operations. How many requests
    are handed out under every interleaving, that primes are counted, that the memory test transfers its total and
    ends. Locale \<open>request_source\<close>: operations that hand out a list of requests one after the other.
  \<^item> \<open>CRC32\<close> (\<open>tests/fileio/crc32.c\<close>, \<open>crc32tbl.h\<close>): tables and loops of the checksum; locale \<open>word_at_a_time\<close>: loops that
    take four bytes at a time equal the byte-wise loop. The result is the bitwise definition for both byte orders,
    and changes of up to four bytes in a row are detected.
  \<^item> \<open>File_IO\<close> (\<open>tests/fileio/sb_fileio.c\<close>): the file test over a parameter for the system calls. \<open>File_Gen\<close>: the sequential
    requests are a fixed schedule, as an instance of \<open>request_source\<close>. \<open>File_Rnd\<close>: random requests lie inside their files, and
    in the validating mode and without asynchronous I/O threads work on different blocks, as an instance of \<open>invariant_system\<close>. \<open>File_Data\<close>: checksums
    and offsets of blocks, and two settings that cannot work.
  \<^item> This theory: properties across the scripting layer, the abstraction layer and a driver.

  \<^bold>\<open>Conventions.\<close> C integers are words where they can wrap; \<open>double\<close> is the type of ideal real
  numbers, so rounding errors of floating point are not modelled. State is passed explicitly. The result
  \<^const>\<open>None\<close> stands for undefined behaviour (an access outside an array, a NULL pointer), for \<open>abort\<close> or
  for a loop that does not end; each theory says which. Code that runs under one mutex is one step of a step
  relation; the steps of different threads interleave freely. Third-party code (client libraries,
  the C library's random numbers and clock, \<open>qsort\<close>) is an argument. Stores to addresses that are not aligned
  (the checksum of a block whose size is not a multiple of 8) work as on the platforms that allow them.

  \<^bold>\<open>Loops.\<close> Loops with a bound are recursive functions. Loops that may run forever are partial functions
  (\<open>worker_loop\<close>, \<open>report_advance\<close>, \<open>reconnect_loop\<close>, \<open>build_query\<close>, \<open>fetch_rows\<close>, \<open>event_loop\<close>,
  \<open>read_rows\<close>, \<open>poll_until\<close>, \<open>store_rows\<close> and their like), and the properties about them
  state that they return; only \<open>rnd_block\<close>, whose loop in the code may wait forever for a free block, and
  \<open>write_blocks\<close> have no such property. No fuel is used.

  \<^bold>\<open>Not modelled.\<close> Of the bundled Lua interpreter, which is third-party code, everything but the part of its
  API named above (a script is a tree of calls and table operations); the Windows replacements \<open>sb_win.c\<close>, which are not
  compiled on the modelled platform, and the branches of the file test for Windows and for 32-bit mappings; functions
  that only print help texts; destructors that only release memory. The pauses of the event generator and the handler
  of the initialisation timeout are not modelled either.
\<close>

section \<open>A query through all layers\<close>

text \<open>C19: An error of the server that the user told sysbench to ignore reaches the caller of the
  abstraction layer as a request to restart the transaction: with the MySQL driver, when the server rejects
  a query with an error listed in \<open>--mysql-ignore-errors\<close> other than a lost connection, \<open>db_query\<close> returns NULL, the
  connection's \<open>db_errno\<close> is \<open>SB_DB_ERROR_RESTART_TRANSACTION\<close>, the query was sent once, and the total of
  errors in the statistics grows by one while all other counters stay.\<close>

theorem mysql_ignored_error_counted:
  assumes "driver con = Some (mysql_driver api opts ps)" and "world s = Some d" and "\<not> dry_run d"
    and "conn_of (c_ptr con) d = Some c" and "mysql_real_query api (mc_mysql c) query (mlib d) = (rc, m)" and "rc \<noteq> 0"
    and "\<exists>val \<in> set (ignored_errors d). ignores (mysql_errno api (mc_mysql c) m) val"
    and "\<not> lost_connection api (mysql_errno api (mc_mysql c) m)"
    and "0 \<le> thread_id con" and "nat (thread_id con) < length (thread_stats (stats s))"
  shows "\<exists>con' s'. db_query con query s = Some (False, con', s') \<and>
           db_errno con' = SB_DB_ERROR_RESTART_TRANSACTION \<and> world s' = Some (d\<lparr>mlib := m\<rparr>) \<and>
           db_errors (total_stat (thread_stats (stats s'))) = db_errors (total_stat (thread_stats (stats s))) + 1 \<and>
           (\<forall>f \<in> {read_ops, write_ops, other_ops, transactions, reconnects}.
              f (total_stat (thread_stats (stats s'))) = f (total_stat (thread_stats (stats s))))"
proof -
  have ig: "find (ignores (mysql_errno api (mc_mysql c) m)) (ignored_errors d) \<noteq> None"
    using assms(7) by (auto simp: find_None_iff)
  have "conn_of (c_ptr con) (d\<lparr>mlib := m\<rparr>) = Some c" using assms(4) by (simp add: conn_of_def)
  with ig assms(8) have "check_error api (c_ptr con) (d\<lparr>mlib := m\<rparr>) = Some (SB_DB_ERROR_RESTART_TRANSACTION, d\<lparr>mlib := m\<rparr>)"
    by (auto simp: check_error_def Let_def)
  with assms(3-6) have q: "mysql_drv_query api (c_ptr con) query d
      = Some (SB_DB_ERROR_RESTART_TRANSACTION, d\<lparr>mlib := m\<rparr>)" by (simp add: mysql_drv_query_def)
  let ?i = "nat (thread_id con)" and ?ts = "thread_stats (stats s)"
  let ?t = "(?ts ! ?i)\<lparr>db_errors := db_errors (?ts ! ?i) + 1\<rparr>"
  have "\<exists>con' s'. db_query con query s = Some (False, con', s') \<and>
          db_errno con' = SB_DB_ERROR_RESTART_TRANSACTION \<and> world s' = Some (d\<lparr>mlib := m\<rparr>) \<and>
          thread_stats (stats s') = ?ts[?i := ?t]"
    using assms(1,2,9,10) q
    by (simp add: db_query_def mysql_driver_def lift_op_def account_result_def upd_thread_stat_def Let_def)
  then show ?thesis by (auto simp: total_stat_update [OF assms(10)])
qed

theorem mysql_ignored_error_counted_witness:
  "\<exists>con' s'. db_query ((zero_conn :: string list mysql_drv option db_conn)
        \<lparr>driver := Some (mysql_driver example_api [] DB_PS_MODE_AUTO), c_ptr := Some 0\<rparr>) ''deadlock''
       \<lparr>world = Some (example_my\<lparr>my_conns := [0 \<mapsto> example_my_conn]\<rparr>), stats = stats example_sys\<rparr>
     = Some (False, con', s') \<and> db_errno con' = SB_DB_ERROR_RESTART_TRANSACTION"
proof -
  let ?con = "(zero_conn :: string list mysql_drv option db_conn)
        \<lparr>driver := Some (mysql_driver example_api [] DB_PS_MODE_AUTO), c_ptr := Some 0\<rparr>"
  let ?d = "example_my\<lparr>my_conns := [0 \<mapsto> example_my_conn]\<rparr>"
  let ?s = "\<lparr>world = Some ?d, stats = stats example_sys\<rparr>"
  have "ignores 1213 ''1213''" by code_simp
  then have i: "\<exists>val \<in> set (ignored_errors ?d). ignores (mysql_errno example_api (mc_mysql example_my_conn) [''deadlock'']) val"
    by (simp add: example_my_def example_api_def)
  have c: "conn_of (c_ptr ?con) ?d = Some example_my_conn" by (simp add: conn_of_def)
  have q: "mysql_real_query example_api (mc_mysql example_my_conn) ''deadlock'' (mlib ?d) = (1, [''deadlock''])"
    by (simp add: example_api_def example_my_def)
  have t: "nat (thread_id ?con) < length (thread_stats (stats ?s))" "0 \<le> thread_id ?con" "\<not> dry_run ?d"
    by (simp_all add: zero_conn_def example_sys_def example_stats_def Let_def example_my_def)
  have l: "\<not> lost_connection example_api (mysql_errno example_api (mc_mysql example_my_conn) [''deadlock''])"
    by (simp add: example_api_def)
  have d: "driver ?con = Some (mysql_driver example_api [] DB_PS_MODE_AUTO)" "world ?s = Some ?d" "(1 :: u32) \<noteq> 0"
    by simp_all
  from mysql_ignored_error_counted [OF d(1,2) t(3) c q d(3) i l t(2,1)] show ?thesis by blast
qed

section \<open>A statement of a script\<close>

lemma mysql_emulated_execute:
  assumes "driver con = Some (mysql_driver api opts ps)" and "world y = Some d" and "\<not> dry_run d"
    and "emulated stmt" and "st_query stmt = Some q" and "q \<noteq> []" and "placeholders q \<le> length vs"
    and "\<forall>j < length vs. bind_text (vs ! j) = Some (f j)" and "length (subst_query f 0 q) < 2 ^ 29"
    and "mysql_drv_query api (c_ptr con) (subst_query f 0 q) d = Some (err, d')"
    and "0 \<le> thread_id con" and "nat (thread_id con) < length (thread_stats (stats y))"
  shows "\<exists>con' y'. db_execute (Some con) (stmt\<lparr>bound_param := Some vs\<rparr>) y
             = Some (err = SB_DB_ERROR_NONE, Some con', y') \<and> world y' = Some d' \<and>
           db_errno con' = (if err = SB_DB_ERROR_RECONNECTED then SB_DB_ERROR_RESTART_TRANSACTION else err)"
proof -
  let ?stmt = "stmt\<lparr>bound_param := Some vs\<rparr>"
  have eq: "subst_query (\<lambda>k. the (bind_text (vs ! k))) 0 q = subst_query f 0 q"
    using assms(7,8) by (intro subst_query_cong) simp
  have "mysql_drv_execute api (\<lambda>_. True) (c_ptr con) ?stmt d = Some (err, d')"
    using emulated_query_sent [of d ?stmt q vs api "c_ptr con"] assms(3-10) eq
    by (auto simp: all_set_conv_all_nth)
  then have x: "op_execute (ops (mysql_driver api opts ps)) (c_ptr con) ?stmt r (world y) = (err, r, Some d')" for r
    using assms(2) by (simp add: mysql_driver_def lift_op_def)
  let ?con = "con\<lparr>rs := zero_rs\<lparr>rs_connection := Some (c_ptr con), rs_statement := Some ?stmt\<rparr>\<rparr>"
  obtain con' y' where "account_result err (st_type stmt) ?con (y\<lparr>world := Some d'\<rparr>)
        = Some (err = SB_DB_ERROR_NONE, con', y')" "world y' = Some d'"
      "db_errno con' = (if err = SB_DB_ERROR_RECONNECTED then SB_DB_ERROR_RESTART_TRANSACTION else err)"
    using account_result_errno [of ?con "y\<lparr>world := Some d'\<rparr>" err "st_type stmt"] assms(11,12) by auto
  then show ?thesis by (simp add: db_execute_def con_driver_def assms(1) x)
qed

text \<open>C11: The values of a script reach the server: a script binds a table of integers to a statement and
  later, with other values in the table (nil for NULL), executes it. With the MySQL driver and client-side
  statements the server receives exactly the query in which the placeholders are replaced, in the
  order of the table at the time of binding, by the values that the table has when the statement is
  executed. The script gets a result set exactly when the driver reports no error; otherwise a number is
  raised, which asks for a restart of the event exactly for an ignored error or a new connection.\<close>

theorem script_values_reach_server:
  assumes c: "connected n con (mysql_driver api opts ps) s" and alloc: "le_alloc E"
    and st: "l_udata s u = Some (UStmt st)" "ls_ptr st = Some p" "ls_con st = n"
      "emulated p" "st_query p = Some q" "q \<noteq> []"
    and tab: "l_tables s t = Some entries" "num_table ks entries" "entries \<noteq> []" "placeholders q \<le> length ks"
    and my: "world (sl_sys (l_sh s)) = Some d" "\<not> dry_run d" "conn_of (c_ptr con) d = Some mc"
    and xs: "\<forall>j < length ks. table_lookup entries' (LNumber (of_int (ks ! j))) = lua_int (xs ! j) \<and> int_range (xs ! j)"
    and len: "length (subst_query (\<lambda>k. int_text (xs ! k)) 0 q) < 2 ^ 29"
    and sent: "mysql_drv_query api (c_ptr con) (subst_query (\<lambda>k. int_text (xs ! k)) 0 q) d = Some (err, d')"
  shows "\<exists>s1 r s2. sb_lua_db_bind_param E [LUserdata u, LTable t] s = Some (Inr [], s1) \<and>
           sb_lua_db_execute E [LUserdata u] (s1\<lparr>l_tables := (l_tables s1)(t \<mapsto> entries')\<rparr>) = Some (r, s2) \<and>
           world (sl_sys (l_sh s2)) = Some d' \<and>
           (if err = SB_DB_ERROR_NONE then \<exists>k. r = Inr [LUserdata k]
            else \<exists>x. r = Inl (LuaVal (LNumber x)) \<and>
                   (is_restart (le_conv E) (LuaVal (LNumber x)) \<longleftrightarrow>
                      err = SB_DB_ERROR_RESTART_TRANSACTION \<or> err = SB_DB_ERROR_RECONNECTED))"
proof -
  let ?y = "sl_sys (l_sh s)"
  have drv: "driver con = Some (mysql_driver api opts ps)" using c by (simp add: connected_def)
  have "?y\<lparr>world := Some d\<rparr> = ?y" using my(1) by simp
  then have "db_bind_param (Some con) p bs ?y = (0, p\<lparr>bound_param := Some bs\<rparr>, ?y)" for bs
    using my st(4)
    by (simp add: db_bind_param_def con_driver_def drv)
      (simp add: mysql_driver_def lift_op2_def lift_op_def mysql_drv_bind_param_def)
  from lua_bind_int [OF c alloc st(1-3) tab(1-3) this refl] obtain s1 bs a where
    s1: "sb_lua_db_bind_param E [LUserdata u, LTable t] s = Some (Inr [], s1)"
      "connected n con (mysql_driver api opts ps) s1" "sl_sys (l_sh s1) = ?y"
      "int_stmt u n (p\<lparr>bound_param := Some bs\<rparr>) (int_array a ks) t s1" by blast
  let ?s1 = "s1\<lparr>l_tables := (l_tables s1)(t \<mapsto> entries')\<rparr>"
  have c1: "connected n con (mysql_driver api opts ps) ?s1" "int_stmt u n (p\<lparr>bound_param := Some bs\<rparr>) (int_array a ks) t ?s1"
    "l_tables ?s1 t = Some entries'"
    using s1(2,4) by (simp_all add: connected_def int_stmt_def)
  have "table_lookup entries' (LNumber (of_int (lb_id (int_array a ks ! j)))) = lua_int (xs ! j) \<and> int_range (xs ! j)"
    if "j < length (int_array a ks)" for j
    using xs that by (simp add: int_array_nth)
  from lua_execute_int [where E = E, OF c1 this] obtain vs st' m' where
    vs: "length vs = length ks" "\<forall>j < length ks. bind_text (vs ! j) = Some (int_text (xs ! j))"
    and ex: "sb_lua_db_execute E [LUserdata u] ?s1 =
        (case db_execute (Some con) (p\<lparr>bound_param := Some vs\<rparr>) ?y of
           None \<Rightarrow> None
         | Some (ok, con', y) \<Rightarrow>
             execute_result u st' n ok
               (?s1\<lparr>l_mem := m', l_sh := (l_sh ?s1)\<lparr>sl_sys := y\<rparr>,
                    l_ctxt := map_option (\<lambda>x. x\<lparr>cx_con := map_option (Pair n) con'\<rparr>) (l_ctxt ?s1)\<rparr>))"
    using s1(3) by auto
  have th: "0 \<le> thread_id con" "nat (thread_id con) < length (thread_stats (stats ?y))"
    using c by (simp_all add: connected_def)
  obtain con' y' where e: "db_execute (Some con) (p\<lparr>bound_param := Some vs\<rparr>) ?y
      = Some (err = SB_DB_ERROR_NONE, Some con', y')" "world y' = Some d'"
      "db_errno con' = (if err = SB_DB_ERROR_RECONNECTED then SB_DB_ERROR_RESTART_TRANSACTION else err)"
    using mysql_emulated_execute [OF drv my(1,2) st(4-6) _ _ len sent th, of vs] vs tab(4) by auto
  obtain ctxt where x: "l_ctxt s1 = Some ctxt" using s1(2) by (auto simp: connected_def)
  show ?thesis
    using execute_result_outcome [where cv = "le_conv E" and u = u and st = st' and con = con' and err = err and
        n = n and ctxt = "ctxt\<lparr>cx_con := Some (n, con')\<rparr>" and
        s = "?s1\<lparr>l_mem := m', l_sh := (l_sh ?s1)\<lparr>sl_sys := y'\<rparr>, l_ctxt := Some (ctxt\<lparr>cx_con := Some (n, con')\<rparr>)\<rparr>"]
      s1(1) ex e x
    by (intro exI [of _ s1]) (auto split: if_splits)
qed


text \<open>A statement with two parameters, bound to the table \<open>{1, 2}\<close>, executed with \<open>{42, nil}\<close>.\<close>

definition my_env :: "string list mysql_drv option lua_env" where
  "my_env = \<lparr>le_conv = demo_conv, le_alloc = True, le_junk = 0, le_mem = [], le_timers = [],
     le_now = \<lparr>tv_sec = 0, tv_nsec = 0\<rparr>, le_opts = [], le_scan = (\<lambda>_. None), le_drivers = []\<rparr>"

definition my_con :: "string list mysql_drv option db_conn" where
  "my_con = zero_conn\<lparr>driver := Some (mysql_driver example_api [] DB_PS_MODE_AUTO), c_ptr := Some 0\<rparr>"

definition my_stmt :: db_stmt where
  "my_stmt = zero_stmt\<lparr>emulated := True, st_query := Some ''id=? or ?''\<rparr>"

definition my_state :: "string list mysql_drv option lua_state" where
  "my_state = \<lparr>l_globals = (\<lambda>_. LNil),
     l_tables = [7 \<mapsto> [(LNumber 1, LNumber 1), (LNumber 2, LNumber 2)]],
     l_registry = \<lparr>t_array = [], t_hash = []\<rparr>,
     l_udata = [3 \<mapsto> UStmt (zero_lua_stmt\<lparr>ls_ptr := Some my_stmt, ls_con := 0\<rparr>)], l_next = 8,
     l_mem = \<lparr>m_arrays = Map.empty, m_bufs = Map.empty, m_next = 0\<rparr>,
     l_ctxt = Some \<lparr>cx_thread_id = 0, cx_con = Some (0, my_con)\<rparr>,
     l_sh = \<lparr>sl_driver = driver my_con, sl_once = True,
             sl_sys = \<lparr>world = Some (example_my\<lparr>my_conns := [0 \<mapsto> example_my_conn]\<rparr>), stats = stats example_sys\<rparr>,
             sl_rng = sl_rng demo_shared, sl_serial = 1\<rparr>\<rparr>"

theorem script_values_reach_server_witness:
  "\<exists>s1 k s2. sb_lua_db_bind_param my_env [LUserdata 3, LTable 7] my_state = Some (Inr [], s1) \<and>
     sb_lua_db_execute my_env [LUserdata 3] (s1\<lparr>l_tables := (l_tables s1)(7 \<mapsto> [(LNumber 1, LNumber 42)])\<rparr>)
       = Some (Inr [LUserdata k], s2) \<and>
     world (sl_sys (l_sh s2)) = Some (example_my\<lparr>my_conns := [0 \<mapsto> example_my_conn], mlib := [''id=42 or NULL'']\<rparr>)"
proof -
  let ?d = "example_my\<lparr>my_conns := [0 \<mapsto> example_my_conn]\<rparr>" and ?xs = "[Some 42, None]"
  have c: "connected 0 my_con (mysql_driver example_api [] DB_PS_MODE_AUTO) my_state"
    by (simp add: connected_def my_state_def my_con_def zero_conn_def example_sys_def example_stats_def Let_def)
  have st: "l_udata my_state 3 = Some (UStmt (zero_lua_stmt\<lparr>ls_ptr := Some my_stmt, ls_con := 0\<rparr>))"
    "emulated my_stmt" "st_query my_stmt = Some ''id=? or ?''"
    by (simp_all add: my_state_def my_stmt_def)
  have t: "l_tables my_state 7 = Some [(LNumber 1, LNumber 1), (LNumber 2, LNumber 2)]" by (simp add: my_state_def)
  have n: "num_table [1, 2] [(LNumber 1, LNumber 1), (LNumber 2, LNumber 2)]" by (simp add: num_table_def)
  have p: "placeholders ''id=? or ?'' \<le> length [1 :: int, 2]" by (simp add: placeholders_def)
  have w: "world (sl_sys (l_sh my_state)) = Some ?d" "\<not> dry_run ?d" "conn_of (c_ptr my_con) ?d = Some example_my_conn"
    by (simp_all add: my_state_def example_my_def my_con_def conn_of_def)
  have x: "\<forall>j < length [1 :: int, 2]. table_lookup [(LNumber 1, LNumber 42)] (LNumber (of_int ([1, 2] ! j))) = lua_int (?xs ! j) \<and>
      int_range (?xs ! j)"
    by (auto simp: less_Suc_eq table_lookup_def lua_int_def int_range_def)
  have "show_int 42 = ''42''" by code_simp
  then have q: "subst_query (\<lambda>k. int_text (?xs ! k)) 0 ''id=? or ?'' = ''id=42 or NULL''" by (simp add: int_text_def)
  then have l: "length (subst_query (\<lambda>k. int_text (?xs ! k)) 0 ''id=? or ?'') < 2 ^ 29" by simp
  have s: "mysql_drv_query example_api (c_ptr my_con) (subst_query (\<lambda>k. int_text (?xs ! k)) 0 ''id=? or ?'') ?d
      = Some (SB_DB_ERROR_NONE, ?d\<lparr>mlib := [''id=42 or NULL'']\<rparr>)"
    unfolding q by (simp add: mysql_drv_query_def conn_of_def my_con_def example_my_def example_api_def)
  from script_values_reach_server [OF c _ st(1) _ _ st(2,3) _ t n _ p w x l s, of my_env]
  show ?thesis by (auto simp: my_env_def)
qed

end
